(* ===== verification/Rtp_Prelude.thy ===== *)
theory Rtp_Prelude
  imports Main "HOL-Library.Word" "HOL-Library.Monad_Syntax" "HOL-Library.Product_Lexorder"
begin

text \<open>
  Shared vocabulary of the development: the machine integer types of the Rust code, the
  checked operations whose failure is a panic, the ordered set of the standard library, and
  the interface of the external \<^verbatim>\<open>gst\<close> crate (its \<^verbatim>\<open>MulDiv\<close> trait and the NTP offset
  constant), which is a parameter of every definition that calls it.

  Conventions:
  \<^item> a panic (a failed \<^verbatim>\<open>unwrap\<close>, an \<^verbatim>\<open>unreachable!()\<close>, an \<^verbatim>\<open>assert!\<close>, an unsigned
    subtraction below zero) is the value \<^const>\<open>None\<close> of an option;
  \<^item> \<^verbatim>\<open>u8\<close>, \<^verbatim>\<open>u16\<close> and \<^verbatim>\<open>u32\<close> are words; \<^verbatim>\<open>u64\<close> and \<^verbatim>\<open>usize\<close> counters and
    nanosecond times are \<^typ>\<open>nat\<close>, with the truncations the code writes made explicit;
  \<^item> \<^verbatim>\<open>Duration\<close> and \<^verbatim>\<open>Instant\<close> are nanoseconds; the difference of two instants
    saturates at zero, as \<^verbatim>\<open>Instant::sub\<close> does, which is subtraction on \<^typ>\<open>nat\<close>.
\<close>

section \<open>Integer types and checked operations\<close>

type_synonym u8 = "8 word"
type_synonym u16 = "16 word"
type_synonym u32 = "32 word"
type_synonym duration = nat
type_synonym instant = nat

named_theorems panic_simps \<open>unfolding of the checked operations\<close>

text \<open>Unsigned subtraction: a result below zero panics.\<close>

definition usub :: "nat \<Rightarrow> nat \<Rightarrow> nat option" where
  "usub a b = (if b \<le> a then Some (a - b) else None)"

text \<open>A Rust \<^verbatim>\<open>assert!\<close>.\<close>

definition rust_assert :: "bool \<Rightarrow> unit option" where
  "rust_assert b = (if b then Some () else None)"

text \<open>The checked 64-bit operations used where the operands are not bounded by the code.\<close>

definition chk_u64 :: "nat \<Rightarrow> nat option" where
  "chk_u64 n = (if n < 2 ^ 64 then Some n else None)"

definition chk_i64 :: "int \<Rightarrow> int option" where
  "chk_i64 n = (if - (2 ^ 63) \<le> n \<and> n < 2 ^ 63 then Some n else None)"

text \<open>The casts \<^verbatim>\<open>as i64\<close> from \<^verbatim>\<open>u64\<close> and \<^verbatim>\<open>as u64\<close> from \<^verbatim>\<open>i64\<close> reinterpret the bits.\<close>

definition as_i64 :: "nat \<Rightarrow> int" where
  "as_i64 n = (let m = n mod 2 ^ 64 in if m < 2 ^ 63 then int m else int m - 2 ^ 64)"

definition as_u64 :: "int \<Rightarrow> nat" where
  "as_u64 i = nat (i mod 2 ^ 64)"

declare usub_def [panic_simps] rust_assert_def [panic_simps] chk_u64_def [panic_simps]
  chk_i64_def [panic_simps]

text \<open>Signed division truncates towards zero.\<close>

definition idiv :: "int \<Rightarrow> int \<Rightarrow> int" where
  "idiv n d = (if (n < 0) = (d < 0) then \<bar>n\<bar> div \<bar>d\<bar> else - (\<bar>n\<bar> div \<bar>d\<bar>))"

lemma usub_Some_iff: "usub a b = Some c \<longleftrightarrow> b \<le> a \<and> c = a - b"
  by (auto simp: usub_def)

lemma usub_None_iff: "usub a b = None \<longleftrightarrow> a < b"
  by (auto simp: usub_def)

lemma as_i64_small: "n < 2 ^ 63 \<Longrightarrow> as_i64 n = int n"
  by (simp add: as_i64_def)

lemma as_u64_small: "0 \<le> i \<Longrightarrow> i < 2 ^ 64 \<Longrightarrow> as_u64 i = nat i"
  by (simp add: as_u64_def)

lemma unat_u16_of_nat: "r < 65536 \<Longrightarrow> unat (word_of_nat r :: u16) = r"
  by (simp add: unat_of_nat)

lemma unat_u32_of_nat: "r < 4294967296 \<Longrightarrow> unat (word_of_nat r :: u32) = r"
  by (simp add: unat_of_nat)

lemma unat_u16_less [simp]: "unat (r :: u16) < 65536"
  using unsigned_less [of r] by simp

lemma unat_u32_less [simp]: "unat (r :: u32) < 4294967296"
  using unsigned_less [of r] by simp

section \<open>The ordered set of the standard library\<close>

text \<open>
  \<^verbatim>\<open>BTreeSet\<close> keeps its elements sorted by their \<^verbatim>\<open>Ord\<close> instance. The order of the element
  type is given by a key into a linear order; two elements with the same key are equal for
  the set, whatever else they hold. \<^verbatim>\<open>insert\<close> keeps the element that is already there and
  answers whether the new one went in.
\<close>

fun bt_insert :: "('a \<Rightarrow> 'k::linorder) \<Rightarrow> 'a \<Rightarrow> 'a list \<Rightarrow> 'a list \<times> bool" where
  "bt_insert k x [] = ([x], True)"
| "bt_insert k x (y # ys) =
     (if k x < k y then (x # y # ys, True)
      else if k x = k y then (y # ys, False)
      else (let (zs, b) = bt_insert k x ys in (y # zs, b)))"

definition bt_pop_first :: "'a list \<Rightarrow> ('a \<times> 'a list) option" where
  "bt_pop_first xs = (case xs of [] \<Rightarrow> None | x # ys \<Rightarrow> Some (x, ys))"

definition bt_last :: "'a list \<Rightarrow> 'a option" where
  "bt_last xs = (if xs = [] then None else Some (last xs))"

abbreviation bt_ok :: "('a \<Rightarrow> 'k::linorder) \<Rightarrow> 'a list \<Rightarrow> bool" where
  "bt_ok k xs \<equiv> sorted_wrt (<) (map k xs)"

lemma bt_insert_False_iff:
  "bt_ok k xs \<Longrightarrow> snd (bt_insert k x xs) \<longleftrightarrow> k x \<notin> k ` set xs"
  by (induction xs) (auto split: prod.splits)

lemma bt_insert_set:
  "set (fst (bt_insert k x xs)) \<subseteq> insert x (set xs)"
  by (induction xs) (auto split: prod.splits)

lemma bt_insert_new_set:
  "snd (bt_insert k x xs) \<Longrightarrow> set (fst (bt_insert k x xs)) = insert x (set xs)"
  by (induction xs) (auto split: prod.splits if_splits)

lemma bt_insert_new_length:
  "snd (bt_insert k x xs) \<Longrightarrow> length (fst (bt_insert k x xs)) = Suc (length xs)"
  by (induction xs) (auto split: prod.splits if_splits)

lemma bt_insert_old:
  "\<not> snd (bt_insert k x xs) \<Longrightarrow> fst (bt_insert k x xs) = xs"
  by (induction xs) (auto split: prod.splits if_splits)

lemma bt_insert_keys:
  "k ` set (fst (bt_insert k x xs)) = insert (k x) (k ` set xs)"
  by (induction xs) (auto split: prod.splits)

lemma bt_insert_ok:
  assumes "bt_ok k xs"
  shows "bt_ok k (fst (bt_insert k x xs))"
  using assms
proof (induction xs)
  case Nil
  then show ?case by simp
next
  case (Cons y ys)
  have keys: "k ` set (fst (bt_insert k x ys)) = insert (k x) (k ` set ys)"
    by (rule bt_insert_keys)
  with Cons show ?case
    by (cases "bt_insert k x ys") auto
qed

lemma bt_insert_distinct:
  assumes "distinct (map f xs)" and "f x \<notin> f ` set xs"
  shows "distinct (map f (fst (bt_insert k x xs)))"
  using assms
proof (induction xs)
  case Nil
  then show ?case by simp
next
  case (Cons y ys)
  have "f ` set (fst (bt_insert k x ys)) \<subseteq> insert (f x) (f ` set ys)"
    using bt_insert_set [of k x ys] by auto
  with Cons show ?case by (cases "bt_insert k x ys") auto
qed

lemma bt_insert_ne: "fst (bt_insert k x xs) \<noteq> []"
  by (cases xs) (auto split: prod.splits)

lemma bt_insert_max:
  assumes "\<forall>y \<in> set xs. k y < k x"
  shows "bt_insert k x xs = (xs @ [x], True)"
  using assms by (induction xs) auto

lemma bt_last_max:
  assumes "bt_ok k xs" and "x \<in> set xs"
  shows "k x \<le> k (last xs)"
  using assms
proof (induction xs)
  case Nil
  then show ?case by simp
next
  case (Cons y ys)
  then show ?case
    by (cases ys) (auto simp: less_imp_le)
qed

lemma bt_ok_length_le:
  fixes xs :: "nat list"
  assumes "sorted_wrt (<) xs" and "xs \<noteq> []"
  shows "hd xs + length xs \<le> Suc (last xs)"
  using assms
proof (induction xs)
  case Nil
  then show ?case by simp
next
  case (Cons x xs)
  then show ?case
    by (cases xs) auto
qed

section \<open>The hash map of the standard library\<close>

text \<open>
  A \<^verbatim>\<open>HashMap\<close> that the code iterates is an association list with distinct keys, in the order
  of the iteration, which the standard library leaves open: a new key goes to the end here.
\<close>

fun hm_insert :: "'k \<Rightarrow> 'v \<Rightarrow> ('k \<times> 'v) list \<Rightarrow> ('k \<times> 'v) list" where
  "hm_insert k v [] = [(k, v)]"
| "hm_insert k v ((k', v') # m) = (if k = k' then (k, v) # m else (k', v') # hm_insert k v m)"

definition hm_remove :: "'k \<Rightarrow> ('k \<times> 'v) list \<Rightarrow> ('k \<times> 'v) list" where
  "hm_remove k m = filter (\<lambda>e. fst e \<noteq> k) m"

text \<open>\<^verbatim>\<open>entry(k).and_modify(f)\<close>, and a loop over \<^verbatim>\<open>values_mut()\<close>.\<close>

definition hm_modify :: "'k \<Rightarrow> ('v \<Rightarrow> 'v) \<Rightarrow> ('k \<times> 'v) list \<Rightarrow> ('k \<times> 'v) list" where
  "hm_modify k f m = map (\<lambda>(k', v). (k', if k' = k then f v else v)) m"

definition hm_map_values :: "('v \<Rightarrow> 'v) \<Rightarrow> ('k \<times> 'v) list \<Rightarrow> ('k \<times> 'v) list" where
  "hm_map_values f m = map (\<lambda>(k, v). (k, f v)) m"

abbreviation hm_ok :: "('k \<times> 'v) list \<Rightarrow> bool" where
  "hm_ok m \<equiv> distinct (map fst m)"

named_theorems hm_simps \<open>lookups in and keys of updated hash maps\<close>

lemma hm_insert_get [hm_simps]: "map_of (hm_insert k v m) = (map_of m)(k \<mapsto> v)"
  by (induction m) auto

lemma hm_insert_keys [hm_simps]: "fst ` set (hm_insert k v m) = insert k (fst ` set m)"
  by (induction m rule: hm_insert.induct [case_names Nil Cons]) auto

lemma hm_insert_ok [hm_simps]: "hm_ok (hm_insert k v m) = hm_ok m"
proof (induction m)
  case (Cons e m)
  then show ?case
    using hm_insert_keys [of k v m] by (cases e) (auto simp: image_iff)
qed simp

lemma hm_remove_get [hm_simps]: "map_of (hm_remove k m) = (map_of m)(k := None)"
  unfolding hm_remove_def by (induction m) auto

lemma hm_remove_keys [hm_simps]: "fst ` set (hm_remove k m) = fst ` set m - {k}"
  by (auto simp: hm_remove_def)

lemma hm_remove_ok [hm_simps]: "hm_ok m \<Longrightarrow> hm_ok (hm_remove k m)"
  unfolding hm_remove_def by (induction m) auto

lemma hm_modify_get [hm_simps]:
  "map_of (hm_modify k f m) = (\<lambda>k'. if k' = k then map_option f (map_of m k) else map_of m k')"
  unfolding hm_modify_def by (induction m) auto

lemma hm_modify_map_fst [hm_simps]: "map fst (hm_modify k f m) = map fst m"
  by (simp add: hm_modify_def case_prod_beta)

lemma hm_map_values_get [hm_simps]: "map_of (hm_map_values f m) k = map_option f (map_of m k)"
  unfolding hm_map_values_def by (induction m) auto

lemma hm_map_values_map_fst [hm_simps]: "map fst (hm_map_values f m) = map fst m"
  by (simp add: hm_map_values_def case_prod_beta)

section \<open>The external crate: scaled multiplication and the NTP offset\<close>

text \<open>
  \<^verbatim>\<open>gst::prelude::MulDiv\<close> computes \<^verbatim>\<open>self * num / denom\<close> without intermediate overflow and
  answers \<^verbatim>\<open>None\<close> when the result does not fit the type; \<^verbatim>\<open>gst::UNIX_TO_NTP_TIME_OFFSET_SECONDS\<close>
  is the distance from 1900-01-01 to 1970-01-01. Neither is code of this repository: they are
  the fields of a record the definitions take, and \<open>gst_lib_spec\<close> states what their
  documentation promises.
\<close>

record gst_lib =
  mul_div_floor :: "nat \<Rightarrow> nat \<Rightarrow> nat \<Rightarrow> nat option"
  mul_div_round :: "nat \<Rightarrow> nat \<Rightarrow> nat \<Rightarrow> nat option"
  mul_div_ceil :: "nat \<Rightarrow> nat \<Rightarrow> nat \<Rightarrow> nat option"
  mul_div_round_u32 :: "nat \<Rightarrow> nat \<Rightarrow> nat \<Rightarrow> nat option"
  unix_to_ntp_secs :: nat

definition fits :: "nat \<Rightarrow> nat \<Rightarrow> nat option" where
  "fits w q = (if q < 2 ^ w then Some q else None)"

locale gst_lib_spec =
  fixes L :: gst_lib
  assumes floor_spec: "0 < d \<Longrightarrow> mul_div_floor L v n d = fits 64 (v * n div d)"
    and round_spec: "0 < d \<Longrightarrow> mul_div_round L v n d = fits 64 ((v * n + d div 2) div d)"
    and ceil_spec: "0 < d \<Longrightarrow> mul_div_ceil L v n d = fits 64 ((v * n + d - 1) div d)"
    and round32_spec: "0 < d \<Longrightarrow> mul_div_round_u32 L v n d = fits 32 ((v * n + d div 2) div d)"
    and ntp_offset: "unix_to_ntp_secs L = 2208988800"

text \<open>A reference instance, computed on unbounded numbers: the contract can be met.\<close>

definition ref_lib :: gst_lib where
  "ref_lib = \<lparr>
     mul_div_floor = (\<lambda>v n d. if d = 0 then None else fits 64 (v * n div d)),
     mul_div_round = (\<lambda>v n d. if d = 0 then None else fits 64 ((v * n + d div 2) div d)),
     mul_div_ceil = (\<lambda>v n d. if d = 0 then None else fits 64 ((v * n + d - 1) div d)),
     mul_div_round_u32 = (\<lambda>v n d. if d = 0 then None else fits 32 ((v * n + d div 2) div d)),
     unix_to_ntp_secs = 2208988800 \<rparr>"

interpretation reflib: gst_lib_spec ref_lib
  by unfold_locales (auto simp: ref_lib_def)

end
