(* ===== verification/Ext_Counters.thy ===== *)
theory Ext_Counters
  imports Rtp_Prelude
begin

text \<open>
  The wrapping counters of \<^verbatim>\<open>net/rtp/src/utils.rs\<close>: the distance of two sequence numbers, the
  comparable wrapping \<^verbatim>\<open>u32\<close> that the macro \<^verbatim>\<open>define_wrapping_comparable_u32\<close> defines, and the two
  unwrapping counters \<^verbatim>\<open>ExtendedTimestamp\<close> (32 bits) and \<^verbatim>\<open>ExtendedSeqnum\<close> (16 bits). The contract
  the jitter buffer, the sources and the synchronisation context rely on is the locale
  \<open>ext_counter\<close>; both counters interpret it.
\<close>

section \<open>Definitions\<close>

subsection \<open>Serial number distance\<close>

definition seqnum_distance :: "u16 \<Rightarrow> u16 \<Rightarrow> int" where
  "seqnum_distance seqnum1 seqnum2 = signed_take_bit 15 (sint seqnum1 - sint seqnum2)"

subsection \<open>The comparable wrapping u32\<close>

datatype wrapping_u32 = WrappingU32 (w_val: u32)

datatype ordering = Less | Equal | Greater

definition W_ZERO :: wrapping_u32 where "W_ZERO = WrappingU32 0"

definition W_MAX :: wrapping_u32 where "W_MAX = WrappingU32 (-1)"

definition w_from_ext :: "nat \<Rightarrow> wrapping_u32" where
  "w_from_ext ext_val = WrappingU32 (word_of_nat (and ext_val 0xffffffff))"

definition w_is_zero :: "wrapping_u32 \<Rightarrow> bool" where
  "w_is_zero x \<longleftrightarrow> w_val x = 0"

definition w_distance_u32 :: "wrapping_u32 \<Rightarrow> u32 \<Rightarrow> int option" where
  "w_distance_u32 x other =
     (let d = signed_take_bit 31 (sint (w_val x) - sint other)
      in if d = - 0x80000000 then None else Some d)"

definition w_distance :: "wrapping_u32 \<Rightarrow> wrapping_u32 \<Rightarrow> int option" where
  "w_distance x other = w_distance_u32 x (w_val other)"

definition w_add :: "wrapping_u32 \<Rightarrow> wrapping_u32 \<Rightarrow> wrapping_u32" where
  "w_add x y = WrappingU32 (w_val x + w_val y)"

definition w_add_u32 :: "wrapping_u32 \<Rightarrow> u32 \<Rightarrow> wrapping_u32" where
  "w_add_u32 x y = WrappingU32 (w_val x + y)"

definition w_add_i32 :: "wrapping_u32 \<Rightarrow> int \<Rightarrow> wrapping_u32" where
  "w_add_i32 x rhs =
     (let res = signed_take_bit 31 (sint (w_val x) + rhs) in WrappingU32 (word_of_int res))"

definition w_sub_u32 :: "wrapping_u32 \<Rightarrow> u32 \<Rightarrow> wrapping_u32" where
  "w_sub_u32 x y = WrappingU32 (w_val x - y)"

definition w_sub :: "wrapping_u32 \<Rightarrow> wrapping_u32 \<Rightarrow> wrapping_u32" where
  "w_sub x y = w_sub_u32 x (w_val y)"

definition w_eq :: "wrapping_u32 \<Rightarrow> wrapping_u32 \<Rightarrow> bool" where
  "w_eq x y \<longleftrightarrow> w_val x = w_val y"

definition cmp_int :: "int \<Rightarrow> int \<Rightarrow> ordering" where
  "cmp_int a b = (if a < b then Less else if a = b then Equal else Greater)"

definition w_partial_cmp :: "wrapping_u32 \<Rightarrow> wrapping_u32 \<Rightarrow> ordering option" where
  "w_partial_cmp x other = map_option (\<lambda>d. cmp_int d 0) (w_distance x other)"

definition w_try_cmp :: "'e \<Rightarrow> wrapping_u32 \<Rightarrow> wrapping_u32 \<Rightarrow> 'e + ordering" where
  "w_try_cmp err x other = (case w_partial_cmp x other of None \<Rightarrow> Inl err | Some o' \<Rightarrow> Inr o')"

subsection \<open>Extended timestamps\<close>

record extended_timestamp =
  et_last_ext :: "nat option"

definition ExtendedTimestamp_default :: extended_timestamp where
  "ExtendedTimestamp_default = \<lparr>et_last_ext = None\<rparr>"

text \<open>
  \<^verbatim>\<open>last_ext & !0xffffffff\<close> clears the low 32 bits. The \<^verbatim>\<open>unreachable!()\<close> is \<^const>\<open>None\<close>.
\<close>

definition ExtendedTimestamp_next ::
  "extended_timestamp \<Rightarrow> u32 \<Rightarrow> (nat \<times> extended_timestamp) option" where
  "ExtendedTimestamp_next s rtp_timestamp =
     (case et_last_ext s of
        None \<Rightarrow> (let ext = 2 ^ 32 + unat rtp_timestamp in Some (ext, s\<lparr>et_last_ext := Some ext\<rparr>))
      | Some last_ext \<Rightarrow>
          (let ext = unat rtp_timestamp + (last_ext div 2 ^ 32) * 2 ^ 32
           in if ext < last_ext then
                (let diff = last_ext - ext;
                     ext' = (if diff > 2 ^ 31 - 1 then ext + 2 ^ 32 else ext)
                 in Some (ext', s\<lparr>et_last_ext := Some ext'\<rparr>))
              else
                (let diff = ext - last_ext
                 in if diff > 2 ^ 31 - 1
                    then (if ext < 2 ^ 32 then None else Some (ext - 2 ^ 32, s))
                    else Some (ext, s\<lparr>et_last_ext := Some ext\<rparr>))))"

subsection \<open>Extended sequence numbers\<close>

record extended_seqnum =
  es_last_ext :: "nat option"

definition ExtendedSeqnum_default :: extended_seqnum where
  "ExtendedSeqnum_default = \<lparr>es_last_ext = None\<rparr>"

definition ExtendedSeqnum_current :: "extended_seqnum \<Rightarrow> nat option" where
  "ExtendedSeqnum_current s = es_last_ext s"

definition ExtendedSeqnum_next ::
  "extended_seqnum \<Rightarrow> u16 \<Rightarrow> (nat \<times> extended_seqnum) option" where
  "ExtendedSeqnum_next s rtp_seqnum =
     (case es_last_ext s of
        None \<Rightarrow> (let ext = 2 ^ 16 + unat rtp_seqnum in Some (ext, s\<lparr>es_last_ext := Some ext\<rparr>))
      | Some last_ext \<Rightarrow>
          (let ext = unat rtp_seqnum + (last_ext div 2 ^ 16) * 2 ^ 16
           in if ext < last_ext then
                (let diff = last_ext - ext;
                     ext' = (if diff > 2 ^ 15 - 1 then ext + 2 ^ 16 else ext)
                 in Some (ext', s\<lparr>es_last_ext := Some ext'\<rparr>))
              else
                (let diff = ext - last_ext
                 in if diff > 2 ^ 15 - 1
                    then (if ext < 2 ^ 16 then None else Some (ext - 2 ^ 16, s))
                    else Some (ext, s\<lparr>es_last_ext := Some ext\<rparr>))))"

section \<open>The contract of an unwrapping counter\<close>

text \<open>
  A counter of \<open>w\<close> bits keeps the last extended value. A new value is extended to the
  number with those low bits that is nearest to the last one; the counter moves to it unless
  it lies in an earlier cycle.
\<close>

locale ext_counter =
  fixes w :: nat
    and cur :: "'s \<Rightarrow> nat option"
    and nxt :: "'s \<Rightarrow> nat \<Rightarrow> (nat \<times> 's) option"
  assumes w_pos: "0 < w"
    and nxt_first:
      "cur s = None \<Longrightarrow> r < 2 ^ w \<Longrightarrow> \<exists>s'. nxt s r = Some (2 ^ w + r, s') \<and> cur s' = Some (2 ^ w + r)"
    and nxt_near:
      "cur s = Some l \<Longrightarrow> 2 ^ w \<le> l \<Longrightarrow> r < 2 ^ w \<Longrightarrow>
        \<exists>n s'. nxt s r = Some (n, s') \<and> n mod 2 ^ w = r
          \<and> n \<le> l + 2 ^ (w - 1) \<and> l \<le> n + 2 ^ (w - 1)
          \<and> cur s' = Some (if n div 2 ^ w < l div 2 ^ w then l else n)"
begin

definition counter_ok :: "'s \<Rightarrow> bool" where
  "counter_ok s \<longleftrightarrow> (\<forall>l. cur s = Some l \<longrightarrow> 2 ^ w \<le> l)"

text \<open>The counter never reaches its \<^verbatim>\<open>unreachable!()\<close>, keeps its well-formedness and the low bits.\<close>

lemma nxt_total:
  assumes "counter_ok s" and "r < 2 ^ w"
  shows "\<exists>n s'. nxt s r = Some (n, s') \<and> counter_ok s' \<and> n mod 2 ^ w = r"
proof (cases "cur s")
  case None
  then show ?thesis
    using nxt_first [OF None assms(2)] assms(2) by (force simp: counter_ok_def)
next
  case (Some l)
  with assms have l: "2 ^ w \<le> l" by (simp add: counter_ok_def)
  from nxt_near [OF Some l assms(2)] obtain n s' where
    n: "nxt s r = Some (n, s')" "n mod 2 ^ w = r"
       "cur s' = Some (if n div 2 ^ w < l div 2 ^ w then l else n)"
    by blast
  have "n div 2 ^ w \<ge> l div 2 ^ w \<Longrightarrow> 2 ^ w \<le> n"
  proof -
    assume "l div 2 ^ w \<le> n div 2 ^ w"
    moreover from l have "1 \<le> l div 2 ^ w" by (simp add: div_greater_zero_iff Suc_leI)
    ultimately have "0 < n div 2 ^ w" by linarith
    then show "2 ^ w \<le> n" by (simp add: div_greater_zero_iff)
  qed
  with n l show ?thesis by (auto simp: counter_ok_def)
qed

text \<open>A value less than half a cycle away from the last one is recovered exactly.\<close>

lemma same_residue_near:
  fixes a b :: nat
  assumes "a mod m = b mod m" and "a < b + m" and "b < a + m"
  shows "a = b"
proof (rule ccontr)
  assume "a \<noteq> b"
  then consider "a < b" | "b < a" by linarith
  then show False
  proof cases
    case 1
    with assms(1) have "m dvd b - a" using mod_eq_dvd_iff_nat [of a b m] by auto
    with 1 have "m \<le> b - a" by (auto intro: dvd_imp_le)
    with assms(3) 1 show False by linarith
  next
    case 2
    with assms(1) have "m dvd a - b" using mod_eq_dvd_iff_nat [of b a m] by auto
    with 2 have "m \<le> a - b" by (auto intro: dvd_imp_le)
    with assms(2) 2 show False by linarith
  qed
qed

lemma two_half: "2 * 2 ^ (w - 1) = (2::nat) ^ w"
  using w_pos by (cases w) auto

lemma nxt_exact:
  assumes "cur s = Some l" and "2 ^ w \<le> l"
    and near: "t < l + 2 ^ (w - 1)" "l < t + 2 ^ (w - 1)"
  shows "\<exists>s'. nxt s (t mod 2 ^ w) = Some (t, s')
    \<and> cur s' = Some (if t div 2 ^ w < l div 2 ^ w then l else t)"
proof -
  from nxt_near [OF assms(1,2), of "t mod 2 ^ w"] obtain n s' where
    n: "nxt s (t mod 2 ^ w) = Some (n, s')" "n mod 2 ^ w = t mod 2 ^ w"
       "n \<le> l + 2 ^ (w - 1)" "l \<le> n + 2 ^ (w - 1)"
       "cur s' = Some (if n div 2 ^ w < l div 2 ^ w then l else n)"
    by auto
  have "n = t"
  proof (rule same_residue_near)
    show "n mod 2 ^ w = t mod 2 ^ w" by (rule n(2))
    show "n < t + 2 ^ w" using n(3) near(2) two_half by linarith
    show "t < n + 2 ^ w" using n(4) near(1) two_half by linarith
  qed
  with n show ?thesis by blast
qed

text \<open>The cycle of the stored value never decreases, and one step adds at most half a cycle.\<close>

lemma nxt_cycle_mono:
  assumes "cur s = Some l" and "2 ^ w \<le> l" and "r < 2 ^ w" and "nxt s r = Some (n, s')"
  shows "\<exists>l'. cur s' = Some l' \<and> l div 2 ^ w \<le> l' div 2 ^ w \<and> l' \<le> l + 2 ^ (w - 1)"
  using nxt_near [OF assms(1,2,3)] assms(4) by auto

text \<open>A whole stream: values that never decrease and advance by less than half a cycle.\<close>

fun nxts :: "'s \<Rightarrow> nat list \<Rightarrow> (nat list \<times> 's) option" where
  "nxts s [] = Some ([], s)"
| "nxts s (r # rs) =
     (case nxt s r of None \<Rightarrow> None
      | Some (n, s') \<Rightarrow> (case nxts s' rs of None \<Rightarrow> None | Some (ns, s'') \<Rightarrow> Some (n # ns, s'')))"

end

fun steps_below :: "nat \<Rightarrow> nat \<Rightarrow> nat list \<Rightarrow> bool" where
  "steps_below h t [] = True"
| "steps_below h t (u # us) = (t \<le> u \<and> u < t + h \<and> steps_below h u us)"

context ext_counter
begin

lemma nxts_exact_from:
  assumes "cur s = Some t" and "2 ^ w \<le> t" and "steps_below (2 ^ (w - 1)) t ts"
  shows "\<exists>s'. nxts s (map (\<lambda>t. t mod 2 ^ w) ts) = Some (ts, s')"
  using assms
proof (induction ts arbitrary: s t)
  case Nil
  then show ?case by simp
next
  case (Cons u us)
  then have u: "t \<le> u" "u < t + 2 ^ (w - 1)" "steps_below (2 ^ (w - 1)) u us" by auto
  have "t < u + 2 ^ (w - 1)" using u(1) by (rule le_less_trans) simp
  from nxt_exact [OF Cons.prems(1,2) u(2) this] obtain s' where
    s': "nxt s (u mod 2 ^ w) = Some (u, s')"
        "cur s' = Some (if u div 2 ^ w < t div 2 ^ w then t else u)"
    by blast
  have "t div 2 ^ w \<le> u div 2 ^ w" using u(1) by (rule div_le_mono)
  with s'(2) have "cur s' = Some u" by simp
  from Cons.IH [OF this _ u(3)] u(1) Cons.prems(2) obtain s'' where
    "nxts s' (map (\<lambda>t. t mod 2 ^ w) us) = Some (us, s'')"
    by auto
  with s'(1) show ?case by simp
qed

lemma nxts_bound:
  assumes "counter_ok s" and "\<forall>r \<in> set rs. r < 2 ^ w" and "nxts s rs = Some (ns, s')"
    and "\<forall>l. cur s = Some l \<longrightarrow> l < B" and "2 * 2 ^ w \<le> B"
  shows "\<forall>n \<in> set ns. n < B + length rs * 2 ^ (w - 1)"
  using assms
proof (induction rs arbitrary: s ns B)
  case Nil
  then show ?case by simp
next
  case (Cons r rs)
  let ?H = "2 ^ (w - 1)"
  from Cons.prems(3) obtain n t ms where
    n: "nxt s r = Some (n, t)" "nxts t rs = Some (ms, s')" "ns = n # ms"
    by (auto split: option.splits)
  from Cons.prems(2) have r: "r < 2 ^ w" and rs: "\<forall>r \<in> set rs. r < 2 ^ w" by auto
  from nxt_total [OF Cons.prems(1) r] n(1) have t: "counter_ok t" by auto
  have near: "n < B + ?H \<and> (\<forall>l. cur t = Some l \<longrightarrow> l < B + ?H)"
  proof (cases "cur s")
    case None
    from nxt_first [OF None r] n(1) have "n = 2 ^ w + r" "cur t = Some (2 ^ w + r)" by auto
    with r Cons.prems(5) show ?thesis by (auto intro: trans_less_add1)
  next
    case (Some l)
    with Cons.prems(1) have "2 ^ w \<le> l" by (simp add: counter_ok_def)
    from nxt_near [OF Some this r] n(1) Cons.prems(4) Some show ?thesis
      by (auto intro: trans_less_add1 le_less_trans [OF _ add_strict_right_mono])
  qed
  then have "\<forall>l. cur t = Some l \<longrightarrow> l < B + ?H" and nb: "n < B + ?H" by auto
  from Cons.IH [OF t rs n(2) this(1)] Cons.prems(5)
  have "\<forall>n \<in> set ms. n < B + ?H + length rs * ?H" by auto
  with nb n(3) show ?case
    by (auto simp: algebra_simps intro: trans_less_add1)
qed

end

section \<open>Both counters meet the contract\<close>

lemma nearest_candidate:
  fixes l r W H :: nat
  assumes W: "W = 2 * H" and r: "r < W" and H: "0 < H"
  defines "e \<equiv> r + (l div W) * W"
  shows "e mod W = r" and "e div W = l div W"
    and "e < l \<Longrightarrow> l - e < H \<Longrightarrow> l \<le> e + H"
    and "e < l \<Longrightarrow> \<not> l - e < H \<Longrightarrow> e + W \<le> l + H \<and> l \<le> e + W + H"
    and "\<not> e < l \<Longrightarrow> e - l < H \<Longrightarrow> e \<le> l + H"
    and "W \<le> l \<Longrightarrow> \<not> e < l \<Longrightarrow> \<not> e - l < H \<Longrightarrow> W \<le> e \<and> e - W \<le> l + H \<and> l \<le> e - W + H
           \<and> (e - W) mod W = r \<and> (e - W) div W < l div W"
proof -
  show em: "e mod W = r" and ed: "e div W = l div W"
    using r H W by (auto simp: e_def)
  have l: "l = l mod W + (l div W) * W" by simp
  have lm: "l mod W < W" using H W by simp
  show "e < l \<Longrightarrow> l - e < H \<Longrightarrow> l \<le> e + H" by linarith
  show "e < l \<Longrightarrow> \<not> l - e < H \<Longrightarrow> e + W \<le> l + H \<and> l \<le> e + W + H"
    using lm l W unfolding e_def by linarith
  show "\<not> e < l \<Longrightarrow> e - l < H \<Longrightarrow> e \<le> l + H" by linarith
  assume a: "W \<le> l" "\<not> e < l" "\<not> e - l < H"
  then have We: "W \<le> e" by linarith
  have "(e - W) mod W = r" using em We by (simp add: le_mod_geq)
  moreover have "(e - W) div W < l div W"
    using a(1) We H W ed by (simp add: le_div_geq)
  moreover have "e - W \<le> l + H" "l \<le> e - W + H"
    using a lm l r W We unfolding e_def by linarith+
  ultimately show "W \<le> e \<and> e - W \<le> l + H \<and> l \<le> e - W + H
           \<and> (e - W) mod W = r \<and> (e - W) div W < l div W"
    using We by blast
qed

interpretation esn: ext_counter 16 es_last_ext "\<lambda>s r. ExtendedSeqnum_next s (word_of_nat r)"
proof (unfold_locales, goal_cases)
  case 1
  then show ?case by simp
next
  case (2 s r)
  then show ?case by (simp add: ExtendedSeqnum_next_def unat_u16_of_nat Let_def)
next
  case (3 s l r)
  then have u: "unat (word_of_nat r :: u16) = r" by (simp add: unat_u16_of_nat)
  from 3 nearest_candidate [of 65536 32768 r l] show ?case
    by (auto simp: ExtendedSeqnum_next_def u Let_def)
qed

interpretation ets: ext_counter 32 et_last_ext "\<lambda>s r. ExtendedTimestamp_next s (word_of_nat r)"
proof (unfold_locales, goal_cases)
  case 1
  then show ?case by simp
next
  case (2 s r)
  then show ?case by (simp add: ExtendedTimestamp_next_def unat_u32_of_nat Let_def)
next
  case (3 s l r)
  then have u: "unat (word_of_nat r :: u32) = r" by (simp add: unat_u32_of_nat)
  from 3 nearest_candidate [of 4294967296 2147483648 r l] show ?case
    by (auto simp: ExtendedTimestamp_next_def u Let_def)
qed

section \<open>Extended sequence numbers of a stream\<close>

text \<open>The extended numbers of a stream of packets, in arrival order.\<close>

fun ext_seqnums :: "extended_seqnum \<Rightarrow> u16 list \<Rightarrow> (nat list \<times> extended_seqnum) option" where
  "ext_seqnums s [] = Some ([], s)"
| "ext_seqnums s (r # rs) =
     (case ExtendedSeqnum_next s r of None \<Rightarrow> None
      | Some (n, s') \<Rightarrow>
          (case ext_seqnums s' rs of None \<Rightarrow> None | Some (ns, s'') \<Rightarrow> Some (n # ns, s'')))"

definition es_ok :: "extended_seqnum \<Rightarrow> bool" where
  "es_ok s \<longleftrightarrow> (case es_last_ext s of None \<Rightarrow> True | Some l \<Rightarrow> 2 ^ 16 \<le> l)"

definition et_ok :: "extended_timestamp \<Rightarrow> bool" where
  "et_ok s \<longleftrightarrow> (case et_last_ext s of None \<Rightarrow> True | Some l \<Rightarrow> 2 ^ 32 \<le> l)"

lemma es_ok_counter: "es_ok s = esn.counter_ok s"
  by (auto simp: es_ok_def esn.counter_ok_def split: option.splits)

lemma et_ok_counter: "et_ok s = ets.counter_ok s"
  by (auto simp: et_ok_def ets.counter_ok_def split: option.splits)

lemma es_ok_default [simp]: "es_ok ExtendedSeqnum_default"
  by (simp add: es_ok_def ExtendedSeqnum_default_def)

lemma et_ok_default [simp]: "et_ok ExtendedTimestamp_default"
  by (simp add: et_ok_def ExtendedTimestamp_default_def)

lemma ext_seqnums_nxts: "ext_seqnums s rs = esn.nxts s (map unat rs)"
  by (induction rs arbitrary: s) (auto split: option.splits)

text \<open>The facts the components below use of one step, over the words the code passes.\<close>

lemma es_next_total:
  assumes "es_ok s"
  obtains n s' where "ExtendedSeqnum_next s r = Some (n, s')" and "es_ok s'"
    and "n mod 2 ^ 16 = unat r"
  using esn.nxt_total [of s "unat r"] assms by (auto simp: es_ok_counter)

lemma et_next_total:
  assumes "et_ok s"
  obtains n s' where "ExtendedTimestamp_next s r = Some (n, s')" and "et_ok s'"
    and "n mod 2 ^ 32 = unat r"
  using ets.nxt_total [of s "unat r"] assms by (auto simp: et_ok_counter)

lemma es_next_ok: "es_ok s \<Longrightarrow> ExtendedSeqnum_next s r = Some (n, s') \<Longrightarrow> es_ok s'"
  by (erule es_next_total [of s r]) simp

lemma et_next_ok: "et_ok s \<Longrightarrow> ExtendedTimestamp_next s r = Some (n, s') \<Longrightarrow> et_ok s'"
  by (erule et_next_total [of s r]) simp

lemma es_next_near:
  assumes "es_last_ext s = Some l" and "es_ok s" and "ExtendedSeqnum_next s r = Some (n, s')"
  shows "n \<le> l + 2 ^ 15 \<and> l \<le> n + 2 ^ 15 \<and> n mod 2 ^ 16 = unat r
    \<and> es_last_ext s' = Some (if n div 2 ^ 16 < l div 2 ^ 16 then l else n)"
  using esn.nxt_near [OF assms(1), of "unat r"] assms by (auto simp: es_ok_def)

lemma es_next_first:
  assumes "es_last_ext s = None" and "ExtendedSeqnum_next s r = Some (n, s')"
  shows "n = 2 ^ 16 + unat r \<and> es_last_ext s' = Some n"
  using assms by (auto simp: ExtendedSeqnum_next_def Let_def)

text \<open>A number less than half a cycle away, and not in an earlier cycle, is recovered and kept.\<close>

lemma es_next_exact:
  assumes "es_ok e" and "es_last_ext e = Some l" and "l div 2 ^ 16 \<le> n div 2 ^ 16"
    and "n < l + 2 ^ 15" and "l < n + 2 ^ 15"
  shows "ExtendedSeqnum_next e (of_nat n) = Some (n, \<lparr>es_last_ext = Some n\<rparr>)"
proof -
  obtain m e' where m: "ExtendedSeqnum_next e (of_nat n) = Some (m, e')"
    by (rule es_next_total [OF assms(1)])
  note near = es_next_near [OF assms(2,1) m]
  have "m mod 2 ^ 16 = n mod 2 ^ 16" using near by (simp add: unat_of_nat)
  with near assms(4,5) have "m = n" by (intro esn.same_residue_near [of m "2 ^ 16"]) auto
  with near assms(3) m show ?thesis by (cases e') simp
qed

subsection \<open>Serial arithmetic on words\<close>

lemma seqnum_distance_sint: "seqnum_distance a b = sint (a - b)"
  by (simp add: seqnum_distance_def sint_word_ariths)

lemma w_distance_sint:
  "w_distance x y = (let d = sint (w_val x - w_val y) in if d = -0x80000000 then None else Some d)"
  by (simp add: w_distance_def w_distance_u32_def sint_word_ariths Let_def)

lemma sint_min_iff: "sint (a :: u32) = - 0x80000000 \<longleftrightarrow> a = 0x80000000"
proof -
  have "sint (0x80000000 :: u32) = - 0x80000000" by simp
  then show ?thesis by (metis signed_word_eqI)
qed

lemma sint_minus_u32: "a \<noteq> 0x80000000 \<Longrightarrow> sint (- a :: u32) = - sint a"
  using sint_min_iff [of a] sint_greater_eq [of a] sint_less [of a]
  by (simp add: sint_word_ariths signed_take_bit_int_eq_self_iff)

lemma word_of_signed_take_bit_32: "word_of_int (signed_take_bit 31 z) = (word_of_int z :: u32)"
  by (simp add: word_of_int_eq_iff take_bit_signed_take_bit)

section \<open>Properties\<close>

text \<open>Extending a sequence number never reaches the \<^verbatim>\<open>unreachable!()\<close>. The extended number has
  the sequence number as its low 16 bits and lies at most half a cycle away from the last
  extended number; the stored number is the new one, or stays if the new one falls into an
  earlier cycle.
\<close>

theorem extended_seqnum_next_nearest:
  assumes "es_ok s"
  shows "\<exists>n s'. ExtendedSeqnum_next s r = Some (n, s') \<and> es_ok s' \<and> n mod 2 ^ 16 = unat r
    \<and> (\<forall>l. es_last_ext s = Some l \<longrightarrow>
          \<bar>int n - int l\<bar> \<le> 2 ^ 15
          \<and> es_last_ext s' = Some (if n div 2 ^ 16 < l div 2 ^ 16 then l else n))
    \<and> (es_last_ext s = None \<longrightarrow> n = 2 ^ 16 + unat r \<and> es_last_ext s' = Some n)"
proof -
  from assms obtain n s' where n: "ExtendedSeqnum_next s r = Some (n, s')" "es_ok s'"
      "n mod 2 ^ 16 = unat r"
    by (rule es_next_total)
  with es_next_near [OF _ assms n(1)] es_next_first [OF _ n(1)] show ?thesis by auto
qed

theorem extended_seqnum_next_nearest_witness:
  "es_ok \<lparr>es_last_ext = Some 131070\<rparr> \<and>
   (\<exists>n s'. ExtendedSeqnum_next \<lparr>es_last_ext = Some 131070\<rparr> 5 = Some (n, s') \<and> es_ok s'
      \<and> n mod 2 ^ 16 = 5)"
proof -
  have h: "es_ok \<lparr>es_last_ext = Some 131070\<rparr>" by (simp add: es_ok_def)
  from extended_seqnum_next_nearest [OF h, of 5] h show ?thesis by auto
qed

text \<open>C25: A stream whose true packet index never decreases and advances by less than half a cycle
  per packet is unwrapped exactly: from a fresh counter, the 16-bit sequence numbers
  of the indices give the indices back (offset by one cycle), through any number of
  wrap-arounds.
\<close>

theorem extended_seqnum_unwraps:
  assumes "t < 2 ^ 16" and "steps_below (2 ^ 15) t ts"
  shows "\<exists>s. ext_seqnums ExtendedSeqnum_default (map word_of_nat (t # ts))
    = Some (map (\<lambda>i. 2 ^ 16 + i) (t # ts), s)"
proof -
  let ?s0 = "\<lparr>es_last_ext = Some (65536 + t)\<rparr>"
  have first: "ExtendedSeqnum_next ExtendedSeqnum_default (word_of_nat t) = Some (65536 + t, ?s0)"
    using assms(1)
    by (simp add: ExtendedSeqnum_next_def ExtendedSeqnum_default_def unat_u16_of_nat Let_def)
  have shift: "steps_below h (c + t) (map (\<lambda>i. c + i) us) = steps_below h t us" for h c t us
    by (induction us arbitrary: t) auto
  have "\<exists>s. esn.nxts ?s0 (map (\<lambda>t. t mod 2 ^ 16) (map (\<lambda>i. 65536 + i) ts))
    = Some (map (\<lambda>i. 65536 + i) ts, s)"
    using assms(2) by (intro esn.nxts_exact_from [where t = "65536 + t"]) (auto simp: shift)
  then obtain s where s: "ext_seqnums ?s0 (map word_of_nat ts) = Some (map (\<lambda>i. 65536 + i) ts, s)"
    by (auto simp: ext_seqnums_nxts comp_def unat_of_nat)
  from first s show ?thesis by auto
qed

theorem extended_seqnum_unwraps_witness:
  "\<exists>s. ext_seqnums ExtendedSeqnum_default (map word_of_nat [65530, 65534, 65540, 70000])
    = Some ([131066, 131070, 131076, 135536], s)"
  using extended_seqnum_unwraps [of 65530 "[65534, 65540, 70000]"] by simp

text \<open>
  The extended numbers of a stream of \<open>k\<close> packets stay below \<open>2^17 + k * 2^15\<close>, whatever
  the packets: the 64-bit counter of the code cannot overflow within \<open>2^48\<close> packets.
\<close>

theorem extended_seqnum_bound:
  assumes "ext_seqnums ExtendedSeqnum_default rs = Some (ns, s)" and "n \<in> set ns"
  shows "n < 2 ^ 17 + length rs * 2 ^ 15"
proof -
  have "\<forall>n \<in> set ns. n < 2 ^ 17 + length (map unat rs) * 2 ^ (16 - 1)"
  proof (rule esn.nxts_bound)
    show "esn.nxts ExtendedSeqnum_default (map unat rs) = Some (ns, s)"
      using assms(1) by (simp add: ext_seqnums_nxts)
  qed (auto simp: es_ok_counter [symmetric] es_ok_def ExtendedSeqnum_default_def)
  with assms(2) show ?thesis by simp
qed

theorem extended_seqnum_bound_witness:
  "ext_seqnums ExtendedSeqnum_default [65535, 3] = Some ([131071, 131075], \<lparr>es_last_ext = Some 131075\<rparr>)
   \<and> (131075::nat) < 2 ^ 17 + 2 * 2 ^ 15"
proof -
  have h: "ext_seqnums ExtendedSeqnum_default [65535, 3]
      = Some ([131071, 131075], \<lparr>es_last_ext = Some 131075\<rparr>)"
    by (simp add: ExtendedSeqnum_next_def ExtendedSeqnum_default_def Let_def)
  from extended_seqnum_bound [OF h, of 131075] h show ?thesis by simp
qed

text \<open>
  The stored extended number can move backwards: a packet of the current cycle that is
  less than half a cycle behind the last one replaces it, although the comment in
  \<^verbatim>\<open>ExtendedSeqnum::next\<close> says that the storage never goes back.
\<close>

theorem extended_seqnum_goes_back:
  assumes "2 ^ 16 \<le> e" and "e div 2 ^ 16 = l div 2 ^ 16" and "e < l" and "l < e + 2 ^ 15"
  shows "ExtendedSeqnum_next \<lparr>es_last_ext = Some l\<rparr> (word_of_nat e) = Some (e, \<lparr>es_last_ext = Some e\<rparr>)"
proof -
  have "e mod 65536 + l div 65536 * 65536 = e"
    using assms(2) mod_div_mult_eq [of e 65536] by simp
  with assms(3,4) show ?thesis
    by (auto simp: ExtendedSeqnum_next_def unat_of_nat Let_def)
qed

theorem extended_seqnum_goes_back_witness:
  "ExtendedSeqnum_next \<lparr>es_last_ext = Some 65546\<rparr> (word_of_nat 65541) = Some (65541, \<lparr>es_last_ext = Some 65541\<rparr>)"
  using extended_seqnum_goes_back [of 65541 65546] by simp

text \<open>
  \<^verbatim>\<open>seqnum_distance\<close> is serial number arithmetic: the result is the signed 16-bit number that,
  added to the second sequence number modulo \<open>2^16\<close>, gives the first.
\<close>

theorem seqnum_distance_serial:
  "- (2 ^ 15) \<le> seqnum_distance a b \<and> seqnum_distance a b < 2 ^ 15
   \<and> a = b + word_of_int (seqnum_distance a b)"
  using sint_greater_eq [of "a - b"] sint_less [of "a - b"]
  by (simp add: seqnum_distance_sint)

text \<open>
  The comparison of wrapping numbers is a partial order test: equal exactly for equal
  numbers, antisymmetric, and undecided exactly for two numbers half the range apart.
\<close>

theorem w_cmp_serial:
  "(w_partial_cmp x y = Some Equal \<longleftrightarrow> x = y)
   \<and> (w_partial_cmp x y = Some Less \<longleftrightarrow> w_partial_cmp y x = Some Greater)
   \<and> (w_partial_cmp x y = None \<longleftrightarrow> w_val x - w_val y = 0x80000000)"
proof -
  obtain a where a: "w_val x - w_val y = a" "w_val y - w_val x = - a"
    by (metis minus_diff_eq)
  have "sint (0 :: u32) = 0" by simp
  then have "sint a = 0 \<longleftrightarrow> a = 0" by (metis signed_word_eqI)
  then have zero: "sint a = 0 \<longleftrightarrow> x = y"
    using a(1) by (cases x; cases y) auto
  have mid: "sint (- a) = - 0x80000000 \<longleftrightarrow> a = 0x80000000"
  proof -
    have "(0x80000000 :: u32) = - 0x80000000" by simp
    then show ?thesis using sint_min_iff [of "- a"] by (metis minus_minus)
  qed
  show ?thesis
  proof (cases "a = 0x80000000")
    case True
    with mid zero show ?thesis
      by (auto simp: w_partial_cmp_def w_distance_sint a Let_def)
  next
    case False
    with mid zero sint_min_iff [of a] sint_minus_u32 [OF False] show ?thesis
      by (auto simp: w_partial_cmp_def w_distance_sint a cmp_int_def Let_def)
  qed
qed

text \<open>
  Distance and signed addition are inverse: adding the distance to the second number
  gives the first one back, and a distance is always below half the range.
\<close>

theorem w_distance_add:
  assumes "w_distance x y = Some d"
  shows "w_add_i32 y d = x \<and> \<bar>d\<bar> < 2 ^ 31"
proof -
  from assms have d: "d = sint (w_val x - w_val y)" "d \<noteq> -0x80000000"
    by (auto simp: w_distance_sint Let_def split: if_splits)
  have "w_add_i32 y d = x" by (simp add: w_add_i32_def d word_of_signed_take_bit_32)
  moreover have "\<bar>d\<bar> < 2 ^ 31"
    using sint_greater_eq [of "w_val x - w_val y"] sint_less [of "w_val x - w_val y"] d by simp
  ultimately show ?thesis ..
qed

theorem w_distance_add_witness:
  "w_distance (WrappingU32 3) (WrappingU32 4294967295) = Some 4
   \<and> w_add_i32 (WrappingU32 4294967295) 4 = WrappingU32 3"
proof -
  have h: "w_distance (WrappingU32 3) (WrappingU32 4294967295) = Some 4"
    by (simp add: w_distance_def w_distance_u32_def)
  from w_distance_add [OF h] h show ?thesis by simp
qed

end
