(* ===== verification/Ntp_Time.thy ===== *)
theory Ntp_Time
  imports Rtp_Prelude
begin

text \<open>
  NTP timestamps of \<^verbatim>\<open>net/rtp/src/rtpbin2/time.rs\<close>: 32.32 fixed point seconds since 1900, kept
  modulo \<open>2^64\<close>, their conversion from and to durations and the choice of the NTP era. A
  \<^verbatim>\<open>SystemTime\<close> is the number of nanoseconds since the UNIX epoch (negative before it).
\<close>

section \<open>Definitions\<close>

type_synonym system_time = int

definition SECOND :: nat where "SECOND = 1000000000"

definition UNIX_TO_NTP_TIME_OFFSET :: "gst_lib \<Rightarrow> duration" where
  "UNIX_TO_NTP_TIME_OFFSET L = unix_to_ntp_secs L * SECOND"

text \<open>\<^verbatim>\<open>SystemTime::duration_since\<close>: an error when the other time is later.\<close>

definition duration_since :: "system_time \<Rightarrow> system_time \<Rightarrow> duration option" where
  "duration_since t earlier = (if earlier \<le> t then Some (nat (t - earlier)) else None)"

definition ntp_era_from_system_time :: "gst_lib \<Rightarrow> system_time \<Rightarrow> nat option" where
  "ntp_era_from_system_time L st = do {
     d \<leftarrow> duration_since st 0;
     Some ((d + UNIX_TO_NTP_TIME_OFFSET L) div SECOND div 2 ^ 32)
   }"

datatype ntp_time = NtpTime (ntp_val: nat)

definition from_duration :: "gst_lib \<Rightarrow> duration \<Rightarrow> ntp_time option" where
  "from_duration L dur = do {
     let seconds = dur div SECOND;
     fractional \<leftarrow> mul_div_ceil L (dur mod SECOND) (2 ^ 32) SECOND;
     Some (NtpTime (or (seconds * 2 ^ 32 mod 2 ^ 64) fractional))
   }"

definition system_time_to_ntp_time_u64 :: "gst_lib \<Rightarrow> system_time \<Rightarrow> ntp_time option" where
  "system_time_to_ntp_time_u64 L time = do {
     d \<leftarrow> duration_since time 0;
     from_duration L (d + UNIX_TO_NTP_TIME_OFFSET L)
   }"

text \<open>
  The era of a timestamp: that of the current time, corrected by one when the two NTP values
  are more than half the range apart.
\<close>

definition timestamp_era_for :: "nat \<Rightarrow> nat \<Rightarrow> nat \<Rightarrow> nat option" where
  "timestamp_era_for current_ntp era self =
     (if current_ntp > self \<and> current_ntp - self > 2 ^ 63 then Some (era + 1)
      else if current_ntp < self \<and> self - current_ntp > 2 ^ 63 then usub era 1
      else Some era)"

definition as_duration_with_current_time ::
  "gst_lib \<Rightarrow> ntp_time \<Rightarrow> system_time \<Rightarrow> duration option" where
  "as_duration_with_current_time L self current_time = do {
     current_ntp_time \<leftarrow> system_time_to_ntp_time_u64 L current_time;
     era \<leftarrow> ntp_era_from_system_time L current_time;
     timestamp_era \<leftarrow> timestamp_era_for (ntp_val current_ntp_time) era (ntp_val self);
     nanos \<leftarrow> mul_div_ceil L (ntp_val self) SECOND (2 ^ 32);
     Some (nanos + (timestamp_era * 2 ^ 32 mod 2 ^ 64) * SECOND)
   }"

text \<open>\<^verbatim>\<open>as_duration\<close> uses the time the process first asked for, a global set once.\<close>

definition as_duration :: "gst_lib \<Rightarrow> system_time \<Rightarrow> ntp_time \<Rightarrow> duration option" where
  "as_duration L current_time self = as_duration_with_current_time L self current_time"

definition as_u32 :: "ntp_time \<Rightarrow> u32" where
  "as_u32 self = word_of_nat (and (drop_bit 16 (ntp_val self)) 0xffffffff)"

definition as_nanos :: "gst_lib \<Rightarrow> ntp_time \<Rightarrow> nat option" where
  "as_nanos L self = mul_div_ceil L (ntp_val self) SECOND (2 ^ 32)"

definition ntp_sub :: "ntp_time \<Rightarrow> ntp_time \<Rightarrow> ntp_time option" where
  "ntp_sub a b = map_option NtpTime (usub (ntp_val a) (ntp_val b))"

definition ntp_add :: "ntp_time \<Rightarrow> ntp_time \<Rightarrow> ntp_time option" where
  "ntp_add a b = map_option NtpTime (chk_u64 (ntp_val a + ntp_val b))"

section \<open>Conversion arithmetic\<close>

text \<open>The NTP time of a duration before it is cut to 64 bits: the duration in units of \<open>2^-32\<close> seconds, rounded up.\<close>

definition ntp_full :: "duration \<Rightarrow> nat" where
  "ntp_full d = (d * 2 ^ 32 + (SECOND - 1)) div SECOND"

lemma or_shift_add:
  fixes a f :: nat
  assumes "f < 2 ^ n"
  shows "or (a * 2 ^ n) f = a * 2 ^ n + f"
proof -
  have "\<not> bit (a * 2 ^ n) m \<or> \<not> bit f m" for m
  proof (cases "m < n")
    case True
    then show ?thesis by (simp add: push_bit_eq_mult [symmetric] bit_push_bit_iff)
  next
    case False
    have "\<not> bit f m"
    proof
      assume "bit f m"
      then have "2 ^ m \<le> f" using less_exp by (metis bit_nat_def bit_iff_odd div_less even_zero not_less)
      with assms False show False by (meson le_less_trans not_less power_increasing one_le_numeral)
    qed
    then show ?thesis ..
  qed
  then show ?thesis by (simp add: disjunctive_add)
qed

text \<open>Nanoseconds of an NTP value, rounded up.\<close>

definition ntp_nanos :: "nat \<Rightarrow> nat" where
  "ntp_nanos v = (v * SECOND + (2 ^ 32 - 1)) div 2 ^ 32"

lemma ntp_full_split:
  "ntp_full d = d div SECOND * 2 ^ 32 + (d mod SECOND * 2 ^ 32 + (SECOND - 1)) div SECOND"
proof -
  have shift: "(q * m + r) * k + c = (r * k + c) + (q * k) * m" for q r m k c :: nat
    by (simp add: algebra_simps)
  have "ntp_full d
      = ((d mod SECOND * 2 ^ 32 + (SECOND - 1)) + (d div SECOND * 2 ^ 32) * SECOND) div SECOND"
    unfolding ntp_full_def
    using shift [of "d div SECOND" SECOND "d mod SECOND" "2 ^ 32" "SECOND - 1"]
    by (simp only: div_mult_mod_eq)
  also have "\<dots> = d div SECOND * 2 ^ 32 + (d mod SECOND * 2 ^ 32 + (SECOND - 1)) div SECOND"
    by (rule div_mult_self1) (simp add: SECOND_def)
  finally show ?thesis .
qed

lemma ntp_frac_bound: "(d mod SECOND * 2 ^ 32 + (SECOND - 1)) div SECOND < 2 ^ 32"
proof -
  have "d mod SECOND < SECOND" by (simp add: SECOND_def)
  then have "d mod SECOND * 2 ^ 32 + (SECOND - 1) < 2 ^ 32 * SECOND"
    unfolding SECOND_def by simp
  then show ?thesis by (simp add: less_mult_imp_div_less)
qed

lemma ntp_full_low: "ntp_full d mod 2 ^ 64
   = d div SECOND * 2 ^ 32 mod 2 ^ 64 + (d mod SECOND * 2 ^ 32 + (SECOND - 1)) div SECOND"
  (is "_ = _ + ?f")
proof -
  let ?s = "d div SECOND"
  have sm: "?s * 2 ^ 32 mod 2 ^ 64 = (?s mod 2 ^ 32) * 2 ^ 32"
    using mult_mod_left [of ?s "2 ^ 32" "2 ^ 32"] by simp
  have "(?s mod 2 ^ 32) * 2 ^ 32 + ?f < 2 ^ 64"
    using ntp_frac_bound [of d] mod_less_divisor [of "2 ^ 32" ?s] by simp
  moreover have "ntp_full d mod 2 ^ 64 = (?s * 2 ^ 32 mod 2 ^ 64 + ?f) mod 2 ^ 64"
    unfolding ntp_full_split by (simp add: mod_add_left_eq)
  ultimately show ?thesis unfolding sm by simp
qed

lemma ntp_full_era: "ntp_full d div 2 ^ 64 = d div SECOND div 2 ^ 32"
proof -
  have "ntp_full d div 2 ^ 32 = d div SECOND"
    unfolding ntp_full_split using ntp_frac_bound [of d] by simp
  then show ?thesis
    using div_mult2_eq [of "ntp_full d" "2 ^ 32" "2 ^ 32"] by simp
qed

text \<open>Rounding twice, to NTP units and back, adds at most one nanosecond.\<close>

lemma ntp_round_trip: "d \<le> ntp_nanos (ntp_full d)" "ntp_nanos (ntp_full d) \<le> d + 1"
  unfolding ntp_nanos_def ntp_full_def SECOND_def by simp_all

lemma ntp_full_mono: "d \<le> e \<Longrightarrow> ntp_full d \<le> ntp_full e"
  unfolding ntp_full_def by (intro div_le_mono add_right_mono mult_right_mono) auto

lemma ntp_full_strict: "d < e \<Longrightarrow> ntp_full d < ntp_full e"
  unfolding ntp_full_def SECOND_def by simp

lemma ntp_nanos_era: "ntp_nanos (v + e * 2 ^ 64) = ntp_nanos v + e * 2 ^ 32 * SECOND"
proof -
  have shift: "(v + e * (m * m)) * k + c = (v * k + c) + (e * m * k) * m" for v e m k c :: nat
    by (simp add: algebra_simps)
  have sq: "(2::nat) ^ 64 = 2 ^ 32 * 2 ^ 32" by simp
  have "ntp_nanos (v + e * 2 ^ 64)
      = ((v * SECOND + (2 ^ 32 - 1)) + (e * 2 ^ 32 * SECOND) * 2 ^ 32) div 2 ^ 32"
    unfolding ntp_nanos_def sq by (simp only: shift)
  also have "\<dots> = e * 2 ^ 32 * SECOND + ntp_nanos v"
    unfolding ntp_nanos_def by (rule div_mult_self1) simp
  finally show ?thesis by (simp only: add.commute)
qed

lemma ntp_nanos_less: "v < 2 ^ 64 \<Longrightarrow> ntp_nanos v < 2 ^ 64"
  unfolding ntp_nanos_def SECOND_def by simp

context gst_lib_spec
begin

lemma from_duration_full: "from_duration L d = Some (NtpTime (ntp_full d mod 2 ^ 64))"
proof -
  let ?f = "(d mod SECOND * 2 ^ 32 + (SECOND - 1)) div SECOND"
  let ?s = "d div SECOND"
  have c: "mul_div_ceil L (d mod SECOND) (2 ^ 32) SECOND = Some ?f"
    using ntp_frac_bound [of d] ceil_spec [of SECOND]
    by (simp add: SECOND_def fits_def add.commute)
  have "?s * 2 ^ 32 mod 2 ^ 64 = (?s mod 2 ^ 32) * 2 ^ 32"
    using mult_mod_left [of ?s "2 ^ 32" "2 ^ 32"] by simp
  then have "or (?s * 2 ^ 32 mod 2 ^ 64) ?f = ntp_full d mod 2 ^ 64"
    unfolding ntp_full_low using or_shift_add [OF ntp_frac_bound [of d]] by simp
  with c show ?thesis by (simp add: from_duration_def Let_def)
qed

lemma as_nanos_eq: "v < 2 ^ 64 \<Longrightarrow> as_nanos L (NtpTime v) = Some (ntp_nanos v)"
  using ntp_nanos_less [of v]
  by (simp add: as_nanos_def ceil_spec fits_def ntp_nanos_def add.commute)

end

text \<open>
  A time and the current time that are less than \<open>2^31 - 1\<close> seconds apart have NTP values less
  than \<open>2^63\<close> units apart.
\<close>

lemma ntp_full_distance:
  assumes "s < c + 2147483647 * SECOND"
  shows "ntp_full s < ntp_full c + 2 ^ 63"
proof -
  have "ntp_full s \<le> ntp_full (c + 2147483647 * SECOND)"
    using assms by (intro ntp_full_mono) simp
  also have "\<dots> < ntp_full c + 2 ^ 63"
    unfolding ntp_full_def SECOND_def by simp
  finally show ?thesis .
qed

lemma era_correction:
  assumes "S < C + 2 ^ 63" and "C < S + 2 ^ 63"
  shows "timestamp_era_for (C mod 2 ^ 64) (C div 2 ^ 64) (S mod 2 ^ 64) = Some (S div 2 ^ 64)"
proof -
  define q1 r1 q2 r2 where d: "q1 = S div 2 ^ 64" "r1 = S mod 2 ^ 64"
    "q2 = C div 2 ^ 64" "r2 = C mod 2 ^ 64"
  have S: "S = q1 * 18446744073709551616 + r1" and C: "C = q2 * 18446744073709551616 + r2"
    by (simp_all add: d div_mult_mod_eq)
  have r: "r1 < 18446744073709551616" "r2 < 18446744073709551616" by (simp_all add: d)
  have dist: "S < C + 9223372036854775808" "C < S + 9223372036854775808" using assms by simp_all
  have "q1 \<le> q2 + 1" "q2 \<le> q1 + 1" using S C r dist by linarith+
  then consider "q1 = q2" | "q1 = q2 + 1" | "q2 = q1 + 1" by linarith
  then have "timestamp_era_for r2 q2 r1 = Some q1"
  proof cases
    case 1
    with S C r dist show ?thesis by (auto simp: timestamp_era_for_def)
  next
    case 2
    with S C r dist have "r1 < r2" "9223372036854775808 < r2 - r1" by linarith+
    with 2 show ?thesis by (simp add: timestamp_era_for_def)
  next
    case 3
    with S C r dist have "r2 < r1" "9223372036854775808 < r1 - r2" by linarith+
    with 3 show ?thesis by (simp add: timestamp_era_for_def usub_def)
  qed
  then show ?thesis unfolding d .
qed

text \<open>The nanoseconds the code adds for the era are those of the full NTP time.\<close>

context gst_lib_spec
begin

lemma current_ntp:
  assumes "0 \<le> t"
  defines "c \<equiv> nat t + UNIX_TO_NTP_TIME_OFFSET L"
  shows "system_time_to_ntp_time_u64 L t = Some (NtpTime (ntp_full c mod 2 ^ 64))"
    and "ntp_era_from_system_time L t = Some (ntp_full c div 2 ^ 64)"
  using assms
  unfolding system_time_to_ntp_time_u64_def ntp_era_from_system_time_def duration_since_def
    ntp_full_era
  by (simp_all add: from_duration_full)

lemma as_duration_unfold:
  assumes "0 \<le> t" and "v < 2 ^ 64"
  defines "C \<equiv> ntp_full (nat t + UNIX_TO_NTP_TIME_OFFSET L)"
  shows "as_duration_with_current_time L (NtpTime v) t =
    map_option (\<lambda>e. ntp_nanos v + (e * 2 ^ 32 mod 2 ^ 64) * SECOND)
      (timestamp_era_for (C mod 2 ^ 64) (C div 2 ^ 64) v)"
proof -
  have "mul_div_ceil L v SECOND (2 ^ 32) = Some (ntp_nanos v)"
    using as_nanos_eq [OF assms(2)] by (simp add: as_nanos_def)
  then show ?thesis
    unfolding as_duration_with_current_time_def current_ntp [OF assms(1)] C_def
    by (cases "timestamp_era_for (C mod 2 ^ 64) (C div 2 ^ 64) v") (auto simp: C_def)
qed

text \<open>
  An NTP timestamp taken less than \<open>2^31 - 1\<close> seconds away from the current time is placed in
  the right era. The upper bound is the range of \<^verbatim>\<open>SystemTime\<close>.
\<close>

lemma as_duration_recovers:
  assumes "0 \<le> t" and "0 \<le> now"
    and "\<bar>t - now\<bar> < 2147483647 * int SECOND"
    and small: "t < 2 ^ 63 * int SECOND"
  shows "\<exists>ntp d. system_time_to_ntp_time_u64 L t = Some ntp
    \<and> as_duration_with_current_time L ntp now = Some d
    \<and> nat t + UNIX_TO_NTP_TIME_OFFSET L \<le> d \<and> d \<le> nat t + UNIX_TO_NTP_TIME_OFFSET L + 1"
proof -
  let ?s = "nat t + UNIX_TO_NTP_TIME_OFFSET L" and ?c = "nat now + UNIX_TO_NTP_TIME_OFFSET L"
  let ?S = "ntp_full ?s" and ?C = "ntp_full ?c"
  have "?s < ?c + 2147483647 * SECOND" "?c < ?s + 2147483647 * SECOND"
    using assms(1-3) by linarith+
  then have near: "?S < ?C + 2 ^ 63" "?C < ?S + 2 ^ 63"
    by (auto intro: ntp_full_distance simp del: power_numeral)
  have "?s div SECOND div 2 ^ 32 * 2 ^ 32 < 2 ^ 64"
    using small assms(1) by (simp add: UNIX_TO_NTP_TIME_OFFSET_def ntp_offset SECOND_def)
  then have era: "?S div 2 ^ 64 * 2 ^ 32 mod 2 ^ 64 = ?S div 2 ^ 64 * 2 ^ 32"
    unfolding ntp_full_era by (rule mod_less)
  have v: "?S mod 2 ^ 64 < 2 ^ 64" by simp
  have "as_duration_with_current_time L (NtpTime (?S mod 2 ^ 64)) now
      = Some (ntp_nanos (?S mod 2 ^ 64) + ?S div 2 ^ 64 * 2 ^ 32 * SECOND)"
    unfolding as_duration_unfold [OF assms(2) v] era_correction [OF near] option.map era ..
  also have "ntp_nanos (?S mod 2 ^ 64) + ?S div 2 ^ 64 * 2 ^ 32 * SECOND = ntp_nanos ?S"
    unfolding ntp_nanos_era [symmetric] by (simp only: mod_div_mult_eq)
  finally show ?thesis
    using current_ntp(1) [OF assms(1)] ntp_round_trip [of ?s] by simp
qed

lemma ntp_offset_full: "2 ^ 63 \<le> ntp_full (nat t + UNIX_TO_NTP_TIME_OFFSET L)"
proof -
  have "2 ^ 63 \<le> ntp_full (UNIX_TO_NTP_TIME_OFFSET L)"
    unfolding UNIX_TO_NTP_TIME_OFFSET_def ntp_offset ntp_full_def SECOND_def by simp
  also have "\<dots> \<le> ntp_full (nat t + UNIX_TO_NTP_TIME_OFFSET L)"
    by (rule ntp_full_mono) simp
  finally show ?thesis .
qed

text \<open>The era never underflows: in the first era the current NTP time is past its middle.\<close>

lemma as_duration_total_aux:
  assumes "0 \<le> now" and "v < 2 ^ 64"
  shows "\<exists>d. as_duration_with_current_time L (NtpTime v) now = Some d"
proof -
  let ?C = "ntp_full (nat now + UNIX_TO_NTP_TIME_OFFSET L)"
  have "timestamp_era_for (?C mod 2 ^ 64) (?C div 2 ^ 64) v \<noteq> None"
  proof (cases "?C div 2 ^ 64 = 0")
    case True
    then have "?C mod 2 ^ 64 = ?C" by (simp add: div_eq_0_iff)
    then show ?thesis
      using ntp_offset_full [of now] assms(2) by (auto simp: timestamp_era_for_def usub_def)
  next
    case False
    then show ?thesis by (simp add: timestamp_era_for_def usub_def)
  qed
  then show ?thesis unfolding as_duration_unfold [OF assms] by auto
qed

end

section \<open>Properties\<close>

text \<open>C26: NTP eras are handled correctly: the NTP timestamp of any time after the UNIX epoch,
  converted back with the current time less than \<open>2^31 - 1\<close> seconds away (68 years, before or
  after, across an era rollover), gives the time since 1900 up to one nanosecond of rounding.
\<close>

theorem ntp_timestamp_recovered:
  assumes "gst_lib_spec L" and "0 \<le> t" and "0 \<le> now"
    and "\<bar>t - now\<bar> < 2147483647 * int SECOND" and "t < 2 ^ 63 * int SECOND"
  shows "\<exists>ntp d. system_time_to_ntp_time_u64 L t = Some ntp
    \<and> as_duration_with_current_time L ntp now = Some d
    \<and> nat t + UNIX_TO_NTP_TIME_OFFSET L \<le> d \<and> d \<le> nat t + UNIX_TO_NTP_TIME_OFFSET L + 1"
  using assms by (rule gst_lib_spec.as_duration_recovers)

text \<open>At the rollover of 2036-02-07, from one second before it to the second it happens.\<close>

theorem ntp_timestamp_recovered_witness:
  "\<exists>ntp d. system_time_to_ntp_time_u64 ref_lib (2085978496 * 10 ^ 9) = Some ntp
    \<and> as_duration_with_current_time ref_lib ntp (2085978495 * 10 ^ 9) = Some d
    \<and> 4294967296 * 10 ^ 9 \<le> d \<and> d \<le> 4294967296 * 10 ^ 9 + 1"
  using ntp_timestamp_recovered [OF reflib.gst_lib_spec_axioms,
      of "2085978496 * 10 ^ 9" "2085978495 * 10 ^ 9"]
  by (simp add: SECOND_def UNIX_TO_NTP_TIME_OFFSET_def reflib.ntp_offset)

text \<open>
  Converting any 64-bit NTP timestamp to a duration returns: neither the scaled
  multiplication nor the era correction can panic for a current time after the UNIX epoch.
\<close>

theorem ntp_as_duration_total:
  assumes "gst_lib_spec L" and "0 \<le> now" and "v < 2 ^ 64"
  shows "\<exists>d. as_duration L now (NtpTime v) = Some d"
  using gst_lib_spec.as_duration_total_aux [OF assms] by (simp add: as_duration_def)

theorem ntp_as_duration_total_witness: "\<exists>d. as_duration ref_lib 0 (NtpTime (2 ^ 64 - 1)) = Some d"
  using ntp_as_duration_total [OF reflib.gst_lib_spec_axioms, of 0 "2 ^ 64 - 1"] by simp

text \<open>
  A duration below one era survives the trip to an NTP timestamp and back up to one
  nanosecond: both conversions round up, so the result is the duration or one more (for
  one nanosecond it is two).
\<close>

theorem ntp_duration_round_trip:
  assumes "gst_lib_spec L" and "d < 2 ^ 32 * SECOND"
  shows "\<exists>t n. from_duration L d = Some t \<and> as_nanos L t = Some n \<and> d \<le> n \<and> n \<le> d + 1"
proof -
  have "d div SECOND < 2 ^ 32" using assms(2) by (simp add: less_mult_imp_div_less)
  then have "ntp_full d div 2 ^ 64 = 0" unfolding ntp_full_era by simp
  then have "ntp_full d < 2 ^ 64" by (simp add: div_eq_0_iff)
  then show ?thesis
    using gst_lib_spec.from_duration_full [OF assms(1), of d] ntp_round_trip [of d]
      gst_lib_spec.as_nanos_eq [OF assms(1), of "ntp_full d"] by simp
qed

theorem ntp_duration_round_trip_witness:
  "(\<exists>t n. from_duration ref_lib 1 = Some t \<and> as_nanos ref_lib t = Some n \<and> 1 \<le> n \<and> n \<le> 1 + 1)
   \<and> from_duration ref_lib 1 = Some (NtpTime 5) \<and> as_nanos ref_lib (NtpTime 5) = Some 2"
proof -
  have "from_duration ref_lib 1 = Some (NtpTime 5)" "as_nanos ref_lib (NtpTime 5) = Some 2"
    by (simp_all add: from_duration_def as_nanos_def ref_lib_def fits_def SECOND_def)
  moreover have "\<exists>t n. from_duration ref_lib 1 = Some t \<and> as_nanos ref_lib t = Some n \<and> 1 \<le> n \<and> n \<le> 1 + 1"
    by (rule ntp_duration_round_trip [OF reflib.gst_lib_spec_axioms]) (simp add: SECOND_def)
  ultimately show ?thesis by blast
qed

end
