(* ===== verification/Jitter_Buffer.thy ===== *)
theory Jitter_Buffer
  imports Ext_Counters
begin

text \<open>
  The jitter buffer of \<^verbatim>\<open>net/rtp/src/rtpbin2/jitterbuffer.rs\<close>: a queue of packets ordered by
  extended sequence number, with serialized events and queries in between, duplicate and
  late detection, and the deadlines that delay every packet by the latency. \<^verbatim>\<open>queue_packet\<close>,
  \<^verbatim>\<open>queue_serialized_item\<close>, \<^verbatim>\<open>set_flushing\<close> and \<^verbatim>\<open>poll\<close> are the operations \<^verbatim>\<open>rtprecv\<close> calls.
  Of the RTP packet (a type of the external crate \<^verbatim>\<open>rtp_types\<close>) the buffer reads the sequence
  number only, which is the argument here. The buffer itself handles ids; the packets and events
  that belong to them are in the \<^verbatim>\<open>JitterBufferStore\<close> of \<^verbatim>\<open>rtprecv.rs\<close>, which acts on the results
  of the operations and is modelled here as well.
\<close>

section \<open>Definitions\<close>

record jb_stats =
  num_late :: nat
  num_lost :: nat
  num_duplicates :: nat
  num_pushed :: nat

record item =
  item_id :: nat
  item_deadline :: "duration option"
  item_seqnum :: nat

text \<open>\<^verbatim>\<open>Ord for Item\<close>: by sequence number, and a serialized item after a packet with the same one.\<close>

definition item_cmp :: "item \<Rightarrow> item \<Rightarrow> ordering" where
  "item_cmp a b =
     (if item_seqnum a < item_seqnum b then Less
      else if item_seqnum b < item_seqnum a then Greater
      else (case (item_deadline a, item_deadline b) of
              (None, Some _) \<Rightarrow> Greater
            | (Some _, None) \<Rightarrow> Less
            | _ \<Rightarrow> Equal))"

text \<open>The same order as a key into a linear order, for the ordered set of the prelude.\<close>

definition item_key :: "item \<Rightarrow> nat \<times> bool" where
  "item_key i = (item_seqnum i, item_deadline i = None)"

record jitter_buffer =
  packet_counter :: nat
  seqnums :: "nat list"
  items :: "item list"
  latency :: duration
  base_times :: "(instant \<times> nat) option"
  last_output_seqnum :: "nat option"
  jb_ext_seqnum :: extended_seqnum
  stats :: jb_stats
  flushing :: bool
  can_forward_packets_when_empty :: bool

datatype poll_result =
    PollForward nat bool
  | PollDrop nat
  | PollTimeout instant
  | PollEmpty
  | PollFlushing

datatype queue_result =
    QueueForward nat bool
  | Queued nat
  | Late
  | Duplicate
  | QueueFlushing

definition JitterBuffer_new :: "duration \<Rightarrow> jitter_buffer" where
  "JitterBuffer_new lat = \<lparr>
     packet_counter = 0, seqnums = [], items = [], latency = lat, base_times = None,
     last_output_seqnum = None, jb_ext_seqnum = ExtendedSeqnum_default,
     stats = \<lparr>num_late = 0, num_lost = 0, num_duplicates = 0, num_pushed = 0\<rparr>,
     flushing = True, can_forward_packets_when_empty = (lat = 0)\<rparr>"

definition queue_serialized_item :: "jitter_buffer \<Rightarrow> queue_result \<times> jitter_buffer" where
  "queue_serialized_item jb =
     (let id = packet_counter jb; jb' = jb\<lparr>packet_counter := packet_counter jb + 1\<rparr>
      in if items jb = [] then (QueueForward id False, jb')
         else
           (let item = \<lparr>item_id = id, item_deadline = None,
                        item_seqnum = (case bt_last (seqnums jb) of None \<Rightarrow> 0 | Some s \<Rightarrow> s)\<rparr>
            in (Queued id, jb'\<lparr>items := fst (bt_insert item_key item (items jb))\<rparr>)))"

definition set_flushing :: "jitter_buffer \<Rightarrow> bool \<Rightarrow> jitter_buffer" where
  "set_flushing jb f = jb\<lparr>
     flushing := f, last_output_seqnum := None,
     can_forward_packets_when_empty := (latency jb = 0)\<rparr>"

text \<open>The trimming loop: pop the smallest number while there are \<^verbatim>\<open>u16::MAX\<close> or more.\<close>

fun trim_seqnums :: "nat list \<Rightarrow> nat list" where
  "trim_seqnums [] = []"
| "trim_seqnums (x # xs) = (if length (x # xs) \<ge> 65535 then trim_seqnums xs else x # xs)"

text \<open>Forwarding a packet at once, without queueing it.\<close>

definition forward_now :: "jitter_buffer \<Rightarrow> nat \<Rightarrow> bool \<Rightarrow> queue_result \<times> jitter_buffer" where
  "forward_now jb seqnum discont =
     (QueueForward (packet_counter jb) discont,
      jb\<lparr>last_output_seqnum := Some seqnum, packet_counter := packet_counter jb + 1,
         stats := (stats jb)\<lparr>num_pushed := num_pushed (stats jb) + 1\<rparr>\<rparr>)"

text \<open>Queueing a packet: its deadline is its distance from the base PTS plus the latency.\<close>

definition enqueue_packet ::
  "jitter_buffer \<Rightarrow> nat \<Rightarrow> nat \<Rightarrow> instant \<Rightarrow> (queue_result \<times> jitter_buffer) option" where
  "enqueue_packet jb seqnum pts arrival_time =
     (let (base_instant, base_pts) =
            (case base_times jb of None \<Rightarrow> (arrival_time, pts) | Some bt \<Rightarrow> bt);
          deadline = (pts + latency jb) - base_pts;
          id = packet_counter jb;
          item = \<lparr>item_id = id, item_deadline = Some deadline, item_seqnum = seqnum\<rparr>;
          (items', inserted) = bt_insert item_key item (items jb)
      in if \<not> inserted then None
         else Some (Queued id,
                jb\<lparr>base_times := Some (base_instant, base_pts), packet_counter := id + 1,
                   items := items'\<rparr>))"

text \<open>The packets that were never received before a forwarded one.\<close>

definition count_lost :: "jitter_buffer \<Rightarrow> nat \<Rightarrow> jitter_buffer option" where
  "count_lost jb seqnum =
     (case last_output_seqnum jb of
        None \<Rightarrow> Some jb
      | Some last_output \<Rightarrow> do {
          gap \<leftarrow> usub seqnum last_output;
          rust_assert (gap \<noteq> 1);
          lost \<leftarrow> usub gap 1;
          Some (jb\<lparr>stats := (stats jb)\<lparr>num_lost := num_lost (stats jb) + lost\<rparr>\<rparr>)
        })"

text \<open>What happens to a packet that is neither a duplicate nor late.\<close>

definition accept_packet ::
  "jitter_buffer \<Rightarrow> nat \<Rightarrow> nat \<Rightarrow> instant \<Rightarrow> (queue_result \<times> jitter_buffer) option" where
  "accept_packet jb seqnum pts arrival_time =
     (if items jb = [] \<and> can_forward_packets_when_empty jb then
        (if (case last_output_seqnum jb of None \<Rightarrow> False | Some l \<Rightarrow> seqnum = l + 1)
         then Some (forward_now jb seqnum False)
         else if latency jb = 0 then do {
           jb' \<leftarrow> count_lost jb seqnum;
           Some (forward_now jb' seqnum True)
         }
         else enqueue_packet jb seqnum pts arrival_time)
      else enqueue_packet jb seqnum pts arrival_time)"

definition queue_packet ::
  "jitter_buffer \<Rightarrow> u16 \<Rightarrow> nat \<Rightarrow> instant \<Rightarrow> (queue_result \<times> jitter_buffer) option" where
  "queue_packet jb sequence_number pts arrival_time =
     (if flushing jb then Some (QueueFlushing, jb)
      else do {
        (seqnum, ext) \<leftarrow> ExtendedSeqnum_next (jb_ext_seqnum jb) sequence_number;
        let jb = jb\<lparr>jb_ext_seqnum := ext, seqnums := trim_seqnums (seqnums jb)\<rparr>;
        if seqnum \<in> set (seqnums jb)
        then Some (Duplicate,
               jb\<lparr>stats := (stats jb)\<lparr>num_duplicates := num_duplicates (stats jb) + 1\<rparr>\<rparr>)
        else do {
          let jb = jb\<lparr>seqnums := fst (bt_insert id seqnum (seqnums jb))\<rparr>;
          if (case last_output_seqnum jb of None \<Rightarrow> False | Some l \<Rightarrow> l \<ge> seqnum)
          then Some (Late, jb\<lparr>stats := (stats jb)\<lparr>num_late := num_late (stats jb) + 1\<rparr>\<rparr>)
          else accept_packet jb seqnum pts arrival_time
        }
      })"

text \<open>A ready packet leaves the queue; a gap before it counts as lost packets.\<close>

definition poll_ready :: "jitter_buffer \<Rightarrow> item \<Rightarrow> item list \<Rightarrow> (poll_result \<times> jitter_buffer) option" where
  "poll_ready jb item rest = do {
     (discont, lost) \<leftarrow>
       (case last_output_seqnum jb of
          None \<Rightarrow> Some (True, 0)
        | Some last_output \<Rightarrow> do {
            gap \<leftarrow> usub (item_seqnum item) last_output;
            lost \<leftarrow> (if gap \<noteq> 1 then usub gap 1 else Some 0);
            Some (gap \<noteq> 1, lost)
          });
     Some (PollForward (item_id item) discont,
       jb\<lparr>last_output_seqnum := Some (item_seqnum item), items := rest,
          stats := (stats jb)\<lparr>num_lost := num_lost (stats jb) + lost,
                              num_pushed := num_pushed (stats jb) + 1\<rparr>,
          can_forward_packets_when_empty := True\<rparr>)
   }"

definition poll :: "jitter_buffer \<Rightarrow> instant \<Rightarrow> (poll_result \<times> jitter_buffer) option" where
  "poll jb now =
     (if flushing jb then
        (case bt_pop_first (items jb) of
           Some (item, rest) \<Rightarrow> Some (PollDrop (item_id item), jb\<lparr>items := rest\<rparr>)
         | None \<Rightarrow> Some (PollFlushing, jb))
      else
        (case bt_pop_first (items jb) of
           None \<Rightarrow> Some (PollEmpty, jb)
         | Some (item, rest) \<Rightarrow>
             (case item_deadline item of
                None \<Rightarrow> Some (PollForward (item_id item) False, jb\<lparr>items := rest\<rparr>)
              | Some deadline \<Rightarrow>
                  (case base_times jb of
                     None \<Rightarrow> Some (PollEmpty, jb)
                   | Some (base_instant, _) \<Rightarrow>
                       (if deadline \<le> now - base_instant
                        then poll_ready jb item rest
                        else Some (PollTimeout (base_instant + deadline), jb))))))"

subsection \<open>The store of the element\<close>

text \<open>
  \<^verbatim>\<open>JitterBufferStore\<close> of \<^verbatim>\<open>rtprecv.rs\<close>: the element keeps a queued packet or event under the id
  that the buffer returned and takes it out when the buffer names the id again. A packet is
  represented by its extended sequence number, the one \<^verbatim>\<open>queue_packet\<close> assigns on its arrival.
  What an operation pushes downstream is the list it returns: extended sequence numbers, each with
  the DISCONT flag the element sets on the packet. (Events, queries and the waker are not recorded.)
\<close>

datatype jb_item = JbPacket nat | JbSerialized

record jb_store =
  store :: "nat \<rightharpoonup> jb_item"
  jitterbuffer :: jitter_buffer

definition JitterBufferStore_new :: "duration \<Rightarrow> jb_store" where
  "JitterBufferStore_new lat = \<lparr>store = Map.empty, jitterbuffer = JitterBuffer_new lat\<rparr>"

definition packet_number :: "jitter_buffer \<Rightarrow> u16 \<Rightarrow> nat" where
  "packet_number jb sequence_number =
     (case ExtendedSeqnum_next (jb_ext_seqnum jb) sequence_number of Some (n, _) \<Rightarrow> n | None \<Rightarrow> 0)"

definition store_queue_packet ::
  "jb_store \<Rightarrow> u16 \<Rightarrow> nat \<Rightarrow> instant \<Rightarrow> ((nat \<times> bool) list \<times> jb_store) option" where
  "store_queue_packet st sequence_number pts arrival_time = do {
     (ret, jb) \<leftarrow> queue_packet (jitterbuffer st) sequence_number pts arrival_time;
     let n = packet_number (jitterbuffer st) sequence_number;
     let st = st\<lparr>jitterbuffer := jb\<rparr>;
     Some (case ret of
        QueueFlushing \<Rightarrow> ([], st)
      | QueueForward _ discont \<Rightarrow> ([(n, discont)], st)
      | Queued k \<Rightarrow> ([], st\<lparr>store := (store st)(k \<mapsto> JbPacket n)\<rparr>)
      | Late \<Rightarrow> ([], st)
      | Duplicate \<Rightarrow> ([], st))
   }"

definition store_queue_serialized_item :: "jb_store \<Rightarrow> jb_store option" where
  "store_queue_serialized_item st =
     (let (ret, jb) = queue_serialized_item (jitterbuffer st); st = st\<lparr>jitterbuffer := jb\<rparr>
      in case ret of
           QueueForward _ _ \<Rightarrow> Some st
         | Queued k \<Rightarrow> Some (st\<lparr>store := (store st)(k \<mapsto> JbSerialized)\<rparr>)
         | _ \<Rightarrow> None)"

text \<open>Taking an item out panics when it is missing: \<^verbatim>\<open>Buffer with id {id} not in store!\<close>.\<close>

definition store_remove :: "jb_store \<Rightarrow> nat \<Rightarrow> (jb_item \<times> jb_store) option" where
  "store_remove st k = do {
     item \<leftarrow> store st k;
     Some (item, st\<lparr>store := (store st)(k := None)\<rparr>)
   }"

text \<open>One iteration of the loop of \<^verbatim>\<open>poll_next\<close>.\<close>

definition store_poll :: "jb_store \<Rightarrow> instant \<Rightarrow> ((nat \<times> bool) list \<times> jb_store) option" where
  "store_poll st now = do {
     (ret, jb) \<leftarrow> poll (jitterbuffer st) now;
     let st = st\<lparr>jitterbuffer := jb\<rparr>;
     case ret of
       PollFlushing \<Rightarrow> Some ([], st)
     | PollDrop k \<Rightarrow> do { (_, st) \<leftarrow> store_remove st k; Some ([], st) }
     | PollForward k discont \<Rightarrow> do {
         (item, st) \<leftarrow> store_remove st k;
         Some (case item of JbPacket n \<Rightarrow> [(n, discont)] | JbSerialized \<Rightarrow> [], st)
       }
     | PollTimeout _ \<Rightarrow> Some ([], st)
     | PollEmpty \<Rightarrow> Some ([], st)
   }"

section \<open>The ordered queue\<close>

lemma item_cmp_key:
  "item_cmp a b = (if item_key a < item_key b then Less
                   else if item_key a = item_key b then Equal else Greater)"
  by (auto simp: item_cmp_def item_key_def split: option.splits)

lemma trim_seqnums_drop: "trim_seqnums xs = drop (length xs - 65534) xs"
proof (induction xs)
  case Nil
  then show ?case by simp
next
  case (Cons x xs)
  have "length xs - 65533 = Suc (length xs - 65534)" if "65534 \<le> length xs"
    using that by arith
  with Cons show ?case by auto
qed

lemma trim_seqnums_facts:
  shows "length (trim_seqnums xs) \<le> 65534"
    and "set (trim_seqnums xs) \<subseteq> set xs"
    and "sorted_wrt (<) xs \<Longrightarrow> sorted_wrt (<) (trim_seqnums xs)"
    and "xs \<noteq> [] \<Longrightarrow> trim_seqnums xs \<noteq> [] \<and> last (trim_seqnums xs) = last xs"
    and "length xs \<le> 65534 \<Longrightarrow> trim_seqnums xs = xs"
proof -
  assume "xs \<noteq> []"
  then have "length xs - 65534 < length xs" by (intro diff_less) auto
  then have "drop (length xs - 65534) xs \<noteq> []" by (simp only: drop_eq_Nil not_le)
  then show "trim_seqnums xs \<noteq> [] \<and> last (trim_seqnums xs) = last xs"
    by (simp add: trim_seqnums_drop last_drop)
qed (auto simp: trim_seqnums_drop sorted_wrt_drop dest: in_set_dropD)

text \<open>Numbers less than \<open>65534\<close> below the largest one survive the trimming.\<close>

lemma trim_seqnums_keeps:
  assumes "sorted_wrt (<) xs" and "s \<in> set xs" and "last xs < s + 65534"
  shows "s \<in> set (trim_seqnums xs)"
proof (rule ccontr)
  let ?n = "length xs - 65534"
  assume no: "s \<notin> set (trim_seqnums xs)"
  from assms(2) have "s \<in> set (take ?n xs) \<union> set (drop ?n xs)"
    by (metis append_take_drop_id set_append)
  with no have s: "s \<in> set (take ?n xs)" by (simp add: trim_seqnums_drop)
  let ?d = "drop ?n xs"
  from s have len: "length ?d = 65534" by (cases "length xs \<le> 65534") auto
  have "sorted_wrt (<) (take ?n xs @ ?d)" using assms(1) by simp
  then have d: "sorted_wrt (<) ?d" and below: "\<forall>y \<in> set ?d. s < y"
    using s unfolding sorted_wrt_append by blast+
  from len have ne: "?d \<noteq> []" by auto
  have "hd ?d + length ?d \<le> Suc (last ?d)" by (rule bt_ok_length_le [OF d ne])
  moreover have "last ?d = last xs" using ne by (simp add: last_drop)
  moreover have "s < hd ?d" using below ne by simp
  ultimately show False using assms(3) len by simp
qed

section \<open>Invariant\<close>

text \<open>Sequence numbers of the queued packets (serialized items excluded).\<close>

definition queued_packets :: "jitter_buffer \<Rightarrow> nat set" where
  "queued_packets jb = item_seqnum ` {i \<in> set (items jb). item_deadline i \<noteq> None}"

definition jb_inv :: "jitter_buffer \<Rightarrow> bool" where
  "jb_inv jb \<longleftrightarrow>
     es_ok (jb_ext_seqnum jb)
     \<and> sorted_wrt (<) (seqnums jb)
     \<and> bt_ok item_key (items jb)
     \<and> (\<forall>s \<in> queued_packets jb. \<forall>l. last_output_seqnum jb = Some l \<longrightarrow> l < s)
     \<and> (base_times jb = None \<longrightarrow> queued_packets jb = {})
     \<and> (\<forall>i \<in> set (items jb). item_id i < packet_counter jb)
     \<and> distinct (map item_id (items jb))
     \<and> (items jb \<noteq> [] \<longrightarrow> seqnums jb \<noteq> [])
     \<and> (\<forall>i \<in> set (items jb). item_seqnum i \<le> last (seqnums jb))
     \<and> (latency jb = 0 \<longrightarrow> items jb = [] \<and> can_forward_packets_when_empty jb)"

text \<open>Every queued packet is still known to the duplicate detection after its trimming.\<close>

definition jb_tracked :: "jitter_buffer \<Rightarrow> bool" where
  "jb_tracked jb \<longleftrightarrow> queued_packets jb \<subseteq> set (trim_seqnums (seqnums jb))"

lemma jb_inv_new: "jb_inv (JitterBuffer_new lat)"
  by (simp add: jb_inv_def JitterBuffer_new_def queued_packets_def)

lemma jb_inv_set_flushing: "jb_inv jb \<Longrightarrow> jb_inv (set_flushing jb f)"
  by (simp add: jb_inv_def set_flushing_def queued_packets_def)

lemma queued_packets_cong [simp]:
  "queued_packets (jb\<lparr>seqnums := a\<rparr>) = queued_packets jb"
  "queued_packets (jb\<lparr>stats := b\<rparr>) = queued_packets jb"
  "queued_packets (jb\<lparr>jb_ext_seqnum := c\<rparr>) = queued_packets jb"
  "queued_packets (jb\<lparr>packet_counter := n\<rparr>) = queued_packets jb"
  "queued_packets (jb\<lparr>last_output_seqnum := m\<rparr>) = queued_packets jb"
  "queued_packets (jb\<lparr>base_times := t\<rparr>) = queued_packets jb"
  "queued_packets (jb\<lparr>can_forward_packets_when_empty := d\<rparr>) = queued_packets jb"
  by (simp_all add: queued_packets_def)

lemma queued_packets_key: "s \<in> queued_packets jb \<longleftrightarrow> (s, False) \<in> item_key ` set (items jb)"
  by (force simp: queued_packets_def item_key_def)

text \<open>Inserting an item, packet or serialized, keeps the invariant.\<close>

lemma jb_inv_insert:
  assumes inv: "jb_inv jb" and ne: "seqnums jb \<noteq> []" and lat: "latency jb \<noteq> 0"
    and le: "item_seqnum i \<le> last (seqnums jb)" and id: "item_id i = packet_counter jb"
    and packet: "item_deadline i \<noteq> None \<Longrightarrow>
      bt \<noteq> None \<and> (\<forall>l. last_output_seqnum jb = Some l \<longrightarrow> l < item_seqnum i)"
    and bt: "base_times jb \<noteq> None \<Longrightarrow> bt \<noteq> None"
  defines "jb' \<equiv> jb\<lparr>base_times := bt, packet_counter := packet_counter jb + 1,
    items := fst (bt_insert item_key i (items jb))\<rparr>"
  shows "jb_inv jb'"
    and "queued_packets jb' =
      (if item_deadline i = None then {} else {item_seqnum i}) \<union> queued_packets jb"
proof -
  let ?xs = "fst (bt_insert item_key i (items jb))"
  have sub: "set ?xs \<subseteq> insert i (set (items jb))" by (rule bt_insert_set)
  have keys: "item_key ` set ?xs = insert (item_key i) (item_key ` set (items jb))"
    by (rule bt_insert_keys)
  show q: "queued_packets jb' =
      (if item_deadline i = None then {} else {item_seqnum i}) \<union> queued_packets jb"
    unfolding set_eq_iff queued_packets_key jb'_def
    using keys by (auto simp: item_key_def queued_packets_key)
  have "distinct (map item_id ?xs)"
    using inv id by (intro bt_insert_distinct) (auto simp: jb_inv_def)
  moreover have "\<forall>j \<in> set ?xs. item_id j < packet_counter jb + 1 \<and> item_seqnum j \<le> last (seqnums jb)"
    using inv sub le id by (fastforce simp: jb_inv_def)
  moreover have "bt_ok item_key ?xs"
    using inv by (intro bt_insert_ok) (simp add: jb_inv_def)
  moreover have "\<forall>s \<in> queued_packets jb'. \<forall>l. last_output_seqnum jb = Some l \<longrightarrow> l < s"
    using inv packet unfolding q jb_inv_def by auto
  moreover have "bt = None \<Longrightarrow> queued_packets jb' = {}"
    using inv packet bt unfolding q jb_inv_def by (cases "item_deadline i") auto
  ultimately show "jb_inv jb'"
    using inv lat ne unfolding jb_inv_def by (simp add: jb'_def)
qed

section \<open>The effect of one operation\<close>

text \<open>Every packet received is late, a duplicate, pushed, or still queued.\<close>

definition jb_account :: "jitter_buffer \<Rightarrow> nat" where
  "jb_account jb = num_late (stats jb) + num_duplicates (stats jb) + num_pushed (stats jb)
     + card (queued_packets jb)"

text \<open>Either nothing is pushed, or a packet above the last output is, and the gap is counted as lost.\<close>

definition jb_pushes :: "jitter_buffer \<Rightarrow> jitter_buffer \<Rightarrow> bool" where
  "jb_pushes jb jb' \<longleftrightarrow>
     (last_output_seqnum jb' = last_output_seqnum jb
        \<and> num_pushed (stats jb') = num_pushed (stats jb) \<and> num_lost (stats jb') = num_lost (stats jb))
     \<or> (\<exists>s. last_output_seqnum jb' = Some s
        \<and> num_pushed (stats jb') = num_pushed (stats jb) + 1
        \<and> (case last_output_seqnum jb of
             None \<Rightarrow> num_lost (stats jb') = num_lost (stats jb)
           | Some l \<Rightarrow> l < s \<and> num_lost (stats jb') = num_lost (stats jb) + (s - l - 1)))"

text \<open>What an operation that takes in \<open>a\<close> packets does, outside of flushing.\<close>

definition jb_effect :: "nat \<Rightarrow> jitter_buffer \<Rightarrow> jitter_buffer \<Rightarrow> bool" where
  "jb_effect a jb jb' \<longleftrightarrow>
     jb_inv jb' \<and> flushing jb' = flushing jb \<and> latency jb' = latency jb
     \<and> jb_account jb' = jb_account jb + a \<and> jb_pushes jb jb'
     \<and> queued_packets jb' \<subseteq> queued_packets jb \<union> set (seqnums jb')
     \<and> set (trim_seqnums (seqnums jb)) \<subseteq> set (seqnums jb')
     \<and> length (seqnums jb') \<le> length (seqnums jb) + a"

lemma finite_queued_packets [simp]: "finite (queued_packets jb)"
  by (simp add: queued_packets_def)

lemma jb_effect_queue_serialized_item:
  assumes "jb_inv jb" and "queue_serialized_item jb = (r, jb')"
  shows "jb_effect 0 jb jb'"
proof (cases "items jb = []")
  case True
  with assms show ?thesis
    by (auto simp: queue_serialized_item_def jb_inv_def Let_def jb_effect_def jb_account_def
        jb_pushes_def dest: subsetD [OF trim_seqnums_facts(2)])
next
  case False
  let ?i = "\<lparr>item_id = packet_counter jb, item_deadline = None, item_seqnum = last (seqnums jb)\<rparr>"
  from assms(1) False have *: "seqnums jb \<noteq> []" "latency jb \<noteq> 0" by (auto simp: jb_inv_def)
  with False assms(2) have jb': "jb' = jb\<lparr>base_times := base_times jb, packet_counter := packet_counter jb + 1,
      items := fst (bt_insert item_key ?i (items jb))\<rparr>"
    by (auto simp: queue_serialized_item_def bt_last_def Let_def)
  with jb_inv_insert [OF assms(1) *, of ?i "base_times jb"]
  have "jb_inv jb'" "queued_packets jb' = queued_packets jb" by simp_all
  then show ?thesis
    by (simp add: jb_effect_def jb_account_def jb_pushes_def jb' trim_seqnums_facts(2))
qed

text \<open>Queueing fails exactly when the number is queued already: that is the
  \<^verbatim>\<open>unreachable!()\<close> of the source.\<close>

lemma enqueue_packet_None:
  assumes "jb_inv jb"
  shows "enqueue_packet jb n pts t = None \<longleftrightarrow> n \<in> queued_packets jb"
proof -
  have "snd (bt_insert item_key \<lparr>item_id = a, item_deadline = Some b, item_seqnum = n\<rparr> (items jb))
      \<longleftrightarrow> n \<notin> queued_packets jb" for a b
    using assms bt_insert_False_iff [of item_key "items jb"]
    by (simp add: jb_inv_def queued_packets_key item_key_def)
  then show ?thesis
    by (auto simp: enqueue_packet_def Let_def split: prod.splits option.splits)
      (metis snd_conv)+
qed

lemma enqueue_packetE:
  assumes "enqueue_packet jb n pts t = Some (r, jb')"
  obtains bt d where "r = Queued (packet_counter jb)"
    and "jb' = jb\<lparr>base_times := Some bt, packet_counter := packet_counter jb + 1,
     items := fst (bt_insert item_key
       \<lparr>item_id = packet_counter jb, item_deadline = Some d, item_seqnum = n\<rparr> (items jb))\<rparr>"
proof -
  define bt where "bt = (case base_times jb of None \<Rightarrow> (t, pts) | Some bt \<Rightarrow> bt)"
  show thesis
    using assms unfolding enqueue_packet_def bt_def [symmetric]
    by (intro that [where bt = bt and d = "pts + latency jb - snd bt"])
      (auto simp: Let_def split: prod.splits if_splits)
qed

lemma enqueue_packet_effect:
  assumes inv: "jb_inv jb" and ne: "seqnums jb \<noteq> []" and lat: "latency jb \<noteq> 0"
    and le: "n \<le> last (seqnums jb)" and above: "\<forall>l. last_output_seqnum jb = Some l \<longrightarrow> l < n"
    and "enqueue_packet jb n pts t = Some (r, jb')"
  shows "jb_inv jb'" and "queued_packets jb' = insert n (queued_packets jb)"
    and "jb_account jb' = jb_account jb + 1" and "jb_pushes jb jb'"
    and "seqnums jb' = seqnums jb \<and> flushing jb' = flushing jb \<and> latency jb' = latency jb"
proof -
  have new: "n \<notin> queued_packets jb"
    using enqueue_packet_None [OF inv] assms(6) by (metis option.distinct(1))
  obtain bt d where jb': "jb' = jb\<lparr>base_times := Some bt, packet_counter := packet_counter jb + 1,
     items := fst (bt_insert item_key
       \<lparr>item_id = packet_counter jb, item_deadline = Some d, item_seqnum = n\<rparr> (items jb))\<rparr>"
    by (rule enqueue_packetE [OF assms(6)])
  from jb_inv_insert [OF inv ne lat, of "\<lparr>item_id = packet_counter jb, item_deadline = Some d,
      item_seqnum = n\<rparr>" "Some bt"] le above
  show "jb_inv jb'" and q: "queued_packets jb' = insert n (queued_packets jb)"
    by (simp_all add: jb')
  show "jb_account jb' = jb_account jb + 1"
    unfolding jb_account_def q using new by (simp add: jb')
  show "jb_pushes jb jb'" "seqnums jb' = seqnums jb \<and> flushing jb' = flushing jb \<and> latency jb' = latency jb"
    by (simp_all add: jb' jb_pushes_def)
qed

lemma forward_now_effect:
  assumes "jb_inv jb" and "items jb = []" and "forward_now (jb\<lparr>stats := (stats jb)\<lparr>num_lost := k\<rparr>\<rparr>) n b = (r, jb')"
    and "case last_output_seqnum jb of None \<Rightarrow> k = num_lost (stats jb)
      | Some l \<Rightarrow> l < n \<and> k = num_lost (stats jb) + (n - l - 1)"
  shows "jb_inv jb'" and "queued_packets jb' = queued_packets jb"
    and "jb_account jb' = jb_account jb + 1" and "jb_pushes jb jb'"
    and "seqnums jb' = seqnums jb \<and> flushing jb' = flushing jb \<and> latency jb' = latency jb"
  using assms
  by (auto simp: forward_now_def jb_inv_def queued_packets_def jb_account_def jb_pushes_def
      split: option.splits)

lemma count_lost_Some:
  assumes "\<And>l. last_output_seqnum jb = Some l \<Longrightarrow> l + 1 < n"
  shows "count_lost jb n = Some (jb\<lparr>stats := (stats jb)\<lparr>num_lost := num_lost (stats jb) +
    (case last_output_seqnum jb of None \<Rightarrow> 0 | Some l \<Rightarrow> n - l - 1)\<rparr>\<rparr>)"
  using assms
  by (cases "last_output_seqnum jb") (auto simp: count_lost_def usub_def rust_assert_def)

lemma accept_packet_cases:
  assumes inv: "jb_inv jb" and above: "\<forall>l. last_output_seqnum jb = Some l \<longrightarrow> l < n"
  obtains (enqueue) "latency jb \<noteq> 0" "accept_packet jb n pts t = enqueue_packet jb n pts t"
  | (forward) k b where "items jb = []"
      "accept_packet jb n pts t = Some (forward_now (jb\<lparr>stats := (stats jb)\<lparr>num_lost := k\<rparr>\<rparr>) n b)"
      "case last_output_seqnum jb of None \<Rightarrow> k = num_lost (stats jb)
        | Some l \<Rightarrow> l < n \<and> k = num_lost (stats jb) + (n - l - 1)"
      "b \<longleftrightarrow> map_option Suc (last_output_seqnum jb) \<noteq> Some n"
proof (cases "items jb = [] \<and> can_forward_packets_when_empty jb")
  case False
  with inv have "latency jb \<noteq> 0" by (auto simp: jb_inv_def)
  with False show ?thesis by (intro enqueue) (auto simp: accept_packet_def)
next
  case True
  show ?thesis
  proof (cases "case last_output_seqnum jb of None \<Rightarrow> False | Some l \<Rightarrow> n = l + 1")
    case consecutive: True
    with \<open>items jb = [] \<and> _\<close> show ?thesis
      by (intro forward [of "num_lost (stats jb)" False])
        (auto simp: accept_packet_def split: option.splits)
  next
    case gap: False
    have "count_lost jb n = Some (jb\<lparr>stats := (stats jb)\<lparr>num_lost := num_lost (stats jb) +
        (case last_output_seqnum jb of None \<Rightarrow> 0 | Some l \<Rightarrow> n - l - 1)\<rparr>\<rparr>)"
      using gap above by (intro count_lost_Some) fastforce
    with True gap above show ?thesis
      by (cases "latency jb = 0", intro forward [of "num_lost (stats jb) +
            (case last_output_seqnum jb of None \<Rightarrow> 0 | Some l \<Rightarrow> n - l - 1)" True])
        (auto simp: accept_packet_def split: option.splits intro: enqueue)
  qed
qed

lemma accept_packet_effect:
  assumes inv: "jb_inv jb" and n: "n \<in> set (seqnums jb)"
    and above: "\<forall>l. last_output_seqnum jb = Some l \<longrightarrow> l < n"
    and "accept_packet jb n pts t = Some (r, jb')"
  shows "jb_inv jb' \<and> queued_packets jb' \<subseteq> insert n (queued_packets jb)
    \<and> jb_account jb' = jb_account jb + 1 \<and> jb_pushes jb jb'
    \<and> seqnums jb' = seqnums jb \<and> flushing jb' = flushing jb \<and> latency jb' = latency jb"
proof -
  have ne: "seqnums jb \<noteq> []" using n by auto
  have last: "n \<le> last (seqnums jb)"
    using inv n bt_last_max [of id "seqnums jb" n] by (auto simp: jb_inv_def)
  show ?thesis
  proof (cases rule: accept_packet_cases [OF inv above, of pts t])
    case 1
    with enqueue_packet_effect [OF inv ne 1(1) last above, of pts t r jb'] assms(4)
    show ?thesis by auto
  next
    case (2 k b)
    with forward_now_effect [OF inv 2(1) _ 2(3), of b r jb'] assms(4) show ?thesis by auto
  qed
qed

lemma accept_packet_None:
  assumes "jb_inv jb" and "\<forall>l. last_output_seqnum jb = Some l \<longrightarrow> l < n"
    and "accept_packet jb n pts t = None"
  shows "n \<in> queued_packets jb"
  using assms enqueue_packet_None [OF assms(1)]
  by (cases rule: accept_packet_cases [OF assms(1,2), of pts t]) auto

text \<open>Recording the number of the incoming packet.\<close>

lemma jb_inv_record:
  assumes "jb_inv jb" and "es_ok ext" and "sorted_wrt (<) xs"
    and "seqnums jb \<noteq> [] \<Longrightarrow> xs \<noteq> [] \<and> last (seqnums jb) \<le> last xs"
  shows "jb_inv (jb\<lparr>jb_ext_seqnum := ext, seqnums := xs\<rparr>)"
  using assms by (fastforce simp: jb_inv_def)

lemma jb_inv_stats [simp]: "jb_inv (jb\<lparr>stats := st\<rparr>) = jb_inv jb"
  by (simp add: jb_inv_def)

text \<open>The three outcomes of a packet's number: seen already, late, or accepted.\<close>

definition jb_record :: "jitter_buffer \<Rightarrow> extended_seqnum \<Rightarrow> nat \<Rightarrow> jitter_buffer" where
  "jb_record jb ext n = jb\<lparr>jb_ext_seqnum := ext,
     seqnums := fst (bt_insert id n (trim_seqnums (seqnums jb)))\<rparr>"

lemma jb_record_facts:
  assumes "jb_inv jb" and "es_ok ext"
  shows "jb_inv (jb_record jb ext n)" and "set (seqnums (jb_record jb ext n)) = insert n (set (trim_seqnums (seqnums jb)))"
    and "length (seqnums (jb_record jb ext n)) \<le> length (seqnums jb) + 1"
    and "stats (jb_record jb ext n) = stats jb" and "queued_packets (jb_record jb ext n) = queued_packets jb"
    and "last_output_seqnum (jb_record jb ext n) = last_output_seqnum jb"
    and "flushing (jb_record jb ext n) = flushing jb" and "latency (jb_record jb ext n) = latency jb"
proof -
  let ?t = "trim_seqnums (seqnums jb)" let ?xs = "fst (bt_insert id n ?t)"
  have t: "sorted_wrt (<) ?t" using assms(1) by (simp add: jb_inv_def trim_seqnums_facts(3))
  have xs: "sorted_wrt (<) ?xs" using bt_insert_ok [of id ?t n] t by simp
  have set: "set ?xs = insert n (set ?t)" using bt_insert_keys [of id n ?t] by simp
  have "?xs \<noteq> [] \<and> last (seqnums jb) \<le> last ?xs" if "seqnums jb \<noteq> []"
  proof -
    from trim_seqnums_facts(4) [OF that] have "last (seqnums jb) \<in> set ?xs"
      unfolding set by (metis insertI2 last_in_set)
    with bt_last_max [of id ?xs] xs show ?thesis by (auto simp: bt_insert_ne)
  qed
  from jb_inv_record [OF assms xs this] show "jb_inv (jb_record jb ext n)"
    by (simp add: jb_record_def)
  have "length ?xs \<le> length ?t + 1"
    by (cases "snd (bt_insert id n ?t)") (simp_all add: bt_insert_new_length bt_insert_old)
  moreover have "length ?t \<le> length (seqnums jb)" by (simp add: trim_seqnums_drop)
  ultimately show "length (seqnums (jb_record jb ext n)) \<le> length (seqnums jb) + 1"
    by (simp add: jb_record_def)
qed (use bt_insert_keys [of id n "trim_seqnums (seqnums jb)"] in \<open>simp_all add: jb_record_def\<close>)

lemma queue_packet_cases:
  assumes "jb_inv jb" and "\<not> flushing jb"
  obtains n ext where "ExtendedSeqnum_next (jb_ext_seqnum jb) sn = Some (n, ext)" and "es_ok ext"
    and "queue_packet jb sn pts t =
      (if n \<in> set (trim_seqnums (seqnums jb))
       then Some (Duplicate, jb\<lparr>jb_ext_seqnum := ext, seqnums := trim_seqnums (seqnums jb),
              stats := (stats jb)\<lparr>num_duplicates := num_duplicates (stats jb) + 1\<rparr>\<rparr>)
       else if (\<exists>l. last_output_seqnum jb = Some l \<and> n \<le> l)
       then Some (Late, (jb_record jb ext n)\<lparr>stats := (stats jb)\<lparr>num_late := num_late (stats jb) + 1\<rparr>\<rparr>)
       else accept_packet (jb_record jb ext n) n pts t)"
proof -
  from assms obtain n ext where "ExtendedSeqnum_next (jb_ext_seqnum jb) sn = Some (n, ext)" "es_ok ext"
    by (metis es_next_total jb_inv_def)
  note nx = this
  have late: "(case x of None \<Rightarrow> False | Some l \<Rightarrow> l \<ge> n) = (\<exists>l. x = Some l \<and> n \<le> l)" for x
    by (cases x) auto
  show ?thesis
    by (rule that [OF nx]) (auto simp: queue_packet_def assms(2) nx(1) jb_record_def late Let_def)
qed

lemma jb_inv_trim:
  assumes "jb_inv jb" and "es_ok ext"
  shows "jb_inv (jb\<lparr>jb_ext_seqnum := ext, seqnums := trim_seqnums (seqnums jb)\<rparr>)"
  using assms by (intro jb_inv_record) (auto simp: jb_inv_def trim_seqnums_facts)

lemma jb_effect_queue_packet:
  assumes inv: "jb_inv jb" and "\<not> flushing jb" and q: "queue_packet jb sn pts t = Some (r, jb')"
  shows "jb_effect 1 jb jb'"
  using inv assms(2)
proof (cases rule: queue_packet_cases [of jb sn pts t])
  case (1 n ext)
  note rec = jb_record_facts [OF inv 1(2), of n]
  show ?thesis
  proof (cases "n \<in> set (trim_seqnums (seqnums jb))")
    case True
    with q 1(3) have "jb' = jb\<lparr>jb_ext_seqnum := ext, seqnums := trim_seqnums (seqnums jb),
        stats := (stats jb)\<lparr>num_duplicates := num_duplicates (stats jb) + 1\<rparr>\<rparr>" by simp
    with jb_inv_stats jb_inv_trim [OF inv 1(2)] show ?thesis
      by (simp add: jb_effect_def jb_account_def jb_pushes_def trim_seqnums_drop)
  next
    case new: False
    show ?thesis
    proof (cases "\<exists>l. last_output_seqnum jb = Some l \<and> n \<le> l")
      case True
      with q 1(3) new have "jb' = (jb_record jb ext n)\<lparr>stats := (stats jb)\<lparr>num_late :=
          num_late (stats jb) + 1\<rparr>\<rparr>" by simp
      with rec show ?thesis
        by (simp add: jb_effect_def jb_account_def jb_pushes_def) blast
    next
      case False
      with q 1(3) new have "accept_packet (jb_record jb ext n) n pts t = Some (r, jb')" by auto
      moreover have "\<forall>l. last_output_seqnum (jb_record jb ext n) = Some l \<longrightarrow> l < n"
        using False rec by auto
      ultimately have "jb_inv jb' \<and> queued_packets jb' \<subseteq> insert n (queued_packets (jb_record jb ext n))
        \<and> jb_account jb' = jb_account (jb_record jb ext n) + 1 \<and> jb_pushes (jb_record jb ext n) jb'
        \<and> seqnums jb' = seqnums (jb_record jb ext n) \<and> flushing jb' = flushing (jb_record jb ext n)
        \<and> latency jb' = latency (jb_record jb ext n)"
        using rec by (intro accept_packet_effect) auto
      moreover have "jb_account (jb_record jb ext n) = jb_account jb"
        "jb_pushes (jb_record jb ext n) jb' = jb_pushes jb jb'"
        by (simp_all add: jb_account_def jb_pushes_def jb_record_def cong: option.case_cong)
      ultimately show ?thesis using rec by (auto simp: jb_effect_def)
    qed
  qed
qed

lemma queue_packet_None:
  assumes inv: "jb_inv jb" and q: "queue_packet jb sn pts t = None"
  shows "\<not> jb_tracked jb"
proof (cases "flushing jb")
  case True
  with q show ?thesis by (simp add: queue_packet_def)
next
  case False
  with inv show ?thesis
  proof (cases rule: queue_packet_cases [of jb sn pts t])
    case (1 n ext)
    note rec = jb_record_facts [OF inv 1(2), of n]
    from 1(3) q have new: "n \<notin> set (trim_seqnums (seqnums jb))"
      and "\<forall>l. last_output_seqnum jb = Some l \<longrightarrow> l < n"
      and "accept_packet (jb_record jb ext n) n pts t = None"
      by (auto split: if_splits)
    with accept_packet_None [OF rec(1)] rec have "n \<in> queued_packets jb" by auto
    with new show ?thesis by (auto simp: jb_tracked_def)
  qed
qed

text \<open>Polling.\<close>

lemma queued_packets_Cons:
  assumes "jb_inv jb" and "items jb = i # rest"
  shows "item_deadline i = None \<Longrightarrow> queued_packets (jb\<lparr>items := rest\<rparr>) = queued_packets jb"
    and "item_deadline i \<noteq> None \<Longrightarrow> queued_packets jb = insert (item_seqnum i) (queued_packets (jb\<lparr>items := rest\<rparr>))
      \<and> (\<forall>s \<in> queued_packets (jb\<lparr>items := rest\<rparr>). item_seqnum i < s)"
  using assms
  by (auto simp: queued_packets_def jb_inv_def item_key_def split: if_splits)

lemma jb_inv_rest:
  assumes "jb_inv jb" and "items jb = i # rest"
  shows "jb_inv (jb\<lparr>items := rest\<rparr>)"
proof -
  have "queued_packets (jb\<lparr>items := rest\<rparr>) \<subseteq> queued_packets jb"
    using assms(2) by (auto simp: queued_packets_def)
  with assms show ?thesis by (auto simp: jb_inv_def)
qed

lemma poll_ready_effect:
  assumes inv: "jb_inv jb" and it: "items jb = i # rest" and d: "item_deadline i = Some d"
  obtains r jb' where "poll_ready jb i rest = Some (r, jb')"
    and "jb_inv jb'" and "jb_account jb' = jb_account jb" and "jb_pushes jb jb'"
    and "flushing jb' = flushing jb" and "latency jb' = latency jb" and "seqnums jb' = seqnums jb"
    and "queued_packets jb' \<subseteq> queued_packets jb"
    and "items jb' = rest" and "last_output_seqnum jb' = Some (item_seqnum i)"
    and "num_pushed (stats jb') = num_pushed (stats jb) + 1"
    and "r = PollForward (item_id i) (map_option Suc (last_output_seqnum jb) \<noteq> Some (item_seqnum i))"
proof -
  from d queued_packets_Cons(2) [OF inv it]
  have q: "queued_packets jb = insert (item_seqnum i) (queued_packets (jb\<lparr>items := rest\<rparr>))"
    and above: "\<forall>s \<in> queued_packets (jb\<lparr>items := rest\<rparr>). item_seqnum i < s" by auto
  have "item_seqnum i \<in> queued_packets jb" unfolding q by simp
  with inv have less: "\<And>l. last_output_seqnum jb = Some l \<Longrightarrow> l < item_seqnum i"
    by (auto simp: jb_inv_def)
  define lost where "lost = (case last_output_seqnum jb of None \<Rightarrow> 0 | Some l \<Rightarrow> item_seqnum i - l - 1)"
  define jb' where "jb' = jb\<lparr>last_output_seqnum := Some (item_seqnum i), items := rest,
      stats := (stats jb)\<lparr>num_lost := num_lost (stats jb) + lost, num_pushed := num_pushed (stats jb) + 1\<rparr>,
      can_forward_packets_when_empty := True\<rparr>"
  let ?b = "map_option Suc (last_output_seqnum jb) \<noteq> Some (item_seqnum i)"
  have "poll_ready jb i rest = Some (PollForward (item_id i) ?b, jb')"
  proof (cases "last_output_seqnum jb")
    case (Some l)
    have "(item_seqnum i - l \<noteq> Suc 0) = (Suc l \<noteq> item_seqnum i)" using less [OF Some] by arith
    then show ?thesis using Some less [OF Some] by (auto simp: poll_ready_def jb'_def lost_def usub_def)
  qed (simp add: poll_ready_def jb'_def lost_def)
  moreover have q': "queued_packets jb' = queued_packets (jb\<lparr>items := rest\<rparr>)"
    by (simp add: jb'_def queued_packets_def)
  moreover have "jb_inv jb'"
    using jb_inv_rest [OF inv it] above unfolding jb_inv_def q' by (simp add: jb'_def)
  moreover have "card (queued_packets jb) = Suc (card (queued_packets jb'))"
    unfolding q q' using above by (subst card_insert_disjoint) auto
  then have "jb_account jb' = jb_account jb" by (simp add: jb_account_def jb'_def)
  moreover have "jb_pushes jb jb'"
    using less by (auto simp: jb_pushes_def jb'_def lost_def split: option.splits)
  moreover have "queued_packets jb' \<subseteq> queued_packets jb" unfolding q q' by auto
  ultimately show ?thesis using that by (simp add: jb'_def)
qed

lemma jb_effect_poll:
  assumes inv: "jb_inv jb" and "\<not> flushing jb"
  obtains r jb' where "poll jb now = Some (r, jb')" and "jb_effect 0 jb jb'"
    and "seqnums jb' = seqnums jb"
proof (cases "items jb")
  case Nil
  with assms show ?thesis
    by (intro that [of PollEmpty jb])
      (auto simp: poll_def bt_pop_first_def jb_effect_def jb_pushes_def dest: subsetD [OF trim_seqnums_facts(2)])
next
  case (Cons i rest)
  have same: "jb_effect 0 jb jb"
    using inv by (auto simp: jb_effect_def jb_pushes_def dest: subsetD [OF trim_seqnums_facts(2)])
  show ?thesis
  proof (cases "item_deadline i")
    case None
    with queued_packets_Cons(1) [OF inv Cons] jb_inv_rest [OF inv Cons] Cons assms(2) show ?thesis
      by (intro that [of "PollForward (item_id i) False" "jb\<lparr>items := rest\<rparr>"])
        (auto simp: poll_def bt_pop_first_def jb_effect_def jb_pushes_def jb_account_def
          dest: subsetD [OF trim_seqnums_facts(2)])
  next
    case (Some d)
    obtain r jb' where "poll_ready jb i rest = Some (r, jb')"
      and "jb_inv jb'" and "jb_account jb' = jb_account jb" and "jb_pushes jb jb'"
      and "flushing jb' = flushing jb" and "latency jb' = latency jb" and "seqnums jb' = seqnums jb"
      and "queued_packets jb' \<subseteq> queued_packets jb"
      by (rule poll_ready_effect [OF inv Cons Some])
    moreover from this have "jb_effect 0 jb jb'"
      by (auto simp: jb_effect_def dest: subsetD [OF trim_seqnums_facts(2)])
    moreover have "poll jb now \<in> {Some (PollEmpty, jb), poll_ready jb i rest,
        Some (PollTimeout (fst (the (base_times jb)) + d), jb)}"
      using Some Cons assms(2) by (auto simp: poll_def bt_pop_first_def split: option.splits)
    ultimately show ?thesis using same that by (elim insertE) auto
  qed
qed

section \<open>Runs of the jitter buffer\<close>

text \<open>The four operations the element calls, as the steps of a run.\<close>

datatype jb_op =
    QueueSerializedItem
  | SetFlushing bool
  | QueuePacket u16 nat instant
  | Poll instant

text \<open>A step acts on the store and returns what it pushes.\<close>

fun jb_step :: "jb_op \<Rightarrow> jb_store \<Rightarrow> ((nat \<times> bool) list \<times> jb_store) option" where
  "jb_step QueueSerializedItem st = do { st' \<leftarrow> store_queue_serialized_item st; Some ([], st') }"
| "jb_step (SetFlushing f) st = Some ([], st\<lparr>jitterbuffer := set_flushing (jitterbuffer st) f\<rparr>)"
| "jb_step (QueuePacket sn pts t) st = store_queue_packet st sn pts t"
| "jb_step (Poll now) st = store_poll st now"

text \<open>A run returns everything it pushed, in order, and the final state.\<close>

fun jb_run :: "jb_op list \<Rightarrow> jb_store \<Rightarrow> ((nat \<times> bool) list \<times> jb_store) option" where
  "jb_run [] st = Some ([], st)"
| "jb_run (p # ps) st = do {
     (out, st') \<leftarrow> jb_step p st;
     (outs, st'') \<leftarrow> jb_run ps st';
     Some (out @ outs, st'')
   }"

fun is_set_flushing :: "jb_op \<Rightarrow> bool" where
  "is_set_flushing (SetFlushing _) = True"
| "is_set_flushing _ = False"

fun packets_in :: "jb_op \<Rightarrow> nat" where
  "packets_in (QueuePacket _ _ _) = 1"
| "packets_in _ = 0"

text \<open>What a step does to the buffer inside the store.\<close>

fun jb_next :: "jb_op \<Rightarrow> jitter_buffer \<Rightarrow> jitter_buffer option" where
  "jb_next QueueSerializedItem jb = Some (snd (queue_serialized_item jb))"
| "jb_next (SetFlushing f) jb = Some (set_flushing jb f)"
| "jb_next (QueuePacket sn pts t) jb = map_option snd (queue_packet jb sn pts t)"
| "jb_next (Poll now) jb = map_option snd (poll jb now)"

lemma jb_step_next:
  assumes "jb_step p st = Some (out, st')"
  shows "jb_next p (jitterbuffer st) = Some (jitterbuffer st')"
proof (cases p)
  case QueueSerializedItem
  then show ?thesis
    using assms by (cases "queue_serialized_item (jitterbuffer st)")
      (auto simp: store_queue_serialized_item_def Let_def split: queue_result.splits)
next
  case (QueuePacket sn pts t)
  then obtain ret jb where q: "queue_packet (jitterbuffer st) sn pts t = Some (ret, jb)"
    using assms by (auto simp: store_queue_packet_def split: Option.bind_splits)
  then show ?thesis
    using assms QueuePacket by (cases ret) (auto simp: store_queue_packet_def Let_def)
next
  case (Poll now)
  then obtain ret jb where q: "poll (jitterbuffer st) now = Some (ret, jb)"
    using assms by (auto simp: store_poll_def split: Option.bind_splits)
  then show ?thesis
    using assms Poll
    by (cases ret) (auto simp: store_poll_def store_remove_def split: Option.bind_splits)
qed (use assms in auto)

lemma jb_effect_step:
  assumes "jb_inv jb" and "\<not> flushing jb" and "\<not> is_set_flushing p" and "jb_next p jb = Some jb'"
  shows "jb_effect (packets_in p) jb jb'"
proof (cases p)
  case QueueSerializedItem
  with assms jb_effect_queue_serialized_item [OF assms(1), of "fst (queue_serialized_item jb)"]
  show ?thesis by auto
next
  case (QueuePacket sn pts t)
  with assms jb_effect_queue_packet [OF assms(1,2), of sn pts t _ jb'] show ?thesis by auto
next
  case (Poll now)
  obtain r jb1 where "poll jb now = Some (r, jb1)" "jb_effect 0 jb jb1"
    by (rule jb_effect_poll [OF assms(1,2)])
  with Poll assms(4) show ?thesis by simp
qed (use assms in simp)

text \<open>Every operation keeps the invariant, flushing or not.\<close>

lemma jb_inv_next:
  assumes "jb_inv jb" and "jb_next p jb = Some jb'"
  shows "jb_inv jb'"
proof (cases "flushing jb \<or> is_set_flushing p")
  case False
  with jb_effect_step [OF assms(1) _ _ assms(2)] show ?thesis by (simp add: jb_effect_def)
next
  case True
  show ?thesis
  proof (cases p)
    case QueueSerializedItem
    with assms jb_effect_queue_serialized_item [OF assms(1), of "fst (queue_serialized_item jb)" jb']
    show ?thesis by (auto simp: jb_effect_def)
  next
    case (Poll now)
    with True assms jb_inv_rest [OF assms(1)] show ?thesis
      by (auto simp: poll_def bt_pop_first_def split: list.splits)
  qed (use True assms jb_inv_set_flushing in \<open>auto simp: queue_packet_def\<close>)
qed

text \<open>
  The store has an entry for every queued item: the packet with the sequence number of the item,
  or an event. So no id is missing, and what a step pushes is the packet the buffer has counted.
\<close>

definition item_entry :: "item \<Rightarrow> jb_item" where
  "item_entry i = (if item_deadline i = None then JbSerialized else JbPacket (item_seqnum i))"

definition store_ok :: "jb_store \<Rightarrow> bool" where
  "store_ok st \<longleftrightarrow> jb_inv (jitterbuffer st)
     \<and> (\<forall>i \<in> set (items (jitterbuffer st)). store st (item_id i) = Some (item_entry i))"

definition jb_pushed :: "jitter_buffer \<Rightarrow> jitter_buffer \<Rightarrow> (nat \<times> bool) list" where
  "jb_pushed jb jb' = (if num_pushed (stats jb) < num_pushed (stats jb')
     then [(the (last_output_seqnum jb'), map_option Suc (last_output_seqnum jb) \<noteq> last_output_seqnum jb')]
     else [])"

lemma store_ok_new: "store_ok (JitterBufferStore_new lat)"
  by (simp add: store_ok_def JitterBufferStore_new_def jb_inv_new) (simp add: JitterBuffer_new_def)

lemma store_ok_inv: "store_ok st \<Longrightarrow> jb_inv (jitterbuffer st)"
  by (simp add: store_ok_def)

lemma store_ok_same_items:
  assumes "store_ok st" and "jb_inv jb" and "items jb = items (jitterbuffer st)"
  shows "store_ok (st\<lparr>jitterbuffer := jb\<rparr>)"
  using assms by (simp add: store_ok_def)

lemma store_ok_insert:
  assumes "store_ok st" and "jb_inv jb"
    and "items jb = fst (bt_insert item_key i (items (jitterbuffer st)))"
    and "item_id i = packet_counter (jitterbuffer st)"
  shows "store_ok (st\<lparr>jitterbuffer := jb, store := (store st)(item_id i \<mapsto> item_entry i)\<rparr>)"
proof -
  have "store st (item_id j) = Some (item_entry j) \<and> item_id j \<noteq> item_id i" if "j \<in> set (items (jitterbuffer st))" for j
    using that assms(1,4) by (fastforce simp: store_ok_def jb_inv_def)
  with bt_insert_set [of item_key i "items (jitterbuffer st)"] assms(2,3) show ?thesis
    by (fastforce simp: store_ok_def)
qed

lemma store_ok_remove:
  assumes "store_ok st" and "jb_inv jb" and "items (jitterbuffer st) = i # items jb"
  shows "store_remove (st\<lparr>jitterbuffer := jb\<rparr>) (item_id i)
      = Some (item_entry i, st\<lparr>jitterbuffer := jb, store := (store st)(item_id i := None)\<rparr>)"
    and "store_ok (st\<lparr>jitterbuffer := jb, store := (store st)(item_id i := None)\<rparr>)"
proof -
  have st: "\<forall>j \<in> set (i # items jb). store st (item_id j) = Some (item_entry j)"
    and d: "distinct (map item_id (i # items jb))"
    using assms(1) unfolding store_ok_def jb_inv_def assms(3) by blast+
  show "store_remove (st\<lparr>jitterbuffer := jb\<rparr>) (item_id i)
      = Some (item_entry i, st\<lparr>jitterbuffer := jb, store := (store st)(item_id i := None)\<rparr>)"
    using st by (simp add: store_remove_def)
  have "item_id j \<noteq> item_id i" if "j \<in> set (items jb)" for j
    using imageI [OF that, of item_id] d by auto
  then show "store_ok (st\<lparr>jitterbuffer := jb, store := (store st)(item_id i := None)\<rparr>)"
    using st assms(2) by (simp add: store_ok_def)
qed

text \<open>The four operations on a store that is in order.\<close>

definition step_ok :: "jb_store \<Rightarrow> jitter_buffer \<Rightarrow> ((nat \<times> bool) list \<times> jb_store) option \<Rightarrow> bool" where
  "step_ok st jb' r \<longleftrightarrow> (\<exists>st'. r = Some (jb_pushed (jitterbuffer st) jb', st')
     \<and> jitterbuffer st' = jb' \<and> store_ok st')"

lemma store_queue_serialized_item_ok:
  assumes "store_ok st"
  shows "step_ok st (snd (queue_serialized_item (jitterbuffer st))) (jb_step QueueSerializedItem st)"
proof -
  let ?jb = "jitterbuffer st"
  have inv: "jb_inv (snd (queue_serialized_item ?jb))"
    by (rule jb_inv_next [OF store_ok_inv [OF assms], of QueueSerializedItem]) simp
  show ?thesis
  proof (cases "items ?jb = []")
    case True
    with inv store_ok_same_items [OF assms inv] show ?thesis
      by (simp add: step_ok_def store_queue_serialized_item_def queue_serialized_item_def jb_pushed_def)
  next
    case False
    let ?i = "\<lparr>item_id = packet_counter ?jb, item_deadline = None,
      item_seqnum = (case bt_last (seqnums ?jb) of None \<Rightarrow> 0 | Some s \<Rightarrow> s)\<rparr>"
    show ?thesis
      using False store_ok_insert [OF assms inv, of ?i]
      by (simp add: step_ok_def store_queue_serialized_item_def queue_serialized_item_def jb_pushed_def
          Let_def item_entry_def)
  qed
qed

lemma store_queue_packet_ok:
  assumes st: "store_ok st" and q: "queue_packet (jitterbuffer st) sn pts t = Some (r, jb')"
  shows "step_ok st jb' (store_queue_packet st sn pts t)"
proof (cases "flushing (jitterbuffer st)")
  case True
  then show ?thesis
    using st q by (auto simp: queue_packet_def step_ok_def store_queue_packet_def jb_pushed_def)
next
  case False
  let ?jb = "jitterbuffer st"
  have inv: "jb_inv jb'"
    using q by (intro jb_inv_next [OF store_ok_inv [OF st], of "QueuePacket sn pts t"]) simp
  from store_ok_inv [OF st] False show ?thesis
  proof (cases rule: queue_packet_cases [of ?jb sn pts t])
    case (1 n ext)
    have n: "packet_number ?jb sn = n" using 1(1) by (simp add: packet_number_def)
    note rec = jb_record_facts [OF store_ok_inv [OF st] 1(2), of n]
    have recs: "items (jb_record ?jb ext n) = items ?jb" "stats (jb_record ?jb ext n) = stats ?jb"
      "packet_counter (jb_record ?jb ext n) = packet_counter ?jb"
      "last_output_seqnum (jb_record ?jb ext n) = last_output_seqnum ?jb"
      by (simp_all add: jb_record_def)
    show ?thesis
    proof (cases "n \<in> set (trim_seqnums (seqnums ?jb)) \<or> (\<exists>l. last_output_seqnum ?jb = Some l \<and> n \<le> l)")
      case True
      then have "items jb' = items ?jb" "r = Late \<or> r = Duplicate" "num_pushed (stats jb') = num_pushed (stats ?jb)"
        using q 1(3) recs(1) by (auto split: if_splits)
      with store_ok_same_items [OF st inv] q show ?thesis
        by (auto simp: step_ok_def store_queue_packet_def jb_pushed_def)
    next
      case new: False
      then have a: "accept_packet (jb_record ?jb ext n) n pts t = Some (r, jb')"
        using q unfolding 1(3) de_Morgan_disj by (elim conjE) (simp only: if_False)
      have above: "\<forall>l. last_output_seqnum (jb_record ?jb ext n) = Some l \<longrightarrow> l < n" using new recs by auto
      show ?thesis
      proof (cases rule: accept_packet_cases [OF rec(1) above, of pts t])
        case 1
        from a have "enqueue_packet (jb_record ?jb ext n) n pts t = Some (r, jb')" unfolding 1(2) .
        then obtain d where "r = Queued (packet_counter ?jb)" and "stats jb' = stats ?jb"
          and i: "items jb' = fst (bt_insert item_key
            \<lparr>item_id = packet_counter ?jb, item_deadline = Some d, item_seqnum = n\<rparr> (items ?jb))"
          by (rule enqueue_packetE) (simp add: recs)
        with store_ok_insert [OF st inv i] q n show ?thesis
          by (simp add: step_ok_def store_queue_packet_def jb_pushed_def item_entry_def)
      next
        case (2 k b)
        have "r = QueueForward (packet_counter ?jb) b" "items jb' = items ?jb"
          "num_pushed (stats jb') = num_pushed (stats ?jb) + 1" "last_output_seqnum jb' = Some n"
          using a unfolding 2(2) by (auto simp: forward_now_def recs)
        with store_ok_same_items [OF st inv] q n 2(4) recs(4) show ?thesis
          by (simp add: step_ok_def store_queue_packet_def jb_pushed_def)
      qed
    qed
  qed
qed

lemma store_poll_ok:
  assumes st: "store_ok st" and q: "poll (jitterbuffer st) now = Some (r, jb')"
  shows "step_ok st jb' (store_poll st now)"
proof -
  let ?jb = "jitterbuffer st"
  have inv: "jb_inv jb'"
    using q by (intro jb_inv_next [OF store_ok_inv [OF st], of "Poll now"]) simp
  consider (same) "jb' = ?jb" "r = PollFlushing \<or> r = PollEmpty"
    | (wait) u where "jb' = ?jb" "r = PollTimeout u"
    | (drop) i where "items ?jb = i # items jb'" "stats jb' = stats ?jb" "r = PollDrop (item_id i)"
    | (event) i where "items ?jb = i # items jb'" "stats jb' = stats ?jb"
        "r = PollForward (item_id i) False" "item_deadline i = None"
    | (packet) i d where "items ?jb = i # items jb'" "item_deadline i = Some d"
        "poll_ready ?jb i (items jb') = Some (r, jb')"
  proof (cases "items ?jb")
    case Nil
    then show thesis using q by (intro same) (auto simp: poll_def bt_pop_first_def split: if_splits)
  next
    case (Cons i rest)
    show thesis
    proof (cases "flushing ?jb \<or> item_deadline i = None \<or> base_times ?jb = None
        \<or> \<not> the (item_deadline i) \<le> now - fst (the (base_times ?jb))")
      case True
      then show thesis using q Cons
        by (auto simp: poll_def bt_pop_first_def split: if_splits option.splits intro: same wait drop event)
    next
      case False
      then obtain d where d: "item_deadline i = Some d" by auto
      have "poll_ready ?jb i rest = Some (r, jb')"
        using q Cons False by (auto simp: poll_def bt_pop_first_def split: option.splits)
      moreover from poll_ready_effect [OF store_ok_inv [OF st] Cons d] this
      have "items jb' = rest" by (metis option.inject prod.inject)
      ultimately show thesis using packet Cons d by simp
    qed
  qed
  then show ?thesis
  proof cases
    case same
    then show ?thesis using st q by (auto simp: step_ok_def store_poll_def jb_pushed_def)
  next
    case (wait u)
    then show ?thesis using st q by (auto simp: step_ok_def store_poll_def jb_pushed_def)
  next
    case (drop i)
    with store_ok_remove [OF st inv drop(1)] q show ?thesis
      by (simp add: step_ok_def store_poll_def jb_pushed_def)
  next
    case (event i)
    with store_ok_remove [OF st inv event(1)] q show ?thesis
      by (simp add: step_ok_def store_poll_def jb_pushed_def item_entry_def)
  next
    case (packet i d)
    then obtain "num_pushed (stats jb') = num_pushed (stats ?jb) + 1"
      "last_output_seqnum jb' = Some (item_seqnum i)"
      "r = PollForward (item_id i) (map_option Suc (last_output_seqnum ?jb) \<noteq> Some (item_seqnum i))"
      using poll_ready_effect [OF store_ok_inv [OF st] packet(1,2)]
      by (metis option.inject prod.inject)
    with store_ok_remove [OF st inv packet(1)] q packet(2) show ?thesis
      by (simp add: step_ok_def store_poll_def jb_pushed_def item_entry_def)
  qed
qed

lemma jb_step_ok:
  assumes "store_ok st" and "jb_next p (jitterbuffer st) = Some jb'"
  shows "jb_step p st \<noteq> None
    \<and> (\<forall>out st'. jb_step p st = Some (out, st') \<longrightarrow> jitterbuffer st' = jb' \<and> store_ok st'
         \<and> (is_set_flushing p \<or> out = jb_pushed (jitterbuffer st) jb'))"
proof (cases p)
  case QueueSerializedItem
  with store_queue_serialized_item_ok [OF assms(1)] assms(2) show ?thesis by (auto simp: step_ok_def)
next
  case (SetFlushing f)
  with assms store_ok_same_items [OF assms(1) jb_inv_next [OF store_ok_inv [OF assms(1)] assms(2)]]
  show ?thesis by (auto simp: set_flushing_def)
next
  case (QueuePacket sn pts t)
  with assms(2) obtain r where "queue_packet (jitterbuffer st) sn pts t = Some (r, jb')" by auto
  with store_queue_packet_ok [OF assms(1)] QueuePacket show ?thesis by (fastforce simp: step_ok_def)
next
  case (Poll now)
  with assms(2) obtain r where "poll (jitterbuffer st) now = Some (r, jb')" by auto
  with store_poll_ok [OF assms(1)] Poll show ?thesis by (fastforce simp: step_ok_def)
qed

lemma jb_step_store_ok: "store_ok st \<Longrightarrow> jb_step p st = Some (out, st') \<Longrightarrow> store_ok st'"
  using jb_step_ok jb_step_next by blast

lemma store_ok_run: "store_ok st \<Longrightarrow> jb_run ps st = Some (out, st') \<Longrightarrow> store_ok st'"
  by (induction ps arbitrary: st out) (auto simp: bind_eq_Some_conv dest: jb_step_store_ok)

lemma jb_run_induct [consumes 4, case_names Nil Cons]:
  assumes "jb_run ps st = Some (out, st')" and "store_ok st" and "\<not> flushing (jitterbuffer st)"
    and "\<forall>p \<in> set ps. \<not> is_set_flushing p"
    and "\<And>jb. jb_inv jb \<Longrightarrow> \<not> flushing jb \<Longrightarrow> P [] jb [] jb"
    and "\<And>p ps jb jb1 out jb'. jb_effect (packets_in p) jb jb1 \<Longrightarrow> jb_inv jb \<Longrightarrow> P ps jb1 out jb' \<Longrightarrow>
      P (p # ps) jb (jb_pushed jb jb1 @ out) jb'"
  shows "P ps (jitterbuffer st) out (jitterbuffer st')"
  using assms(1-4)
proof (induction ps arbitrary: st out)
  case Nil
  with assms(5) show ?case by (auto dest: store_ok_inv)
next
  case (Cons p ps)
  then obtain st1 out0 out1 where step: "jb_step p st = Some (out0, st1)"
    and run: "jb_run ps st1 = Some (out1, st')" and out: "out = out0 @ out1"
    by (auto simp: bind_eq_Some_conv)
  note nxt = jb_step_next [OF step]
  have ok: "store_ok st1" "out0 = jb_pushed (jitterbuffer st) (jitterbuffer st1)"
    using jb_step_ok [OF Cons.prems(2) nxt] step Cons.prems(4) by auto
  have eff: "jb_effect (packets_in p) (jitterbuffer st) (jitterbuffer st1)"
    using Cons.prems nxt store_ok_inv by (intro jb_effect_step) auto
  with Cons.IH [OF run ok(1)] Cons.prems have "P ps (jitterbuffer st1) out1 (jitterbuffer st')"
    by (auto simp: jb_effect_def)
  with eff store_ok_inv [OF Cons.prems(2)] assms(6) show ?case unfolding out ok(2) by blast
qed

text \<open>Without flushing, the numbers pushed grow, every number between two pushed ones is
  counted as lost, and a packet has the DISCONT flag when it does not follow the one before.\<close>

fun marks_ok :: "nat option \<Rightarrow> (nat \<times> bool) list \<Rightarrow> bool" where
  "marks_ok l [] \<longleftrightarrow> True"
| "marks_ok l ((s, discont) # out) \<longleftrightarrow>
     discont = (map_option Suc l \<noteq> Some s) \<and> marks_ok (Some s) out"

definition jb_log_ok :: "nat option \<Rightarrow> nat list \<Rightarrow> bool" where
  "jb_log_ok l out \<longleftrightarrow> sorted_wrt (<) out \<and> (\<forall>k. l = Some k \<longrightarrow> (\<forall>s \<in> set out. k < s))"

lemma jb_pushed_step:
  assumes "jb_pushes jb jb1"
  shows "(jb_pushed jb jb1 = [] \<and> last_output_seqnum jb1 = last_output_seqnum jb
      \<and> num_pushed (stats jb1) = num_pushed (stats jb) \<and> num_lost (stats jb1) = num_lost (stats jb))
    \<or> (\<exists>s. jb_pushed jb jb1 = [(s, map_option Suc (last_output_seqnum jb) \<noteq> Some s)] \<and> last_output_seqnum jb1 = Some s
      \<and> num_pushed (stats jb1) = num_pushed (stats jb) + 1
      \<and> (case last_output_seqnum jb of
             None \<Rightarrow> num_lost (stats jb1) = num_lost (stats jb)
           | Some l \<Rightarrow> l < s \<and> num_lost (stats jb1) = num_lost (stats jb) + (s - l - 1)))"
  using assms by (auto simp: jb_pushes_def jb_pushed_def split: option.splits)

lemma jb_run_log:
  assumes "jb_run ps st = Some (out, st')" and "store_ok st" and "\<not> flushing (jitterbuffer st)"
    and "\<forall>p \<in> set ps. \<not> is_set_flushing p"
  shows "jb_log_ok (last_output_seqnum (jitterbuffer st)) (map fst out)
    \<and> marks_ok (last_output_seqnum (jitterbuffer st)) out
    \<and> num_pushed (stats (jitterbuffer st')) = num_pushed (stats (jitterbuffer st)) + length out
    \<and> last_output_seqnum (jitterbuffer st')
        = (if out = [] then last_output_seqnum (jitterbuffer st) else Some (fst (last out)))
    \<and> (case last_output_seqnum (jitterbuffer st) of
         Some l \<Rightarrow> num_lost (stats (jitterbuffer st')) + length out
           = num_lost (stats (jitterbuffer st)) + (the (last_output_seqnum (jitterbuffer st')) - l)
       | None \<Rightarrow> num_lost (stats (jitterbuffer st')) + length out = num_lost (stats (jitterbuffer st))
           + (if out = [] then 0 else Suc (fst (last out) - fst (hd out))))"
  using assms
proof (induction rule: jb_run_induct)
  case (Nil jb)
  then show ?case by (auto simp: jb_log_ok_def split: option.splits)
next
  case (Cons p ps jb jb1 out jb')
  then have "jb_pushes jb jb1" by (simp add: jb_effect_def)
  from jb_pushed_step [OF this] show ?case
  proof (elim disjE exE, goal_cases)
    case 1
    with Cons.IH show ?thesis by (cases "last_output_seqnum jb") auto
  next
    case (2 s)
    let ?e = "if out = [] then s else fst (last out)"
    from 2 Cons.IH have log: "jb_log_ok (Some s) (map fst out)" and last: "last_output_seqnum jb' = Some ?e"
      and marks: "marks_ok (last_output_seqnum jb) (jb_pushed jb jb1 @ out)"
      and lost: "num_lost (stats jb') + length out = num_lost (stats jb1) + (?e - s)"
      and pushed: "num_pushed (stats jb') = num_pushed (stats jb) + length (jb_pushed jb jb1 @ out)"
      by simp_all
    from log have e: "s \<le> ?e" by (auto simp: jb_log_ok_def less_imp_le)
    show ?thesis
    proof (cases "last_output_seqnum jb")
      case None
      with 2 log last lost pushed e marks show ?thesis by (cases "out = []") (simp_all add: jb_log_ok_def)
    next
      case (Some l)
      with 2 have l: "l < s" "num_lost (stats jb1) = num_lost (stats jb) + (s - l - 1)" by simp_all
      from l e lost have "num_lost (stats jb') + length (jb_pushed jb jb1 @ out)
          = num_lost (stats jb) + (?e - l)" using 2 by simp
      moreover from log l have "jb_log_ok (Some l) (map fst (jb_pushed jb jb1 @ out))"
        using 2 by (auto simp: jb_log_ok_def)
      ultimately show ?thesis using 2 last pushed marks Some by simp
    qed
  qed
qed

lemma jb_run_account:
  assumes "jb_run ps st = Some (out, st')" and "store_ok st" and "\<not> flushing (jitterbuffer st)"
    and "\<forall>p \<in> set ps. \<not> is_set_flushing p"
  shows "jb_account (jitterbuffer st') = jb_account (jitterbuffer st) + sum_list (map packets_in ps)"
  using assms by (induction rule: jb_run_induct) (auto simp: jb_effect_def)

text \<open>A run that takes in fewer than \<open>65535\<close> packets never trims, so it never panics.\<close>

lemma jb_next_tracked:
  assumes "jb_inv jb" and "queued_packets jb \<subseteq> set (seqnums jb)" and "length (seqnums jb) < 65535"
  obtains jb' where "jb_next p jb = Some jb'"
    and "queued_packets jb' \<subseteq> set (seqnums jb')"
    and "length (seqnums jb') \<le> length (seqnums jb) + packets_in p"
proof -
  have trim: "trim_seqnums (seqnums jb) = seqnums jb"
    using assms(3) by (intro trim_seqnums_facts(5)) simp
  have "\<exists>jb'. jb_next p jb = Some jb' \<and> queued_packets jb' \<subseteq> set (seqnums jb')
    \<and> length (seqnums jb') \<le> length (seqnums jb) + packets_in p"
  proof (cases "flushing jb \<or> is_set_flushing p")
    case False
    have "poll jb now \<noteq> None" for now
      using jb_effect_poll [OF assms(1), of now] False by blast
    moreover have "queue_packet jb sn pts t \<noteq> None" for sn pts t
      using queue_packet_None [OF assms(1), of sn pts t] assms(2)
      by (cases "queue_packet jb sn pts t") (auto simp: jb_tracked_def trim)
    ultimately have "jb_next p jb \<noteq> None" by (cases p) (simp_all del: not_None_eq)
    then obtain jb' where "jb_next p jb = Some jb'" by blast
    with False jb_effect_step [OF assms(1), of p jb'] assms(2) show ?thesis
      by (fastforce simp: jb_effect_def trim)
  next
    case True
    have "jb_effect 0 jb (snd (queue_serialized_item jb))"
      by (rule jb_effect_queue_serialized_item [OF assms(1), of "fst (queue_serialized_item jb)"]) simp
    then have "queued_packets (snd (queue_serialized_item jb)) \<subseteq> set (seqnums (snd (queue_serialized_item jb)))
        \<and> length (seqnums (snd (queue_serialized_item jb))) \<le> length (seqnums jb)"
      using assms(2) unfolding jb_effect_def trim by auto
    with True assms(2) show ?thesis
      by (cases p) (auto simp: queue_packet_def poll_def set_flushing_def bt_pop_first_def
        queued_packets_def split: list.splits)
  qed
  with that show ?thesis by blast
qed

lemma jb_run_total:
  assumes "store_ok st" and "queued_packets (jitterbuffer st) \<subseteq> set (seqnums (jitterbuffer st))"
    and "length (seqnums (jitterbuffer st)) + sum_list (map packets_in ps) < 65535"
  shows "jb_run ps st \<noteq> None"
  using assms
proof (induction ps arbitrary: st)
  case (Cons p ps)
  from Cons.prems(3) have "length (seqnums (jitterbuffer st)) < 65535" by simp
  then obtain jb' where jb': "jb_next p (jitterbuffer st) = Some jb'"
    and tr: "queued_packets jb' \<subseteq> set (seqnums jb')"
      "length (seqnums jb') \<le> length (seqnums (jitterbuffer st)) + packets_in p"
    by (rule jb_next_tracked [OF store_ok_inv [OF Cons.prems(1)] Cons.prems(2)])
  then obtain out st' where "jb_step p st = Some (out, st')" "jitterbuffer st' = jb'" "store_ok st'"
    using jb_step_ok [OF Cons.prems(1) jb'] by auto
  with Cons.IH [of st'] tr Cons.prems(3) show ?case by (auto split: option.splits)
qed simp

text \<open>The states a store with a buffer of a given latency, and the buffer, can get into.\<close>

definition store_reachable :: "duration \<Rightarrow> jb_store \<Rightarrow> bool" where
  "store_reachable lat st \<longleftrightarrow> (\<exists>ps out. jb_run ps (JitterBufferStore_new lat) = Some (out, st))"

definition jb_reachable :: "duration \<Rightarrow> jitter_buffer \<Rightarrow> bool" where
  "jb_reachable lat jb \<longleftrightarrow> (\<exists>st. store_reachable lat st \<and> jitterbuffer st = jb)"

lemma store_reachable_ok: "store_reachable lat st \<Longrightarrow> store_ok st"
  by (auto simp: store_reachable_def intro: store_ok_run [OF store_ok_new])

lemma jb_reachable_inv: "jb_reachable lat jb \<Longrightarrow> jb_inv jb"
  by (auto simp: jb_reachable_def intro: store_ok_inv store_reachable_ok)

lemma jb_reachableI: "jb_run ps (JitterBufferStore_new lat) = Some (out, st) \<Longrightarrow> jb_reachable lat (jitterbuffer st)"
  unfolding jb_reachable_def store_reachable_def by blast

lemma jb_next_latency: "jb_next p jb = Some jb' \<Longrightarrow> latency jb' = latency jb"
  by (cases p)
    (auto simp: queue_serialized_item_def set_flushing_def queue_packet_def accept_packet_def
      enqueue_packet_def count_lost_def forward_now_def poll_def poll_ready_def Let_def bind_eq_Some_conv
      split: if_splits option.splits prod.splits)

lemma jb_reachable_latency: "jb_reachable lat jb \<Longrightarrow> latency jb = lat"
proof -
  have "jb_run ps st = Some (out, st') \<Longrightarrow> latency (jitterbuffer st') = latency (jitterbuffer st)" for ps st out st'
    by (induction ps arbitrary: st out)
      (auto simp: bind_eq_Some_conv dest!: jb_step_next jb_next_latency)
  then show "jb_reachable lat jb \<Longrightarrow> latency jb = lat"
    by (auto simp: jb_reachable_def store_reachable_def JitterBufferStore_new_def JitterBuffer_new_def)
qed

text \<open>Packets queued in order on a buffer with a latency, before anything is output.\<close>

lemma jb_run_append:
  "jb_run ps jb = Some (out, jb1) \<Longrightarrow> jb_run qs jb1 = Some (out', jb2) \<Longrightarrow>
    jb_run (ps @ qs) jb = Some (out @ out', jb2)"
  by (induction ps arbitrary: jb out) (auto simp: bind_eq_Some_conv)

definition in_order_state :: "duration \<Rightarrow> nat \<Rightarrow> jitter_buffer" where
  "in_order_state lat n = (set_flushing (JitterBuffer_new lat) False)\<lparr>
     packet_counter := n, seqnums := map ((+) 65536) [0..<n],
     items := map (\<lambda>k. \<lparr>item_id = k, item_deadline = Some lat, item_seqnum = 65536 + k\<rparr>) [0..<n],
     base_times := (if n = 0 then None else Some (0, 0)),
     jb_ext_seqnum := \<lparr>es_last_ext = (if n = 0 then None else Some (65535 + n))\<rparr>\<rparr>"

definition in_order_store :: "duration \<Rightarrow> nat \<Rightarrow> jb_store" where
  "in_order_store lat n = \<lparr>store = (\<lambda>k. if k < n then Some (JbPacket (65536 + k)) else None),
     jitterbuffer = in_order_state lat n\<rparr>"

lemma in_order_ext:
  assumes "n < 65535"
  shows "ExtendedSeqnum_next \<lparr>es_last_ext = (if n = 0 then None else Some (65535 + n))\<rparr> (of_nat n)
    = Some (65536 + n, \<lparr>es_last_ext = Some (65536 + n)\<rparr>)"
proof (cases "n = 0")
  case True
  then show ?thesis by (simp add: ExtendedSeqnum_next_def Let_def)
next
  case False
  have eq: "(of_nat (65536 + n) :: u16) = of_nat n"
    by (simp add: word_eq_iff_unsigned unat_of_nat)
  have "(65535 + n) div 65536 = 1" "(65536 + n) div (65536 :: nat) = 1"
    using assms False by (auto intro!: div_nat_eqI)
  then have "ExtendedSeqnum_next \<lparr>es_last_ext = Some (65535 + n)\<rparr> (of_nat (65536 + n))
      = Some (65536 + n, \<lparr>es_last_ext = Some (65536 + n)\<rparr>)"
    by (intro es_next_exact [where l = "65535 + n"]) (simp_all add: es_ok_def)
  with False show ?thesis unfolding eq by simp
qed

lemma in_order_next:
  assumes n: "n < 65535" and "0 < lat"
  shows "jb_step (QueuePacket (of_nat n) 0 0) (in_order_store lat n) = Some ([], in_order_store lat (Suc n))"
proof -
  let ?jb = "in_order_state lat n"
  have trim: "trim_seqnums (map ((+) 65536) [0..<n]) = map ((+) 65536) [0..<n]"
    using n by (intro trim_seqnums_facts(5)) simp
  have ins: "bt_insert id (65536 + n) (map ((+) 65536) [0..<n]) = (map ((+) 65536) [0..<Suc n], True)"
    by (subst bt_insert_max) auto
  let ?mk = "\<lambda>k. \<lparr>item_id = k, item_deadline = Some lat, item_seqnum = 65536 + k\<rparr>"
  have ins': "bt_insert item_key (?mk n) (map ?mk [0..<n]) = (map ?mk [0..<Suc n], True)"
    by (subst bt_insert_max) (auto simp: item_key_def)
  have "queue_packet ?jb (of_nat n) 0 0 = accept_packet
      (?jb\<lparr>jb_ext_seqnum := \<lparr>es_last_ext = Some (65536 + n)\<rparr>, seqnums := map ((+) 65536) [0..<Suc n]\<rparr>)
      (65536 + n) 0 0"
    by (simp add: queue_packet_def in_order_state_def set_flushing_def JitterBuffer_new_def
        in_order_ext [OF n] trim ins)
  also have "\<dots> = Some (Queued n, in_order_state lat (Suc n))"
    using assms(2) by (cases "n = 0") (simp_all add: accept_packet_def enqueue_packet_def in_order_state_def
        set_flushing_def JitterBuffer_new_def ins')
  finally have "queue_packet ?jb (of_nat n) 0 0 = Some (Queued n, in_order_state lat (Suc n))" .
  moreover have "jb_ext_seqnum ?jb = \<lparr>es_last_ext = (if n = 0 then None else Some (65535 + n))\<rparr>"
    by (simp add: in_order_state_def)
  then have "packet_number ?jb (of_nat n) = 65536 + n"
    unfolding packet_number_def by (simp only: in_order_ext [OF n] option.case prod.case)
  ultimately show ?thesis
    by (simp add: store_queue_packet_def in_order_store_def fun_eq_iff)
qed

definition in_order_packets :: "nat \<Rightarrow> jb_op list" where
  "in_order_packets n = map (\<lambda>k. QueuePacket (of_nat k) 0 0) [0..<n]"

lemma in_order_run:
  assumes "n \<le> 65535" and "0 < lat"
  shows "jb_run (SetFlushing False # in_order_packets n) (JitterBufferStore_new lat) = Some ([], in_order_store lat n)"
proof -
  have "jb_run (in_order_packets n) (in_order_store lat 0) = Some ([], in_order_store lat n)"
    using assms(1)
  proof (induction n)
    case (Suc n)
    with in_order_next [of n lat] assms(2)
    have "jb_run [QueuePacket (of_nat n) 0 0] (in_order_store lat n) = Some ([], in_order_store lat (Suc n))"
      by (simp del: jb_step.simps)
    with jb_run_append [OF Suc.IH this] Suc.prems show ?case by (simp add: in_order_packets_def)
  qed (simp add: in_order_packets_def)
  moreover have "in_order_store lat 0
      = (JitterBufferStore_new lat)\<lparr>jitterbuffer := set_flushing (JitterBuffer_new lat) False\<rparr>"
    by (simp add: in_order_store_def in_order_state_def set_flushing_def JitterBuffer_new_def
        ExtendedSeqnum_default_def JitterBufferStore_new_def)
  ultimately show ?thesis by (simp add: JitterBufferStore_new_def)
qed

text \<open>A duplicate from earlier in the same cycle moves the extended counter back to it.\<close>

lemma duplicate_step:
  assumes "jitterbuffer st = jb" and "\<not> flushing jb" and "es_last_ext (jb_ext_seqnum jb) = Some l"
    and "es_ok (jb_ext_seqnum jb)"
    and "l div 2 ^ 16 \<le> n div 2 ^ 16" and "n < l + 2 ^ 15" and "l < n + 2 ^ 15"
    and "n \<in> set (trim_seqnums (seqnums jb))" and "r = of_nat n"
  shows "jb_step (QueuePacket r p t) st = Some ([], st\<lparr>jitterbuffer :=
    jb\<lparr>jb_ext_seqnum := \<lparr>es_last_ext = Some n\<rparr>, seqnums := trim_seqnums (seqnums jb),
      stats := (stats jb)\<lparr>num_duplicates := num_duplicates (stats jb) + 1\<rparr>\<rparr>\<rparr>)"
  using es_next_exact [OF assms(4,3,5,6,7)] assms by (simp add: queue_packet_def store_queue_packet_def)

lemma requeue_trimmed:
  assumes "jb_inv jb" and "\<not> flushing jb" and "es_last_ext (jb_ext_seqnum jb) = Some l"
    and "l div 2 ^ 16 \<le> n div 2 ^ 16" and "n < l + 2 ^ 15" and "l < n + 2 ^ 15"
    and "n \<notin> set (trim_seqnums (seqnums jb))" and "n \<in> queued_packets jb"
    and "last_output_seqnum jb = None" and "r = of_nat n"
  shows "queue_packet jb r p t = None"
proof -
  have ok: "es_ok (jb_ext_seqnum jb)" using assms(1) by (simp add: jb_inv_def)
  let ?jb = "jb_record jb \<lparr>es_last_ext = Some n\<rparr> n"
  have "items jb \<noteq> []" using assms(8) by (auto simp: queued_packets_def)
  then have "queue_packet jb r p t = enqueue_packet ?jb n p t"
    using es_next_exact [OF ok assms(3-6)] assms(2,7,9,10)
    by (simp add: queue_packet_def accept_packet_def jb_record_def)
  moreover have "jb_inv ?jb"
    by (rule jb_record_facts(1) [OF assms(1)]) (rule es_next_ok [OF ok es_next_exact [OF ok assms(3-6)]])
  ultimately show ?thesis using assms(8) by (simp add: enqueue_packet_None jb_record_def)
qed

lemma unreachable_reached:
  assumes N: "N = 65535" and "0 < lat"
  obtains st where "jb_run (SetFlushing False # in_order_packets N
      @ [QueuePacket 40000 0 0, QueuePacket 20000 0 0]) (JitterBufferStore_new lat) = Some ([], st)"
    and "queue_packet (jitterbuffer st) 0 0 0 = None"
proof -
  let ?ps = "SetFlushing False # in_order_packets N"
  let ?qs = "[QueuePacket 40000 0 0, QueuePacket 20000 0 0]"
  let ?jb = "in_order_state lat N"
  let ?st = "in_order_store lat N"
  have st: "jitterbuffer ?st = ?jb" by (simp add: in_order_store_def)
  have run: "jb_run ?ps (JitterBufferStore_new lat) = Some ([], ?st)"
    using assms by (intro in_order_run) simp_all
  have "trim_seqnums (seqnums ?jb) = map ((+) 65536) [1..<N]"
    by (simp add: trim_seqnums_drop in_order_state_def drop_map N drop_upt del: upt_rec_numeral)
  then have trim: "n \<in> set (trim_seqnums (seqnums ?jb)) \<longleftrightarrow> 65536 < n \<and> n < 131071" for n
    by (auto simp: N image_iff simp del: upt_rec_numeral)
  have trim2: "trim_seqnums (trim_seqnums (seqnums ?jb)) = trim_seqnums (seqnums ?jb)"
    using trim_seqnums_facts(1,5) by blast
  have "(65536, False) \<in> item_key ` set (items ?jb)"
    by (auto simp: in_order_state_def N item_key_def image_iff simp del: upt_rec_numeral)
  then have queued: "65536 \<in> queued_packets ?jb" by (simp only: queued_packets_key)
  have [simp]: "\<not> flushing ?jb" "jb_ext_seqnum ?jb = \<lparr>es_last_ext = Some 131070\<rparr>"
    "last_output_seqnum ?jb = None"
    by (simp_all add: in_order_state_def set_flushing_def N)
  let ?jb1 = "?jb\<lparr>jb_ext_seqnum := \<lparr>es_last_ext = Some 105536\<rparr>,
    seqnums := trim_seqnums (seqnums ?jb),
    stats := (stats ?jb)\<lparr>num_duplicates := num_duplicates (stats ?jb) + 1\<rparr>\<rparr>"
  let ?jb2 = "?jb1\<lparr>jb_ext_seqnum := \<lparr>es_last_ext = Some 85536\<rparr>,
    seqnums := trim_seqnums (seqnums ?jb1),
    stats := (stats ?jb1)\<lparr>num_duplicates := num_duplicates (stats ?jb1) + 1\<rparr>\<rparr>"
  have "jb_step (QueuePacket 40000 0 0) ?st = Some ([], ?st\<lparr>jitterbuffer := ?jb1\<rparr>)"
    by (rule duplicate_step [where l = 131070])
      (simp_all add: st es_ok_def trim trim2)
  moreover have "jb_step (QueuePacket 20000 0 0) (?st\<lparr>jitterbuffer := ?jb1\<rparr>)
      = Some ([], (?st\<lparr>jitterbuffer := ?jb1\<rparr>)\<lparr>jitterbuffer := ?jb2\<rparr>)"
    by (rule duplicate_step [where l = 105536])
      (simp_all add: es_ok_def trim trim2)
  ultimately have "jb_run ?qs ?st = Some ([], ?st\<lparr>jitterbuffer := ?jb2\<rparr>)"
    by (simp del: jb_step.simps)
  from jb_run_append [OF run this]
  have run2: "jb_run (?ps @ ?qs) (JitterBufferStore_new lat) = Some ([], ?st\<lparr>jitterbuffer := ?jb2\<rparr>)" by simp
  then have "jb_inv ?jb2" using store_ok_inv [OF store_ok_run [OF store_ok_new run2]] by simp
  then have "queue_packet ?jb2 0 0 0 = None"
    by (rule requeue_trimmed [where l = 85536 and n = 65536]) (simp_all add: trim trim2 queued)
  with run2 that show ?thesis by simp
qed

section \<open>Properties\<close>

lemma jitter_buffer_latency_zero_inv:
  assumes "jb_reachable 0 jb"
  shows "items jb = [] \<and> can_forward_packets_when_empty jb \<and> latency jb = 0"
  using jb_reachable_inv [OF assms] jb_reachable_latency [OF assms] by (simp add: jb_inv_def)

text \<open>A small stream: packets 2, 1, 1, 4 on a buffer of latency 10, polled at 20 and 30.\<close>

definition example_ops :: "jb_op list" where
  "example_ops = [QueuePacket 2 10 0, QueuePacket 1 5 0, QueuePacket 1 5 0, QueuePacket 4 20 3,
     Poll 20, Poll 20, Poll 30, Poll 31]"

definition example_store :: jb_store where
  "example_store = \<lparr>store = Map.empty, jitterbuffer = set_flushing (JitterBuffer_new 10) False\<rparr>"

lemmas jb_eval = example_ops_def example_store_def JitterBufferStore_new_def set_flushing_def
  JitterBuffer_new_def ExtendedSeqnum_default_def store_queue_packet_def packet_number_def
  queue_packet_def ExtendedSeqnum_next_def accept_packet_def enqueue_packet_def store_poll_def
  store_remove_def poll_def poll_ready_def bt_pop_first_def item_key_def usub_def Let_def

lemma example_run:
  "\<exists>st'. jb_run example_ops example_store = Some ([(65537, True), (65538, False), (65540, True)], st')
    \<and> stats (jitterbuffer st') = \<lparr>num_late = 0, num_lost = 1, num_duplicates = 1, num_pushed = 3\<rparr>
    \<and> items (jitterbuffer st') = []"
  by (simp add: jb_eval)

lemma example_start:
  "store_reachable 10 example_store"
  "\<not> flushing (jitterbuffer example_store)"
  "\<forall>p \<in> set example_ops. \<not> is_set_flushing p"
proof -
  have "jb_run [SetFlushing False] (JitterBufferStore_new 10) = Some ([], example_store)"
    by (simp add: example_store_def JitterBufferStore_new_def)
  then show "store_reachable 10 example_store"
    unfolding store_reachable_def by blast
qed (simp_all add: example_store_def set_flushing_def example_ops_def)

text \<open>C7: In every state the buffer can reach, the queue is strictly ordered by sequence number
  with packets before serialized items, its ids are distinct and were handed out before, every
  queued packet is above the last one output, and a queued packet implies base times: the
  invariant holds after any sequence of operations.\<close>

theorem jitter_buffer_invariant:
  assumes "jb_reachable lat jb"
  shows "jb_inv jb \<and> latency jb = lat"
  using assms by (simp add: jb_reachable_inv jb_reachable_latency)

theorem jitter_buffer_invariant_witness:
  "jb_inv (snd (queue_serialized_item (set_flushing (JitterBuffer_new 5) False)))"
proof -
  have "\<exists>st. jb_run [SetFlushing False, QueueSerializedItem] (JitterBufferStore_new 5) = Some ([], st)
      \<and> jitterbuffer st = snd (queue_serialized_item (set_flushing (JitterBuffer_new 5) False))"
    by (simp add: JitterBufferStore_new_def store_queue_serialized_item_def set_flushing_def
        queue_serialized_item_def JitterBuffer_new_def)
  then obtain st where st: "jb_run [SetFlushing False, QueueSerializedItem] (JitterBufferStore_new 5) = Some ([], st)"
    "jitterbuffer st = snd (queue_serialized_item (set_flushing (JitterBuffer_new 5) False))" by blast
  from jitter_buffer_invariant [OF jb_reachableI [OF st(1)]] st(2) show ?thesis by simp
qed

text \<open>C1: Between two flushes, the packets that the element pushes, directly or out of its store
  under the ids that \<^verbatim>\<open>poll\<close> returns, leave in strictly increasing order of their extended sequence
  numbers, above whatever was output before, no matter in which order they arrived. A packet has
  the DISCONT flag exactly when it does not follow the packet pushed before it, and \<^verbatim>\<open>num_pushed\<close>
  counts exactly the packets pushed.\<close>

theorem jitter_buffer_in_order:
  assumes "store_reachable lat st" and "\<not> flushing (jitterbuffer st)"
    and "\<forall>p \<in> set ps. \<not> is_set_flushing p" and "jb_run ps st = Some (out, st')"
  shows "sorted_wrt (<) (map fst out)
    \<and> (\<forall>l s. last_output_seqnum (jitterbuffer st) = Some l \<longrightarrow> s \<in> fst ` set out \<longrightarrow> l < s)
    \<and> marks_ok (last_output_seqnum (jitterbuffer st)) out
    \<and> num_pushed (stats (jitterbuffer st')) = num_pushed (stats (jitterbuffer st)) + length out"
  using jb_run_log [OF assms(4) store_reachable_ok [OF assms(1)] assms(2,3)]
  by (auto simp: jb_log_ok_def)

theorem jitter_buffer_in_order_witness:
  "\<exists>out st'. jb_run example_ops example_store = Some (out, st')
    \<and> length out = 3 \<and> sorted_wrt (<) (map fst out) \<and> marks_ok None out"
proof -
  from example_run obtain st' where
    "jb_run example_ops example_store = Some ([(65537, True), (65538, False), (65540, True)], st')" by blast
  with jitter_buffer_in_order [OF example_start this] show ?thesis by auto
qed

text \<open>C3: Loss accounting. Between two flushes, every extended sequence number from the first
  packet pushed to the last one is either pushed or counted by \<^verbatim>\<open>num_lost\<close>, never both.\<close>

theorem jitter_buffer_loss_accounting:
  assumes "store_reachable lat st" and "\<not> flushing (jitterbuffer st)"
    and "\<forall>p \<in> set ps. \<not> is_set_flushing p" and "jb_run ps st = Some (out, st')"
    and "last_output_seqnum (jitterbuffer st) = None" and "out \<noteq> []"
  shows "num_lost (stats (jitterbuffer st')) - num_lost (stats (jitterbuffer st)) + length out
      = fst (last out) - fst (hd out) + 1
    \<and> num_lost (stats (jitterbuffer st)) \<le> num_lost (stats (jitterbuffer st'))
    \<and> last_output_seqnum (jitterbuffer st') = Some (fst (last out))"
proof -
  note log = jb_run_log [OF assms(4) store_reachable_ok [OF assms(1)] assms(2,3)]
  have "hd (map fst out) + length (map fst out) \<le> Suc (last (map fst out))"
    using log assms(6) by (intro bt_ok_length_le) (auto simp: jb_log_ok_def)
  then have "fst (hd out) + length out \<le> Suc (fst (last out))"
    using assms(6) by (simp add: hd_map last_map)
  with log assms(5,6) show ?thesis by auto
qed

theorem jitter_buffer_loss_accounting_witness:
  "\<exists>st'. jb_run example_ops example_store = Some ([(65537, True), (65538, False), (65540, True)], st')
    \<and> num_lost (stats (jitterbuffer st')) + 3 = 65540 - 65537 + 1"
proof -
  from example_run obtain st' where run:
    "jb_run example_ops example_store = Some ([(65537, True), (65538, False), (65540, True)], st')" by blast
  have "last_output_seqnum (jitterbuffer example_store) = None"
    by (simp add: example_store_def set_flushing_def)
  from jitter_buffer_loss_accounting [OF example_start run this] run show ?thesis
    by (simp add: example_store_def set_flushing_def JitterBuffer_new_def)
qed

text \<open>C2: Packet accounting. Between two flushes, every packet handed to
  \<^verbatim>\<open>queue_packet\<close> is counted exactly once: as late, as a duplicate, as pushed, or as a
  packet still in the queue.\<close>

theorem jitter_buffer_packet_accounting:
  assumes "store_reachable lat st" and "\<not> flushing (jitterbuffer st)"
    and "\<forall>p \<in> set ps. \<not> is_set_flushing p" and "jb_run ps st = Some (out, st')"
  shows "num_late (stats (jitterbuffer st')) + num_duplicates (stats (jitterbuffer st'))
      + num_pushed (stats (jitterbuffer st')) + card (queued_packets (jitterbuffer st'))
    = num_late (stats (jitterbuffer st)) + num_duplicates (stats (jitterbuffer st))
      + num_pushed (stats (jitterbuffer st)) + card (queued_packets (jitterbuffer st))
      + sum_list (map packets_in ps)"
  using jb_run_account [OF assms(4) store_reachable_ok [OF assms(1)] assms(2,3)]
  by (simp add: jb_account_def)

theorem jitter_buffer_packet_accounting_witness:
  "\<exists>st'. jb_run example_ops example_store = Some ([(65537, True), (65538, False), (65540, True)], st')
    \<and> num_late (stats (jitterbuffer st')) + num_duplicates (stats (jitterbuffer st'))
      + num_pushed (stats (jitterbuffer st')) + card (queued_packets (jitterbuffer st')) = 4"
proof -
  from example_run obtain st' where run:
    "jb_run example_ops example_store = Some ([(65537, True), (65538, False), (65540, True)], st')" by blast
  from jitter_buffer_packet_accounting [OF example_start run] run show ?thesis
    by (simp add: example_store_def set_flushing_def JitterBuffer_new_def queued_packets_def example_ops_def)
qed

text \<open>C6: No panic. As long as at most 65534 packets have been handed to a buffer since it was
  created, no sequence of operations, in any order and with any arguments, reaches the
  \<^verbatim>\<open>unreachable!()\<close>, the \<^verbatim>\<open>assert!\<close>, a subtraction that underflows, or an id that is not in
  the store of the element.\<close>

theorem jitter_buffer_no_panic:
  assumes "sum_list (map packets_in ps) < 65535"
  shows "\<exists>out st. jb_run ps (JitterBufferStore_new lat) = Some (out, st)"
proof -
  have "jb_run ps (JitterBufferStore_new lat) \<noteq> None"
    using assms by (intro jb_run_total store_ok_new)
      (simp_all add: JitterBufferStore_new_def JitterBuffer_new_def queued_packets_def)
  then show ?thesis by auto
qed

theorem jitter_buffer_no_panic_witness:
  "\<exists>out st. jb_run (SetFlushing False # example_ops) (JitterBufferStore_new 10) = Some (out, st)"
  by (rule jitter_buffer_no_panic) (simp add: example_ops_def)

text \<open>C34: Past that bound the \<^verbatim>\<open>unreachable!()\<close> of \<^verbatim>\<open>queue_packet\<close> is reachable. With
  65535 packets queued, the trimming forgets the oldest one while it is still queued; two
  duplicates move the extended counter back, and a repeat of the oldest packet panics.\<close>

theorem jitter_buffer_unreachable_reached:
  "\<exists>st. jb_run (SetFlushing False # in_order_packets 65535
      @ [QueuePacket 40000 0 0, QueuePacket 20000 0 0]) (JitterBufferStore_new (Suc lat)) = Some ([], st)
    \<and> queue_packet (jitterbuffer st) 0 0 0 = None"
  by (rule unreachable_reached [OF refl, of "Suc lat"]) (simp, blast)

text \<open>C27: The timeout that \<^verbatim>\<open>poll\<close> returns is exact: it lies in the future, and polling again
  before it changes nothing and returns it again. Polling at it or later forwards the first item
  of the queue, the packet with the smallest queued sequence number: the result has the id of
  that packet, the packet leaves the queue, and its number is the last one output.\<close>

theorem jitter_buffer_timeout:
  assumes "jb_reachable lat jb" and "poll jb now = Some (PollTimeout t, jb')"
  shows "now < t \<and> jb' = jb \<and> (\<forall>u. u < t \<longrightarrow> poll jb u = Some (PollTimeout t, jb))
    \<and> (\<exists>i rest discont. items jb = i # rest \<and> item_deadline i \<noteq> None
         \<and> item_seqnum i = Min (queued_packets jb)
         \<and> (discont \<longleftrightarrow> map_option Suc (last_output_seqnum jb) \<noteq> Some (item_seqnum i))
         \<and> (\<forall>u \<ge> t. \<exists>jb''. poll jb u = Some (PollForward (item_id i) discont, jb'')
              \<and> items jb'' = rest \<and> last_output_seqnum jb'' = Some (item_seqnum i)))"
proof -
  note inv = jb_reachable_inv [OF assms(1)]
  from assms(2) obtain i rest d bi bp where it: "items jb = i # rest" "item_deadline i = Some d"
    "base_times jb = Some (bi, bp)" "\<not> flushing jb" "t = bi + d" "\<not> d \<le> now - bi" "jb' = jb"
    by (auto simp: poll_def bt_pop_first_def poll_ready_def bind_eq_Some_conv
        split: if_splits option.splits list.splits)
  obtain r jb2 where ready: "poll_ready jb i rest = Some (r, jb2)" "items jb2 = rest"
    "last_output_seqnum jb2 = Some (item_seqnum i)"
    "r = PollForward (item_id i) (map_option Suc (last_output_seqnum jb) \<noteq> Some (item_seqnum i))"
    by (rule poll_ready_effect [OF inv it(1,2)])
  have "poll jb u = Some (PollTimeout t, jb)" if "u < t" for u
    using that it by (auto simp: poll_def bt_pop_first_def)
  moreover have "poll jb u = Some (r, jb2)" if "t \<le> u" for u
    using that it ready(1) by (auto simp: poll_def bt_pop_first_def)
  moreover have "item_seqnum i = Min (queued_packets jb)"
    using queued_packets_Cons(2) [OF inv it(1)] it(2)
    by (intro Min_eqI [symmetric]) (auto simp: less_imp_le)
  ultimately show ?thesis using it ready by auto
qed

theorem jitter_buffer_timeout_witness:
  "\<exists>jb. jb_reachable 10 jb \<and> poll jb 4 = Some (PollTimeout 13, jb) \<and> 4 < (13::nat)
    \<and> poll jb 12 = Some (PollTimeout 13, jb)
    \<and> (\<exists>jb''. poll jb 13 = Some (PollForward 0 True, jb'') \<and> items jb'' = [])"
proof -
  have "\<exists>st. jb_run [SetFlushing False, QueuePacket 7 100 3] (JitterBufferStore_new 10) = Some ([], st)
    \<and> poll (jitterbuffer st) 4 = Some (PollTimeout 13, jitterbuffer st)
    \<and> (\<exists>i. items (jitterbuffer st) = [i] \<and> item_id i = 0)
    \<and> last_output_seqnum (jitterbuffer st) = None"
    by (simp add: jb_eval)
  then obtain st where st: "jb_run [SetFlushing False, QueuePacket 7 100 3] (JitterBufferStore_new 10) = Some ([], st)"
    "poll (jitterbuffer st) 4 = Some (PollTimeout 13, jitterbuffer st)"
    "\<exists>i. items (jitterbuffer st) = [i] \<and> item_id i = 0"
    "last_output_seqnum (jitterbuffer st) = None" by blast
  from jitter_buffer_timeout [OF jb_reachableI [OF st(1)] st(2)] st jb_reachableI [OF st(1)]
  show ?thesis by (intro exI [of _ "jitterbuffer st"]) auto
qed

text \<open>A buffer with no latency never holds anything back: nothing is ever queued, and a packet
  that is not late or a duplicate is forwarded by the call that brings it in.\<close>

theorem jitter_buffer_zero_latency:
  assumes "jb_reachable 0 jb" and "queue_packet jb sn pts t = Some (r, jb')"
  shows "items jb = [] \<and> items jb' = []
    \<and> r \<in> {Late, Duplicate, QueueFlushing} \<union> range (\<lambda>b. QueueForward (packet_counter jb) b)"
proof -
  from assms(1) have inv: "items jb = []" "can_forward_packets_when_empty jb" "latency jb = 0"
    using jitter_buffer_latency_zero_inv by blast+
  with assms(2) show ?thesis
    by (auto simp: queue_packet_def accept_packet_def forward_now_def count_lost_def Let_def
        bind_eq_Some_conv split: if_splits option.splits)
qed

theorem jitter_buffer_zero_latency_witness:
  "\<exists>jb jb'. jb_reachable 0 jb \<and> queue_packet jb 9 0 0 = Some (QueueForward 0 True, jb') \<and> items jb' = []"
proof -
  have "\<exists>st jb'. jb_run [SetFlushing False] (JitterBufferStore_new 0) = Some ([], st)
    \<and> queue_packet (jitterbuffer st) 9 0 0 = Some (QueueForward 0 True, jb')"
    by (simp add: jb_eval forward_now_def count_lost_def)
  then obtain jb jb' where jb: "jb_reachable 0 jb" "queue_packet jb 9 0 0 = Some (QueueForward 0 True, jb')"
    using jb_reachableI by blast
  with jitter_buffer_zero_latency [OF jb] show ?thesis by blast
qed

text \<open>Of two serialized items (events or queries) queued one after the other behind
  waiting packets, only the first enters the queue. The second compares equal to it, so
  the insertion drops it, although its id is returned as queued.\<close>

theorem second_serialized_item_dropped:
  assumes "jb_reachable lat jb" and "items jb \<noteq> []" and "queue_serialized_item jb = (r1, jb1)"
    and "queue_serialized_item jb1 = (r2, jb2)"
  shows "r1 = Queued (packet_counter jb) \<and> r2 = Queued (packet_counter jb + 1)
    \<and> items jb2 = items jb1 \<and> (\<forall>i \<in> set (items jb2). item_id i \<noteq> packet_counter jb + 1)"
proof -
  let ?i = "\<lambda>n. \<lparr>item_id = n, item_deadline = None,
    item_seqnum = (case bt_last (seqnums jb) of None \<Rightarrow> 0 | Some s \<Rightarrow> s)\<rparr>"
  let ?p = "packet_counter jb"
  let ?xs = "fst (bt_insert item_key (?i ?p) (items jb))"
  from assms(2,3) have 1: "r1 = Queued ?p"
    "jb1 = jb\<lparr>packet_counter := ?p + 1, items := ?xs\<rparr>"
    by (auto simp: queue_serialized_item_def Let_def)
  with assms(4) have 2: "r2 = Queued (?p + 1)"
    "items jb2 = fst (bt_insert item_key (?i (?p + 1)) ?xs)"
    by (auto simp: queue_serialized_item_def Let_def bt_insert_ne)
  have inv: "jb_inv jb" by (rule jb_reachable_inv [OF assms(1)])
  then have ok: "bt_ok item_key ?xs" by (intro bt_insert_ok) (simp add: jb_inv_def)
  have "item_key (?i (?p + 1)) \<in> item_key ` set ?xs"
    unfolding bt_insert_keys by (simp add: item_key_def)
  then have "\<not> snd (bt_insert item_key (?i (?p + 1)) ?xs)"
    by (simp add: bt_insert_False_iff [OF ok])
  with 2 have "items jb2 = ?xs" by (simp add: bt_insert_old)
  moreover have "item_id i \<noteq> ?p + 1" if "i \<in> set ?xs" for i
  proof -
    from that bt_insert_set [of item_key "?i ?p" "items jb"]
    have "i = ?i ?p \<or> i \<in> set (items jb)" by blast
    with inv show ?thesis by (auto simp: jb_inv_def)
  qed
  ultimately show ?thesis using 1 2 by auto
qed

theorem second_serialized_item_dropped_witness:
  "\<exists>jb jb1 jb2. jb_reachable 10 jb \<and> queue_serialized_item jb = (Queued 1, jb1)
    \<and> queue_serialized_item jb1 = (Queued 2, jb2) \<and> items jb2 = items jb1"
proof -
  have "\<exists>st. jb_run [SetFlushing False, QueuePacket 7 100 3] (JitterBufferStore_new 10) = Some ([], st)
    \<and> items (jitterbuffer st) \<noteq> [] \<and> packet_counter (jitterbuffer st) = 1"
    by (simp add: jb_eval)
  then obtain jb where jb: "jb_reachable 10 jb" "items jb \<noteq> []" "packet_counter jb = 1"
    using jb_reachableI by blast
  obtain r1 jb1 where q1: "queue_serialized_item jb = (r1, jb1)" by (cases "queue_serialized_item jb")
  obtain r2 jb2 where q2: "queue_serialized_item jb1 = (r2, jb2)" by (cases "queue_serialized_item jb1")
  from second_serialized_item_dropped [OF jb(1,2) q1 q2] jb q1 q2 show ?thesis by auto
qed

end
