(* ===== verification/Rtp_Source.thy ===== *)
theory Rtp_Source
  imports Ext_Counters Ntp_Time
begin

text \<open>
  The sources of an RTP session, \<^verbatim>\<open>net/rtp/src/rtpbin2/source.rs\<close>: what is kept per SSRC for
  local and remote senders and receivers, the probation of a new remote sender, the reception
  statistics and the report blocks made from them, the bitrate window, and the pending
  key-unit requests.

  A \<^verbatim>\<open>HashMap\<close> that is only looked up is a map; a string is the list of its bytes. The
  process-wide \<^verbatim>\<open>INITIAL_RECV_TIME\<close> is a value that the reception of a packet takes and returns.
\<close>

unbundle bit_operations_syntax

section \<open>Definitions\<close>

subsection \<open>Report blocks\<close>

type_synonym rstring = "u8 list"

definition DEFAULT_PROBATION_N_PACKETS :: nat where "DEFAULT_PROBATION_N_PACKETS = 2"
definition DEFAULT_MAX_DROPOUT :: int where "DEFAULT_MAX_DROPOUT = 3000"
definition DEFAULT_MAX_MISORDER :: int where "DEFAULT_MAX_MISORDER = 100"
definition BITRATE_WINDOW :: duration where "BITRATE_WINDOW = 3 * SECOND"

record rb =
  rb_ssrc :: u32
  rb_fraction_lost :: u8
  rb_cumulative_lost :: u32
  rb_extended_sequence_number :: u32
  rb_jitter :: u32
  rb_last_sr :: u32
  rb_delay_since_last_sr :: u32

definition Rb_cumulative_lost :: "rb \<Rightarrow> int" where
  "Rb_cumulative_lost self =
     (if 0 < (rb_cumulative_lost self AND 0x800000)
      then - sint (rb_cumulative_lost self AND 0x7fffff)
      else sint (rb_cumulative_lost self))"

text \<open>The values a received \<^verbatim>\<open>ReportBlock\<close> answers, and those a builder is given.\<close>

record report_block =
  blk_ssrc :: u32
  blk_fraction_lost :: u8
  blk_cumulative_lost :: u32
  blk_extended_sequence_number :: u32
  blk_interarrival_jitter :: u32
  blk_last_sender_report_timestamp :: u32
  blk_delay_since_last_sender_report_timestamp :: u32

definition Rb_from :: "report_block \<Rightarrow> rb" where
  "Rb_from value = \<lparr>
     rb_ssrc = blk_ssrc value,
     rb_fraction_lost = blk_fraction_lost value,
     rb_cumulative_lost = blk_cumulative_lost value,
     rb_extended_sequence_number = blk_extended_sequence_number value,
     rb_jitter = blk_interarrival_jitter value,
     rb_last_sr = blk_last_sender_report_timestamp value,
     rb_delay_since_last_sr = blk_delay_since_last_sender_report_timestamp value\<rparr>"

definition Rb_into_builder :: "rb \<Rightarrow> report_block" where
  "Rb_into_builder value = \<lparr>
     blk_ssrc = rb_ssrc value,
     blk_fraction_lost = rb_fraction_lost value,
     blk_cumulative_lost = rb_cumulative_lost value,
     blk_extended_sequence_number = rb_extended_sequence_number value,
     blk_interarrival_jitter = rb_jitter value,
     blk_last_sender_report_timestamp = rb_last_sr value,
     blk_delay_since_last_sender_report_timestamp = rb_delay_since_last_sr value\<rparr>"

subsection \<open>The common part of a source\<close>

datatype source_state = Probation nat | Normal | Bye

record source =
  src_ssrc :: u32
  src_state :: source_state
  src_sdes :: "(u8 \<times> rstring) list"
  src_last_activity :: instant
  src_payload_type :: "u8 option"

definition Source_new :: "u32 \<Rightarrow> instant \<Rightarrow> source" where
  "Source_new ssrc now = \<lparr>
     src_ssrc = ssrc, src_state = Probation DEFAULT_PROBATION_N_PACKETS, src_sdes = [],
     src_last_activity = now, src_payload_type = None\<rparr>"

definition Source_set_state :: "source_state \<Rightarrow> source \<Rightarrow> source" where
  "Source_set_state st self = self\<lparr>src_state := st\<rparr>"

record received_rb =
  rcv_rb :: rb
  rcv_receive_time :: instant
  rcv_receive_ntp_time :: ntp_time

definition round_trip_time :: "received_rb \<Rightarrow> duration" where
  "round_trip_time self =
     (let rb_send_ntp_time = unat (rb_last_sr (rcv_rb self)) + unat (rb_delay_since_last_sr (rcv_rb self))
      in if rb_send_ntp_time = 0 then 0
      else
        let rb_recv_ntp_time = unat (as_u32 (rcv_receive_ntp_time self));
            rb_recv_ntp_time =
              (if rb_send_ntp_time > rb_recv_ntp_time \<and> rb_send_ntp_time - rb_recv_ntp_time > 0x7fffffff
               then rb_recv_ntp_time + 0xffffffff else rb_recv_ntp_time);
            diff = rb_recv_ntp_time - rb_send_ntp_time
        in if drop_bit 16 diff > 5 then SECOND
           else 2 * diff * 1000000000 div 65536)"

subsection \<open>The bitrate window\<close>

record bitrate =
  br_max_time :: duration
  br_entries :: "(nat \<times> instant) list"

definition Bitrate_new :: "duration \<Rightarrow> bitrate" where
  "Bitrate_new max_time = \<lparr>br_max_time = max_time, br_entries = []\<rparr>"

text \<open>The entries are popped from the front until one is inside the window.\<close>

fun drop_outside :: "duration \<Rightarrow> instant \<Rightarrow> (nat \<times> instant) list \<Rightarrow> (nat \<times> instant) list" where
  "drop_outside max_time time [] = []"
| "drop_outside max_time time ((bytes, latest_time) # es) =
     (if time - latest_time < max_time then (bytes, latest_time) # es
      else drop_outside max_time time es)"

definition Bitrate_add_entry :: "nat \<Rightarrow> instant \<Rightarrow> bitrate \<Rightarrow> bitrate" where
  "Bitrate_add_entry bytes time self =
     self\<lparr>br_entries := drop_outside (br_max_time self) time (br_entries self @ [(bytes, time)])\<rparr>"

definition Bitrate_bitrate :: "gst_lib \<Rightarrow> bitrate \<Rightarrow> nat" where
  "Bitrate_bitrate L self =
     (case br_entries self of
        [] \<Rightarrow> 0
      | front # _ \<Rightarrow>
          let back = last (br_entries self);
              dur_micros = (snd back - snd front) div 1000
          in if dur_micros = 0 then fst front
             else
               let bytes = sum_list (map fst (br_entries self))
               in (case mul_div_round L bytes 1000000 dur_micros of
                     None \<Rightarrow> fst front | Some v \<Rightarrow> v))"

definition Bitrate_reset :: "bitrate \<Rightarrow> bitrate" where
  "Bitrate_reset self = self\<lparr>br_entries := []\<rparr>"

subsection \<open>Local sources\<close>

record sr =
  sr_local_time :: system_time
  sr_remote_time :: ntp_time
  sr_rtp_time :: u32
  sr_octet_count :: u32
  sr_packet_count :: u32

record local_receive_source =
  lr_source :: source
  lr_bye_sent_time :: "instant option"
  lr_bye_reason :: "rstring option"

record local_send_source =
  ls_source :: source
  ls_ext_seqnum :: extended_seqnum
  ls_last_rtp_sent :: "(u32 \<times> instant) option"
  ls_sent_bytes :: nat
  ls_sent_packets :: nat
  ls_bitrate :: bitrate
  ls_bye_sent_time :: "instant option"
  ls_bye_reason :: "rstring option"
  ls_last_sent_sr :: "sr option"
  ls_last_received_rb :: "u32 \<rightharpoonup> received_rb"

definition LocalSendSource_new :: "u32 \<Rightarrow> instant \<Rightarrow> local_send_source" where
  "LocalSendSource_new ssrc now = \<lparr>
     ls_source = Source_new ssrc now, ls_ext_seqnum = ExtendedSeqnum_default,
     ls_last_rtp_sent = None, ls_sent_bytes = 0, ls_sent_packets = 0,
     ls_bitrate = Bitrate_new BITRATE_WINDOW, ls_bye_sent_time = None, ls_bye_reason = None,
     ls_last_sent_sr = None, ls_last_received_rb = Map.empty\<rparr>"

definition ls_set_state :: "source_state \<Rightarrow> local_send_source \<Rightarrow> local_send_source" where
  "ls_set_state st self = self\<lparr>ls_source := Source_set_state st (ls_source self)\<rparr>"

definition ls_state :: "local_send_source \<Rightarrow> source_state" where
  "ls_state self = src_state (ls_source self)"

definition sent_packet ::
  "local_send_source \<Rightarrow> nat \<Rightarrow> instant \<Rightarrow> u16 \<Rightarrow> u32 \<Rightarrow> u8 \<Rightarrow> local_send_source option" where
  "sent_packet self bytes time seqnum rtp_time payload_type = do {
     (_, ext) \<leftarrow> ExtendedSeqnum_next (ls_ext_seqnum self) seqnum;
     Some (self\<lparr>
       ls_bitrate := Bitrate_add_entry bytes time (ls_bitrate self),
       ls_ext_seqnum := ext,
       ls_source := (ls_source self)\<lparr>src_payload_type := Some payload_type\<rparr>,
       ls_sent_bytes := (ls_sent_bytes self + bytes) mod 2 ^ 64,
       ls_sent_packets := ls_sent_packets self + 1,
       ls_last_rtp_sent := Some (rtp_time, time)\<rparr>)
   }"

definition ls_set_sdes :: "(u8 \<times> rstring) list \<Rightarrow> local_send_source \<Rightarrow> local_send_source" where
  "ls_set_sdes sdes self = self\<lparr>ls_source := (ls_source self)\<lparr>src_sdes := sdes\<rparr>\<rparr>"

definition ls_set_last_activity :: "instant \<Rightarrow> local_send_source \<Rightarrow> local_send_source" where
  "ls_set_last_activity time self = self\<lparr>ls_source := (ls_source self)\<lparr>src_last_activity := time\<rparr>\<rparr>"

definition take_sr_snapshot ::
  "system_time \<Rightarrow> ntp_time \<Rightarrow> u32 \<Rightarrow> local_send_source \<Rightarrow> local_send_source" where
  "take_sr_snapshot ntp_now ntp_time rtp_timestamp self = self\<lparr>ls_last_sent_sr := Some \<lparr>
     sr_local_time = ntp_now, sr_remote_time = ntp_time, sr_rtp_time = rtp_timestamp,
     sr_octet_count = word_of_nat (ls_sent_bytes self),
     sr_packet_count = word_of_nat (ls_sent_packets self)\<rparr>\<rparr>"

definition ls_bye_sent_at :: "instant \<Rightarrow> local_send_source \<Rightarrow> local_send_source" where
  "ls_bye_sent_at time self = self\<lparr>ls_bye_sent_time := Some time\<rparr>"

definition ls_mark_bye :: "rstring \<Rightarrow> local_send_source \<Rightarrow> local_send_source" where
  "ls_mark_bye reason self =
     (if ls_state self = Bye then self
      else (ls_set_state Bye self)\<lparr>ls_bye_reason := Some reason\<rparr>)"

definition ls_into_receive :: "local_send_source \<Rightarrow> local_receive_source" where
  "ls_into_receive self = \<lparr>lr_source = ls_source self, lr_bye_sent_time = ls_bye_sent_time self,
     lr_bye_reason = ls_bye_reason self\<rparr>"

definition received_rb_of ::
  "gst_lib \<Rightarrow> report_block \<Rightarrow> instant \<Rightarrow> system_time \<Rightarrow> received_rb option" where
  "received_rb_of L rb now ntp_now = do {
     ntp_now \<leftarrow> system_time_to_ntp_time_u64 L ntp_now;
     Some \<lparr>rcv_rb = Rb_from rb, rcv_receive_time = now, rcv_receive_ntp_time = ntp_now\<rparr>
   }"

definition ls_add_last_rb ::
  "gst_lib \<Rightarrow> local_send_source \<Rightarrow> u32 \<Rightarrow> report_block \<Rightarrow> instant \<Rightarrow> system_time \<Rightarrow> local_send_source option"
  where
  "ls_add_last_rb L self sender_ssrc rb now ntp_now = do {
     r \<leftarrow> received_rb_of L rb now ntp_now;
     Some (self\<lparr>ls_last_received_rb := (ls_last_received_rb self)(sender_ssrc \<mapsto> r)\<rparr>)
   }"

definition LocalReceiveSource_new :: "u32 \<Rightarrow> instant \<Rightarrow> local_receive_source" where
  "LocalReceiveSource_new ssrc now =
     \<lparr>lr_source = Source_new ssrc now, lr_bye_sent_time = None, lr_bye_reason = None\<rparr>"

definition lr_set_state :: "source_state \<Rightarrow> local_receive_source \<Rightarrow> local_receive_source" where
  "lr_set_state st self = self\<lparr>lr_source := Source_set_state st (lr_source self)\<rparr>"

definition lr_state :: "local_receive_source \<Rightarrow> source_state" where
  "lr_state self = src_state (lr_source self)"

definition lr_set_sdes :: "(u8 \<times> rstring) list \<Rightarrow> local_receive_source \<Rightarrow> local_receive_source" where
  "lr_set_sdes sdes self = self\<lparr>lr_source := (lr_source self)\<lparr>src_sdes := sdes\<rparr>\<rparr>"

definition lr_set_last_activity :: "instant \<Rightarrow> local_receive_source \<Rightarrow> local_receive_source" where
  "lr_set_last_activity time self = self\<lparr>lr_source := (lr_source self)\<lparr>src_last_activity := time\<rparr>\<rparr>"

definition lr_bye_sent_at :: "instant \<Rightarrow> local_receive_source \<Rightarrow> local_receive_source" where
  "lr_bye_sent_at time self = self\<lparr>lr_bye_sent_time := Some time\<rparr>"

definition lr_mark_bye :: "rstring \<Rightarrow> local_receive_source \<Rightarrow> local_receive_source" where
  "lr_mark_bye reason self =
     (if lr_state self = Bye then self
      else (lr_set_state Bye self)\<lparr>lr_bye_reason := Some reason\<rparr>)"

subsection \<open>Remote sources\<close>

text \<open>\<^verbatim>\<open>std::net::SocketAddr\<close>: address and port, for IPv6 with flow information and scope.\<close>

datatype socket_addr = SocketAddrV4 u32 u16 | SocketAddrV6 "128 word" u16 u32 u32

datatype source_recv_reply = Hold nat | Drop nat | Forward nat | Passthrough | Ignore

datatype key_unit_request_type = Pli | Fir u32

record held_recv_buffer =
  held_id :: nat
  held_time :: instant
  held_seqnum :: u16
  held_bytes :: u32

record remote_send_source =
  rs_source :: source
  rs_probation_packets :: nat
  rs_last_received_sr :: "sr option"
  rs_rtp_from :: "socket_addr option"
  rs_rtcp_from :: "socket_addr option"
  rs_initial_seqnum :: "nat option"
  rs_ext_seqnum :: extended_seqnum
  rs_recv_bytes :: nat
  rs_recv_packets :: nat
  rs_recv_packets_at_last_rtcp :: nat
  rs_ext_seqnum_at_last_rtcp :: nat
  rs_jitter :: u32
  rs_transit :: "u32 option"
  rs_held_buffers :: "held_recv_buffer list"
  rs_bitrate :: bitrate
  rs_last_sent_rb :: "rb option"
  rs_last_received_rb :: "u32 \<rightharpoonup> received_rb"
  rs_last_request_key_unit :: "u32 \<rightharpoonup> instant"
  rs_send_pli :: bool
  rs_send_fir :: bool
  rs_send_fir_seqnum :: u8
  rs_send_fir_count :: "u32 option"

record remote_receive_source =
  rr_source :: source
  rr_rtcp_from :: "socket_addr option"
  rr_last_request_key_unit :: "u32 \<rightharpoonup> instant"

text \<open>The fields a remote sender starts with, whatever it is made from.\<close>

definition remote_sender_init ::
  "source \<Rightarrow> socket_addr option \<Rightarrow> (u32 \<rightharpoonup> instant) \<Rightarrow> remote_send_source" where
  "remote_sender_init source rtcp_from last_request_key_unit = \<lparr>
     rs_source = source, rs_probation_packets = DEFAULT_PROBATION_N_PACKETS,
     rs_last_received_sr = None, rs_rtp_from = None, rs_rtcp_from = rtcp_from,
     rs_initial_seqnum = None, rs_ext_seqnum = ExtendedSeqnum_default,
     rs_recv_bytes = 0, rs_recv_packets = 0, rs_recv_packets_at_last_rtcp = 0,
     rs_ext_seqnum_at_last_rtcp = 0, rs_jitter = 0, rs_transit = None, rs_held_buffers = [],
     rs_bitrate = Bitrate_new BITRATE_WINDOW, rs_last_sent_rb = None,
     rs_last_received_rb = Map.empty, rs_last_request_key_unit = last_request_key_unit,
     rs_send_pli = False, rs_send_fir = False, rs_send_fir_seqnum = 0, rs_send_fir_count = None\<rparr>"

definition RemoteSendSource_new :: "u32 \<Rightarrow> instant \<Rightarrow> remote_send_source" where
  "RemoteSendSource_new ssrc now = remote_sender_init (Source_new ssrc now) None Map.empty"

definition rr_into_send :: "remote_receive_source \<Rightarrow> remote_send_source" where
  "rr_into_send self =
     remote_sender_init (rr_source self) (rr_rtcp_from self) (rr_last_request_key_unit self)"

definition rs_into_receive :: "remote_send_source \<Rightarrow> remote_receive_source" where
  "rs_into_receive self = \<lparr>rr_source = rs_source self, rr_rtcp_from = rs_rtcp_from self,
     rr_last_request_key_unit = rs_last_request_key_unit self\<rparr>"

definition RemoteReceiveSource_new :: "u32 \<Rightarrow> instant \<Rightarrow> remote_receive_source" where
  "RemoteReceiveSource_new ssrc now =
     \<lparr>rr_source = Source_new ssrc now, rr_rtcp_from = None, rr_last_request_key_unit = Map.empty\<rparr>"

definition rs_set_state :: "source_state \<Rightarrow> remote_send_source \<Rightarrow> remote_send_source" where
  "rs_set_state st self = self\<lparr>rs_source := Source_set_state st (rs_source self)\<rparr>"

definition rs_state :: "remote_send_source \<Rightarrow> source_state" where
  "rs_state self = src_state (rs_source self)"

definition rs_set_rtp_from :: "socket_addr option \<Rightarrow> remote_send_source \<Rightarrow> remote_send_source" where
  "rs_set_rtp_from from self = self\<lparr>rs_rtp_from := from\<rparr>"

definition rs_set_rtcp_from :: "socket_addr option \<Rightarrow> remote_send_source \<Rightarrow> remote_send_source" where
  "rs_set_rtcp_from from self = self\<lparr>rs_rtcp_from := from\<rparr>"

definition rs_set_last_activity :: "instant \<Rightarrow> remote_send_source \<Rightarrow> remote_send_source" where
  "rs_set_last_activity time self = self\<lparr>rs_source := (rs_source self)\<lparr>src_last_activity := time\<rparr>\<rparr>"

definition set_last_received_sr ::
  "system_time \<Rightarrow> ntp_time \<Rightarrow> u32 \<Rightarrow> u32 \<Rightarrow> u32 \<Rightarrow> remote_send_source \<Rightarrow> remote_send_source" where
  "set_last_received_sr ntp_time remote_time rtp_time octet_count packet_count self =
     self\<lparr>rs_last_received_sr := Some \<lparr>
       sr_local_time = ntp_time, sr_remote_time = remote_time, sr_rtp_time = rtp_time,
       sr_octet_count = octet_count, sr_packet_count = packet_count\<rparr>\<rparr>"

definition init_sequence :: "u16 \<Rightarrow> remote_send_source \<Rightarrow> remote_send_source" where
  "init_sequence seqnum self = self\<lparr>
     rs_last_received_sr := None, rs_recv_bytes := 0, rs_recv_packets := 0,
     rs_recv_packets_at_last_rtcp := 0,
     rs_initial_seqnum := ExtendedSeqnum_current (rs_ext_seqnum self),
     rs_ext_seqnum_at_last_rtcp :=
       (case ExtendedSeqnum_current (rs_ext_seqnum self) of
          Some ext \<Rightarrow> ext | None \<Rightarrow> 0x10000 + unat seqnum),
     rs_bitrate := Bitrate_reset (rs_bitrate self)\<rparr>"

text \<open>Saturating \<^verbatim>\<open>u32\<close> arithmetic and the absolute difference.\<close>

definition sat_add32 :: "u32 \<Rightarrow> u32 \<Rightarrow> u32" where
  "sat_add32 a b = (if unat a + unat b < 2 ^ 32 then a + b else 0xffffffff)"

definition sat_sub32 :: "u32 \<Rightarrow> u32 \<Rightarrow> u32" where
  "sat_sub32 a b = (if b \<le> a then a - b else 0)"

definition abs_diff32 :: "u32 \<Rightarrow> u32 \<Rightarrow> u32" where
  "abs_diff32 a b = (if a \<le> b then b - a else a - b)"

text \<open>The interarrival jitter after one packet, in units of a sixteenth of the clock rate's.\<close>

definition update_jitter ::
  "gst_lib \<Rightarrow> u32 \<Rightarrow> instant \<Rightarrow> instant \<Rightarrow> u32 \<Rightarrow> remote_send_source \<Rightarrow> remote_send_source option" where
  "update_jitter L rtp_timestamp now initial_time clock_rate self = do {
     arrival \<leftarrow> mul_div_round_u32 L (unat (word_of_nat ((now - initial_time) div 1000) :: u32))
       (unat clock_rate) 1000000;
     let transit = word_of_nat arrival - rtp_timestamp;
     let diff = (case rs_transit self of
                   Some existing_transit \<Rightarrow> abs_diff32 existing_transit transit | None \<Rightarrow> 0);
     Some (self\<lparr>rs_transit := Some transit,
       rs_jitter := sat_add32 (rs_jitter self)
         (sat_sub32 diff (drop_bit 4 (sat_add32 (rs_jitter self) 8)))\<rparr>)
   }"

definition recv_packet_add_to_stats ::
  "gst_lib \<Rightarrow> u32 \<Rightarrow> instant \<Rightarrow> instant \<Rightarrow> u8 \<Rightarrow> u32 option \<Rightarrow> nat \<Rightarrow> u32 \<Rightarrow> remote_send_source
    \<Rightarrow> remote_send_source option" where
  "recv_packet_add_to_stats L rtp_timestamp now initial_time payload_type clock_rate ext_seqnum bytes self =
     do {
       self \<leftarrow> (case clock_rate of
                 Some rate \<Rightarrow> update_jitter L rtp_timestamp now initial_time rate self
               | None \<Rightarrow> Some self);
       Some (self\<lparr>
         rs_source := (rs_source self)\<lparr>src_payload_type := Some payload_type\<rparr>,
         rs_initial_seqnum :=
           (case rs_initial_seqnum self of None \<Rightarrow> Some ext_seqnum | Some n \<Rightarrow> Some n),
         rs_bitrate := Bitrate_add_entry (unat bytes) now (rs_bitrate self),
         rs_recv_bytes := (rs_recv_bytes self + unat bytes) mod 2 ^ 64,
         rs_recv_packets := rs_recv_packets self + 1\<rparr>)
     }"

text \<open>A double-ended queue: the front is the head of the list.\<close>

definition pop_back :: "'a list \<Rightarrow> ('a \<times> 'a list) option" where
  "pop_back xs = (if xs = [] then None else Some (last xs, butlast xs))"

text \<open>
  What the state of the source makes of a packet: the reply, and whether the function returns
  at once with it (\<open>Inl\<close>) or goes on to the held buffers and the statistics (\<open>Inr\<close>).
\<close>

definition recv_packet_probation ::
  "u32 \<Rightarrow> instant \<Rightarrow> u16 \<Rightarrow> nat \<Rightarrow> int \<Rightarrow> nat \<Rightarrow> remote_send_source
    \<Rightarrow> (source_recv_reply + source_recv_reply) \<times> remote_send_source" where
  "recv_packet_probation bytes time seqnum hold_buffer_id diff n_probation self =
     (let held = \<lparr>held_id = hold_buffer_id, held_time = time, held_seqnum = seqnum, held_bytes = bytes\<rparr>
      in if diff = 1 then
        (if n_probation \<le> 1 then
           (Inr Passthrough, rs_set_state Normal (init_sequence seqnum self))
         else
           (let self = self\<lparr>rs_held_buffers := held # rs_held_buffers self\<rparr>
            in if length (rs_held_buffers self) > rs_probation_packets self then
                 (Inl (Drop (held_id (last (rs_held_buffers self)))),
                  self\<lparr>rs_held_buffers := butlast (rs_held_buffers self)\<rparr>)
               else
                 (Inr (Hold hold_buffer_id), rs_set_state (Probation (n_probation - 1)) self)))
      else if rs_probation_packets self > 0 then
        (let self = rs_set_state (Probation (rs_probation_packets self - 1)) self
         in case pop_back (rs_held_buffers self) of
              Some (h, rest) \<Rightarrow> (Inl (Drop (held_id h)), self\<lparr>rs_held_buffers := rest\<rparr>)
            | None \<Rightarrow>
                (let self = self\<lparr>rs_held_buffers := held # rs_held_buffers self\<rparr>
                 in if length (rs_held_buffers self) > rs_probation_packets self then
                      (Inl (Drop (held_id (last (rs_held_buffers self)))),
                       self\<lparr>rs_held_buffers := butlast (rs_held_buffers self)\<rparr>)
                    else (Inr (Hold hold_buffer_id), self)))
      else (Inr Passthrough, rs_set_state Normal (init_sequence seqnum self)))"

definition recv_packet_state ::
  "u32 \<Rightarrow> instant \<Rightarrow> u16 \<Rightarrow> nat \<Rightarrow> int \<Rightarrow> remote_send_source
    \<Rightarrow> (source_recv_reply + source_recv_reply) \<times> remote_send_source" where
  "recv_packet_state bytes time seqnum hold_buffer_id diff self =
     (case rs_state self of
        Probation n_probation \<Rightarrow>
          recv_packet_probation bytes time seqnum hold_buffer_id diff n_probation self
      | _ \<Rightarrow>
          (if diff \<ge> 1 \<and> diff < DEFAULT_MAX_DROPOUT then (Inr Passthrough, self)
           else if diff < - DEFAULT_MAX_MISORDER \<or> diff \<ge> DEFAULT_MAX_DROPOUT then (Inl Ignore, self)
           else (Inr Passthrough, self)))"

definition recv_packet ::
  "gst_lib \<Rightarrow> instant option \<Rightarrow> u32 \<Rightarrow> instant \<Rightarrow> u16 \<Rightarrow> u32 \<Rightarrow> u8 \<Rightarrow> u32 option \<Rightarrow> nat
    \<Rightarrow> remote_send_source \<Rightarrow> (source_recv_reply \<times> instant option \<times> remote_send_source) option" where
  "recv_packet L INITIAL_RECV_TIME bytes time seqnum rtp_timestamp payload_type clock_rate
       hold_buffer_id self =
     (let initial_time = (case INITIAL_RECV_TIME of None \<Rightarrow> time | Some t \<Rightarrow> t)
      in if rs_state self = Bye then Some (Ignore, Some initial_time, self)
      else do {
        let previous_seqnum = ExtendedSeqnum_current (rs_ext_seqnum self);
        (ext_seqnum, ext) \<leftarrow> ExtendedSeqnum_next (rs_ext_seqnum self) seqnum;
        let diff = (case previous_seqnum of Some prev \<Rightarrow> int ext_seqnum - int prev | None \<Rightarrow> 0);
        let (ret, self) =
          recv_packet_state bytes time seqnum hold_buffer_id diff (self\<lparr>rs_ext_seqnum := ext\<rparr>);
        (case ret of
           Inl reply \<Rightarrow> Some (reply, Some initial_time, self)
         | Inr reply \<Rightarrow>
             (case (if reply = Passthrough then pop_back (rs_held_buffers self) else None) of
                Some (held, rest) \<Rightarrow> do {
                  self \<leftarrow> recv_packet_add_to_stats L rtp_timestamp (held_time held) initial_time
                    payload_type clock_rate ext_seqnum (held_bytes held)
                    (self\<lparr>rs_held_buffers := rest\<rparr>);
                  Some (Forward (held_id held), Some initial_time, self)
                }
              | None \<Rightarrow> do {
                  self \<leftarrow> recv_packet_add_to_stats L rtp_timestamp time initial_time
                    payload_type clock_rate ext_seqnum bytes self;
                  Some (reply, Some initial_time, self)
                }))
      })"

subsection \<open>SDES items\<close>

text \<open>\<^verbatim>\<open>std::str::from_utf8\<close>: the well-formed byte sequences of the UTF-8 definition.\<close>

definition utf8_cont :: "u8 \<Rightarrow> bool" where
  "utf8_cont c \<longleftrightarrow> 0x80 \<le> c \<and> c \<le> 0xbf"

definition utf8_second3 :: "u8 \<Rightarrow> u8 \<Rightarrow> bool" where
  "utf8_second3 b c \<longleftrightarrow>
     (if b = 0xe0 then 0xa0 \<le> c \<and> c \<le> 0xbf else if b = 0xed then 0x80 \<le> c \<and> c \<le> 0x9f
      else utf8_cont c)"

definition utf8_second4 :: "u8 \<Rightarrow> u8 \<Rightarrow> bool" where
  "utf8_second4 b c \<longleftrightarrow>
     (if b = 0xf0 then 0x90 \<le> c \<and> c \<le> 0xbf else if b = 0xf4 then 0x80 \<le> c \<and> c \<le> 0x8f
      else utf8_cont c)"

fun utf8_valid :: "u8 list \<Rightarrow> bool" where
  "utf8_valid [] = True"
| "utf8_valid (b # bs) =
     (if b < 0x80 then utf8_valid bs
      else if 0xc2 \<le> b \<and> b \<le> 0xdf then
        (case bs of c # cs \<Rightarrow> utf8_cont c \<and> utf8_valid cs | [] \<Rightarrow> False)
      else if 0xe0 \<le> b \<and> b \<le> 0xef then
        (case bs of c # d # cs \<Rightarrow> utf8_second3 b c \<and> utf8_cont d \<and> utf8_valid cs | _ \<Rightarrow> False)
      else if 0xf0 \<le> b \<and> b \<le> 0xf4 then
        (case bs of c # d # e # cs \<Rightarrow>
           utf8_second4 b c \<and> utf8_cont d \<and> utf8_cont e \<and> utf8_valid cs | _ \<Rightarrow> False)
      else False)"

definition Source_received_sdes :: "u8 \<Rightarrow> u8 list \<Rightarrow> source \<Rightarrow> source" where
  "Source_received_sdes type value self =
     (if utf8_valid value then self\<lparr>src_sdes := hm_insert type value (src_sdes self)\<rparr> else self)"

definition rs_received_sdes :: "u8 \<Rightarrow> u8 list \<Rightarrow> remote_send_source \<Rightarrow> remote_send_source" where
  "rs_received_sdes type value self =
     self\<lparr>rs_source := Source_received_sdes type value (rs_source self)\<rparr>"

definition rr_received_sdes :: "u8 \<Rightarrow> u8 list \<Rightarrow> remote_receive_source \<Rightarrow> remote_receive_source" where
  "rr_received_sdes type value self =
     self\<lparr>rr_source := Source_received_sdes type value (rr_source self)\<rparr>"

subsection \<open>Reports about a remote sender\<close>

definition extended_sequence_number :: "remote_send_source \<Rightarrow> u32" where
  "extended_sequence_number self =
     word_of_nat (case ExtendedSeqnum_current (rs_ext_seqnum self) of None \<Rightarrow> 0 | Some ext \<Rightarrow> ext)"

definition packets_lost :: "remote_send_source \<Rightarrow> int" where
  "packets_lost self =
     (case (ExtendedSeqnum_current (rs_ext_seqnum self), rs_initial_seqnum self) of
        (Some ext_seqnum, Some initial_seqnum) \<Rightarrow>
          (let expected = int ext_seqnum - int initial_seqnum + 1
           in expected - int (rs_recv_packets self))
      | _ \<Rightarrow> 0)"

text \<open>The time of the last sender report and the delay since it, for a report block.\<close>

definition last_sr_times :: "gst_lib \<Rightarrow> remote_send_source \<Rightarrow> system_time \<Rightarrow> (ntp_time \<times> ntp_time) option" where
  "last_sr_times L self ntp_time =
     (case rs_last_received_sr self of
        Some t \<Rightarrow> do {
          delay \<leftarrow> from_duration L
            (case duration_since ntp_time (sr_local_time t) of Some d \<Rightarrow> d | None \<Rightarrow> 0);
          Some (sr_remote_time t, delay)
        }
      | None \<Rightarrow> do {
          z \<leftarrow> from_duration L 0;
          Some (z, z)
        })"

definition fraction_lost_of :: "nat \<Rightarrow> int \<Rightarrow> u8" where
  "fraction_lost_of expected_since_last_rtcp lost_packets_since_last_rtcp =
     (if expected_since_last_rtcp = 0 \<or> lost_packets_since_last_rtcp \<le> 0 then 0
      else word_of_nat
        ((nat lost_packets_since_last_rtcp * 2 ^ 8) mod 2 ^ 64 div expected_since_last_rtcp))"

definition cumulative_lost_of :: "int \<Rightarrow> u32" where
  "cumulative_lost_of lost =
     (if lost < 0 then 0x800000 OR word_of_int (lost AND 0x7fffff)
      else word_of_int (lost AND 0x7ffffff))"

definition generate_report_block :: "gst_lib \<Rightarrow> remote_send_source \<Rightarrow> system_time \<Rightarrow> rb option" where
  "generate_report_block L self ntp_time = do {
     (last_sr, delay_since_last_sr) \<leftarrow> last_sr_times L self ntp_time;
     let lost = packets_lost self;
     let expected_since_last_rtcp =
       (case ExtendedSeqnum_current (rs_ext_seqnum self) of None \<Rightarrow> 0 | Some ext \<Rightarrow> ext)
         - rs_ext_seqnum_at_last_rtcp self;
     recv_packets_since_last_rtcp \<leftarrow> usub (rs_recv_packets self) (rs_recv_packets_at_last_rtcp self);
     let lost_packets_since_last_rtcp =
       int expected_since_last_rtcp - int recv_packets_since_last_rtcp;
     Some \<lparr>
       rb_ssrc = src_ssrc (rs_source self),
       rb_fraction_lost = fraction_lost_of expected_since_last_rtcp lost_packets_since_last_rtcp,
       rb_cumulative_lost = cumulative_lost_of lost,
       rb_extended_sequence_number = extended_sequence_number self,
       rb_jitter = drop_bit 4 (rs_jitter self),
       rb_last_sr = as_u32 last_sr,
       rb_delay_since_last_sr = as_u32 delay_since_last_sr\<rparr>
   }"

definition update_last_rtcp :: "remote_send_source \<Rightarrow> remote_send_source" where
  "update_last_rtcp self = self\<lparr>
     rs_recv_packets_at_last_rtcp := rs_recv_packets self,
     rs_ext_seqnum_at_last_rtcp :=
       (case ExtendedSeqnum_current (rs_ext_seqnum self) of
          Some ext \<Rightarrow> ext | None \<Rightarrow> rs_ext_seqnum_at_last_rtcp self)\<rparr>"

definition rs_add_last_rb ::
  "gst_lib \<Rightarrow> remote_send_source \<Rightarrow> u32 \<Rightarrow> report_block \<Rightarrow> instant \<Rightarrow> system_time \<Rightarrow> remote_send_source option"
  where
  "rs_add_last_rb L self sender_ssrc rb now ntp_now = do {
     r \<leftarrow> received_rb_of L rb now ntp_now;
     Some (self\<lparr>rs_last_received_rb := (rs_last_received_rb self)(sender_ssrc \<mapsto> r)\<rparr>)
   }"

subsection \<open>Key-unit requests\<close>

definition key_unit_allowed ::
  "instant \<Rightarrow> received_rb \<Rightarrow> (u32 \<rightharpoonup> instant) \<Rightarrow> bool \<times> (u32 \<rightharpoonup> instant)" where
  "key_unit_allowed now rb last_request_key_unit =
     (let rtt = round_trip_time rb
      in case last_request_key_unit (rb_ssrc (rcv_rb rb)) of
           Some previous \<Rightarrow>
             (now - previous \<ge> rtt, last_request_key_unit(rb_ssrc (rcv_rb rb) \<mapsto> now))
         | None \<Rightarrow> (False, last_request_key_unit(rb_ssrc (rcv_rb rb) \<mapsto> now)))"

definition rs_remote_request_key_unit_allowed ::
  "instant \<Rightarrow> received_rb \<Rightarrow> remote_send_source \<Rightarrow> bool \<times> remote_send_source" where
  "rs_remote_request_key_unit_allowed now rb self =
     (let (allowed, m) = key_unit_allowed now rb (rs_last_request_key_unit self)
      in (allowed, self\<lparr>rs_last_request_key_unit := m\<rparr>))"

definition rr_remote_request_key_unit_allowed ::
  "instant \<Rightarrow> received_rb \<Rightarrow> remote_receive_source \<Rightarrow> bool \<times> remote_receive_source" where
  "rr_remote_request_key_unit_allowed now rb self =
     (let (allowed, m) = key_unit_allowed now rb (rr_last_request_key_unit self)
      in (allowed, self\<lparr>rr_last_request_key_unit := m\<rparr>))"

definition rs_request_remote_key_unit ::
  "key_unit_request_type \<Rightarrow> remote_send_source \<Rightarrow> remote_send_source" where
  "rs_request_remote_key_unit typ self =
     (case typ of
        Fir count \<Rightarrow> self\<lparr>
          rs_send_fir_seqnum := (if rs_send_fir_count self \<noteq> Some count
            then rs_send_fir_seqnum self + 1 else rs_send_fir_seqnum self),
          rs_send_fir := True, rs_send_fir_count := Some count\<rparr>
      | Pli \<Rightarrow> (if \<not> rs_send_fir self then self\<lparr>rs_send_pli := True\<rparr> else self))"

definition rs_generate_pli :: "remote_send_source \<Rightarrow> bool \<times> remote_send_source" where
  "rs_generate_pli self =
     (if rs_send_pli self then (True, self\<lparr>rs_send_pli := False\<rparr>) else (False, self))"

text \<open>The entries of a FIR packet under construction are the SSRCs and their sequence numbers.\<close>

definition rs_generate_fir ::
  "(u32 \<times> u8) list \<Rightarrow> bool \<Rightarrow> remote_send_source \<Rightarrow> (u32 \<times> u8) list \<times> bool \<times> remote_send_source" where
  "rs_generate_fir fir added self =
     (if rs_send_fir self
      then (fir @ [(src_ssrc (rs_source self), rs_send_fir_seqnum self)], True, self\<lparr>rs_send_fir := False\<rparr>)
      else (fir, added, self))"

definition rr_set_state :: "source_state \<Rightarrow> remote_receive_source \<Rightarrow> remote_receive_source" where
  "rr_set_state st self = self\<lparr>rr_source := Source_set_state st (rr_source self)\<rparr>"

definition rr_state :: "remote_receive_source \<Rightarrow> source_state" where
  "rr_state self = src_state (rr_source self)"

definition rr_set_rtcp_from :: "socket_addr option \<Rightarrow> remote_receive_source \<Rightarrow> remote_receive_source" where
  "rr_set_rtcp_from from self = self\<lparr>rr_rtcp_from := from\<rparr>"

definition rr_set_last_activity :: "instant \<Rightarrow> remote_receive_source \<Rightarrow> remote_receive_source" where
  "rr_set_last_activity time self = self\<lparr>rr_source := (rr_source self)\<lparr>src_last_activity := time\<rparr>\<rparr>"

section \<open>The bitrate window\<close>

lemma drop_outside_filter:
  assumes "sorted (map snd es)"
  shows "drop_outside w time es = filter (\<lambda>e. time - snd e < w) es"
  using assms
proof (induction es)
  case (Cons e es)
  show ?case
  proof (cases "time - snd e < w")
    case True
    with Cons.prems have "\<forall>x \<in> set es. time - snd x < w"
      by (auto intro: le_less_trans [OF diff_le_mono2])
    with True show ?thesis by (cases e) simp
  next
    case False
    with Cons show ?thesis by (cases e) simp
  qed
qed simp

section \<open>Invariant of a remote sender\<close>

definition rs_ok :: "remote_send_source \<Rightarrow> bool" where
  "rs_ok self \<longleftrightarrow>
     es_ok (rs_ext_seqnum self)
     \<and> rs_recv_packets_at_last_rtcp self \<le> rs_recv_packets self
     \<and> length (rs_held_buffers self) \<le> rs_probation_packets self"

lemma rs_ok_init: "rs_ok (remote_sender_init source from m)"
  by (simp add: rs_ok_def remote_sender_init_def es_ok_def ExtendedSeqnum_default_def)

lemma rs_ok_update_last_rtcp: "rs_ok self \<Longrightarrow> rs_ok (update_last_rtcp self)"
  by (simp add: rs_ok_def update_last_rtcp_def)

lemma rs_ok_setters [simp]:
  "rs_ok (rs_set_state st self) = rs_ok self"
  "rs_ok (rs_set_rtp_from a self) = rs_ok self"
  "rs_ok (rs_set_rtcp_from a self) = rs_ok self"
  "rs_ok (rs_set_last_activity t self) = rs_ok self"
  "rs_ok (set_last_received_sr x1 x2 x3 x4 x5 self) = rs_ok self"
  "rs_ok (rs_received_sdes x6 x7 self) = rs_ok self"
  "rs_ok (rs_request_remote_key_unit typ self) = rs_ok self"
  by (simp_all add: rs_ok_def rs_set_state_def rs_set_rtp_from_def rs_set_rtcp_from_def
      rs_set_last_activity_def set_last_received_sr_def rs_received_sdes_def
      rs_request_remote_key_unit_def split: key_unit_request_type.splits)

lemma sat_add32_le: "a \<le> sat_add32 a b"
proof -
  have "a \<le> a + b" if "unat a + unat b < 2 ^ 32"
    using that by (simp add: word_le_nat_alt unat_word_ariths)
  moreover have "a \<le> 0xffffffff" using unat_u32_less [of a] by (simp add: word_le_nat_alt del: unat_u32_less)
  ultimately show ?thesis by (simp add: sat_add32_def)
qed

text \<open>The clock rates for which the conversion of arrival times cannot overflow.\<close>

definition rate_ok :: "u32 option \<Rightarrow> bool" where
  "rate_ok rate \<longleftrightarrow> (case rate of None \<Rightarrow> True | Some r \<Rightarrow> unat r \<le> 1000000)"

lemma update_jitter_fields:
  "update_jitter L ts now t0 rate self = Some self' \<Longrightarrow>
    \<exists>t j. self' = self\<lparr>rs_transit := t, rs_jitter := j\<rparr> \<and> rs_jitter self \<le> j"
  by (force simp: update_jitter_def Let_def bind_eq_Some_conv sat_add32_le)

lemma add_to_stats_fields:
  assumes "recv_packet_add_to_stats L ts now t0 pt rate n bytes self = Some self'"
  shows "rs_recv_packets self' = rs_recv_packets self + 1"
    and "rs_ext_seqnum self' = rs_ext_seqnum self"
    and "rs_recv_packets_at_last_rtcp self' = rs_recv_packets_at_last_rtcp self"
    and "rs_held_buffers self' = rs_held_buffers self"
    and "rs_probation_packets self' = rs_probation_packets self"
    and "rs_state self' = rs_state self"
    and "rs_initial_seqnum self' = Some (case rs_initial_seqnum self of None \<Rightarrow> n | Some m \<Rightarrow> m)"
    and "rs_ext_seqnum_at_last_rtcp self' = rs_ext_seqnum_at_last_rtcp self"
    and "rs_jitter self \<le> rs_jitter self'"
proof -
  define s where "s = the (case rate of Some r \<Rightarrow> update_jitter L ts now t0 r self | None \<Rightarrow> Some self)"
  have "s = self \<or> (\<exists>r. update_jitter L ts now t0 r self = Some s)"
    using assms by (auto simp: s_def recv_packet_add_to_stats_def bind_eq_Some_conv split: option.splits)
  then obtain t j where s: "s = self\<lparr>rs_transit := t, rs_jitter := j\<rparr>" "rs_jitter self \<le> j"
  proof
    assume "s = self"
    then show thesis by (intro that [of "rs_jitter self" "rs_transit self"]) simp_all
  qed (use that update_jitter_fields in blast)
  have "self' = s\<lparr>
         rs_source := (rs_source s)\<lparr>src_payload_type := Some pt\<rparr>,
         rs_initial_seqnum := Some (case rs_initial_seqnum s of None \<Rightarrow> n | Some m \<Rightarrow> m),
         rs_bitrate := Bitrate_add_entry (unat bytes) now (rs_bitrate s),
         rs_recv_bytes := (rs_recv_bytes s + unat bytes) mod 2 ^ 64,
         rs_recv_packets := rs_recv_packets s + 1\<rparr>"
    using assms by (auto simp: s_def recv_packet_add_to_stats_def bind_eq_Some_conv split: option.splits)
  with s show "rs_recv_packets self' = rs_recv_packets self + 1"
    and "rs_ext_seqnum self' = rs_ext_seqnum self"
    and "rs_recv_packets_at_last_rtcp self' = rs_recv_packets_at_last_rtcp self"
    and "rs_held_buffers self' = rs_held_buffers self"
    and "rs_probation_packets self' = rs_probation_packets self"
    and "rs_state self' = rs_state self"
    and "rs_initial_seqnum self' = Some (case rs_initial_seqnum self of None \<Rightarrow> n | Some m \<Rightarrow> m)"
    and "rs_ext_seqnum_at_last_rtcp self' = rs_ext_seqnum_at_last_rtcp self"
    and "rs_jitter self \<le> rs_jitter self'"
    by (simp_all add: rs_state_def)
qed

context gst_lib_spec
begin

lemma arrival_total:
  assumes "v < 2 ^ 32" and "n \<le> 1000000"
  shows "mul_div_round_u32 L v n 1000000 = Some ((v * n + 500000) div 1000000)"
proof -
  have "v * n \<le> v * 1000000" using assms(2) by simp
  then have "(v * n + 500000) div 1000000 \<le> (v * 1000000 + 500000) div 1000000"
    by (intro div_le_mono) simp
  also have "\<dots> = v" by simp
  finally have "(v * n + 500000) div 1000000 < 2 ^ 32" using assms(1) by linarith
  then show ?thesis by (simp add: round32_spec fits_def)
qed

lemma update_jitter_total:
  assumes "rate_ok (Some rate)"
  obtains transit jit where
    "update_jitter L ts now t0 rate self = Some (self\<lparr>rs_transit := Some transit, rs_jitter := jit\<rparr>)"
  using arrival_total [of "unat (word_of_nat ((now - t0) div 1000) :: u32)" "unat rate"] assms
  by (auto simp: update_jitter_def rate_ok_def Let_def)

lemma add_to_stats_total:
  assumes "rate_ok rate"
  shows "\<exists>self'. recv_packet_add_to_stats L ts now t0 pt rate n bytes self = Some self'"
proof (cases rate)
  case (Some r)
  from assms Some obtain transit jit where
    "update_jitter L ts now t0 r self = Some (self\<lparr>rs_transit := Some transit, rs_jitter := jit\<rparr>)"
    using update_jitter_total by metis
  with Some show ?thesis by (simp add: recv_packet_add_to_stats_def)
qed (simp add: recv_packet_add_to_stats_def)

end

text \<open>What the state machine does to the fields of the invariant.\<close>

lemma recv_packet_state_ok:
  assumes "rs_ok self" and "recv_packet_state bytes time seqnum hid diff self = (ret, self')"
  shows "rs_ok self' \<and> rs_ext_seqnum self' = rs_ext_seqnum self
    \<and> rs_probation_packets self' = rs_probation_packets self"
  using assms
  by (auto simp: recv_packet_state_def recv_packet_probation_def rs_ok_def rs_set_state_def
      init_sequence_def pop_back_def Let_def split: source_state.splits if_splits option.splits)

lemma recv_packet_state_jitter:
  "recv_packet_state bytes time seqnum hid diff self = (ret, self') \<Longrightarrow> rs_jitter self' = rs_jitter self"
  by (auto simp: recv_packet_state_def recv_packet_probation_def rs_set_state_def
      init_sequence_def pop_back_def Let_def split: source_state.splits if_splits option.splits)

lemma recv_packet_eq:
  assumes "rs_state self \<noteq> Bye"
    and "ExtendedSeqnum_next (rs_ext_seqnum self) seqnum = Some (n, ext)"
    and "recv_packet_state bytes time seqnum hid
         (case es_last_ext (rs_ext_seqnum self) of Some l \<Rightarrow> int n - int l | None \<Rightarrow> 0)
         (self\<lparr>rs_ext_seqnum := ext\<rparr>) = (ret, self1)"
    and "t0 = (case g of None \<Rightarrow> time | Some t \<Rightarrow> t)"
  shows "ret = Inl r \<Longrightarrow>
      recv_packet L g bytes time seqnum ts pt rate hid self = Some (r, Some t0, self1)"
    and "ret = Inr Passthrough \<Longrightarrow> rs_held_buffers self1 \<noteq> [] \<Longrightarrow>
      recv_packet L g bytes time seqnum ts pt rate hid self = do {
        self2 \<leftarrow> recv_packet_add_to_stats L ts (held_time (last (rs_held_buffers self1))) t0 pt rate n
          (held_bytes (last (rs_held_buffers self1)))
          (self1\<lparr>rs_held_buffers := butlast (rs_held_buffers self1)\<rparr>);
        Some (Forward (held_id (last (rs_held_buffers self1))), Some t0, self2)
      }"
    and "ret = Inr r \<Longrightarrow> r \<noteq> Passthrough \<or> rs_held_buffers self1 = [] \<Longrightarrow>
      recv_packet L g bytes time seqnum ts pt rate hid self = do {
        self2 \<leftarrow> recv_packet_add_to_stats L ts time t0 pt rate n bytes self1;
        Some (r, Some t0, self2)
      }"
  using assms
  by (simp_all add: recv_packet_def ExtendedSeqnum_current_def pop_back_def disj_imp Let_def)

end
