(* ===== verification/Rtp_Source_Facts.thy ===== *)
theory Rtp_Source_Facts
  imports Rtp_Source
begin

text \<open>
  Properties of the sources of \<^verbatim>\<open>net/rtp/src/rtpbin2/source.rs\<close>: reception is free of panics and
  keeps the invariant, probation, the limits of a validated source, the jitter, the report
  blocks and their encoding, the bitrate window, round-trip times and key-unit requests.
\<close>

unbundle bit_operations_syntax

section \<open>Reception\<close>

text \<open>A packet that is not turned away by a source is added to its statistics exactly once.\<close>

lemma recv_packet_cases:
  assumes "recv_packet L g bytes time seqnum ts pt rate hid self = Some (reply, g', self')"
  obtains (bye) "rs_state self = Bye" "reply = Ignore" "self' = self"
  | (early) n ext where "rs_state self \<noteq> Bye"
      "ExtendedSeqnum_next (rs_ext_seqnum self) seqnum = Some (n, ext)"
      "recv_packet_state bytes time seqnum hid
         (case es_last_ext (rs_ext_seqnum self) of Some l \<Rightarrow> int n - int l | None \<Rightarrow> 0)
         (self\<lparr>rs_ext_seqnum := ext\<rparr>) = (Inl reply, self')"
  | (held) n ext self1 h rest t0 where "rs_state self \<noteq> Bye"
      "ExtendedSeqnum_next (rs_ext_seqnum self) seqnum = Some (n, ext)"
      "recv_packet_state bytes time seqnum hid
         (case es_last_ext (rs_ext_seqnum self) of Some l \<Rightarrow> int n - int l | None \<Rightarrow> 0)
         (self\<lparr>rs_ext_seqnum := ext\<rparr>) = (Inr Passthrough, self1)"
      "pop_back (rs_held_buffers self1) = Some (h, rest)" "reply = Forward (held_id h)"
      "recv_packet_add_to_stats L ts (held_time h) t0 pt rate n (held_bytes h)
         (self1\<lparr>rs_held_buffers := rest\<rparr>) = Some self'"
  | (pass) n ext self1 t0 where "rs_state self \<noteq> Bye"
      "ExtendedSeqnum_next (rs_ext_seqnum self) seqnum = Some (n, ext)"
      "recv_packet_state bytes time seqnum hid
         (case es_last_ext (rs_ext_seqnum self) of Some l \<Rightarrow> int n - int l | None \<Rightarrow> 0)
         (self\<lparr>rs_ext_seqnum := ext\<rparr>) = (Inr reply, self1)"
      "reply = Passthrough \<longrightarrow> rs_held_buffers self1 = []"
      "recv_packet_add_to_stats L ts time t0 pt rate n bytes self1 = Some self'"
proof (cases "rs_state self = Bye")
  case True
  then have "recv_packet L g bytes time seqnum ts pt rate hid self =
      Some (Ignore, Some (case g of None \<Rightarrow> time | Some t \<Rightarrow> t), self)"
    by (simp add: recv_packet_def Let_def)
  with assms have "reply = Ignore \<and> self' = self" by auto
  with True bye show ?thesis by blast
next
  case False
  have "ExtendedSeqnum_next (rs_ext_seqnum self) seqnum \<noteq> None"
  proof
    assume "ExtendedSeqnum_next (rs_ext_seqnum self) seqnum = None"
    with False have "recv_packet L g bytes time seqnum ts pt rate hid self = None"
      by (simp add: recv_packet_def Let_def)
    with assms show False by simp
  qed
  then obtain n ext where nx: "ExtendedSeqnum_next (rs_ext_seqnum self) seqnum = Some (n, ext)" by auto
  obtain ret self1 where st: "recv_packet_state bytes time seqnum hid
         (case es_last_ext (rs_ext_seqnum self) of Some l \<Rightarrow> int n - int l | None \<Rightarrow> 0)
         (self\<lparr>rs_ext_seqnum := ext\<rparr>) = (ret, self1)" by (rule prod.exhaust)
  note eq = recv_packet_eq [OF False nx st refl]
  show ?thesis
  proof (cases ret)
    case (Inl r)
    from eq(1) [OF this] assms have "r = reply" "self1 = self'" by simp_all
    with st Inl early [OF False nx] show ?thesis by blast
  next
    case (Inr r)
    show ?thesis
    proof (cases "r = Passthrough \<and> rs_held_buffers self1 \<noteq> []")
      case True
      then have fw: "ret = Inr Passthrough" "rs_held_buffers self1 \<noteq> []" using Inr by simp_all
      have "reply = Forward (held_id (last (rs_held_buffers self1)))
        \<and> recv_packet_add_to_stats L ts (held_time (last (rs_held_buffers self1)))
          (case g of None \<Rightarrow> time | Some t \<Rightarrow> t) pt rate n (held_bytes (last (rs_held_buffers self1)))
          (self1\<lparr>rs_held_buffers := butlast (rs_held_buffers self1)\<rparr>) = Some self'"
        using assms unfolding eq(2) [OF fw] bind_eq_Some_conv by auto
      moreover have "pop_back (rs_held_buffers self1) =
          Some (last (rs_held_buffers self1), butlast (rs_held_buffers self1))"
        using fw by (simp add: pop_back_def)
      ultimately show ?thesis using held [OF False nx] st fw by blast
    next
      case F: False
      then have ps: "r \<noteq> Passthrough \<or> rs_held_buffers self1 = []" by blast
      have "r = reply \<and> recv_packet_add_to_stats L ts time
          (case g of None \<Rightarrow> time | Some t \<Rightarrow> t) pt rate n bytes self1 = Some self'"
        using assms unfolding eq(3) [OF Inr ps] bind_eq_Some_conv by auto
      with pass [OF False nx] st Inr F show ?thesis by blast
    qed
  qed
qed

lemma recv_packet_total:
  assumes "gst_lib_spec L" and "rs_ok self" and "rate_ok rate"
  shows "\<exists>reply self'. recv_packet L g bytes time seqnum ts pt rate hid self
      = Some (reply, Some (case g of None \<Rightarrow> time | Some t \<Rightarrow> t), self') \<and> rs_ok self'"
proof (cases "rs_state self = Bye")
  case True
  with assms(2) show ?thesis by (simp add: recv_packet_def Let_def)
next
  case False
  obtain n ext where nx: "ExtendedSeqnum_next (rs_ext_seqnum self) seqnum = Some (n, ext)" "es_ok ext"
    using assms(2) by (metis es_next_total rs_ok_def)
  obtain ret self1 where st: "recv_packet_state bytes time seqnum hid
         (case es_last_ext (rs_ext_seqnum self) of Some l \<Rightarrow> int n - int l | None \<Rightarrow> 0)
         (self\<lparr>rs_ext_seqnum := ext\<rparr>) = (ret, self1)" by (rule prod.exhaust)
  have ok1: "rs_ok self1"
    using recv_packet_state_ok [OF _ st] assms(2) nx(2) by (simp add: rs_ok_def)
  note eq = recv_packet_eq [OF False nx(1) st refl]
  have stats: "\<exists>self'. recv_packet_add_to_stats L ts t t0 pt rate n b self2 = Some self' \<and> rs_ok self'"
    if "rs_ok self2" for t t0 b self2
    using gst_lib_spec.add_to_stats_total [OF assms(1,3)] add_to_stats_fields that
    by (fastforce simp: rs_ok_def)
  show ?thesis
  proof (cases ret)
    case (Inl r)
    with eq(1) ok1 show ?thesis by simp
  next
    case (Inr r)
    show ?thesis
    proof (cases "r = Passthrough \<and> rs_held_buffers self1 \<noteq> []")
      case True
      have "rs_ok (self1\<lparr>rs_held_buffers := butlast (rs_held_buffers self1)\<rparr>)"
        using ok1 by (auto simp: rs_ok_def)
      note st2 = stats [OF this]
      have fw: "ret = Inr Passthrough" "rs_held_buffers self1 \<noteq> []" using True Inr by simp_all
      obtain self' where "recv_packet_add_to_stats L ts (held_time (last (rs_held_buffers self1)))
          (case g of None \<Rightarrow> time | Some t \<Rightarrow> t) pt rate n (held_bytes (last (rs_held_buffers self1)))
          (self1\<lparr>rs_held_buffers := butlast (rs_held_buffers self1)\<rparr>) = Some self'" "rs_ok self'"
        using st2 by blast
      then show ?thesis unfolding eq(2) [OF fw] by simp
    next
      case F: False
      then have ps: "r \<noteq> Passthrough \<or> rs_held_buffers self1 = []" by blast
      obtain self' where "recv_packet_add_to_stats L ts time
          (case g of None \<Rightarrow> time | Some t \<Rightarrow> t) pt rate n bytes self1 = Some self'" "rs_ok self'"
        using stats [OF ok1] by blast
      then show ?thesis unfolding eq(3) [OF Inr ps] by simp
    qed
  qed
qed

context gst_lib_spec
begin

lemma generate_report_block_None:
  "generate_report_block L self t = None \<longleftrightarrow> rs_recv_packets self < rs_recv_packets_at_last_rtcp self"
proof -
  have "\<exists>x y. last_sr_times L self t = Some (x, y)"
    by (auto simp: last_sr_times_def from_duration_full split: option.splits)
  then show ?thesis
    by (auto simp: generate_report_block_def usub_def Let_def split: if_splits)
qed

lemma generate_report_block_total: "rs_ok self \<Longrightarrow> \<exists>rb. generate_report_block L self t = Some rb"
  using generate_report_block_None [of self t] by (force simp: rs_ok_def)

end

text \<open>One packet of a validated source.\<close>

lemma recv_packet_normal:
  assumes "gst_lib_spec L" and "rate_ok rate" and "rs_state self = Normal" and "rs_held_buffers self = []"
    and "es_last_ext (rs_ext_seqnum self) = Some l"
    and "ExtendedSeqnum_next (rs_ext_seqnum self) seqnum = Some (n, ext)"
    and "int n - int l < 3000" and "- 100 \<le> int n - int l"
  obtains self' where "recv_packet L g bytes time seqnum ts pt rate hid self
      = Some (Passthrough, Some (case g of None \<Rightarrow> time | Some t \<Rightarrow> t), self')"
    and "rs_recv_packets self' = rs_recv_packets self + 1" and "rs_ext_seqnum self' = ext"
    and "rs_initial_seqnum self' = Some (case rs_initial_seqnum self of None \<Rightarrow> n | Some m \<Rightarrow> m)"
    and "rs_state self' = Normal" and "rs_held_buffers self' = []"
proof -
  let ?self = "self\<lparr>rs_ext_seqnum := ext\<rparr>"
  have not_bye: "rs_state self \<noteq> Bye" using assms(3) by simp
  have "recv_packet_state bytes time seqnum hid
         (case es_last_ext (rs_ext_seqnum self) of Some l \<Rightarrow> int n - int l | None \<Rightarrow> 0)
         ?self = (Inr Passthrough, ?self)"
    using assms(3,5,7,8)
    by (simp add: recv_packet_state_def rs_state_def DEFAULT_MAX_DROPOUT_def DEFAULT_MAX_MISORDER_def)
  note eq = recv_packet_eq(3) [OF not_bye assms(6) this refl refl]
  obtain self' where *: "recv_packet_add_to_stats L ts time
      (case g of None \<Rightarrow> time | Some t \<Rightarrow> t) pt rate n bytes ?self = Some self'"
    using gst_lib_spec.add_to_stats_total [OF assms(1,2)] by blast
  show ?thesis
  proof (rule that)
    show "recv_packet L g bytes time seqnum ts pt rate hid self
      = Some (Passthrough, Some (case g of None \<Rightarrow> time | Some t \<Rightarrow> t), self')"
      by (subst eq) (use assms(4) * in simp_all)
  qed (use add_to_stats_fields [OF *] assms(3,4) in \<open>simp_all add: rs_state_def\<close>)
qed

lemma es_next_same:
  assumes "es_ok e" and "es_last_ext e = Some l" and "r = of_nat l"
  shows "ExtendedSeqnum_next e r = Some (l, \<lparr>es_last_ext = Some l\<rparr>)"
  using es_next_exact [OF assms(1,2), of l] assms(3) by simp

text \<open>A new source and its first two packets.\<close>

definition fresh_sender :: "remote_send_source \<Rightarrow> bool" where
  "fresh_sender src \<longleftrightarrow> rs_state src = Probation 2 \<and> rs_ext_seqnum src = ExtendedSeqnum_default
     \<and> rs_held_buffers src = [] \<and> rs_probation_packets src = 2"

lemma fresh_sender_new: "fresh_sender (RemoteSendSource_new ssrc now)"
  by (simp add: fresh_sender_def RemoteSendSource_new_def remote_sender_init_def rs_state_def Source_new_def
      DEFAULT_PROBATION_N_PACKETS_def)

lemma probation_first:
  assumes "gst_lib_spec L" and "rate_ok rate" and "fresh_sender src0"
  obtains src where "recv_packet L g bytes time s ts pt rate hid src0
      = Some (Hold hid, Some (case g of None \<Rightarrow> time | Some t \<Rightarrow> t), src)"
    and "rs_state src = Probation 1" and "rs_ext_seqnum src = \<lparr>es_last_ext = Some (65536 + unat s)\<rparr>"
    and "rs_held_buffers src = [\<lparr>held_id = hid, held_time = time, held_seqnum = s, held_bytes = bytes\<rparr>]"
proof -
  let ?new = src0 let ?e = "\<lparr>es_last_ext = Some (65536 + unat s)\<rparr>"
  let ?h = "\<lparr>held_id = hid, held_time = time, held_seqnum = s, held_bytes = bytes\<rparr>"
  let ?self = "(rs_set_state (Probation 1) (?new\<lparr>rs_ext_seqnum := ?e\<rparr>))\<lparr>rs_held_buffers := [?h]\<rparr>"
  have new: "rs_state ?new = Probation 2" "rs_ext_seqnum ?new = ExtendedSeqnum_default"
    "rs_held_buffers ?new = []" "rs_probation_packets ?new = 2"
    using assms(3) by (simp_all add: fresh_sender_def)
  have nx: "ExtendedSeqnum_next (rs_ext_seqnum ?new) s = Some (65536 + unat s, ?e)"
    by (simp add: new ExtendedSeqnum_default_def ExtendedSeqnum_next_def Let_def)
  have "recv_packet_state bytes time s hid
       (case es_last_ext (rs_ext_seqnum ?new) of Some l \<Rightarrow> int (65536 + unat s) - int l | None \<Rightarrow> 0)
       (?new\<lparr>rs_ext_seqnum := ?e\<rparr>) = (Inr (Hold hid), ?self)"
    using new by (simp add: recv_packet_state_def recv_packet_probation_def rs_state_def pop_back_def
        rs_set_state_def ExtendedSeqnum_default_def Let_def)
  note eq = recv_packet_eq(3) [OF _ nx this refl refl]
  obtain self' where *: "recv_packet_add_to_stats L ts time
      (case g of None \<Rightarrow> time | Some t \<Rightarrow> t) pt rate (65536 + unat s) bytes ?self = Some self'"
    using gst_lib_spec.add_to_stats_total [OF assms(1,2)] by blast
  show ?thesis
  proof (rule that)
    show "recv_packet L g bytes time s ts pt rate hid ?new
      = Some (Hold hid, Some (case g of None \<Rightarrow> time | Some t \<Rightarrow> t), self')"
      by (subst eq) (use new * in simp_all)
  qed (use add_to_stats_fields [OF *] in \<open>simp_all add: rs_state_def rs_set_state_def Source_set_state_def\<close>)
qed

lemma probation_second:
  assumes "gst_lib_spec L" and "rate_ok rate" and "rs_state src = Probation 1"
    and "rs_ext_seqnum src = \<lparr>es_last_ext = Some l\<rparr>" and "65536 \<le> l"
    and "rs_held_buffers src = [h]" and "r = of_nat (l + 1)"
  obtains src' where "recv_packet L g bytes time r ts pt rate hid src
      = Some (Forward (held_id h), Some (case g of None \<Rightarrow> time | Some t \<Rightarrow> t), src')"
    and "rs_state src' = Normal" and "rs_ext_seqnum src' = \<lparr>es_last_ext = Some (l + 1)\<rparr>"
    and "rs_held_buffers src' = []" and "rs_recv_packets src' = 1" and "rs_initial_seqnum src' = Some (l + 1)"
proof -
  let ?e = "\<lparr>es_last_ext = Some (l + 1)\<rparr>"
  let ?self = "rs_set_state Normal (init_sequence r (src\<lparr>rs_ext_seqnum := ?e\<rparr>))"
  have not_bye: "rs_state src \<noteq> Bye" using assms(3) by simp
  have nx: "ExtendedSeqnum_next (rs_ext_seqnum src) r = Some (l + 1, ?e)"
    unfolding assms(4,7) using assms(5)
    by (intro es_next_exact [where l = l]) (simp_all add: es_ok_def div_le_mono)
  have "recv_packet_state bytes time r hid
       (case es_last_ext (rs_ext_seqnum src) of Some l' \<Rightarrow> int (l + 1) - int l' | None \<Rightarrow> 0)
       (src\<lparr>rs_ext_seqnum := ?e\<rparr>) = (Inr Passthrough, ?self)"
    using assms(3,4) by (simp add: recv_packet_state_def recv_packet_probation_def rs_state_def)
  note eq = recv_packet_eq(2) [OF not_bye nx this refl refl]
  have held: "rs_held_buffers ?self = [h]"
    using assms(6) by (simp add: rs_set_state_def init_sequence_def)
  obtain self' where *: "recv_packet_add_to_stats L ts (held_time h)
      (case g of None \<Rightarrow> time | Some t \<Rightarrow> t) pt rate (l + 1) (held_bytes h)
      (?self\<lparr>rs_held_buffers := []\<rparr>) = Some self'"
    using gst_lib_spec.add_to_stats_total [OF assms(1,2)] by blast
  show ?thesis
  proof (rule that)
    show "recv_packet L g bytes time r ts pt rate hid src
      = Some (Forward (held_id h), Some (case g of None \<Rightarrow> time | Some t \<Rightarrow> t), self')"
      by (subst eq) (use held * in simp_all)
  qed (use add_to_stats_fields [OF *] in \<open>simp_all add: rs_state_def rs_set_state_def
      Source_set_state_def init_sequence_def ExtendedSeqnum_current_def\<close>)
qed

lemma probation_sequence:
  assumes "gst_lib_spec L" and "rate_ok rate" and g1: "g1 = Some (case g of None \<Rightarrow> t1 | Some t \<Rightarrow> t)"
    and "fresh_sender src0"
  obtains src1 src2 src3 where
    "recv_packet L g b1 t1 s ts1 pt rate h1 src0 = Some (Hold h1, g1, src1)"
    and "recv_packet L g1 b2 t2 (s + 1) ts2 pt rate h2 src1 = Some (Forward h1, g1, src2)"
    and "recv_packet L g1 b2 t2 (s + 1) ts2 pt rate h2 src2 = Some (Passthrough, g1, src3)"
    and "rs_state src3 = Normal" and "rs_held_buffers src3 = []" and "rs_recv_packets src3 = 2"
    and "rs_initial_seqnum src3 = es_last_ext (rs_ext_seqnum src3)"
    and "rs_initial_seqnum src3 = Some (65536 + unat s + 1)"
proof -
  let ?l = "65536 + unat s"
  have r: "s + 1 = of_nat (?l + 1)" by (simp add: word_eq_iff_unsigned unat_of_nat unat_word_ariths)
  obtain src1 where 1: "recv_packet L g b1 t1 s ts1 pt rate h1 src0
      = Some (Hold h1, g1, src1)"
    "rs_state src1 = Probation 1" "rs_ext_seqnum src1 = \<lparr>es_last_ext = Some ?l\<rparr>"
    "rs_held_buffers src1 = [\<lparr>held_id = h1, held_time = t1, held_seqnum = s, held_bytes = b1\<rparr>]"
    unfolding g1 by (rule probation_first [OF assms(1,2,4)])
  obtain src2 where 2: "recv_packet L g1 b2 t2 (s + 1) ts2 pt rate h2 src1 = Some (Forward h1, g1, src2)"
    "rs_state src2 = Normal" "rs_ext_seqnum src2 = \<lparr>es_last_ext = Some (?l + 1)\<rparr>"
    "rs_held_buffers src2 = []" "rs_recv_packets src2 = 1" "rs_initial_seqnum src2 = Some (?l + 1)"
    by (rule probation_second [OF assms(1,2) 1(2,3) _ 1(4) r, of g1 b2 t2 ts2 pt h2])
      (auto simp: g1)
  have nx: "ExtendedSeqnum_next (rs_ext_seqnum src2) (s + 1) = Some (?l + 1, \<lparr>es_last_ext = Some (?l + 1)\<rparr>)"
    unfolding 2(3) r by (rule es_next_same) (simp_all add: es_ok_def)
  obtain src3 where "recv_packet L g1 b2 t2 (s + 1) ts2 pt rate h2 src2 = Some (Passthrough, g1, src3)"
    "rs_state src3 = Normal" "rs_held_buffers src3 = []" "rs_recv_packets src3 = 2"
    "rs_initial_seqnum src3 = Some (?l + 1)" "rs_ext_seqnum src3 = \<lparr>es_last_ext = Some (?l + 1)\<rparr>"
    by (rule recv_packet_normal [OF assms(1,2) 2(2,4) _ nx, of "?l + 1" g1 b2 t2 ts2 pt h2])
      (use 2 in \<open>auto simp: g1\<close>)
  with that [OF 1(1) 2(1)] show ?thesis by simp
qed

lemma mask_int:
  fixes k :: int
  shows "k AND 0x7fffff = k mod 2 ^ 23" and "k AND 0x7ffffff = k mod 2 ^ 27"
  using take_bit_eq_mask [of 23 k] take_bit_eq_mask [of 27 k]
  by (simp_all add: take_bit_eq_mod mask_eq_exp_minus_1)

lemma low_bits_word:
  assumes "0 \<le> m" and "m < 2 ^ 23"
  shows "(word_of_int m :: u32) AND 0x7fffff = word_of_int m" and "(word_of_int m :: u32) AND 0x800000 = 0"
    and "sint (word_of_int m :: u32) = m"
proof -
  have "of_int (m AND 0x7fffff) = (of_int m :: u32) AND of_int 0x7fffff" by (rule of_int_and_eq)
  with assms show "(word_of_int m :: u32) AND 0x7fffff = word_of_int m" by (simp add: mask_int)
  have "\<not> bit m 23" using assms by (simp add: bit_iff_odd)
  then have "m AND 0x800000 = 0" using and_exp_eq_0_iff_not_bit [of m 23] by simp
  moreover have "of_int (m AND 0x800000) = (of_int m :: u32) AND of_int 0x800000" by (rule of_int_and_eq)
  ultimately show "(word_of_int m :: u32) AND 0x800000 = 0" by simp
  show "sint (word_of_int m :: u32) = m"
    using assms by (simp add: sint_sbintrunc' signed_take_bit_int_eq_self)
qed

section \<open>Properties\<close>

definition example_sender :: remote_send_source where
  "example_sender = rs_set_state Normal (RemoteSendSource_new 42 0)
     \<lparr>rs_ext_seqnum := \<lparr>es_last_ext = Some 70000\<rparr>\<rparr>"

lemma example_sender_facts:
  "rs_state example_sender = Normal" "rs_held_buffers example_sender = []"
  "es_last_ext (rs_ext_seqnum example_sender) = Some 70000" "es_ok (rs_ext_seqnum example_sender)"
  by (simp_all add: example_sender_def rs_set_state_def rs_state_def RemoteSendSource_new_def
      remote_sender_init_def Source_set_state_def es_ok_def)


text \<open>C5: Receiving a packet never panics and keeps the invariant of a remote sender (the extended
  counter is past its first cycle, no more packets were reported than received, at most
  \<^verbatim>\<open>probation_packets\<close> buffers are held), for any packet and any clock rate up to 1 MHz.\<close>

theorem recv_packet_safe:
  assumes "gst_lib_spec L" and "rs_ok self" and "rate_ok rate"
  shows "\<exists>reply self'. recv_packet L g bytes time seqnum ts pt rate hid self
      = Some (reply, Some (case g of None \<Rightarrow> time | Some t \<Rightarrow> t), self') \<and> rs_ok self'"
  by (rule recv_packet_total [OF assms])

theorem recv_packet_safe_witness:
  "\<exists>reply self'. recv_packet ref_lib None 100 0 65535 0 96 (Some 90000) 7 (RemoteSendSource_new 42 0)
    = Some (reply, Some 0, self') \<and> rs_ok self'"
  using recv_packet_safe [OF reflib.gst_lib_spec_axioms, of "RemoteSendSource_new 42 0" "Some 90000" None 100 0 65535 0 96 7]
  by (simp add: RemoteSendSource_new_def rs_ok_init rate_ok_def)

text \<open>A new remote sender is validated by two packets with consecutive sequence numbers,
  wrap-around included: the first is held, the second releases it and is then passed on
  when it is handed in again, after which the source is in its normal state, holds nothing,
  and has counted both packets.\<close>

theorem probation_validates:
  assumes "gst_lib_spec L" and "rate_ok rate"
  shows "\<exists>g1 src1 src2 src3.
    recv_packet L g b1 t1 s ts1 pt rate h1 (RemoteSendSource_new ssrc now) = Some (Hold h1, g1, src1)
    \<and> recv_packet L g1 b2 t2 (s + 1) ts2 pt rate h2 src1 = Some (Forward h1, g1, src2)
    \<and> recv_packet L g1 b2 t2 (s + 1) ts2 pt rate h2 src2 = Some (Passthrough, g1, src3)
    \<and> rs_state src3 = Normal \<and> rs_held_buffers src3 = [] \<and> rs_recv_packets src3 = 2"
  by (rule probation_sequence [OF assms refl fresh_sender_new [of ssrc now], of g b1 t1 s ts1 pt h1 b2 t2 ts2 h2],
      intro exI conjI, assumption+)

theorem probation_validates_witness:
  "\<exists>g1 src1 src2 src3.
    recv_packet ref_lib None 100 0 65535 0 96 (Some 90000) 7 (RemoteSendSource_new 42 0) = Some (Hold 7, g1, src1)
    \<and> recv_packet ref_lib g1 100 20 (65535 + 1) 1800 96 (Some 90000) 8 src1 = Some (Forward 7, g1, src2)
    \<and> recv_packet ref_lib g1 100 20 (65535 + 1) 1800 96 (Some 90000) 8 src2 = Some (Passthrough, g1, src3)
    \<and> rs_state src3 = Normal \<and> rs_held_buffers src3 = [] \<and> rs_recv_packets src3 = 2"
  by (rule probation_validates [OF reflib.gst_lib_spec_axioms]) (simp add: rate_ok_def)

text \<open>After probation, a stream without any loss is reported with \<^verbatim>\<open>-1\<close> packets lost. The
  first expected packet is the one that ended the probation, but the packet held before it is
  counted as received too.\<close>

theorem probation_loses_minus_one:
  assumes "gst_lib_spec L" and "rate_ok rate"
    and "recv_packet L g b1 t1 s ts1 pt rate h1 (RemoteSendSource_new ssrc now) = Some (r1, g1, src1)"
    and "recv_packet L g1 b2 t2 (s + 1) ts2 pt rate h2 src1 = Some (r2, g2, src2)"
    and "recv_packet L g2 b2 t2 (s + 1) ts2 pt rate h2 src2 = Some (r3, g3, src3)"
  shows "packets_lost src3 = - 1"
proof -
  have g1: "g1 = Some (case g of None \<Rightarrow> t1 | Some t \<Rightarrow> t)"
    by (rule probation_sequence [OF assms(1,2) refl fresh_sender_new [of ssrc now], of g b1 t1 s ts1 pt h1]) (use assms(3) in auto)
  obtain x3 where x: "recv_packet L g2 b2 t2 (s + 1) ts2 pt rate h2 src2 = Some (Passthrough, g2, x3)"
    "rs_recv_packets x3 = 2" "rs_initial_seqnum x3 = es_last_ext (rs_ext_seqnum x3)"
    "rs_initial_seqnum x3 = Some (65536 + unat s + 1)"
    by (rule probation_sequence [OF assms(1,2) g1 fresh_sender_new [of ssrc now], of b1 s ts1 pt h1 b2 t2 ts2 h2])
      (use assms(3,4) in auto)
  then have "src3 = x3" using assms(5) by simp
  moreover have "es_last_ext (rs_ext_seqnum x3) = Some (65536 + unat s + 1)" using x by simp
  ultimately show ?thesis using x(2,4) by (simp add: packets_lost_def ExtendedSeqnum_current_def)
qed

theorem probation_loses_minus_one_witness:
  "\<exists>src1 src2 src3 g1 g2 g3 r1 r2 r3.
    recv_packet ref_lib None 100 0 5 0 96 None 7 (RemoteSendSource_new 42 0) = Some (r1, g1, src1)
    \<and> recv_packet ref_lib g1 100 20 (5 + 1) 1800 96 None 8 src1 = Some (r2, g2, src2)
    \<and> recv_packet ref_lib g2 100 20 (5 + 1) 1800 96 None 8 src2 = Some (r3, g3, src3)
    \<and> packets_lost src3 = - 1"
proof -
  have rate: "rate_ok None" by (simp add: rate_ok_def)
  obtain g1 src1 src2 src3 where r:
    "recv_packet ref_lib None 100 0 5 0 96 None 7 (RemoteSendSource_new 42 0) = Some (Hold 7, g1, src1)"
    "recv_packet ref_lib g1 100 20 (5 + 1) 1800 96 None 8 src1 = Some (Forward 7, g1, src2)"
    "recv_packet ref_lib g1 100 20 (5 + 1) 1800 96 None 8 src2 = Some (Passthrough, g1, src3)"
    by (rule probation_sequence [OF reflib.gst_lib_spec_axioms rate refl fresh_sender_new [of 42 0],
          of None 100 0 5 0 96 7 100 20 1800 8])
  from probation_loses_minus_one [OF reflib.gst_lib_spec_axioms rate r] r show ?thesis by blast
qed

text \<open>A validated source drops exactly the packets whose extended sequence number is 3000 or
  more ahead of the last one, or more than 100 behind it; every other packet is passed on.\<close>

theorem recv_packet_limits:
  assumes "gst_lib_spec L" and "rate_ok rate" and "rs_state self = Normal" and "rs_held_buffers self = []"
    and "es_last_ext (rs_ext_seqnum self) = Some l"
    and "ExtendedSeqnum_next (rs_ext_seqnum self) seqnum = Some (n, ext)"
  shows "\<exists>self'. recv_packet L g bytes time seqnum ts pt rate hid self
      = Some (if l + 3000 \<le> n \<or> n + 100 < l then Ignore else Passthrough,
              Some (case g of None \<Rightarrow> time | Some t \<Rightarrow> t), self')"
proof (cases "l + 3000 \<le> n \<or> n + 100 < l")
  case True
  let ?self = "self\<lparr>rs_ext_seqnum := ext\<rparr>"
  have not_bye: "rs_state self \<noteq> Bye" using assms(3) by simp
  have "recv_packet_state bytes time seqnum hid
         (case es_last_ext (rs_ext_seqnum self) of Some l \<Rightarrow> int n - int l | None \<Rightarrow> 0)
         ?self = (Inl Ignore, ?self)"
    using assms(3,5) True
    by (auto simp: recv_packet_state_def rs_state_def DEFAULT_MAX_DROPOUT_def DEFAULT_MAX_MISORDER_def)
  note eq = recv_packet_eq(1) [OF not_bye assms(6) this refl refl]
  show ?thesis unfolding eq using True by simp
next
  case False
  then have near: "int n - int l < 3000" "- 100 \<le> int n - int l" by linarith+
  obtain self' where "recv_packet L g bytes time seqnum ts pt rate hid self
      = Some (Passthrough, Some (case g of None \<Rightarrow> time | Some t \<Rightarrow> t), self')"
    by (rule recv_packet_normal [OF assms near])
  with False show ?thesis by simp
qed

theorem recv_packet_limits_witness:
  "\<exists>g src. recv_packet ref_lib None 100 0 9464 0 96 None 7 example_sender = Some (Ignore, g, src)"
proof -
  have nx: "ExtendedSeqnum_next (rs_ext_seqnum example_sender) 9464 = Some (75000, \<lparr>es_last_ext = Some 75000\<rparr>)"
  proof -
    have "(9464 :: u16) = of_nat 75000" by simp
    then show ?thesis using es_next_exact [OF example_sender_facts(4,3), of 75000] by (simp only:) simp
  qed
  have "rate_ok None" by (simp add: rate_ok_def)
  from recv_packet_limits [OF reflib.gst_lib_spec_axioms this example_sender_facts(1-3) nx, of None 100 0 0 96 7]
  show ?thesis by simp blast
qed

text \<open>Receiving a packet never lowers the jitter estimate: the decay term is subtracted with
  saturation before it is added, so the running average of RFC 3550 only grows.\<close>

theorem jitter_never_decreases:
  assumes "recv_packet L g bytes time seqnum ts pt rate hid self = Some (reply, g', self')"
  shows "rs_jitter self \<le> rs_jitter self'"
proof (cases rule: recv_packet_cases [OF assms])
  case 1
  show ?thesis unfolding 1(3) by (rule order_refl)
next
  case early: (2 n ext)
  from recv_packet_state_jitter [OF early(3)] show ?thesis by simp
next
  case held: (3 n ext self1 h rest t0)
  from recv_packet_state_jitter [OF held(3)] add_to_stats_fields(9) [OF held(6)] show ?thesis by simp
next
  case pass: (4 n ext self1 t0)
  from recv_packet_state_jitter [OF pass(3)] add_to_stats_fields(9) [OF pass(5)] show ?thesis by simp
qed

theorem jitter_never_decreases_witness:
  "\<exists>reply g src. recv_packet ref_lib None 100 0 3 0 96 None 7 (RemoteSendSource_new 42 0) = Some (reply, g, src)
    \<and> rs_jitter (RemoteSendSource_new 42 0) \<le> rs_jitter src"
proof -
  obtain src where "recv_packet ref_lib None 100 0 3 0 96 None 7 (RemoteSendSource_new 42 0)
      = Some (Hold 7, Some 0, src)"
    by (rule probation_first [OF reflib.gst_lib_spec_axioms _ fresh_sender_new [of 42 0], of None None 100 0 3 0 96 7])
      (auto simp: rate_ok_def)
  with jitter_never_decreases [OF this] show ?thesis by blast
qed


text \<open>The fraction lost of a report block is the number of packets lost since the last report
  over those expected, in 256ths rounded down, as long as at least one packet was received.\<close>

theorem fraction_lost_correct:
  assumes "generate_report_block L self t = Some rb"
    and "es_last_ext (rs_ext_seqnum self) = Some ext"
    and "expected = ext - rs_ext_seqnum_at_last_rtcp self" and "expected < 2 ^ 56"
    and "received = rs_recv_packets self - rs_recv_packets_at_last_rtcp self"
    and "0 < received" and "received \<le> expected"
  shows "unat (rb_fraction_lost rb) = (expected - received) * 256 div expected"
proof -
  have rb: "rb_fraction_lost rb = fraction_lost_of expected (int expected - int received)"
    using assms(1-3,5) by (auto simp: generate_report_block_def bind_eq_Some_conv usub_Some_iff
        ExtendedSeqnum_current_def Let_def)
  let ?lost = "expected - received"
  have "?lost * 256 < 2 ^ 64" using assms(4) by simp
  then have m: "(?lost * 256) mod 2 ^ 64 = ?lost * 256" by (rule mod_less)
  have "?lost * 256 div expected < 256"
    using assms(6,7) by (intro div_less_iff_less_mult [THEN iffD2]) auto
  then have u: "unat (word_of_nat (?lost * 256 div expected) :: u8) = ?lost * 256 div expected"
    by (simp add: unat_of_nat)
  show ?thesis
  proof (cases "?lost = 0")
    case True
    with assms(7) show ?thesis by (simp add: rb fraction_lost_of_def)
  next
    case False
    with assms(6,7) have "rb_fraction_lost rb = word_of_nat (?lost * 256 mod 2 ^ 64 div expected)"
      by (simp add: rb fraction_lost_of_def flip: of_nat_diff)
    then show ?thesis unfolding m by (simp only: u)
  qed
qed

theorem fraction_lost_correct_witness:
  "\<exists>rb. generate_report_block ref_lib (example_sender\<lparr>rs_ext_seqnum_at_last_rtcp := 69990, rs_recv_packets := 4\<rparr>) 0
    = Some rb \<and> unat (rb_fraction_lost rb) = 153"
proof -
  let ?s = "example_sender\<lparr>rs_ext_seqnum_at_last_rtcp := 69990, rs_recv_packets := 4\<rparr>"
  have s: "rs_recv_packets_at_last_rtcp ?s = 0" "rs_last_received_sr ?s = None"
    by (simp_all add: example_sender_def rs_set_state_def RemoteSendSource_new_def remote_sender_init_def)
  then obtain rb where rb: "generate_report_block ref_lib ?s 0 = Some rb"
    by (simp add: generate_report_block_def last_sr_times_def from_duration_def reflib.ceil_spec
        fits_def SECOND_def usub_def Let_def)
  have "unat (rb_fraction_lost rb) = (10 - 4) * 256 div 10"
    by (rule fraction_lost_correct [OF rb, where ext = 70000]) (use example_sender_facts(3) s in simp_all)
  with rb show ?thesis by simp
qed

text \<open>When everything expected since the last report was lost, the reported fraction is zero.
  A packet 3000 or more ahead is ignored but moves the extended counter, and the loss of
  256/256 is cut to the byte 0.\<close>

theorem total_loss_reported_as_none:
  assumes "gst_lib_spec L" and "rate_ok rate" and "rs_state self = Normal" and "rs_held_buffers self = []"
    and "es_ok (rs_ext_seqnum self)" and "es_last_ext (rs_ext_seqnum self) = Some l"
    and "3000 \<le> d" and "d < 2 ^ 15"
    and "recv_packet L g bytes time (of_nat (l + d)) ts pt rate hid (update_last_rtcp self) = Some (reply, g', self')"
    and "generate_report_block L self' t = Some rb"
  shows "reply = Ignore \<and> rs_recv_packets self' = rs_recv_packets_at_last_rtcp self'
    \<and> es_last_ext (rs_ext_seqnum self') = Some (rs_ext_seqnum_at_last_rtcp self' + d)
    \<and> rb_fraction_lost rb = 0"
proof -
  let ?s = "update_last_rtcp self" let ?e = "\<lparr>es_last_ext = Some (l + d)\<rparr>"
  have s: "rs_state ?s = Normal" "rs_ext_seqnum ?s = rs_ext_seqnum self"
    "rs_recv_packets ?s = rs_recv_packets_at_last_rtcp ?s" "rs_ext_seqnum_at_last_rtcp ?s = l"
    using assms(3,6) by (simp_all add: update_last_rtcp_def rs_state_def ExtendedSeqnum_current_def)
  have nx: "ExtendedSeqnum_next (rs_ext_seqnum ?s) (of_nat (l + d)) = Some (l + d, ?e)"
    unfolding s(2) using assms(8) by (intro es_next_exact [OF assms(5,6)]) (simp_all add: div_le_mono)
  have st: "recv_packet_state bytes time (of_nat (l + d)) hid
         (case es_last_ext (rs_ext_seqnum ?s) of Some l' \<Rightarrow> int (l + d) - int l' | None \<Rightarrow> 0)
         (?s\<lparr>rs_ext_seqnum := ?e\<rparr>) = (Inl Ignore, ?s\<lparr>rs_ext_seqnum := ?e\<rparr>)"
    using s(1,2) assms(6,7)
    by (auto simp: recv_packet_state_def rs_state_def DEFAULT_MAX_DROPOUT_def DEFAULT_MAX_MISORDER_def)
  have "rs_state ?s \<noteq> Bye" using s(1) by simp
  from recv_packet_eq(1) [OF this nx st refl refl] assms(9)
  have self': "reply = Ignore" "self' = ?s\<lparr>rs_ext_seqnum := ?e\<rparr>" by simp_all
  have "fraction_lost_of d (int d) = 0"
    using assms(7,8) by (simp add: fraction_lost_of_def)
  then have "rb_fraction_lost rb = 0"
    using assms(10) s unfolding self'
    by (auto simp: generate_report_block_def bind_eq_Some_conv usub_Some_iff ExtendedSeqnum_current_def)
  with s show ?thesis by (simp add: self')
qed


theorem total_loss_reported_as_none_witness:
  "\<exists>src rb. recv_packet ref_lib None 100 0 (of_nat (70000 + 5000)) 0 96 None 7 (update_last_rtcp example_sender)
      = Some (Ignore, Some 0, src)
    \<and> generate_report_block ref_lib src 0 = Some rb \<and> rb_fraction_lost rb = 0"
proof -
  let ?s = "update_last_rtcp example_sender"
  have rate: "rate_ok None" by (simp add: rate_ok_def)
  have s: "rs_state ?s = Normal" "rs_held_buffers ?s = []" "rs_ext_seqnum ?s = rs_ext_seqnum example_sender"
    using example_sender_facts by (simp_all add: update_last_rtcp_def rs_state_def)
  obtain reply src where r: "recv_packet ref_lib None 100 0 (of_nat (70000 + 5000)) 0 96 None 7 ?s
      = Some (reply, Some 0, src)" and ok: "rs_ok src"
    using recv_packet_total [OF reflib.gst_lib_spec_axioms _ rate, of ?s None 100 0 "of_nat (70000 + 5000)" 0 96 7]
      s example_sender_facts by (auto simp: rs_ok_def update_last_rtcp_def)
  obtain rb where rb: "generate_report_block ref_lib src 0 = Some rb"
    using gst_lib_spec.generate_report_block_total [OF reflib.gst_lib_spec_axioms ok] by blast
  from total_loss_reported_as_none [OF reflib.gst_lib_spec_axioms rate example_sender_facts(1,2,4,3) _ _ r rb]
    r rb show ?thesis by simp
qed

text \<open>A report block can always be made for a remote sender that satisfies the invariant, and
  making it panics exactly when more packets were reported than received.\<close>

theorem generate_report_block_panics:
  assumes "gst_lib_spec L"
  shows "generate_report_block L self t = None
    \<longleftrightarrow> rs_recv_packets self < rs_recv_packets_at_last_rtcp self"
  by (rule gst_lib_spec.generate_report_block_None [OF assms])

theorem generate_report_block_panics_witness:
  "generate_report_block ref_lib example_sender 0 \<noteq> None"
  using generate_report_block_panics [OF reflib.gst_lib_spec_axioms, of example_sender 0]
  by (simp add: example_sender_def rs_set_state_def RemoteSendSource_new_def remote_sender_init_def)

text \<open>The number of lost packets survives the report block when it is between zero and
  \<^verbatim>\<open>2^23 - 1\<close>. A negative number does not: it is written in two's complement and
  read as sign and magnitude, so \<^verbatim>\<open>-1\<close> comes back as \<^verbatim>\<open>-8388607\<close>.\<close>

theorem cumulative_lost_round_trip:
  assumes "- (2 ^ 23) < lost" and "lost < 2 ^ 23"
  shows "Rb_cumulative_lost (rb\<lparr>rb_cumulative_lost := cumulative_lost_of lost\<rparr>)
    = (if 0 \<le> lost then lost else - (2 ^ 23 + lost))"
proof (cases "0 \<le> lost")
  case True
  with assms have "cumulative_lost_of lost = word_of_int lost"
    by (simp add: cumulative_lost_of_def mask_int)
  with True assms show ?thesis by (simp add: Rb_cumulative_lost_def low_bits_word)
next
  case False
  let ?m = "2 ^ 23 + lost"
  have m: "0 \<le> ?m" "?m < 2 ^ 23" using assms False by simp_all
  have "lost mod 2 ^ 23 = ?m"
    using m mod_add_self1 [of "2 ^ 23" lost] by (metis mod_pos_pos_trivial)
  with False have c: "cumulative_lost_of lost = 0x800000 OR word_of_int ?m"
    by (simp add: cumulative_lost_of_def mask_int)
  have "cumulative_lost_of lost AND 0x7fffff = word_of_int ?m"
    unfolding c bit.conj_disj_distrib2 low_bits_word(1) [OF m] by simp
  moreover have "cumulative_lost_of lost AND 0x800000 = 0x800000"
    unfolding c bit.conj_disj_distrib2 low_bits_word(2) [OF m] by simp
  ultimately show ?thesis using False low_bits_word(3) [OF m] by (simp add: Rb_cumulative_lost_def)
qed

theorem cumulative_lost_round_trip_witness:
  "Rb_cumulative_lost \<lparr>rb_ssrc = 1, rb_fraction_lost = 0, rb_cumulative_lost = cumulative_lost_of (- 1),
     rb_extended_sequence_number = 0, rb_jitter = 0, rb_last_sr = 0, rb_delay_since_last_sr = 0\<rparr> = - 8388607"
  using cumulative_lost_round_trip [of "- 1" "\<lparr>rb_ssrc = 1, rb_fraction_lost = 0, rb_cumulative_lost = 0,
     rb_extended_sequence_number = 0, rb_jitter = 0, rb_last_sr = 0, rb_delay_since_last_sr = 0\<rparr>"]
  by simp

text \<open>The bitrate window keeps exactly the entries that are less than the window away from the
  newest one, when the entries come in with non-decreasing times.\<close>

theorem bitrate_window:
  assumes "sorted (map snd (br_entries b))" and "\<forall>e \<in> set (br_entries b). snd e \<le> time"
  shows "br_entries (Bitrate_add_entry bytes time b)
      = filter (\<lambda>e. time - snd e < br_max_time b) (br_entries b @ [(bytes, time)])
    \<and> sorted (map snd (br_entries (Bitrate_add_entry bytes time b)))"
proof -
  have "sorted (map snd (br_entries b @ [(bytes, time)]))"
    using assms by (auto simp: sorted_append)
  then show ?thesis
    by (simp add: Bitrate_add_entry_def drop_outside_filter sorted_filter del: map_append filter_append)
qed

theorem bitrate_window_witness:
  "br_entries (Bitrate_add_entry 7 (5 * SECOND) \<lparr>br_max_time = 3 * SECOND,
     br_entries = [(1, SECOND), (2, 2 * SECOND), (4, 3 * SECOND)]\<rparr>) = [(4, 3 * SECOND), (7, 5 * SECOND)]"
  using bitrate_window [of "\<lparr>br_max_time = 3 * SECOND,
     br_entries = [(1, SECOND), (2, 2 * SECOND), (4, 3 * SECOND)]\<rparr>" "5 * SECOND" 7]
  by (simp add: SECOND_def)

text \<open>A round-trip time computed from a report block is below twelve seconds, whatever times
  the block carries.\<close>

theorem round_trip_time_bound: "round_trip_time r < 12 * SECOND"
proof -
  have "2 * d * 1000000000 div 65536 < 12 * SECOND" if "\<not> 5 < drop_bit 16 d" for d :: nat
  proof -
    from that have "d div 65536 < 6" by (simp add: drop_bit_eq_div)
    then have "d < 6 * 65536" by (simp add: div_less_iff_less_mult)
    then show ?thesis by (simp add: SECOND_def div_less_iff_less_mult)
  qed
  then show ?thesis by (auto simp: round_trip_time_def Let_def SECOND_def)
qed

text \<open>The first key-unit request for an SSRC is never allowed, and a later one is allowed
  exactly when a round-trip time has passed since the previous request, allowed or not.\<close>

theorem key_unit_request_spacing:
  "fst (rs_remote_request_key_unit_allowed now rb self) = (\<exists>previous.
      rs_last_request_key_unit self (rb_ssrc (rcv_rb rb)) = Some previous
      \<and> round_trip_time rb \<le> now - previous)
   \<and> rs_last_request_key_unit (snd (rs_remote_request_key_unit_allowed now rb self))
      = (rs_last_request_key_unit self)(rb_ssrc (rcv_rb rb) \<mapsto> now)"
  by (auto simp: rs_remote_request_key_unit_allowed_def key_unit_allowed_def Let_def split: option.splits)

end
