(* ===== verification/F64.thy ===== *)
theory F64
  imports Complex_Main "HOL-Library.Log_Nat" Ntp_Time
begin

text \<open>
  The double precision arithmetic the code uses: values that are not negative, kept as the
  rational numbers they denote, each operation followed by a rounding to 53 significant bits,
  nearest and ties to even. The exponent is not bounded: every value here lies between
  \<open>2^-65\<close> and \<open>2^65\<close>, or is zero, well inside the normal range.
\<close>

section \<open>Definitions\<close>

definition rne :: "rat \<Rightarrow> int" where
  "rne x =
     (let f = \<lfloor>x\<rfloor>; r = x - of_int f
      in if r < 1 / 2 then f else if 1 / 2 < r then f + 1 else if even f then f else f + 1)"

text \<open>The exponent of a positive value: the largest power of two not above it.\<close>

definition f64_exp :: "rat \<Rightarrow> int" where
  "f64_exp x =
     (let (p, q) = quotient_of x; k = bitlen p - bitlen q
      in if 2 powi k \<le> x then k else k - 1)"

definition f64_rnd :: "rat \<Rightarrow> rat" where
  "f64_rnd x =
     (if x = 0 then 0
      else let u = 2 powi (f64_exp x - 52) in of_int (rne (x / u)) * u)"

text \<open>\<^verbatim>\<open>as f64\<close> of an unsigned integer, division and multiplication.\<close>

definition f64_of_nat :: "nat \<Rightarrow> rat" where
  "f64_of_nat n = f64_rnd (of_nat n)"

definition f64_div :: "rat \<Rightarrow> rat \<Rightarrow> rat" where
  "f64_div a b = f64_rnd (a / b)"

definition f64_mul :: "rat \<Rightarrow> rat \<Rightarrow> rat" where
  "f64_mul a b = f64_rnd (a * b)"

definition f64_add :: "rat \<Rightarrow> rat \<Rightarrow> rat" where
  "f64_add a b = f64_rnd (a + b)"

text \<open>\<^verbatim>\<open>Duration::as_secs_f64\<close>, \<^verbatim>\<open>from_secs_f64\<close> and \<^verbatim>\<open>mul_f64\<close>.\<close>

definition as_secs_f64 :: "duration \<Rightarrow> rat" where
  "as_secs_f64 d =
     f64_add (f64_of_nat (d div SECOND)) (f64_div (f64_of_nat (d mod SECOND)) (f64_of_nat SECOND))"

definition from_secs_f64 :: "rat \<Rightarrow> duration option" where
  "from_secs_f64 x =
     (let n = nat (rne (x * of_nat SECOND)) in if n < 2 ^ 64 * SECOND then Some n else None)"

definition mul_f64 :: "duration \<Rightarrow> rat \<Rightarrow> duration option" where
  "mul_f64 d f = from_secs_f64 (f64_mul f (as_secs_f64 d))"

section \<open>Rounding error\<close>

lemma rne_error: "\<bar>of_int (rne x) - x\<bar> \<le> 1 / 2"
proof -
  define f where "f = \<lfloor>x\<rfloor>"
  have "of_int f \<le> x" "x < of_int f + 1" unfolding f_def by linarith+
  then show ?thesis unfolding rne_def Let_def f_def [symmetric] abs_le_iff
    by (auto split: if_splits)
qed

lemma rne_int [simp]: "rne (of_int n) = n"
  by (simp add: rne_def)

lemma powi_of_pow: "0 \<le> a \<Longrightarrow> of_int (2 ^ nat a) = (2 powi a :: rat)"
  by (simp add: power_int_def)

lemma f64_exp_bounds:
  assumes "0 < x"
  shows "2 powi (f64_exp x) \<le> x" and "x < 2 powi (f64_exp x + 1)"
proof -
  obtain p q where pq: "quotient_of x = (p, q)" by fastforce
  have q: "0 < q" by (rule quotient_of_denom_pos [OF pq])
  have x: "x = of_int p / of_int q" by (rule quotient_of_div [OF pq])
  have p: "0 < p" using assms q unfolding x by (simp add: zero_less_divide_iff)
  let ?a = "bitlen p" and ?b = "bitlen q" and ?P = "of_int p :: rat" and ?Q = "of_int q :: rat"
  have pos: "0 < bitlen n" if "0 < n" for n
    using bitlen_bounds [OF that] that by (cases "0 < bitlen n") auto
  have ab: "0 < ?a" "0 < ?b" using p q by (simp_all add: pos)
  have "2 ^ nat (?a - 1) \<le> p" "p < 2 ^ nat ?a" "2 ^ nat (?b - 1) \<le> q" "q < 2 ^ nat ?b"
    using bitlen_bounds [OF p] bitlen_bounds [OF q] by auto
  then have "of_int (2 ^ nat (?a - 1)) \<le> ?P" "?P < of_int (2 ^ nat ?a)"
    "of_int (2 ^ nat (?b - 1)) \<le> ?Q" "?Q < of_int (2 ^ nat ?b)"
    by (simp_all only: of_int_le_iff of_int_less_iff)
  then have b: "2 powi (?a - 1) \<le> ?P" "?P < 2 powi ?a" "2 powi (?b - 1) \<le> ?Q" "?Q < 2 powi ?b"
    using ab by (simp_all only: powi_of_pow)
  have Q: "0 < ?Q" using q by simp
  have "2 powi (?a - 1 - ?b) = 2 powi (?a - 1) / (2 powi ?b :: rat)" by (simp add: power_int_diff)
  also have "\<dots> < ?P / ?Q" using b Q by (intro frac_less2) auto
  finally have lo: "2 powi (?a - ?b - 1) < x" by (simp add: x algebra_simps)
  have "?P / ?Q < 2 powi ?a / (2 powi (?b - 1) :: rat)" using b p by (intro frac_less) auto
  also have "\<dots> = 2 powi (?a - (?b - 1))" by (simp add: power_int_diff)
  finally have hi: "x < 2 powi (?a - ?b + 1)" by (simp add: x algebra_simps)
  show "2 powi (f64_exp x) \<le> x" and "x < 2 powi (f64_exp x + 1)"
    using lo hi by (auto simp: f64_exp_def pq Let_def)
qed

text \<open>The rounding is off by at most one part in \<open>2^53\<close>.\<close>

lemma f64_rnd_error:
  assumes "0 \<le> x"
  shows "\<bar>f64_rnd x - x\<bar> \<le> x / 2 ^ 53"
proof (cases "x = 0")
  case False
  with assms have x: "0 < x" by simp
  let ?u = "2 powi (f64_exp x - 52) :: rat"
  have u: "0 < ?u" by simp
  have "f64_rnd x - x = (of_int (rne (x / ?u)) - x / ?u) * ?u"
    using False by (simp add: f64_rnd_def Let_def left_diff_distrib)
  then have "\<bar>f64_rnd x - x\<bar> = \<bar>of_int (rne (x / ?u)) - x / ?u\<bar> * ?u"
    by (simp only: abs_mult abs_of_pos [OF u])
  also have "\<dots> \<le> 1 / 2 * ?u" using rne_error [of "x / ?u"] u by (intro mult_right_mono) auto
  also have "\<dots> = 2 powi (f64_exp x) / 2 ^ 53" by (simp add: power_int_diff)
  also have "\<dots> \<le> x / 2 ^ 53" using f64_exp_bounds(1) [OF x] by (simp add: divide_right_mono)
  finally show ?thesis .
qed (simp add: f64_rnd_def)

lemma f64_rnd_pos:
  assumes "0 < x"
  shows "0 < f64_rnd x"
proof -
  have "x / 2 ^ 53 < x" using assms by simp
  with f64_rnd_error [of x] assms show ?thesis by linarith
qed

section \<open>Scaling a duration\<close>

definition f64_eps :: rat where "f64_eps = 1 / 2 ^ 53"

lemma f64_eps_bounds: "0 < f64_eps" "f64_eps < 1"
  by (simp_all add: f64_eps_def)

text \<open>A rounded value lies between two multiples of the exact one.\<close>

lemma f64_rnd_between:
  assumes "0 \<le> x"
  shows "(1 - f64_eps) * x \<le> f64_rnd x" and "f64_rnd x \<le> (1 + f64_eps) * x"
proof -
  have "\<bar>f64_rnd x - x\<bar> \<le> f64_eps * x" using f64_rnd_error [OF assms] by (simp add: f64_eps_def)
  then show "(1 - f64_eps) * x \<le> f64_rnd x" and "f64_rnd x \<le> (1 + f64_eps) * x"
    by (simp_all add: abs_le_iff algebra_simps)
qed

lemma f64_rnd_nonneg: "0 \<le> x \<Longrightarrow> 0 \<le> f64_rnd x"
  using f64_rnd_pos [of x] by (cases "x = 0") (auto simp: f64_rnd_def)

text \<open>One more rounding of a value that is already rounded \<open>k\<close> times.\<close>

definition f64_near :: "nat \<Rightarrow> rat \<Rightarrow> rat \<Rightarrow> bool" where
  "f64_near k x y \<longleftrightarrow> (1 - f64_eps) ^ k * x \<le> y \<and> y \<le> (1 + f64_eps) ^ k * x"

lemma f64_near_refl: "f64_near 0 x x"
  by (simp add: f64_near_def)

lemma f64_near_pos: "0 \<le> x \<Longrightarrow> f64_near k x y \<Longrightarrow> 0 \<le> y"
proof -
  assume "0 \<le> x" "f64_near k x y"
  moreover have "0 \<le> (1 - f64_eps) ^ k" using f64_eps_bounds by simp
  ultimately show "0 \<le> y" unfolding f64_near_def by (meson mult_nonneg_nonneg order_trans)
qed

lemma f64_near_rnd:
  assumes "f64_near k x y" and "0 \<le> x"
  shows "f64_near (Suc k) x (f64_rnd y)"
proof -
  have y: "0 \<le> y" using f64_near_pos assms by blast
  note b = f64_rnd_between [OF y]
  have "(1 - f64_eps) * ((1 - f64_eps) ^ k * x) \<le> (1 - f64_eps) * y"
    using assms(1) f64_eps_bounds by (intro mult_left_mono) (auto simp: f64_near_def)
  moreover have "(1 + f64_eps) * y \<le> (1 + f64_eps) * ((1 + f64_eps) ^ k * x)"
    using assms(1) f64_eps_bounds by (intro mult_left_mono) (auto simp: f64_near_def)
  ultimately show ?thesis using b by (simp add: f64_near_def mult.assoc)
qed

lemma f64_near_mono:
  assumes "f64_near k x y" and "k \<le> m" and "0 \<le> x"
  shows "f64_near m x y"
proof -
  have "(1 - f64_eps) ^ m \<le> (1 - f64_eps) ^ k"
    using assms(2) f64_eps_bounds by (intro power_decreasing) auto
  moreover have "(1 + f64_eps) ^ k \<le> (1 + f64_eps) ^ m"
    using assms(2) f64_eps_bounds by (intro power_increasing) auto
  ultimately have "(1 - f64_eps) ^ m * x \<le> (1 - f64_eps) ^ k * x"
    "(1 + f64_eps) ^ k * x \<le> (1 + f64_eps) ^ m * x"
    using assms(3) by (auto intro: mult_right_mono)
  with assms(1) show ?thesis unfolding f64_near_def by linarith
qed

lemma f64_near_add: "f64_near k x y \<Longrightarrow> f64_near k x' y' \<Longrightarrow> f64_near k (x + x') (y + y')"
  unfolding f64_near_def by (simp add: distrib_left)

lemma f64_near_scale: "f64_near k x y \<Longrightarrow> 0 \<le> c \<Longrightarrow> f64_near k (c * x) (c * y)"
  unfolding f64_near_def by (auto dest: mult_left_mono [where c = c] simp: mult.left_commute)

text \<open>Integers of up to 53 bits are represented exactly.\<close>

lemma f64_of_nat_exact:
  assumes "n < 2 ^ 53"
  shows "f64_of_nat n = of_nat n"
proof (cases "n = 0")
  case False
  let ?e = "f64_exp (of_nat n)" and ?u = "2 powi (f64_exp (of_nat n) - 52) :: rat"
  have "2 powi ?e \<le> (of_nat n :: rat)" using False by (intro f64_exp_bounds) simp
  also have "\<dots> < of_nat (2 ^ 53)" using assms by (simp only: of_nat_less_iff)
  finally have "2 powi ?e < (2 powi 53 :: rat)" by simp
  then have e: "?e < 53"
    using power_int_increasing [of 53 ?e "2 :: rat"] by (cases "?e < 53") auto
  have "of_nat n / ?u = of_nat n * 2 powi (52 - ?e)" by (simp add: power_int_diff)
  also have "\<dots> = of_int (int n * 2 ^ nat (52 - ?e))" using e by (simp add: power_int_def)
  finally have "rne (of_nat n / ?u) = int n * 2 ^ nat (52 - ?e)" by (simp only: rne_int)
  then have "of_int (rne (of_nat n / ?u)) * ?u = of_nat n / ?u * ?u"
    using \<open>of_nat n / ?u = of_nat n * 2 powi (52 - ?e)\<close>
      \<open>of_nat n * 2 powi (52 - ?e) = of_int (int n * 2 ^ nat (52 - ?e))\<close> by simp
  then show ?thesis using False by (simp add: f64_of_nat_def f64_rnd_def Let_def)
qed (simp add: f64_of_nat_def f64_rnd_def)

lemma f64_second: "f64_of_nat SECOND = of_nat SECOND"
  by (rule f64_of_nat_exact) (simp add: SECOND_def)

lemma as_secs_near: "f64_near 3 (of_nat d / of_nat SECOND) (as_secs_f64 d)"
proof -
  have s: "0 < (of_nat SECOND :: rat)" by (simp add: SECOND_def)
  have "f64_near 1 (of_nat (d div SECOND)) (f64_of_nat (d div SECOND))"
    unfolding f64_of_nat_def using f64_near_rnd [OF f64_near_refl] by simp
  then have a: "f64_near 2 (of_nat (d div SECOND)) (f64_of_nat (d div SECOND))"
    by (rule f64_near_mono) simp_all
  have "f64_near 1 (of_nat (d mod SECOND)) (f64_of_nat (d mod SECOND))"
    unfolding f64_of_nat_def using f64_near_rnd [OF f64_near_refl] by simp
  from f64_near_scale [OF this, of "1 / of_nat SECOND"]
  have "f64_near 1 (of_nat (d mod SECOND) / of_nat SECOND) (f64_of_nat (d mod SECOND) / of_nat SECOND)"
    using s by simp
  from f64_near_rnd [OF this]
  have b: "f64_near 2 (of_nat (d mod SECOND) / of_nat SECOND)
      (f64_div (f64_of_nat (d mod SECOND)) (f64_of_nat SECOND))"
    by (simp add: f64_div_def f64_second numeral_2_eq_2)
  have "of_nat (d div SECOND) + of_nat (d mod SECOND) / of_nat SECOND = (of_nat d / of_nat SECOND :: rat)"
  proof -
    have "(of_nat d :: rat) = of_nat (d div SECOND * SECOND + d mod SECOND)" by simp
    then show ?thesis using s by (simp only: of_nat_add of_nat_mult add_divide_distrib) simp
  qed
  with f64_near_rnd [OF f64_near_add [OF a b]] show ?thesis
    by (simp add: as_secs_f64_def f64_add_def numeral_3_eq_3 numeral_2_eq_2)
qed

text \<open>
  Scaling a duration of up to three days by a factor of up to 2 is off by at most a nanosecond.
\<close>

lemma mul_f64_error:
  assumes d: "d < 2 ^ 48" and f: "0 \<le> f" "f \<le> 2"
  shows "\<exists>n. mul_f64 d f = Some n \<and> \<bar>of_nat n - of_nat d * f\<bar> \<le> 1"
proof -
  have s: "0 < (of_nat SECOND :: rat)" by (simp add: SECOND_def)
  define y where "y = f64_mul f (as_secs_f64 d)"
  have "f64_near 3 (f * (of_nat d / of_nat SECOND)) (f * as_secs_f64 d)"
    using f64_near_scale [OF as_secs_near f(1)] .
  from f64_near_rnd [OF this] have "f64_near 4 (f * (of_nat d / of_nat SECOND)) y"
    using f(1) by (simp add: y_def f64_mul_def numeral_eq_Suc)
  from f64_near_scale [OF this, of "of_nat SECOND"]
  have n: "f64_near 4 (of_nat d * f) (y * of_nat SECOND)" using s by (simp add: mult.commute)
  have df: "0 \<le> of_nat d * f" "of_nat d * f \<le> 2 ^ 49"
  proof -
    have "(of_nat d :: rat) \<le> 2 ^ 48" using d by (metis less_imp_le of_nat_le_iff of_nat_numeral of_nat_power)
    then have "of_nat d * f \<le> 2 ^ 48 * 2" using f by (intro mult_mono) auto
    then show "of_nat d * f \<le> 2 ^ 49" by simp
  qed (use f in simp)
  have "(1 + f64_eps) ^ 4 \<le> 1 + 5 * f64_eps" "1 - 5 * f64_eps \<le> (1 - f64_eps) ^ 4"
    by (simp_all add: power4_eq_xxxx f64_eps_def)
  then have "(1 + f64_eps) ^ 4 * (of_nat d * f) \<le> (1 + 5 * f64_eps) * (of_nat d * f)"
    "(1 - 5 * f64_eps) * (of_nat d * f) \<le> (1 - f64_eps) ^ 4 * (of_nat d * f)"
    using df(1) by (auto intro: mult_right_mono)
  with n have "\<bar>y * of_nat SECOND - of_nat d * f\<bar> \<le> 5 * f64_eps * (of_nat d * f)"
    unfolding f64_near_def abs_le_iff by (simp add: algebra_simps)
  also have "\<dots> \<le> 5 * f64_eps * 2 ^ 49" using df f64_eps_bounds by (intro mult_left_mono) auto
  finally have e: "\<bar>y * of_nat SECOND - of_nat d * f\<bar> \<le> 5 / 16" by (simp add: f64_eps_def)
  define m where "m = rne (y * of_nat SECOND)"
  have m: "\<bar>of_int m - of_nat d * f\<bar> \<le> 13 / 16"
    using rne_error [of "y * of_nat SECOND"] e unfolding m_def by linarith
  have "- 1 < (of_int m :: rat)" using m df by linarith
  then have "of_int (- 1) < (of_int m :: rat)" by simp
  then have m0: "0 \<le> m" by (simp only: of_int_less_iff)
  have "of_int m \<le> (2 ^ 49 + 1 :: rat)" using m df(2) unfolding abs_le_iff by linarith
  also have "\<dots> = of_int (2 ^ 49 + 1)" by simp
  finally have "m \<le> 2 ^ 49 + 1" by (simp only: of_int_le_iff)
  then have "nat m < 2 ^ 64 * SECOND" using m0 by (simp add: SECOND_def nat_less_iff)
  then have "mul_f64 d f = Some (nat m)"
    by (simp add: mul_f64_def from_secs_f64_def y_def [symmetric] m_def [symmetric])
  moreover have "(of_nat (nat m) :: rat) = of_int m" using m0 by simp
  ultimately show ?thesis using m by (intro exI [of _ "nat m"]) simp
qed

end
