(* ===== verification/Sync_Observations.thy ===== *)
theory Sync_Observations
  imports Ntp_Time F64
begin

text \<open>
  Clock skew estimation of one stream, the \<^verbatim>\<open>Observations\<close> of
  \<^verbatim>\<open>net/rtp/src/rtpbin2/sync.rs\<close>: the window of deltas between local and remote time, the
  estimate that follows their minimum, and the corrected time. The lemmas show that the minimum
  is kept right by the incremental updates, and that no step overflows.

  Sums of \<^verbatim>\<open>u64\<close> and \<^verbatim>\<open>i64\<close> values that the code does not bound are checked: an overflow is
  a panic.
\<close>

section \<open>Definitions\<close>

definition WINDOW_LENGTH :: nat where "WINDOW_LENGTH = 512"
definition WINDOW_DURATION :: nat where "WINDOW_DURATION = 2000000000"

record observations =
  base_local_time :: "nat option"
  base_remote_time :: "nat option"
  highest_remote_time :: "nat option"
  deltas :: "int list"
  min_delta :: int
  skew :: int
  filling :: bool
  window_size :: nat

definition Observations_default :: observations where
  "Observations_default = \<lparr>
     base_local_time = None, base_remote_time = None, highest_remote_time = None,
     deltas = [], min_delta = 0, skew = 0, filling = True, window_size = 0\<rparr>"

definition out_time :: "observations \<Rightarrow> nat \<Rightarrow> nat \<Rightarrow> (nat \<times> bool) option" where
  "out_time self base_local remote_diff = do {
     t \<leftarrow> chk_u64 (base_local + remote_diff);
     t \<leftarrow> (if skew self < 0 then map_option (\<lambda>n. t - as_u64 n) (chk_i64 (- skew self))
           else chk_u64 (t + as_u64 (skew self)));
     Some (t, False)
   }"

text \<open>The first observation, and every one after a reset, sets the base times.\<close>

definition Observations_init :: "observations \<Rightarrow> nat \<Rightarrow> nat \<Rightarrow> observations" where
  "Observations_init self remote_time local_time = self\<lparr>
     base_remote_time := Some remote_time, base_local_time := Some local_time,
     highest_remote_time := Some remote_time\<rparr>"

definition slope_ok :: "nat \<Rightarrow> nat \<Rightarrow> bool" where
  "slope_ok local_diff remote_diff \<longleftrightarrow>
     (let slope = f64_div (f64_of_nat local_diff) (f64_of_nat remote_diff)
      in f64_rnd (8 / 10) \<le> slope \<and> slope < f64_rnd (12 / 10))"

text \<open>Whether the delta is more than a second away from the skew.\<close>

definition delta_far :: "int \<Rightarrow> int \<Rightarrow> bool option" where
  "delta_far delta sk =
     (if delta > sk then map_option (\<lambda>d. d > 1000000000) (chk_i64 (delta - sk))
      else if delta < sk then map_option (\<lambda>d. d > 1000000000) (chk_i64 (sk - delta))
      else Some False)"

text \<open>One more delta while the window is filling, and in a full window.\<close>

definition fill_window :: "gst_lib \<Rightarrow> observations \<Rightarrow> nat \<Rightarrow> int \<Rightarrow> observations option" where
  "fill_window L self remote_diff delta =
     (let self = (if deltas self = [] \<or> delta < min_delta self then self\<lparr>min_delta := delta\<rparr> else self);
          self = self\<lparr>deltas := deltas self @ [delta]\<rparr>
      in if remote_diff > WINDOW_DURATION \<or> length (deltas self) = WINDOW_LENGTH then
           Some (self\<lparr>window_size := length (deltas self), skew := min_delta self, filling := False\<rparr>)
         else do {
           perc_time \<leftarrow> mul_div_floor L remote_diff 100 WINDOW_DURATION;
           perc_window \<leftarrow> mul_div_floor L (length (deltas self)) 100 WINDOW_LENGTH;
           let perc = max (as_i64 perc_time) (as_i64 perc_window);
           a \<leftarrow> chk_i64 (perc * min_delta self);
           r \<leftarrow> chk_i64 (10000 - perc);
           b \<leftarrow> chk_i64 (r * skew self);
           c \<leftarrow> chk_i64 (a + b);
           Some (self\<lparr>skew := idiv c 10000\<rparr>)
         })"

definition slide_window :: "observations \<Rightarrow> int \<Rightarrow> observations option" where
  "slide_window self delta =
     (case deltas self of
        [] \<Rightarrow> None
      | old # rest \<Rightarrow> do {
          let ds = rest @ [delta];
          let m = (if delta \<le> min_delta self then delta
                   else if old = min_delta self then Min (set ds) else min_delta self);
          a \<leftarrow> chk_i64 (124 * skew self);
          b \<leftarrow> chk_i64 (m + a);
          Some (self\<lparr>deltas := ds, min_delta := m, skew := idiv b 125\<rparr>)
        })"

definition process :: "gst_lib \<Rightarrow> observations \<Rightarrow> nat \<Rightarrow> nat \<Rightarrow> ((nat \<times> bool) \<times> observations) option" where
  "process L self remote_time local_time =
     (case (base_remote_time self, base_local_time self) of
        (Some base_remote, Some base_local) \<Rightarrow> do {
          highest \<leftarrow> highest_remote_time self;
          let remote_diff = remote_time - base_remote;
          if remote_time \<le> highest then do {
            r \<leftarrow> out_time self base_local remote_diff;
            Some (r, self)
          } else do {
            let self = self\<lparr>highest_remote_time := Some remote_time\<rparr>;
            let local_diff = local_time - base_local;
            delta \<leftarrow> chk_i64 (as_i64 local_diff - as_i64 remote_diff);
            let reset = ((local_time, deltas self \<noteq> []),
                         Observations_init Observations_default remote_time local_time);
            if remote_diff > 0 \<and> local_diff > 0 \<and> \<not> slope_ok local_diff remote_diff then Some reset
            else do {
              far \<leftarrow> delta_far delta (skew self);
              if far then Some reset
              else do {
                self \<leftarrow> (if filling self then fill_window L self remote_diff delta
                         else slide_window self delta);
                r \<leftarrow> out_time self base_local remote_diff;
                Some (r, self)
              }
            }
          }
        }
      | _ \<Rightarrow> Some ((local_time, False), Observations_init self remote_time local_time))"

section \<open>The invariant\<close>

text \<open>
  The bound on the clock difference, about six and a half days: products of a delta and a
  weight up to 10000 stay in 64 bits.
\<close>

definition OBS_BOUND :: int where "OBS_BOUND = 2 ^ 49"

definition window_ok :: "observations \<Rightarrow> bool" where
  "window_ok s \<longleftrightarrow>
     (deltas s \<noteq> [] \<longrightarrow> min_delta s = Min (set (deltas s)))
     \<and> (if filling s then length (deltas s) < WINDOW_LENGTH
        else deltas s \<noteq> [] \<and> length (deltas s) = window_size s \<and> window_size s \<le> WINDOW_LENGTH)
     \<and> (\<forall>d \<in> set (deltas s). \<bar>d\<bar> \<le> OBS_BOUND) \<and> \<bar>skew s\<bar> \<le> OBS_BOUND"

definition times_ok :: "observations \<Rightarrow> bool" where
  "times_ok s \<longleftrightarrow>
     (case (base_remote_time s, base_local_time s, highest_remote_time s) of
        (None, None, None) \<Rightarrow> deltas s = []
      | (Some r, Some l, Some h) \<Rightarrow> r \<le> h \<and> h < 2 ^ 62 \<and> l < 2 ^ 62
      | _ \<Rightarrow> False)"

definition obs_ok :: "observations \<Rightarrow> bool" where
  "obs_ok s \<longleftrightarrow> window_ok s \<and> times_ok s"

lemma obs_ok_default [simp]: "obs_ok Observations_default"
  by (simp add: obs_ok_def window_ok_def times_ok_def Observations_default_def OBS_BOUND_def
      WINDOW_LENGTH_def)

lemma obs_ok_init_default:
  assumes "r < 2 ^ 62" and "l < 2 ^ 62"
  shows "obs_ok (Observations_init Observations_default r l)"
  using assms by (simp add: obs_ok_def window_ok_def times_ok_def Observations_default_def
      Observations_init_def OBS_BOUND_def WINDOW_LENGTH_def)

lemma abs_idiv_le:
  assumes "\<bar>n\<bar> \<le> d * b" and "0 < d"
  shows "\<bar>idiv n d\<bar> \<le> b"
proof -
  have "\<bar>n\<bar> div d \<le> b"
    using zdiv_mono1 [OF assms(1) assms(2)] assms(2) by simp
  moreover have "0 \<le> \<bar>n\<bar> div d" using assms(2) by (simp add: pos_imp_zdiv_nonneg_iff)
  ultimately show ?thesis using assms(2) by (auto simp: idiv_def)
qed

text \<open>A weighted mean of two values stays in their common bound.\<close>

lemma weighted_bound:
  fixes a b B w n :: int
  assumes "\<bar>a\<bar> \<le> B" and "\<bar>b\<bar> \<le> B" and "0 \<le> w" and "w \<le> n"
  shows "\<bar>w * a\<bar> \<le> n * B" and "\<bar>(n - w) * b\<bar> \<le> n * B" and "\<bar>w * a + (n - w) * b\<bar> \<le> n * B"
proof -
  have B: "0 \<le> B" using assms(1) by linarith
  have wa: "\<bar>w * a\<bar> \<le> w * B" using assms by (simp add: abs_mult mult_left_mono)
  have wb: "\<bar>(n - w) * b\<bar> \<le> (n - w) * B" using assms by (simp add: abs_mult mult_left_mono)
  have s: "w * B + (n - w) * B = n * B" by (simp add: algebra_simps)
  have p: "0 \<le> w * B" "0 \<le> (n - w) * B" using assms B by simp_all
  show "\<bar>w * a\<bar> \<le> n * B" using wa p s by linarith
  show "\<bar>(n - w) * b\<bar> \<le> n * B" using wb p s by linarith
  show "\<bar>w * a + (n - w) * b\<bar> \<le> n * B" using wa wb s by linarith
qed

text \<open>A truncated mean stays between the two values.\<close>

lemma idiv_between:
  assumes "d * lo \<le> n" and "n \<le> d * hi" and "0 < d"
  shows "lo \<le> idiv n d" and "idiv n d \<le> hi"
proof -
  have "lo \<le> idiv n d \<and> idiv n d \<le> hi"
  proof (cases "n < 0")
    case True
    then have e: "idiv n d = - ((- n) div d)" using assms(3) by (simp add: idiv_def)
    have "(- n) div d \<le> - lo"
      using zdiv_mono1 [of "- n" "(- lo) * d" d] assms
      by (simp add: mult.commute del: mult_minus_left mult_minus_right)
    moreover have "- hi \<le> (- n) div d"
      using zdiv_mono1 [of "(- hi) * d" "- n" d] assms
      by (simp add: mult.commute del: mult_minus_left mult_minus_right)
    ultimately show ?thesis using e by linarith
  next
    case False
    then have e: "idiv n d = n div d" using assms(3) by (simp add: idiv_def)
    show ?thesis
      using zdiv_mono1 [OF assms(1) assms(3)] zdiv_mono1 [OF assms(2) assms(3)] assms(3) e by simp
  qed
  then show "lo \<le> idiv n d" and "idiv n d \<le> hi" by simp_all
qed

lemma weighted_between:
  fixes a b w n :: int
  assumes "0 \<le> w" and "w \<le> n"
  shows "n * min a b \<le> w * a + (n - w) * b" and "w * a + (n - w) * b \<le> n * max a b"
proof -
  have "w * min a b + (n - w) * min a b \<le> w * a + (n - w) * b"
    using assms by (intro add_mono mult_left_mono) auto
  then show "n * min a b \<le> w * a + (n - w) * b" by (simp add: algebra_simps)
  have "w * a + (n - w) * b \<le> w * max a b + (n - w) * max a b"
    using assms by (intro add_mono mult_left_mono) auto
  then show "w * a + (n - w) * b \<le> n * max a b" by (simp add: algebra_simps)
qed

lemma chk_i64_bound: "\<bar>x\<bar> < 2 ^ 63 \<Longrightarrow> chk_i64 x = Some x"
  by (auto simp: chk_i64_def)

lemma Min_in_bound: "xs \<noteq> [] \<Longrightarrow> \<forall>d \<in> set xs. \<bar>d\<bar> \<le> B \<Longrightarrow> \<bar>Min (set xs)\<bar> \<le> (B :: int)"
  using Min_in [of "set xs"] by auto

lemma min_delta_push:
  assumes "xs \<noteq> [] \<longrightarrow> m = Min (set xs)"
  shows "(if xs = [] \<or> d < m then d else m) = Min (set (xs @ [d :: int]))"
proof (cases "xs = []")
  case False
  then have "Min (set (xs @ [d])) = min d (Min (set xs))" by simp
  moreover have "m = Min (set xs)" using False assms by simp
  moreover have "(if xs = [] \<or> d < m then d else m) = min d m" using False by auto
  ultimately show ?thesis by (simp only:)
qed simp

text \<open>The minimum of the sliding window, recomputed only when the minimum leaves it.\<close>

lemma min_delta_slide:
  fixes d :: int
  assumes "m = Min (set (old # rest))"
  shows "(if d \<le> m then d else if old = m then Min (set (rest @ [d])) else m)
    = Min (set (rest @ [d]))"
proof -
  consider "d \<le> m" | "\<not> d \<le> m" "old = m" | "\<not> d \<le> m" "old \<noteq> m" by blast
  then show ?thesis
  proof cases
    case 1
    with assms have "\<forall>x \<in> set rest. d \<le> x" by auto
    then have "Min (set (rest @ [d])) = d" by (intro Min_eqI) auto
    with 1 show ?thesis by simp
  next
    case 3
    have "m \<in> set (old # rest)" using Min_in [of "set (old # rest)"] assms by simp
    with 3 have "m \<in> set rest" by simp
    moreover have "\<forall>x \<in> set rest. m \<le> x" using assms by auto
    ultimately have "Min (set (rest @ [d])) = m" using 3 by (intro Min_eqI) auto
    with 3 show ?thesis by simp
  qed simp
qed

section \<open>No step panics\<close>

lemma delta_far_total:
  assumes "\<bar>delta\<bar> \<le> OBS_BOUND" and "\<bar>s\<bar> \<le> OBS_BOUND"
  shows "delta_far delta s = Some (\<bar>delta - s\<bar> > 1000000000)"
  using assms by (auto simp: delta_far_def chk_i64_def OBS_BOUND_def)

definition skew_between :: "int \<Rightarrow> observations \<Rightarrow> bool" where
  "skew_between old s' \<longleftrightarrow>
     min (min_delta s') old \<le> skew s' \<and> skew s' \<le> max (min_delta s') old"

definition same_times :: "observations \<Rightarrow> observations \<Rightarrow> bool" where
  "same_times s s' \<longleftrightarrow> base_remote_time s' = base_remote_time s
     \<and> base_local_time s' = base_local_time s \<and> highest_remote_time s' = highest_remote_time s"

lemma fill_window_ok:
  assumes "gst_lib_spec L" and "window_ok s" and "filling s" and "\<bar>delta\<bar> \<le> OBS_BOUND"
  obtains s' where "fill_window L s remote_diff delta = Some s'" and "window_ok s'"
    and "same_times s s'" and "deltas s' = deltas s @ [delta]" and "skew_between (skew s) s'"
proof -
  define m where "m = (if deltas s = [] \<or> delta < min_delta s then delta else min_delta s)"
  define ds where "ds = deltas s @ [delta]"
  have m: "m = Min (set ds)"
    unfolding m_def ds_def using assms(2) by (intro min_delta_push) (simp add: window_ok_def)
  have ds: "\<forall>d \<in> set ds. \<bar>d\<bar> \<le> OBS_BOUND" "ds \<noteq> []"
    and len: "length ds \<le> WINDOW_LENGTH" and sk: "\<bar>skew s\<bar> \<le> OBS_BOUND"
    using assms by (auto simp: ds_def window_ok_def)
  have mb: "\<bar>m\<bar> \<le> OBS_BOUND" using Min_in_bound [OF ds(2,1)] m by simp
  define t where "t = s\<lparr>min_delta := m, deltas := ds\<rparr>"
  have t: "fill_window L s remote_diff delta =
      (if remote_diff > WINDOW_DURATION \<or> length ds = WINDOW_LENGTH then
         Some (t\<lparr>window_size := length ds, skew := m, filling := False\<rparr>)
       else do {
         perc_time \<leftarrow> mul_div_floor L remote_diff 100 WINDOW_DURATION;
         perc_window \<leftarrow> mul_div_floor L (length ds) 100 WINDOW_LENGTH;
         let perc = max (as_i64 perc_time) (as_i64 perc_window);
         a \<leftarrow> chk_i64 (perc * m);
         r \<leftarrow> chk_i64 (10000 - perc);
         b \<leftarrow> chk_i64 (r * skew s);
         c \<leftarrow> chk_i64 (a + b);
         Some (t\<lparr>skew := idiv c 10000\<rparr>)
       })"
    by (auto simp: fill_window_def t_def m_def ds_def Let_def)
  show thesis
  proof (cases "remote_diff > WINDOW_DURATION \<or> length ds = WINDOW_LENGTH")
    case True
    show thesis
      by (rule that [of "t\<lparr>window_size := length ds, skew := m, filling := False\<rparr>"])
        (use True t m ds len mb in \<open>simp_all add: window_ok_def same_times_def skew_between_def t_def ds_def\<close>)
  next
    case False
    define pt where "pt = remote_diff * 100 div WINDOW_DURATION"
    define pw where "pw = length ds * 100 div WINDOW_LENGTH"
    have pt: "pt \<le> 100" using False div_le_mono [of "remote_diff * 100" "100 * WINDOW_DURATION" WINDOW_DURATION]
      by (simp add: pt_def WINDOW_DURATION_def)
    have pw: "pw \<le> 100" using len div_le_mono [of "length ds * 100" "100 * WINDOW_LENGTH" WINDOW_LENGTH]
      by (simp add: pw_def WINDOW_LENGTH_def)
    have L: "mul_div_floor L remote_diff 100 WINDOW_DURATION = Some pt"
      "mul_div_floor L (length ds) 100 WINDOW_LENGTH = Some pw"
      using pt pw by (simp_all add: gst_lib_spec.floor_spec [OF assms(1)] fits_def
          pt_def pw_def WINDOW_DURATION_def WINDOW_LENGTH_def)
    define w where "w = max (as_i64 pt) (as_i64 pw)"
    have w: "0 \<le> w" "w \<le> 10000" using pt pw by (simp_all add: w_def as_i64_small)
    note wb = weighted_bound [OF mb sk w]
    have fits: "10000 * OBS_BOUND < 2 ^ 63" by (simp add: OBS_BOUND_def)
    have c: "chk_i64 (w * m) = Some (w * m)" "chk_i64 (10000 - w) = Some (10000 - w)"
      "chk_i64 ((10000 - w) * skew s) = Some ((10000 - w) * skew s)"
      "chk_i64 (w * m + (10000 - w) * skew s) = Some (w * m + (10000 - w) * skew s)"
      using wb fits w by (simp_all add: chk_i64_bound)
    have eq: "fill_window L s remote_diff delta
        = Some (t\<lparr>skew := idiv (w * m + (10000 - w) * skew s) 10000\<rparr>)"
      unfolding t using False by (simp add: L w_def [symmetric] c)
    have "\<bar>idiv (w * m + (10000 - w) * skew s) 10000\<bar> \<le> OBS_BOUND"
      using wb(3) by (intro abs_idiv_le) simp_all
    then have "window_ok (t\<lparr>skew := idiv (w * m + (10000 - w) * skew s) 10000\<rparr>)"
      using False assms(3) m ds len by (simp add: window_ok_def t_def)
    then show thesis
      using idiv_between [OF weighted_between [OF w, of m "skew s"]]
      by (intro that [OF eq]) (simp_all add: same_times_def skew_between_def t_def ds_def)
  qed
qed

lemma slide_window_ok:
  assumes "window_ok s" and "\<not> filling s" and "\<bar>delta\<bar> \<le> OBS_BOUND"
  obtains s' where "slide_window s delta = Some s'" and "window_ok s'"
    and "same_times s s'" and "deltas s' = tl (deltas s) @ [delta]" and "skew_between (skew s) s'"
proof -
  obtain old rest where d: "deltas s = old # rest"
    using assms by (cases "deltas s") (auto simp: window_ok_def)
  define ds where "ds = rest @ [delta]"
  have m: "(if delta \<le> min_delta s then delta
            else if old = min_delta s then Min (set ds) else min_delta s) = Min (set ds)"
    unfolding ds_def using assms(1) d by (intro min_delta_slide) (simp add: window_ok_def)
  have ds: "\<forall>d \<in> set ds. \<bar>d\<bar> \<le> OBS_BOUND" "ds \<noteq> []" and sk: "\<bar>skew s\<bar> \<le> OBS_BOUND"
    using assms d by (auto simp: ds_def window_ok_def)
  have "\<bar>Min (set ds)\<bar> \<le> OBS_BOUND" by (rule Min_in_bound [OF ds(2,1)])
  note wb = weighted_bound [OF this sk, of 1 125]
  have fits: "125 * OBS_BOUND < 2 ^ 63" by (simp add: OBS_BOUND_def)
  have c: "chk_i64 (124 * skew s) = Some (124 * skew s)"
    "chk_i64 (Min (set ds) + 124 * skew s) = Some (Min (set ds) + 124 * skew s)"
    using wb fits by (simp_all add: chk_i64_bound)
  have eq: "slide_window s delta = Some (s\<lparr>deltas := ds, min_delta := Min (set ds),
      skew := idiv (Min (set ds) + 124 * skew s) 125\<rparr>)"
    unfolding slide_window_def d list.case ds_def [symmetric] Let_def m by (simp add: c)
  have "\<bar>idiv (Min (set ds) + 124 * skew s) 125\<bar> \<le> OBS_BOUND"
    using wb(3) by (intro abs_idiv_le) simp_all
  then have "window_ok (s\<lparr>deltas := ds, min_delta := Min (set ds),
      skew := idiv (Min (set ds) + 124 * skew s) 125\<rparr>)"
    using assms d ds by (simp add: window_ok_def ds_def)
  moreover note idiv_between [OF weighted_between [of 1 125 "Min (set ds)" "skew s"]]
  ultimately show thesis
    by (intro that [OF eq]) (simp_all add: same_times_def skew_between_def ds_def d)
qed

text \<open>The corrected time is the base plus the remote progress plus the skew, cut at zero.\<close>

lemma out_time_eq:
  assumes "base_local < 2 ^ 62" and "remote_diff < 2 ^ 62" and "\<bar>skew s\<bar> \<le> OBS_BOUND"
  shows "out_time s base_local remote_diff
    = Some (nat (int base_local + int remote_diff + skew s), False)"
proof -
  have b: "chk_u64 (base_local + remote_diff) = Some (base_local + remote_diff)"
    using assms by (simp add: chk_u64_def)
  show ?thesis
  proof (cases "skew s < 0")
    case True
    then have "as_u64 (- skew s) = nat (- skew s)"
      using assms(3) by (intro as_u64_small) (auto simp: OBS_BOUND_def)
    moreover have "chk_i64 (- skew s) = Some (- skew s)"
      using assms(3) by (intro chk_i64_bound) (auto simp: OBS_BOUND_def)
    moreover have "base_local + remote_diff - nat (- skew s)
        = nat (int base_local + int remote_diff + skew s)"
      using True by linarith
    ultimately show ?thesis using True b by (simp add: out_time_def)
  next
    case False
    then have u: "as_u64 (skew s) = nat (skew s)"
      using assms(3) by (intro as_u64_small) (auto simp: OBS_BOUND_def)
    have "base_local + remote_diff + nat (skew s) < 2 ^ 64"
      using False assms by (simp add: OBS_BOUND_def)
    moreover have "base_local + remote_diff + nat (skew s)
        = nat (int base_local + int remote_diff + skew s)"
      using False by linarith
    ultimately show ?thesis using False b u by (simp add: out_time_def chk_u64_def)
  qed
qed

text \<open>How far the two clocks moved apart since the base times were taken.\<close>

definition clock_gap :: "observations \<Rightarrow> nat \<Rightarrow> nat \<Rightarrow> int" where
  "clock_gap s remote_time local_time =
     (case (base_remote_time s, base_local_time s) of
        (Some br, Some bl) \<Rightarrow> \<bar>int (local_time - bl) - int (remote_time - br)\<bar>
      | _ \<Rightarrow> 0)"

text \<open>A step of the window, whichever it is.\<close>

lemma window_step:
  assumes "gst_lib_spec L" and "window_ok s" and "\<bar>delta\<bar> \<le> OBS_BOUND"
  obtains s' where
    "(if filling s then fill_window L s remote_diff delta else slide_window s delta) = Some s'"
    and "window_ok s'" and "same_times s s'" and "delta \<in> set (deltas s')"
    and "skew_between (skew s) s'"
proof (cases "filling s")
  case True
  show thesis
    by (rule fill_window_ok [OF assms(1,2) True assms(3), of remote_diff]) (rule that, auto simp: True)
next
  case False
  show thesis
    by (rule slide_window_ok [OF assms(2) False assms(3)]) (rule that, auto simp: False)
qed

lemma times_ok_same:
  assumes "same_times s s'" and "times_ok s" and "base_remote_time s \<noteq> None"
  shows "times_ok s'"
  using assms by (auto simp: times_ok_def same_times_def split: option.splits)

text \<open>
  The three outcomes of an observation: the base times are taken (again), an old remote time
  is only converted, or the window moves.
\<close>

lemma process_cases:
  assumes L: "gst_lib_spec L" and ok: "obs_ok s" and rt: "remote_time < 2 ^ 62"
    and lt: "local_time < 2 ^ 62" and gap: "clock_gap s remote_time local_time \<le> OBS_BOUND"
  obtains
    (init) discont s' where "process L s remote_time local_time = Some ((local_time, discont), s')"
      and "obs_ok s'" and "deltas s' = []" and "discont \<longleftrightarrow> deltas s \<noteq> []"
      and "base_local_time s' = Some local_time" and "base_remote_time s' = Some remote_time"
  | (old) br bl h where "base_remote_time s = Some br" and "base_local_time s = Some bl"
      and "highest_remote_time s = Some h" and "remote_time \<le> h"
      and "process L s remote_time local_time
        = Some ((nat (int bl + int (remote_time - br) + skew s), False), s)"
  | (step) br bl s' where "base_remote_time s = Some br" and "base_local_time s = Some bl"
      and "process L s remote_time local_time
        = Some ((nat (int bl + int (remote_time - br) + skew s'), False), s')"
      and "obs_ok s'" and "skew_between (skew s) s'" and "deltas s' \<noteq> []"
      and "base_remote_time s' = Some br" and "base_local_time s' = Some bl"
      and "highest_remote_time s' = Some remote_time"
proof (cases "base_remote_time s")
  case None
  then have "base_local_time s = None" "deltas s = []"
    using ok by (auto simp: obs_ok_def times_ok_def split: option.splits)
  with None show thesis
    using ok rt lt by (intro init [of False "Observations_init s remote_time local_time"])
      (auto simp: process_def obs_ok_def window_ok_def times_ok_def Observations_init_def
        split: if_splits)
next
  case (Some br)
  then obtain bl h where b: "base_local_time s = Some bl" "highest_remote_time s = Some h"
    and ts: "br \<le> h" "h < 2 ^ 62" "bl < 2 ^ 62"
    using ok by (auto simp: obs_ok_def times_ok_def split: option.splits)
  have sk: "\<bar>skew s\<bar> \<le> OBS_BOUND" and w: "window_ok s" using ok by (auto simp: obs_ok_def window_ok_def)
  have rd: "remote_time - br < 2 ^ 62" using rt by simp
  show thesis
  proof (cases "remote_time \<le> h")
    case True
    show thesis
      by (rule old [OF Some b True]) (simp add: process_def Some b True out_time_eq [OF ts(3) rd sk])
  next
    case False
    define s1 where "s1 = s\<lparr>highest_remote_time := Some remote_time\<rparr>"
    define delta where "delta = int (local_time - bl) - int (remote_time - br)"
    have d: "\<bar>delta\<bar> \<le> OBS_BOUND" using gap by (simp add: clock_gap_def Some b delta_def)
    have "as_i64 (local_time - bl) = int (local_time - bl)" "as_i64 (remote_time - br) = int (remote_time - br)"
      using rt lt by (simp_all add: as_i64_small)
    then have cd: "chk_i64 (as_i64 (local_time - bl) - as_i64 (remote_time - br)) = Some delta"
      using d by (simp add: chk_i64_bound delta_def OBS_BOUND_def)
    have w1: "window_ok s1" "filling s1 = filling s" "deltas s1 = deltas s" "skew s1 = skew s"
      using w by (simp_all add: window_ok_def s1_def)
    let ?out = "\<not> ((remote_time - br > 0 \<and> local_time - bl > 0
        \<and> \<not> slope_ok (local_time - bl) (remote_time - br)) \<or> \<bar>delta - skew s\<bar> > 1000000000)"
    obtain s' where s': "(if filling s1 then fill_window L s1 (remote_time - br) delta
        else slide_window s1 delta) = Some s'"
      and ok': "window_ok s'" "same_times s1 s'" "delta \<in> set (deltas s')" "skew_between (skew s1) s'"
      by (rule window_step [OF L w1(1) d])
    have sk': "\<bar>skew s'\<bar> \<le> OBS_BOUND" using ok'(1) by (simp add: window_ok_def)
    have eq: "process L s remote_time local_time =
      (if ?out then Some ((nat (int bl + int (remote_time - br) + skew s'), False), s')
       else Some ((local_time, deltas s \<noteq> []),
              Observations_init Observations_default remote_time local_time))"
      using s' False
      by (simp add: process_def Some b s1_def [symmetric] cd delta_far_total [OF d sk] w1
          out_time_eq [OF ts(3) rd sk'] Let_def)
    show thesis
    proof (cases ?out)
      case True
      have "times_ok s'"
        using ts False rt by (intro times_ok_same [OF ok'(2)]) (auto simp: times_ok_def s1_def Some b)
      then show thesis
        using eq True ok' by (intro step [OF Some b(1), of s'])
          (auto simp: obs_ok_def w1 same_times_def s1_def Some b)
    next
      case False
      then show thesis
        using eq obs_ok_init_default [OF rt lt]
        by (intro init [of "deltas s \<noteq> []" "Observations_init Observations_default remote_time local_time"])
          (auto simp: Observations_init_def Observations_default_def)
    qed
  qed
qed

end
