(* ===== verification/Sync_Context.thy ===== *)
theory Sync_Context
  imports Ext_Counters Sync_Observations
begin

text \<open>
  Presentation timestamps, \<^verbatim>\<open>net/rtp/src/rtpbin2/sync.rs\<close>: the state
  per SSRC, and the context that maps RTP timestamps to presentation times and keeps the streams
  of one CNAME in sync.

  The hash maps here are only looked up, so they are maps. Sums of \<^verbatim>\<open>u64\<close> and \<^verbatim>\<open>i64\<close> values
  that the code does not bound are checked: an overflow is a panic.
\<close>

section \<open>Definitions\<close>

subsection \<open>The state of an SSRC\<close>

type_synonym cname = "u8 list"

record ssrc_state =
  sc_cname :: "cname option"
  sc_clock_rate :: "u32 option"
  sc_extended_timestamp :: extended_timestamp
  sc_last_sr_ntp_timestamp :: "ntp_time option"
  sc_last_sr_rtp_ext :: "nat option"
  sc_base_times :: "(nat \<times> nat \<times> nat) option"
  sc_current_delay :: "int option"
  sc_observations :: observations

definition Ssrc_new :: "u32 option \<Rightarrow> ssrc_state" where
  "Ssrc_new clock_rate = \<lparr>
     sc_cname = None, sc_clock_rate = clock_rate,
     sc_extended_timestamp = ExtendedTimestamp_default, sc_last_sr_ntp_timestamp = None,
     sc_last_sr_rtp_ext = None, sc_base_times = None, sc_current_delay = None,
     sc_observations = Observations_default\<rparr>"

definition reset_times :: "ssrc_state \<Rightarrow> ssrc_state" where
  "reset_times self = self\<lparr>
     sc_extended_timestamp := ExtendedTimestamp_default, sc_last_sr_ntp_timestamp := None,
     sc_last_sr_rtp_ext := None, sc_base_times := None, sc_current_delay := None,
     sc_observations := Observations_default\<rparr>"

definition Ssrc_set_clock_rate :: "u32 \<Rightarrow> ssrc_state \<Rightarrow> bool \<times> ssrc_state" where
  "Ssrc_set_clock_rate clock_rate self =
     (if Some clock_rate = sc_clock_rate self then (False, self)
      else (True, reset_times (self\<lparr>sc_clock_rate := Some clock_rate\<rparr>)))"

definition Ssrc_add_sender_report :: "u32 \<Rightarrow> nat \<Rightarrow> ssrc_state \<Rightarrow> ssrc_state option" where
  "Ssrc_add_sender_report rtp_timestamp ntp_timestamp self = do {
     (ext, et) \<leftarrow> ExtendedTimestamp_next (sc_extended_timestamp self) rtp_timestamp;
     Some (self\<lparr>
       sc_extended_timestamp := et, sc_last_sr_rtp_ext := Some ext,
       sc_last_sr_ntp_timestamp := Some (NtpTime ntp_timestamp), sc_current_delay := None\<rparr>)
   }"

subsection \<open>The context\<close>

datatype timestamping_mode = Arrival | Rtp | Skew

record sync_context =
  ssrcs :: "u32 \<rightharpoonup> ssrc_state"
  mode :: timestamping_mode
  cnames_to_ssrcs :: "cname \<rightharpoonup> u32 list"
  cname_to_largest_delays :: "cname \<rightharpoonup> int \<times> bool"

definition Context_new :: "timestamping_mode \<Rightarrow> sync_context" where
  "Context_new m = \<lparr>ssrcs = Map.empty, mode = m, cnames_to_ssrcs = Map.empty,
     cname_to_largest_delays = Map.empty\<rparr>"

text \<open>\<^verbatim>\<open>if let Some(ref cname) = ssrc.cname { self.cname_to_largest_delays.remove(cname) }\<close>\<close>

definition forget_delay :: "cname option \<Rightarrow> sync_context \<Rightarrow> sync_context" where
  "forget_delay cn self =
     (case cn of None \<Rightarrow> self
      | Some c \<Rightarrow> self\<lparr>cname_to_largest_delays := (cname_to_largest_delays self)(c := None)\<rparr>)"

definition set_clock_rate :: "u32 \<Rightarrow> u32 \<Rightarrow> sync_context \<Rightarrow> sync_context" where
  "set_clock_rate ssrc_val clock_rate self =
     (case ssrcs self ssrc_val of
        Some ssrc \<Rightarrow>
          (let (changed, ssrc') = Ssrc_set_clock_rate clock_rate ssrc;
               self = self\<lparr>ssrcs := (ssrcs self)(ssrc_val \<mapsto> ssrc')\<rparr>
           in if changed then forget_delay (sc_cname ssrc') self else self)
      | None \<Rightarrow> self\<lparr>ssrcs := (ssrcs self)(ssrc_val \<mapsto> Ssrc_new (Some clock_rate))\<rparr>)"

definition has_clock_rate :: "u32 \<Rightarrow> sync_context \<Rightarrow> bool" where
  "has_clock_rate ssrc_val self \<longleftrightarrow>
     (case ssrcs self ssrc_val of None \<Rightarrow> False | Some ssrc \<Rightarrow> sc_clock_rate ssrc \<noteq> None)"

definition disassociate :: "u32 \<Rightarrow> cname \<Rightarrow> sync_context \<Rightarrow> sync_context" where
  "disassociate ssrc_val cn self =
     (let self = self\<lparr>cname_to_largest_delays := (cname_to_largest_delays self)(cn := None)\<rparr>
      in case cnames_to_ssrcs self cn of
           None \<Rightarrow> self
         | Some vals \<Rightarrow> self\<lparr>cnames_to_ssrcs :=
             (cnames_to_ssrcs self)(cn \<mapsto> filter (\<lambda>other. other \<noteq> ssrc_val) vals)\<rparr>)"

definition remove_ssrc :: "u32 \<Rightarrow> sync_context \<Rightarrow> sync_context" where
  "remove_ssrc ssrc_val self =
     (case ssrcs self ssrc_val of
        None \<Rightarrow> self
      | Some ssrc \<Rightarrow>
          (let self = self\<lparr>ssrcs := (ssrcs self)(ssrc_val := None)\<rparr>
           in case sc_cname ssrc of None \<Rightarrow> self | Some cn \<Rightarrow> disassociate ssrc_val cn self))"

definition associate :: "u32 \<Rightarrow> cname \<Rightarrow> sync_context \<Rightarrow> sync_context" where
  "associate ssrc_val cn self =
     (let ssrc = (case ssrcs self ssrc_val of Some s \<Rightarrow> s | None \<Rightarrow> Ssrc_new None);
          self = self\<lparr>ssrcs := (ssrcs self)(ssrc_val \<mapsto> ssrc)\<rparr>
      in if sc_cname ssrc = Some cn then self
         else
           (let self = self\<lparr>ssrcs := (ssrcs self)(ssrc_val \<mapsto> ssrc\<lparr>sc_cname := Some cn\<rparr>)\<rparr>;
                self = (if sc_cname ssrc \<noteq> None then disassociate ssrc_val cn self else self);
                vals = (case cnames_to_ssrcs self cn of Some vals \<Rightarrow> vals | None \<Rightarrow> [])
            in self\<lparr>cnames_to_ssrcs := (cnames_to_ssrcs self)(cn \<mapsto> vals @ [ssrc_val]),
                    cname_to_largest_delays := (cname_to_largest_delays self)(cn := None)\<rparr>))"

definition add_sender_report :: "u32 \<Rightarrow> u32 \<Rightarrow> nat \<Rightarrow> sync_context \<Rightarrow> sync_context option" where
  "add_sender_report ssrc_val rtp_timestamp ntp_timestamp self = do {
     let ssrc = (case ssrcs self ssrc_val of Some s \<Rightarrow> s | None \<Rightarrow> Ssrc_new None);
     ssrc' \<leftarrow> Ssrc_add_sender_report rtp_timestamp ntp_timestamp ssrc;
     Some (self\<lparr>ssrcs := (ssrcs self)(ssrc_val \<mapsto> ssrc')\<rparr>)
   }"

subsection \<open>Calculating a presentation time\<close>

text \<open>The time before offsetting, by the timestamping mode; skew correction updates the
  observations and may reset the times of the SSRC.\<close>

definition mode_pts ::
  "gst_lib \<Rightarrow> sync_context \<Rightarrow> ssrc_state \<Rightarrow> nat \<Rightarrow> nat \<Rightarrow> (nat \<times> ssrc_state \<times> sync_context) option" where
  "mode_pts L self ssrc rtp_ext_ns arrival_time =
     (case mode self of
        Skew \<Rightarrow> do {
          ((skew_corrected, discont), obs) \<leftarrow> process L (sc_observations ssrc) rtp_ext_ns arrival_time;
          let ssrc = ssrc\<lparr>sc_observations := obs\<rparr>;
          Some (if discont
                then (skew_corrected, reset_times ssrc, forget_delay (sc_cname ssrc) self)
                else (skew_corrected, ssrc, self))
        }
      | Rtp \<Rightarrow> Some (rtp_ext_ns, ssrc, self)
      | Arrival \<Rightarrow> Some (arrival_time, ssrc, self))"

text \<open>The NTP time of the first packet, from the last sender report.\<close>

definition base_ntp_time_of :: "duration \<Rightarrow> nat \<Rightarrow> nat \<Rightarrow> nat option" where
  "base_ntp_time_of sr_duration base_rtp_ext_ns last_sr_rtp_ext_ns =
     (if base_rtp_ext_ns > last_sr_rtp_ext_ns
      then chk_u64 (sr_duration mod 2 ^ 64 + (base_rtp_ext_ns - last_sr_rtp_ext_ns))
      else usub (sr_duration mod 2 ^ 64) (last_sr_rtp_ext_ns - base_rtp_ext_ns))"

definition delay_of :: "nat \<Rightarrow> nat \<Rightarrow> int option" where
  "delay_of base_ntp_time base_arrival_time =
     (if base_ntp_time < base_arrival_time
      then chk_i64 (as_i64 base_arrival_time - as_i64 base_ntp_time)
      else do {
        d \<leftarrow> chk_i64 (as_i64 base_ntp_time - as_i64 base_arrival_time);
        chk_i64 (- d)
      })"

definition update_delay ::
  "sync_context \<Rightarrow> ssrc_state \<Rightarrow> duration \<Rightarrow> nat \<Rightarrow> nat \<Rightarrow> nat \<Rightarrow> (ssrc_state \<times> sync_context) option" where
  "update_delay self ssrc sr_duration base_rtp_ext_ns last_sr_rtp_ext_ns base_arrival_time =
     (if sc_current_delay ssrc \<noteq> None then Some (ssrc, self)
      else
        (case base_ntp_time_of sr_duration base_rtp_ext_ns last_sr_rtp_ext_ns of
           Some base_ntp_time \<Rightarrow> do {
             d \<leftarrow> delay_of base_ntp_time base_arrival_time;
             Some (ssrc\<lparr>sc_current_delay := Some d\<rparr>, forget_delay (sc_cname ssrc) self)
           }
         | None \<Rightarrow>
             Some (ssrc\<lparr>sc_last_sr_ntp_timestamp := None, sc_last_sr_rtp_ext := None\<rparr>, self)))"

definition ntp_time_of :: "gst_lib \<Rightarrow> duration \<Rightarrow> nat \<Rightarrow> nat \<Rightarrow> ntp_time option option" where
  "ntp_time_of L sr_duration rtp_ext_ns last_sr_rtp_ext_ns =
     (case (if rtp_ext_ns > last_sr_rtp_ext_ns
            then (let d = sr_duration + (rtp_ext_ns - last_sr_rtp_ext_ns)
                  in if d < 2 ^ 64 * SECOND then Some d else None)
            else usub sr_duration (last_sr_rtp_ext_ns - rtp_ext_ns)) of
        None \<Rightarrow> Some None
      | Some d \<Rightarrow> map_option Some (from_duration L d))"

definition apply_sender_report ::
  "gst_lib \<Rightarrow> system_time \<Rightarrow> sync_context \<Rightarrow> ssrc_state \<Rightarrow> nat \<Rightarrow> nat \<Rightarrow> nat \<Rightarrow> nat
    \<Rightarrow> (ntp_time option \<times> ssrc_state \<times> sync_context) option" where
  "apply_sender_report L CURRENT_TIME self ssrc clock_rate rtp_ext_ns base_rtp_ext_ns base_arrival_time =
     (case (sc_last_sr_ntp_timestamp ssrc, sc_last_sr_rtp_ext ssrc) of
        (Some last_sr_ntp, Some last_sr_rtp_ext) \<Rightarrow> do {
          last_sr_rtp_ext_ns \<leftarrow> mul_div_round L last_sr_rtp_ext SECOND clock_rate;
          sr_duration \<leftarrow> as_duration L CURRENT_TIME last_sr_ntp;
          (ssrc, self) \<leftarrow>
            update_delay self ssrc sr_duration base_rtp_ext_ns last_sr_rtp_ext_ns base_arrival_time;
          ntp_time \<leftarrow> ntp_time_of L sr_duration rtp_ext_ns last_sr_rtp_ext_ns;
          Some (ntp_time, ssrc, self)
        }
      | _ \<Rightarrow> Some (None, ssrc, self))"

text \<open>The largest delay of the SSRCs of a CNAME, and whether all of them have one.\<close>

fun largest_delay :: "(u32 \<rightharpoonup> ssrc_state) \<Rightarrow> u32 list \<Rightarrow> int \<times> bool \<Rightarrow> (int \<times> bool) option" where
  "largest_delay m [] acc = Some acc"
| "largest_delay m (v # vs) (largest, all_sync) = do {
     s \<leftarrow> m v;
     largest_delay m vs
       (case sc_current_delay s of
          Some d \<Rightarrow> (if d > largest then d else largest, all_sync)
        | None \<Rightarrow> (largest, False))
   }"

definition cname_offset ::
  "sync_context \<Rightarrow> ssrc_state \<Rightarrow> nat \<Rightarrow> (nat \<times> sync_context) option" where
  "cname_offset self ssrc pts =
     (case sc_cname ssrc of
        None \<Rightarrow> Some (pts, self)
      | Some cn \<Rightarrow> do {
          (largest, all_sync) \<leftarrow>
            (case cname_to_largest_delays self cn of
               Some e \<Rightarrow> Some e
             | None \<Rightarrow> do {
                 vals \<leftarrow> cnames_to_ssrcs self cn;
                 largest_delay (ssrcs self) vals (- (2 ^ 63), True)
               });
          let self = self\<lparr>cname_to_largest_delays :=
            (cname_to_largest_delays self)(cn \<mapsto> (largest, all_sync))\<rparr>;
          if all_sync then do {
            delay \<leftarrow> sc_current_delay ssrc;
            offset \<leftarrow> chk_i64 (largest - delay);
            pts \<leftarrow> chk_u64 (pts + as_u64 offset);
            Some (pts, self)
          } else Some (pts, self)
        })"

definition calculate_pts ::
  "gst_lib \<Rightarrow> system_time \<Rightarrow> u32 \<Rightarrow> u32 \<Rightarrow> nat \<Rightarrow> sync_context
    \<Rightarrow> ((nat \<times> ntp_time option) \<times> sync_context) option" where
  "calculate_pts L CURRENT_TIME ssrc_val rtp_timestamp arrival_time self = do {
     ssrc \<leftarrow> ssrcs self ssrc_val;
     rate \<leftarrow> sc_clock_rate ssrc;
     let clock_rate = unat rate;
     (ext, et) \<leftarrow> ExtendedTimestamp_next (sc_extended_timestamp ssrc) rtp_timestamp;
     let ssrc = ssrc\<lparr>sc_extended_timestamp := et\<rparr>;
     rtp_ext_ns \<leftarrow> mul_div_round L ext SECOND clock_rate;
     (pts, ssrc, self) \<leftarrow> mode_pts L self ssrc rtp_ext_ns arrival_time;
     let ssrc = ssrc\<lparr>sc_base_times := (case sc_base_times ssrc of
       None \<Rightarrow> Some (arrival_time, rtp_ext_ns, pts) | Some b \<Rightarrow> Some b)\<rparr>;
     (base_arrival_time, base_rtp_ext_ns, base_pts) \<leftarrow> sc_base_times ssrc;
     pts \<leftarrow> chk_u64 (pts + base_arrival_time);
     let pts = pts - base_pts;
     (ntp_time, ssrc, self) \<leftarrow> apply_sender_report L CURRENT_TIME self ssrc clock_rate
       rtp_ext_ns base_rtp_ext_ns base_arrival_time;
     let self = self\<lparr>ssrcs := (ssrcs self)(ssrc_val \<mapsto> ssrc)\<rparr>;
     (pts, self) \<leftarrow> cname_offset self ssrc pts;
     Some ((pts, ntp_time), self)
   }"

section \<open>The invariant of the context\<close>

text \<open>
  Registration: an SSRC is in the list of its CNAME and in no other one. The cached largest
  delay of a CNAME whose streams are all in sync bounds their delays, and is the delay of one of
  them unless a new sender report has taken a delay away since; a stream without a delay has a
  sender report from which the next packet computes one. A known delay is the difference of the
  arrival and the NTP time of the first packet, a signed 64-bit value.
\<close>

definition reg_ok :: "sync_context \<Rightarrow> bool" where
  "reg_ok c \<longleftrightarrow>
     (\<forall>cn vals. cnames_to_ssrcs c cn = Some vals \<longrightarrow>
        (\<forall>v \<in> set vals. \<exists>s. ssrcs c v = Some s \<and> sc_cname s = Some cn))
     \<and> (\<forall>v s cn. ssrcs c v = Some s \<longrightarrow> sc_cname s = Some cn \<longrightarrow>
          (\<exists>vals. cnames_to_ssrcs c cn = Some vals \<and> v \<in> set vals))"

definition entry_ok :: "int \<Rightarrow> ssrc_state \<Rightarrow> bool" where
  "entry_ok l s \<longleftrightarrow>
     (case sc_current_delay s of
        Some d \<Rightarrow> d \<le> l
      | None \<Rightarrow> sc_last_sr_ntp_timestamp s \<noteq> None \<and> sc_last_sr_rtp_ext s \<noteq> None)"

definition attained :: "sync_context \<Rightarrow> cname \<Rightarrow> int \<Rightarrow> bool" where
  "attained c cn l \<longleftrightarrow>
     (\<exists>v s. ssrcs c v = Some s \<and> sc_cname s = Some cn
        \<and> (sc_current_delay s = None \<or> sc_current_delay s = Some l))"

definition cache_ok :: "sync_context \<Rightarrow> bool" where
  "cache_ok c \<longleftrightarrow>
     (\<forall>cn l. cname_to_largest_delays c cn = Some (l, True) \<longrightarrow> attained c cn l
        \<and> (\<forall>v s. ssrcs c v = Some s \<longrightarrow> sc_cname s = Some cn \<longrightarrow> entry_ok l s))"

text \<open>The NTP time, in nanoseconds, of the first packet of a stream by its last sender report.\<close>

definition base_ntp :: "gst_lib \<Rightarrow> system_time \<Rightarrow> ssrc_state \<Rightarrow> nat option" where
  "base_ntp L ct s = do {
     rate \<leftarrow> sc_clock_rate s;
     (ba, br, bp) \<leftarrow> sc_base_times s;
     ntp \<leftarrow> sc_last_sr_ntp_timestamp s;
     ext \<leftarrow> sc_last_sr_rtp_ext s;
     sr_ns \<leftarrow> mul_div_round L ext SECOND (unat rate);
     dur \<leftarrow> as_duration L ct ntp;
     base_ntp_time_of dur br sr_ns
   }"

definition delay_ok :: "gst_lib \<Rightarrow> system_time \<Rightarrow> ssrc_state \<Rightarrow> bool" where
  "delay_ok L ct s \<longleftrightarrow>
     (\<forall>d. sc_current_delay s = Some d \<longrightarrow>
        (\<exists>bn ba br bp. base_ntp L ct s = Some bn \<and> sc_base_times s = Some (ba, br, bp)
          \<and> d = as_i64 ba - as_i64 bn \<and> - (2 ^ 63) \<le> d))"

definition base_ok :: "timestamping_mode \<Rightarrow> ssrc_state \<Rightarrow> bool" where
  "base_ok m s \<longleftrightarrow> et_ok (sc_extended_timestamp s)
     \<and> (m = Rtp \<longrightarrow> (case sc_base_times s of None \<Rightarrow> True | Some (ba, br, bp) \<Rightarrow> bp = br))"

definition sync_ok :: "gst_lib \<Rightarrow> system_time \<Rightarrow> sync_context \<Rightarrow> bool" where
  "sync_ok L ct c \<longleftrightarrow> reg_ok c \<and> cache_ok c
     \<and> (\<forall>v s. ssrcs c v = Some s \<longrightarrow> delay_ok L ct s \<and> base_ok (mode c) s)"

definition cname_at :: "sync_context \<Rightarrow> u32 \<Rightarrow> cname option" where
  "cname_at c v = (case ssrcs c v of Some s \<Rightarrow> sc_cname s | None \<Rightarrow> None)"

lemma reg_okD:
  "reg_ok c \<Longrightarrow> cnames_to_ssrcs c cn = Some vals \<Longrightarrow> v \<in> set vals \<Longrightarrow> cname_at c v = Some cn"
  "reg_ok c \<Longrightarrow> cname_at c v = Some cn \<Longrightarrow> \<exists>vals. cnames_to_ssrcs c cn = Some vals \<and> v \<in> set vals"
  unfolding reg_ok_def cname_at_def by (fastforce split: option.splits)+

lemma reg_okI:
  assumes "\<And>cn vals v. cnames_to_ssrcs c cn = Some vals \<Longrightarrow> v \<in> set vals \<Longrightarrow> cname_at c v = Some cn"
    and "\<And>v cn. cname_at c v = Some cn \<Longrightarrow> \<exists>vals. cnames_to_ssrcs c cn = Some vals \<and> v \<in> set vals"
  shows "reg_ok c"
  using assms unfolding reg_ok_def cname_at_def by (fastforce split: option.splits)

lemma sync_ok_reg: "sync_ok L ct c \<Longrightarrow> reg_ok c"
  by (simp add: sync_ok_def)

lemma sync_ok_new [simp]: "sync_ok L ct (Context_new m)"
  by (simp add: sync_ok_def reg_ok_def cache_ok_def Context_new_def)

lemma forget_delay_simps [simp]:
  "ssrcs (forget_delay cn c) = ssrcs c" "mode (forget_delay cn c) = mode c"
  "cnames_to_ssrcs (forget_delay cn c) = cnames_to_ssrcs c"
  "cn = Some x \<Longrightarrow> cname_to_largest_delays (forget_delay cn c) x = None"
  by (simp_all add: forget_delay_def split: option.split)

lemma forget_delay_le:
  "cname_to_largest_delays (forget_delay cn c) x = Some e \<Longrightarrow> cname_to_largest_delays c x = Some e"
  by (auto simp: forget_delay_def split: option.splits if_splits)

lemma sync_ok_forget: "sync_ok L ct c \<Longrightarrow> sync_ok L ct (forget_delay cn c)"
  by (auto simp: sync_ok_def reg_ok_def cache_ok_def attained_def dest: forget_delay_le)

text \<open>A stream keeps its CNAME: what its new state must satisfy.\<close>

lemma reg_ok_upd:
  assumes "reg_ok c" and "sc_cname s' = cname_at c v"
  shows "reg_ok (c\<lparr>ssrcs := (ssrcs c)(v \<mapsto> s')\<rparr>)"
proof -
  have "cname_at (c\<lparr>ssrcs := (ssrcs c)(v \<mapsto> s')\<rparr>) = cname_at c"
    using assms(2) by (auto simp: cname_at_def fun_eq_iff)
  then show ?thesis using reg_okD [OF assms(1)] by (intro reg_okI) simp_all
qed

definition delay_at :: "sync_context \<Rightarrow> u32 \<Rightarrow> int option" where
  "delay_at c v = (case ssrcs c v of Some s \<Rightarrow> sc_current_delay s | None \<Rightarrow> None)"

lemma attained_upd:
  assumes "attained c cn l" and "sc_cname s' = cname_at c v"
    and "sc_cname s' = Some cn \<Longrightarrow> sc_current_delay s' = None \<or> sc_current_delay s' = delay_at c v"
  shows "attained (c\<lparr>ssrcs := (ssrcs c)(v \<mapsto> s')\<rparr>) cn l"
proof -
  obtain u s where u: "ssrcs c u = Some s" "sc_cname s = Some cn"
    "sc_current_delay s = None \<or> sc_current_delay s = Some l"
    using assms(1) unfolding attained_def by blast
  show ?thesis
  proof (cases "u = v")
    case True
    then show ?thesis
      using u assms(2,3) unfolding attained_def
      by (intro exI [of _ v] exI [of _ s']) (auto simp: cname_at_def delay_at_def)
  next
    case False
    with u show ?thesis unfolding attained_def by (intro exI [of _ u] exI [of _ s]) simp
  qed
qed

lemma sync_ok_upd:
  assumes "sync_ok L ct c" and cn: "sc_cname s' = cname_at c v"
    and "delay_ok L ct s'" and "base_ok (mode c) s'"
    and "\<And>cn l. sc_cname s' = Some cn \<Longrightarrow> cname_to_largest_delays c cn = Some (l, True) \<Longrightarrow>
      entry_ok l s' \<and> (sc_current_delay s' = None \<or> sc_current_delay s' = delay_at c v)"
  shows "sync_ok L ct (c\<lparr>ssrcs := (ssrcs c)(v \<mapsto> s')\<rparr>)"
proof -
  have "reg_ok (c\<lparr>ssrcs := (ssrcs c)(v \<mapsto> s')\<rparr>)"
    using sync_ok_reg [OF assms(1)] cn by (rule reg_ok_upd)
  moreover have "attained (c\<lparr>ssrcs := (ssrcs c)(v \<mapsto> s')\<rparr>) x l"
    if "cname_to_largest_delays c x = Some (l, True)" for x l
    using assms(1) that assms(5) [OF _ that]
    by (intro attained_upd [OF _ cn]) (auto simp: sync_ok_def cache_ok_def)
  then have "cache_ok (c\<lparr>ssrcs := (ssrcs c)(v \<mapsto> s')\<rparr>)"
    using assms(1,5) by (auto simp: sync_ok_def cache_ok_def)
  ultimately show ?thesis using assms(1,3,4) by (simp add: sync_ok_def)
qed

lemma new_ssrc_ok [simp]:
  "delay_ok L ct (Ssrc_new r)" "base_ok m (Ssrc_new r)" "sc_cname (Ssrc_new r) = None"
  "sc_clock_rate (Ssrc_new r) = r"
  by (simp_all add: delay_ok_def base_ok_def Ssrc_new_def)

lemma reset_times_ok [simp]:
  "delay_ok L ct (reset_times s)" "base_ok m (reset_times s)"
  "sc_cname (reset_times s) = sc_cname s" "sc_clock_rate (reset_times s) = sc_clock_rate s"
  "sc_last_sr_ntp_timestamp (reset_times s) = None" "sc_current_delay (reset_times s) = None"
  by (simp_all add: delay_ok_def base_ok_def reset_times_def)

lemma sync_ok_set_clock_rate:
  assumes "sync_ok L ct c"
  shows "sync_ok L ct (set_clock_rate v r c)"
proof (cases "ssrcs c v")
  case None
  then show ?thesis
    unfolding set_clock_rate_def option.case
    by (simp only: None option.case) (rule sync_ok_upd [OF assms], simp_all add: cname_at_def None)
next
  case (Some s)
  show ?thesis
  proof (cases "Some r = sc_clock_rate s")
    case True
    then show ?thesis using assms Some by (simp add: set_clock_rate_def Ssrc_set_clock_rate_def fun_upd_idem)
  next
    case False
    define s' where "s' = reset_times (s\<lparr>sc_clock_rate := Some r\<rparr>)"
    have cn: "sc_cname s' = sc_cname s" by (simp add: s'_def)
    have "set_clock_rate v r c
        = (forget_delay (sc_cname s) c)\<lparr>ssrcs := (ssrcs (forget_delay (sc_cname s) c))(v \<mapsto> s')\<rparr>"
      using False Some by (simp add: set_clock_rate_def Ssrc_set_clock_rate_def s'_def
          forget_delay_def split: option.split)
    moreover have "sync_ok L ct \<dots>"
      by (rule sync_ok_upd [OF sync_ok_forget [OF assms]])
        (simp_all add: cn cname_at_def Some s'_def)
    ultimately show ?thesis by simp
  qed
qed

lemma sync_ok_add_sender_report:
  assumes "sync_ok L ct c" and "add_sender_report v ts ntp c = Some c'"
  shows "sync_ok L ct c'"
proof -
  define s where "s = (case ssrcs c v of Some s \<Rightarrow> s | None \<Rightarrow> Ssrc_new None)"
  have s: "sc_cname s = cname_at c v" "base_ok (mode c) s"
    using assms(1) by (auto simp: s_def cname_at_def sync_ok_def split: option.split)
  have eq: "do { s' \<leftarrow> Ssrc_add_sender_report ts ntp s;
      Some (c\<lparr>ssrcs := (ssrcs c)(v \<mapsto> s')\<rparr>) } = Some c'"
    using assms(2) by (simp add: add_sender_report_def s_def)
  obtain ext et where e: "ExtendedTimestamp_next (sc_extended_timestamp s) ts = Some (ext, et)"
    using eq by (cases "ExtendedTimestamp_next (sc_extended_timestamp s) ts")
      (auto simp: Ssrc_add_sender_report_def)
  have c': "c' = c\<lparr>ssrcs := (ssrcs c)(v \<mapsto> s\<lparr>
       sc_extended_timestamp := et, sc_last_sr_rtp_ext := Some ext,
       sc_last_sr_ntp_timestamp := Some (NtpTime ntp), sc_current_delay := None\<rparr>)\<rparr>"
    using eq by (simp add: Ssrc_add_sender_report_def e)
  have "et_ok et" using s(2) by (intro et_next_ok [OF _ e]) (simp add: base_ok_def)
  with s show ?thesis
    unfolding c' by (intro sync_ok_upd [OF assms(1)]) (simp_all add: delay_ok_def base_ok_def entry_ok_def)
qed

lemma sync_ok_remove_ssrc:
  assumes "sync_ok L ct c"
  shows "sync_ok L ct (remove_ssrc v c)"
proof (cases "ssrcs c v")
  case None
  then show ?thesis using assms by (simp add: remove_ssrc_def)
next
  case (Some s)
  have cs: "cname_at c v = sc_cname s" by (simp add: cname_at_def Some)
  note reg = reg_okD [OF sync_ok_reg [OF assms]]
  show ?thesis
  proof (cases "sc_cname s")
    case None
    have "reg_ok (c\<lparr>ssrcs := (ssrcs c)(v := None)\<rparr>)"
    proof (rule reg_okI, goal_cases)
      case (1 x w u)
      then show ?case using reg(1) [of x w u] cs None by (auto simp: cname_at_def)
    next
      case (2 u x)
      then show ?case using reg(2) [of u x] by (auto simp: cname_at_def split: if_splits)
    qed
    moreover have "attained (c\<lparr>ssrcs := (ssrcs c)(v := None)\<rparr>) x l" if att: "attained c x l" for x l
    proof -
      obtain u t where "ssrcs c u = Some t" "sc_cname t = Some x"
        "sc_current_delay t = None \<or> sc_current_delay t = Some l"
        using att unfolding attained_def by blast
      then show ?thesis
        using Some None unfolding attained_def by (intro exI [of _ u] exI [of _ t]) auto
    qed
    ultimately show ?thesis
      using assms Some None by (auto simp: remove_ssrc_def sync_ok_def cache_ok_def)
  next
    case (Some cn)
    note cn = this
    obtain vals where vals: "cnames_to_ssrcs c cn = Some vals"
      using reg(2) [of v cn] cs cn by auto
    define c' where "c' = c\<lparr>ssrcs := (ssrcs c)(v := None),
      cnames_to_ssrcs := (cnames_to_ssrcs c)(cn \<mapsto> filter (\<lambda>other. other \<noteq> v) vals),
      cname_to_largest_delays := (cname_to_largest_delays c)(cn := None)\<rparr>"
    have eq: "remove_ssrc v c = c'"
      using \<open>ssrcs c v = Some s\<close> cn vals by (simp add: remove_ssrc_def disassociate_def c'_def)
    have "reg_ok c'"
    proof (rule reg_okI, goal_cases)
      case (1 x w u)
      then show ?case using reg(1) [of x w u] reg(1) [OF vals, of u] cs cn
        by (auto simp: cname_at_def c'_def split: if_splits)
    next
      case (2 u x)
      then show ?case using reg(2) [of u x] vals
        by (auto simp: cname_at_def c'_def split: if_splits)
    qed
    moreover have "attained c' x l" if att: "attained c x l" "x \<noteq> cn" for x l
    proof -
      obtain u t where "ssrcs c u = Some t" "sc_cname t = Some x"
        "sc_current_delay t = None \<or> sc_current_delay t = Some l"
        using att(1) unfolding attained_def by blast
      then show ?thesis
        using \<open>ssrcs c v = Some s\<close> cn att(2) unfolding attained_def
        by (intro exI [of _ u] exI [of _ t]) (auto simp: c'_def)
    qed
    then have "cache_ok c'"
      using assms by (auto simp: sync_ok_def cache_ok_def c'_def)
    ultimately show ?thesis using assms unfolding eq by (auto simp: sync_ok_def c'_def)
  qed
qed

text \<open>A stream may get a CNAME, or keep it; changing it is another matter.\<close>

lemma sync_ok_associate:
  assumes "sync_ok L ct c" and "cname_at c v = None \<or> cname_at c v = Some cn"
  shows "sync_ok L ct (associate v cn c)"
proof (cases "cname_at c v")
  case (Some x)
  then obtain s where s: "ssrcs c v = Some s" "sc_cname s = Some cn"
    using assms(2) by (auto simp: cname_at_def split: option.splits)
  then show ?thesis using assms(1) by (simp add: associate_def fun_upd_idem)
next
  case None
  define s where "s = (case ssrcs c v of Some s \<Rightarrow> s | None \<Rightarrow> Ssrc_new None)"
  define vals where "vals = (case cnames_to_ssrcs c cn of Some vals \<Rightarrow> vals | None \<Rightarrow> [])"
  have s: "sc_cname s = None" "base_ok (mode c) s" "delay_ok L ct s"
    using assms(1) None by (auto simp: s_def cname_at_def sync_ok_def split: option.splits)
  define c' where "c' = c\<lparr>ssrcs := (ssrcs c)(v \<mapsto> s\<lparr>sc_cname := Some cn\<rparr>),
     cnames_to_ssrcs := (cnames_to_ssrcs c)(cn \<mapsto> vals @ [v]),
     cname_to_largest_delays := (cname_to_largest_delays c)(cn := None)\<rparr>"
  have eq: "associate v cn c = c'"
    using s by (simp add: associate_def s_def [symmetric] vals_def c'_def)
  note reg = reg_okD [OF sync_ok_reg [OF assms(1)]]
  have vals: "cname_at c u = Some cn \<longleftrightarrow> u \<in> set vals" for u
    using reg(1) [of cn "the (cnames_to_ssrcs c cn)" u] reg(2) [of u cn]
    by (cases "cnames_to_ssrcs c cn") (auto simp: vals_def)
  have "reg_ok c'"
  proof (rule reg_okI, goal_cases)
    case (1 x w u)
    then show ?case using reg(1) [of x w u] vals [of u] None
      by (auto simp: cname_at_def c'_def split: if_splits)
  next
    case (2 u x)
    then show ?case using reg(2) [of u x] vals [of u]
      by (auto simp: cname_at_def c'_def split: if_splits)
  qed
  moreover have "attained c' x l" if att: "attained c x l" "x \<noteq> cn" for x l
  proof -
    obtain u t where "ssrcs c u = Some t" "sc_cname t = Some x"
      "sc_current_delay t = None \<or> sc_current_delay t = Some l"
      using att(1) unfolding attained_def by blast
    then show ?thesis
      using None unfolding attained_def
      by (intro exI [of _ u] exI [of _ t]) (auto simp: c'_def cname_at_def)
  qed
  then have "cache_ok c'"
    using assms(1) s by (auto simp: sync_ok_def cache_ok_def c'_def)
  moreover have "delay_ok L ct (s\<lparr>sc_cname := Some cn\<rparr>)" "base_ok (mode c) (s\<lparr>sc_cname := Some cn\<rparr>)"
    using s by (simp_all add: delay_ok_def base_ok_def base_ntp_def)
  ultimately show ?thesis using assms(1) unfolding eq by (auto simp: sync_ok_def c'_def)
qed

section \<open>The steps of a presentation time\<close>

text \<open>What the state of a stream satisfies while a packet of it is processed.\<close>

definition upd_ok :: "gst_lib \<Rightarrow> system_time \<Rightarrow> u32 \<Rightarrow> sync_context \<Rightarrow> ssrc_state \<Rightarrow> bool" where
  "upd_ok L ct v c s \<longleftrightarrow> sync_ok L ct c \<and> sc_cname s = cname_at c v \<and> delay_ok L ct s \<and> base_ok (mode c) s
     \<and> (\<forall>cn l d. sc_cname s = Some cn \<longrightarrow> cname_to_largest_delays c cn = Some (l, True) \<longrightarrow>
          sc_current_delay s = Some d \<longrightarrow> d \<le> l \<and> delay_at c v = Some d)"

lemma mode_pts_cases:
  assumes "mode_pts L c s rtp_ns arrival = Some (p, s1, c1)"
  obtains (reset) obs where "s1 = reset_times (s\<lparr>sc_observations := obs\<rparr>)"
      "c1 = forget_delay (sc_cname s) c" "mode c = Skew"
  | (keep) obs where "s1 = s\<lparr>sc_observations := obs\<rparr>" "c1 = c" "mode c = Rtp \<longrightarrow> p = rtp_ns"
      "mode c \<noteq> Skew \<longrightarrow> obs = sc_observations s"
proof (cases "mode c = Skew")
  case True
  then obtain q discont obs where "process L (sc_observations s) rtp_ns arrival = Some ((q, discont), obs)"
    using assms by (cases "process L (sc_observations s) rtp_ns arrival") (auto simp: mode_pts_def)
  with True assms show thesis
    by (cases discont) (auto simp: mode_pts_def intro: that)
next
  case False
  with assms have "s1 = s\<lparr>sc_observations := sc_observations s\<rparr>" "c1 = c" "mode c = Rtp \<longrightarrow> p = rtp_ns"
    by (auto simp: mode_pts_def split: timestamping_mode.splits)
  then show thesis by (rule keep) simp
qed

lemma mode_pts_frame:
  assumes "mode_pts L c s rtp_ns arrival = Some (p, s1, c1)"
  shows "sc_cname s1 = sc_cname s" and "ssrcs c1 = ssrcs c"
    and "cnames_to_ssrcs c1 = cnames_to_ssrcs c"
    and "cname_to_largest_delays c cn = None \<Longrightarrow> cname_to_largest_delays c1 cn = None"
    and "mode c \<noteq> Skew \<Longrightarrow> s1 = s \<and> c1 = c"
  using assms by (auto elim!: mode_pts_cases simp: forget_delay_def split: option.splits)

lemma mode_pts_ok:
  assumes "upd_ok L ct v c s" and "mode_pts L c s rtp_ns arrival = Some (p, s1, c1)"
  shows "upd_ok L ct v c1 s1 \<and> sc_clock_rate s1 = sc_clock_rate s
    \<and> mode c1 = mode c \<and> (mode c = Rtp \<longrightarrow> p = rtp_ns)"
  using assms(2)
proof (cases rule: mode_pts_cases)
  case (reset obs)
  with assms(1) show ?thesis by (simp add: upd_ok_def sync_ok_forget cname_at_def)
next
  case (keep obs)
  with assms(1) show ?thesis by (simp add: upd_ok_def delay_ok_def base_ntp_def base_ok_def)
qed

lemma base_times_ok:
  assumes "upd_ok L ct v c s" and "mode c = Rtp \<Longrightarrow> p = rtp_ns"
    and "b = (case sc_base_times s of None \<Rightarrow> (arrival, rtp_ns, p) | Some b \<Rightarrow> b)"
  shows "upd_ok L ct v c (s\<lparr>sc_base_times := Some b\<rparr>)"
proof (cases "sc_base_times s")
  case None
  then have "sc_current_delay s = None"
    using assms(1) by (cases "sc_current_delay s") (auto simp: upd_ok_def delay_ok_def)
  with None assms show ?thesis by (simp add: upd_ok_def delay_ok_def base_ok_def)
next
  case (Some x)
  then have "s\<lparr>sc_base_times := Some b\<rparr> = s" using assms(3) by simp
  with assms(1) show ?thesis by simp
qed

lemma delay_of_Some: "delay_of bn ba = Some d \<Longrightarrow> d = as_i64 ba - as_i64 bn \<and> - (2 ^ 63) \<le> d"
  by (auto simp: delay_of_def chk_i64_def split: if_splits Option.bind_splits)

text \<open>What an applied sender report does to the stream and the context.\<close>

lemma apply_sender_report_cases:
  assumes "apply_sender_report L ct c s rate rtp_ns br ba = Some (ntp, s', c')"
  obtains (same) "s' = s" "c' = c"
      "sc_current_delay s \<noteq> None \<or> sc_last_sr_ntp_timestamp s = None \<or> sc_last_sr_rtp_ext s = None"
  | (delay) sr ext sr_ns dur bn d where "sc_last_sr_ntp_timestamp s = Some sr"
      "sc_last_sr_rtp_ext s = Some ext" "mul_div_round L ext SECOND rate = Some sr_ns"
      "as_duration L ct sr = Some dur" "base_ntp_time_of dur br sr_ns = Some bn"
      "delay_of bn ba = Some d" "s' = s\<lparr>sc_current_delay := Some d\<rparr>"
      "c' = forget_delay (sc_cname s) c"
  | (invalid) "s' = s\<lparr>sc_last_sr_ntp_timestamp := None, sc_last_sr_rtp_ext := None\<rparr>" "c' = c"
      "sc_current_delay s = None"
proof (cases "sc_last_sr_ntp_timestamp s = None \<or> sc_last_sr_rtp_ext s = None")
  case True
  then show thesis
    using assms by (intro same) (auto simp: apply_sender_report_def split: option.splits)
next
  case False
  then obtain sr ext where sr: "sc_last_sr_ntp_timestamp s = Some sr" "sc_last_sr_rtp_ext s = Some ext"
    by auto
  then obtain sr_ns dur where d: "mul_div_round L ext SECOND rate = Some sr_ns"
      "as_duration L ct sr = Some dur" and u: "update_delay c s dur br sr_ns ba = Some (s', c')"
    using assms by (auto simp: apply_sender_report_def split: option.splits Option.bind_splits)
  show thesis
  proof (cases "sc_current_delay s")
    case (Some x)
    then show thesis using u by (intro same) (auto simp: update_delay_def)
  next
    case None
    show thesis
    proof (cases "base_ntp_time_of dur br sr_ns")
      case None
      then show thesis using u \<open>sc_current_delay s = None\<close> by (intro invalid) (auto simp: update_delay_def)
    next
      case (Some bn)
      then show thesis using u \<open>sc_current_delay s = None\<close> sr d
        by (auto simp: update_delay_def split: Option.bind_splits intro: delay)
    qed
  qed
qed

lemma apply_sender_report_frame:
  assumes "apply_sender_report L ct c s rate rtp_ns br ba = Some (ntp, s', c')"
  shows "sc_cname s' = sc_cname s" and "ssrcs c' = ssrcs c"
    and "cnames_to_ssrcs c' = cnames_to_ssrcs c"
    and "cname_to_largest_delays c cn = None \<Longrightarrow> cname_to_largest_delays c' cn = None"
  using assms by (auto elim!: apply_sender_report_cases simp: forget_delay_def split: option.splits)

lemma apply_sender_report_ok:
  assumes ok: "upd_ok L ct v c s" and rate: "sc_clock_rate s = Some rate"
    and base: "sc_base_times s = Some (ba, br, bp)"
    and eq: "apply_sender_report L ct c s (unat rate) rtp_ns br ba = Some (ntp, s', c')"
  shows "upd_ok L ct v c' s' \<and> mode c' = mode c
    \<and> sc_clock_rate s' = sc_clock_rate s \<and> sc_base_times s' = sc_base_times s"
  using eq
proof (cases rule: apply_sender_report_cases)
  case same
  with ok show ?thesis by simp
next
  case (delay sr ext sr_ns dur bn d)
  have "base_ntp L ct s' = Some bn" using delay rate base by (simp add: base_ntp_def)
  then have "delay_ok L ct s'"
    using delay_of_Some [OF delay(6)] delay(7) base by (simp add: delay_ok_def)
  with ok delay(7,8) show ?thesis
    by (simp add: upd_ok_def sync_ok_forget cname_at_def base_ok_def)
next
  case invalid
  with ok show ?thesis by (simp add: upd_ok_def delay_ok_def base_ok_def)
qed

lemma largest_delay_missing:
  "v \<in> set vs \<Longrightarrow> m v = None \<Longrightarrow> largest_delay m vs acc = None"
proof (induction vs arbitrary: acc)
  case (Cons u us)
  then show ?case by (cases acc; cases "m u") (auto split: option.splits)
qed simp

lemma largest_delay_le:
  assumes "largest_delay m vs (l0, b0) = Some (l, b)"
  shows "l0 \<le> l \<and> (b \<longrightarrow> b0 \<and> (\<forall>v \<in> set vs. \<exists>s d. m v = Some s \<and> sc_current_delay s = Some d \<and> d \<le> l))"
  using assms
proof (induction vs arbitrary: l0 b0)
  case Nil
  then show ?case by simp
next
  case (Cons v vs)
  then obtain s where s: "m v = Some s" by (auto split: Option.bind_splits)
  show ?case
  proof (cases "sc_current_delay s")
    case None
    with Cons.prems s have "largest_delay m vs (l0, False) = Some (l, b)" by simp
    from Cons.IH [OF this] show ?thesis by simp
  next
    case (Some d)
    with Cons.prems s have "largest_delay m vs (if d > l0 then d else l0, b0) = Some (l, b)" by simp
    from Cons.IH [OF this] s Some show ?thesis by (auto split: if_splits)
  qed
qed

text \<open>The search that starts from the smallest 64-bit value ends at one of the delays.\<close>

lemma largest_delay_attained:
  assumes "largest_delay m vs (l0, b0) = Some (l, True)"
    and "\<And>v s d. v \<in> set vs \<Longrightarrow> m v = Some s \<Longrightarrow> sc_current_delay s = Some d \<Longrightarrow> - (2 ^ 63) \<le> d"
  shows "(\<exists>v \<in> set vs. \<exists>s. m v = Some s \<and> sc_current_delay s = Some l)
    \<or> l = l0 \<and> (l0 = - (2 ^ 63) \<longrightarrow> vs = [])"
  using assms
proof (induction vs arbitrary: l0 b0)
  case Nil
  then show ?case by simp
next
  case (Cons v vs)
  obtain s where s: "m v = Some s" using Cons.prems(1) by (auto split: Option.bind_splits)
  obtain d where d: "sc_current_delay s = Some d"
    using largest_delay_le [OF Cons.prems(1)] s by auto
  have r: "largest_delay m vs (if d > l0 then d else l0, b0) = Some (l, True)"
    using Cons.prems(1) s d by simp
  have le: "- (2 ^ 63) \<le> d" using Cons.prems(2) [of v s d] s d by simp
  have ih: "(\<exists>v \<in> set vs. \<exists>s. m v = Some s \<and> sc_current_delay s = Some l)
    \<or> l = (if d > l0 then d else l0)"
    using Cons.IH [OF r] Cons.prems(2) by fastforce
  show ?case
  proof (cases "l = d")
    case True
    then show ?thesis using s d by auto
  next
    case False
    then show ?thesis using ih le Cons.prems(1) largest_delay_le [OF r] by (auto split: if_splits)
  qed
qed

text \<open>The offset of a stream with a CNAME, and the entry of the CNAME afterwards.\<close>

definition cname_entry :: "sync_context \<Rightarrow> cname \<Rightarrow> (int \<times> bool) option" where
  "cname_entry c cn =
     (case cname_to_largest_delays c cn of
        Some e \<Rightarrow> Some e
      | None \<Rightarrow> do {
          vals \<leftarrow> cnames_to_ssrcs c cn;
          largest_delay (ssrcs c) vals (- (2 ^ 63), True)
        })"

lemma cname_offsetE:
  assumes "cname_offset c s p = Some (pts, c')" and "sc_cname s = Some cn"
  obtains l b where "cname_entry c cn = Some (l, b)"
    and "c' = c\<lparr>cname_to_largest_delays := (cname_to_largest_delays c)(cn \<mapsto> (l, b))\<rparr>"
    and "if b then \<exists>d. sc_current_delay s = Some d \<and> pts = p + as_u64 (l - d) \<and> l - d < 2 ^ 63
         else pts = p"
proof -
  obtain l b where e: "cname_entry c cn = Some (l, b)"
    using assms by (cases "cname_entry c cn") (auto simp: cname_offset_def cname_entry_def)
  have "do { (largest, all_sync) \<leftarrow> cname_entry c cn;
          let c1 = c\<lparr>cname_to_largest_delays := (cname_to_largest_delays c)(cn \<mapsto> (largest, all_sync))\<rparr>;
          if all_sync then do {
            delay \<leftarrow> sc_current_delay s;
            offset \<leftarrow> chk_i64 (largest - delay);
            pts \<leftarrow> chk_u64 (p + as_u64 offset);
            Some (pts, c1)
          } else Some (p, c1) } = Some (pts, c')"
    using assms by (simp add: cname_offset_def cname_entry_def)
  with e show thesis
    by (intro that [OF e])
      (auto simp: Let_def chk_i64_def chk_u64_def split: if_splits Option.bind_splits)
qed

lemma cname_offset_ssrcs:
  assumes "cname_offset c s p = Some (pts, c')"
  shows "ssrcs c' = ssrcs c"
proof (cases "sc_cname s")
  case None
  then show ?thesis using assms by (simp add: cname_offset_def)
next
  case (Some cn)
  show ?thesis by (rule cname_offsetE [OF assms Some]) simp
qed

text \<open>An entry that is all in sync is a bound of the delays of all streams of the CNAME.\<close>

lemma cname_entry_ok:
  assumes "cname_entry c cn = Some (l, True)" and "reg_ok c" and "ssrcs c u = Some t"
    and "sc_cname t = Some cn"
    and "cname_to_largest_delays c cn = Some (l, True) \<Longrightarrow> entry_ok l t"
  shows "entry_ok l t"
proof (cases "cname_to_largest_delays c cn")
  case None
  obtain vals where vals: "cnames_to_ssrcs c cn = Some vals" "u \<in> set vals"
    using reg_okD(2) [OF assms(2), of u cn] assms(3,4) by (auto simp: cname_at_def)
  then have "largest_delay (ssrcs c) vals (- (2 ^ 63), True) = Some (l, True)"
    using assms(1) None by (simp add: cname_entry_def)
  from largest_delay_le [OF this] vals(2) assms(3) show ?thesis by (auto simp: entry_ok_def)
next
  case (Some e)
  then show ?thesis using assms(1,5) by (simp add: cname_entry_def)
qed

lemma cname_entry_attained:
  assumes "cname_entry c cn = Some (l, True)" and "reg_ok c"
    and "ssrcs c v = Some s" and "sc_cname s = Some cn"
    and "\<And>u t d. ssrcs c u = Some t \<Longrightarrow> sc_current_delay t = Some d \<Longrightarrow> - (2 ^ 63) \<le> d"
    and "cname_to_largest_delays c cn = Some (l, True) \<Longrightarrow> attained c cn l"
  shows "attained c cn l"
proof (cases "cname_to_largest_delays c cn")
  case None
  obtain vals where vals: "cnames_to_ssrcs c cn = Some vals" "v \<in> set vals"
    using reg_okD(2) [OF assms(2), of v cn] assms(3,4) by (auto simp: cname_at_def)
  then have r: "largest_delay (ssrcs c) vals (- (2 ^ 63), True) = Some (l, True)"
    using assms(1) None by (simp add: cname_entry_def)
  have "(\<exists>u \<in> set vals. \<exists>t. ssrcs c u = Some t \<and> sc_current_delay t = Some l) \<or> vals = []"
    using largest_delay_attained [OF r] assms(5) by blast
  moreover have "vals \<noteq> []" using vals(2) by auto
  ultimately obtain u t where u: "u \<in> set vals" "ssrcs c u = Some t" "sc_current_delay t = Some l"
    by blast
  then have "sc_cname t = Some cn"
    using reg_okD(1) [OF assms(2) vals(1) u(1)] by (simp add: cname_at_def)
  with u show ?thesis unfolding attained_def by blast
next
  case (Some e)
  then show ?thesis using assms(1,6) by (simp add: cname_entry_def)
qed

lemma cname_offset_ok:
  assumes ok: "upd_ok L ct v c s"
    and eq: "cname_offset (c\<lparr>ssrcs := (ssrcs c)(v \<mapsto> s)\<rparr>) s p = Some (pts, c')"
  shows "sync_ok L ct c'"
proof -
  define c2 where "c2 = c\<lparr>ssrcs := (ssrcs c)(v \<mapsto> s)\<rparr>"
  have cs: "sync_ok L ct c" "sc_cname s = cname_at c v" "delay_ok L ct s" "base_ok (mode c) s"
    using ok by (auto simp: upd_ok_def)
  show ?thesis
  proof (cases "sc_cname s")
    case None
    then have "c' = c2" using eq by (simp add: cname_offset_def c2_def)
    moreover have "sync_ok L ct c2" unfolding c2_def by (rule sync_ok_upd [OF cs]) (simp add: None)
    ultimately show ?thesis by simp
  next
    case (Some cn)
    obtain l b where e: "cname_entry c2 cn = Some (l, b)"
      and c': "c' = c2\<lparr>cname_to_largest_delays := (cname_to_largest_delays c2)(cn \<mapsto> (l, b))\<rparr>"
      and p: "if b then \<exists>d. sc_current_delay s = Some d \<and> pts = p + as_u64 (l - d) \<and> l - d < 2 ^ 63
         else pts = p"
      by (rule cname_offsetE [OF eq [folded c2_def] Some])
    have reg: "reg_ok c2" unfolding c2_def by (rule reg_ok_upd [OF sync_ok_reg [OF cs(1)] cs(2)])
    have "entry_ok l t" if "b" "ssrcs c2 u = Some t" "sc_cname t = Some cn" for u t
    proof (rule cname_entry_ok [OF _ reg that(2,3)])
      show "cname_entry c2 cn = Some (l, True)" using e that(1) by simp
      show "entry_ok l t" if cached: "cname_to_largest_delays c2 cn = Some (l, True)"
      proof (cases "u = v")
        case True
        then have "t = s" using \<open>ssrcs c2 u = Some t\<close> by (simp add: c2_def)
        with p \<open>b\<close> ok cached Some show ?thesis by (auto simp: upd_ok_def entry_ok_def c2_def)
      next
        case False
        with that cached cs(1) \<open>ssrcs c2 u = Some t\<close> \<open>sc_cname t = Some cn\<close> show ?thesis
          by (auto simp: c2_def sync_ok_def cache_ok_def)
      qed
    qed
    moreover have at: "attained c2 x k" if "cname_to_largest_delays c x = Some (k, True)" for x k
      using cs(1) that ok unfolding c2_def
      by (intro attained_upd [OF _ cs(2)], simp add: sync_ok_def cache_ok_def)
        (cases "sc_current_delay s", simp_all add: upd_ok_def)
    moreover have "attained c2 cn l" if b
    proof (rule cname_entry_attained [OF _ reg _ Some, of l v])
      show "- (2 ^ 63) \<le> d" if "ssrcs c2 u = Some t" "sc_current_delay t = Some d" for u t d
        using that cs(1,3) by (auto simp: c2_def sync_ok_def delay_ok_def split: if_splits)
    qed (use that e at in \<open>simp_all add: c2_def\<close>)
    ultimately have "cache_ok c'"
      using cs(1) Some by (auto simp: c' cache_ok_def c2_def sync_ok_def attained_def split: if_splits)
    moreover have "reg_ok c'" using reg by (simp add: reg_ok_def c')
    ultimately show ?thesis using cs by (auto simp: sync_ok_def c' c2_def)
  qed
qed

lemma calculate_ptsE:
  assumes "calculate_pts L ct v ts arrival c = Some ((pts, ntp), c')"
  obtains s rate ext et rtp_ns p0 s1 c1 ba br bp s3 c3 where
    "ssrcs c v = Some s" and "sc_clock_rate s = Some rate"
    and "ExtendedTimestamp_next (sc_extended_timestamp s) ts = Some (ext, et)"
    and "mul_div_round L ext SECOND (unat rate) = Some rtp_ns"
    and "mode_pts L c (s\<lparr>sc_extended_timestamp := et\<rparr>) rtp_ns arrival = Some (p0, s1, c1)"
    and "(ba, br, bp) = (case sc_base_times s1 of None \<Rightarrow> (arrival, rtp_ns, p0) | Some b \<Rightarrow> b)"
    and "apply_sender_report L ct c1 (s1\<lparr>sc_base_times := Some (ba, br, bp)\<rparr>) (unat rate)
           rtp_ns br ba = Some (ntp, s3, c3)"
    and "cname_offset (c3\<lparr>ssrcs := (ssrcs c3)(v \<mapsto> s3)\<rparr>) s3 (p0 + ba - bp) = Some (pts, c')"
proof -
  obtain s rate ext et rtp_ns p0 s1 c1 where a: "ssrcs c v = Some s" "sc_clock_rate s = Some rate"
    "ExtendedTimestamp_next (sc_extended_timestamp s) ts = Some (ext, et)"
    "mul_div_round L ext SECOND (unat rate) = Some rtp_ns"
    "mode_pts L c (s\<lparr>sc_extended_timestamp := et\<rparr>) rtp_ns arrival = Some (p0, s1, c1)"
    using assms by (clarsimp simp: calculate_pts_def bind_eq_Some_conv Let_def)
  obtain ba br bp where b:
    "(ba, br, bp) = (case sc_base_times s1 of None \<Rightarrow> (arrival, rtp_ns, p0) | Some b \<Rightarrow> b)"
    by (metis prod.exhaust)
  then have b': "(case sc_base_times s1 of None \<Rightarrow> Some (arrival, rtp_ns, p0) | Some b \<Rightarrow> Some b)
      = Some (ba, br, bp)"
    by (simp split: option.splits)
  from assms a b' show thesis
    by (clarsimp simp: calculate_pts_def bind_eq_Some_conv chk_u64_def Let_def split: if_splits)
      (rule that [OF a b], assumption+)
qed

text \<open>The state of the stream when the offset is applied.\<close>

lemma calculate_pts_chain:
  assumes "sync_ok L ct c" and "calculate_pts L ct v ts arrival c = Some ((pts, ntp), c')"
  obtains s rate ext rtp_ns p0 ba br bp s3 c3 where
    "ssrcs c v = Some s" and "sc_clock_rate s = Some rate"
    and "fst (the (ExtendedTimestamp_next (sc_extended_timestamp s) ts)) = ext"
    and "mul_div_round L ext SECOND (unat rate) = Some rtp_ns"
    and "upd_ok L ct v c3 s3" and "mode c3 = mode c" and "ssrcs c3 = ssrcs c"
    and "sc_clock_rate s3 = Some rate" and "sc_base_times s3 = Some (ba, br, bp)"
    and "mode c = Rtp \<longrightarrow> p0 = rtp_ns"
    and "cname_offset (c3\<lparr>ssrcs := (ssrcs c3)(v \<mapsto> s3)\<rparr>) s3 (p0 + ba - bp) = Some (pts, c')"
proof -
  obtain s rate ext et rtp_ns p0 s1 c1 ba br bp s3 c3 where
    a: "ssrcs c v = Some s" "sc_clock_rate s = Some rate"
      "mul_div_round L ext SECOND (unat rate) = Some rtp_ns"
    and e: "ExtendedTimestamp_next (sc_extended_timestamp s) ts = Some (ext, et)"
    and m: "mode_pts L c (s\<lparr>sc_extended_timestamp := et\<rparr>) rtp_ns arrival = Some (p0, s1, c1)"
    and b: "(ba, br, bp) = (case sc_base_times s1 of None \<Rightarrow> (arrival, rtp_ns, p0) | Some b \<Rightarrow> b)"
    and r: "apply_sender_report L ct c1 (s1\<lparr>sc_base_times := Some (ba, br, bp)\<rparr>) (unat rate)
           rtp_ns br ba = Some (ntp, s3, c3)"
    and o: "cname_offset (c3\<lparr>ssrcs := (ssrcs c3)(v \<mapsto> s3)\<rparr>) s3 (p0 + ba - bp) = Some (pts, c')"
    by (rule calculate_ptsE [OF assms(2)])
  have s: "delay_ok L ct s" "base_ok (mode c) s" "cache_ok c"
    using assms(1) a(1) by (auto simp: sync_ok_def)
  then have "et_ok et" by (intro et_next_ok [OF _ e]) (simp add: base_ok_def)
  moreover have "d \<le> l" if "sc_cname s = Some cn" "cname_to_largest_delays c cn = Some (l, True)"
      "sc_current_delay s = Some d" for cn l d
  proof -
    have "entry_ok l s" using s(3) a(1) that(1,2) unfolding cache_ok_def by blast
    with that(3) show ?thesis by (simp add: entry_ok_def)
  qed
  ultimately have u0: "upd_ok L ct v c (s\<lparr>sc_extended_timestamp := et\<rparr>)"
    using s(1,2) assms(1) a(1)
    by (simp add: upd_ok_def delay_ok_def base_ok_def base_ntp_def cname_at_def delay_at_def)
  note m' = mode_pts_ok [OF u0 m]
  have "upd_ok L ct v c1 (s1\<lparr>sc_base_times := Some (ba, br, bp)\<rparr>)"
    using m' by (intro base_times_ok [OF _ _ b]) simp_all
  note r' = apply_sender_report_ok [OF this _ _ r]
  show thesis
    using a e m' r' o mode_pts_frame(2) [OF m] apply_sender_report_frame(2) [OF r] by (intro that [of s rate ext rtp_ns c3 s3 ba br bp p0]) simp_all
qed

lemma sync_ok_calculate_pts:
  assumes "sync_ok L ct c" and "calculate_pts L ct v ts arrival c = Some ((pts, ntp), c')"
  shows "sync_ok L ct c'"
  by (rule calculate_pts_chain [OF assms]) (rule cname_offset_ok)

section \<open>Inter-stream synchronisation\<close>

text \<open>The NTP time of a packet, in nanoseconds, by the state of its stream.\<close>

definition stream_ntp :: "gst_lib \<Rightarrow> system_time \<Rightarrow> ssrc_state \<Rightarrow> nat \<Rightarrow> int option" where
  "stream_ntp L ct s rtp_ns = do {
     bn \<leftarrow> base_ntp L ct s;
     (ba, br, bp) \<leftarrow> sc_base_times s;
     Some (int bn + int rtp_ns - int br)
   }"

text \<open>The extended RTP time of a packet of a stream, in nanoseconds.\<close>

definition packet_ns :: "gst_lib \<Rightarrow> ssrc_state \<Rightarrow> u32 \<Rightarrow> nat option" where
  "packet_ns L s ts = do {
     (ext, et) \<leftarrow> ExtendedTimestamp_next (sc_extended_timestamp s) ts;
     rate \<leftarrow> sc_clock_rate s;
     mul_div_round L ext SECOND (unat rate)
   }"

lemma sync_ok_entry:
  "sync_ok L ct c \<Longrightarrow> cname_to_largest_delays c cn = Some (l, True) \<Longrightarrow> ssrcs c v = Some s \<Longrightarrow>
    sc_cname s = Some cn \<Longrightarrow> entry_ok l s"
  unfolding sync_ok_def cache_ok_def by blast

lemma sync_ok_attained:
  "sync_ok L ct c \<Longrightarrow> cname_to_largest_delays c cn = Some (l, True) \<Longrightarrow> attained c cn l"
  unfolding sync_ok_def cache_ok_def by blast

lemma offset_pts:
  assumes ok: "upd_ok L ct v c s"
    and eq: "cname_offset (c\<lparr>ssrcs := (ssrcs c)(v \<mapsto> s)\<rparr>) s p = Some (pts, c')"
    and cn: "sc_cname s = Some cn" and l: "cname_to_largest_delays c' cn = Some (l, True)"
  obtains d where "sc_current_delay s = Some d" and "d \<le> l" and "int pts = int p + l - d"
proof -
  have ok': "sync_ok L ct c'" by (rule cname_offset_ok [OF ok eq])
  obtain l' b where "cname_entry (c\<lparr>ssrcs := (ssrcs c)(v \<mapsto> s)\<rparr>) cn = Some (l', b)"
    and c': "c' = (c\<lparr>ssrcs := (ssrcs c)(v \<mapsto> s)\<rparr>)\<lparr>cname_to_largest_delays :=
      (cname_to_largest_delays (c\<lparr>ssrcs := (ssrcs c)(v \<mapsto> s)\<rparr>))(cn \<mapsto> (l', b))\<rparr>"
    and p: "if b then \<exists>d. sc_current_delay s = Some d \<and> pts = p + as_u64 (l' - d) \<and> l' - d < 2 ^ 63
         else pts = p"
    by (rule cname_offsetE [OF eq cn])
  have lb: "l' = l" "b" using l by (simp_all add: c')
  obtain d where d: "sc_current_delay s = Some d" "pts = p + as_u64 (l - d)" "l - d < 2 ^ 63"
    using p lb by auto
  have "entry_ok l s" by (rule sync_ok_entry [OF ok' l _ cn, of v]) (simp add: c')
  then have "d \<le> l" using d(1) by (simp add: entry_ok_def)
  then have "as_u64 (l - d) = nat (l - d)" using d(3) by (intro as_u64_small) simp_all
  with d \<open>d \<le> l\<close> show thesis by (intro that [OF d(1)]) simp_all
qed

end
