(* ===== verification/Sync_Facts.thy ===== *)
theory Sync_Facts
  imports Sync_Context
begin

text \<open>
  Properties of the synchronisation of \<^verbatim>\<open>net/rtp/src/rtpbin2/sync.rs\<close>: the skew estimation
  never panics and tracks the minimum of its window, the bookkeeping of CNAMEs stays consistent
  over any sequence of operations that does not change a CNAME, the streams of one CNAME are
  presented on one timeline, and two sequences of operations that panic.
\<close>

section \<open>Skew estimation\<close>

text \<open>C29: An observation never panics, on streams of more than a century whose clocks stay within
  six and a half days of each other, and keeps the invariant: the incremental minimum is the
  minimum of the window, which has at most 512 deltas and keeps its size once full. The result
  is the local time when the base times are taken (again); otherwise it is the base local time
  plus the remote progress plus the skew. A discontinuity is reported exactly when a window with
  deltas is dropped, and an estimate that is kept moves between the old skew and the minimum.
\<close>

theorem skew_estimation_safe:
  assumes "gst_lib_spec L" and "obs_ok s" and "remote_time < 2 ^ 62" and "local_time < 2 ^ 62"
    and "clock_gap s remote_time local_time \<le> OBS_BOUND"
  shows "\<exists>t discont s'. process L s remote_time local_time = Some ((t, discont), s') \<and> obs_ok s'
    \<and> (t = local_time \<and> deltas s' = [] \<and> (discont \<longleftrightarrow> deltas s \<noteq> [])
          \<and> base_local_time s' = Some local_time \<and> base_remote_time s' = Some remote_time
       \<or> (\<exists>bl br. base_local_time s = Some bl \<and> base_remote_time s = Some br
            \<and> base_local_time s' = Some bl \<and> base_remote_time s' = Some br
            \<and> t = nat (int bl + int (remote_time - br) + skew s')
            \<and> discont = False \<and> (s' = s \<or> skew_between (skew s) s')))"
  using assms
proof (cases rule: process_cases)
  case (init discont s')
  then show ?thesis by auto
next
  case (old br bl h)
  then show ?thesis using assms(2) by auto
next
  case (step br bl s')
  then show ?thesis by auto
qed

theorem skew_estimation_safe_witness:
  "\<exists>t discont s'. process ref_lib (Observations_init Observations_default 0 5000) 20000000 20006000
     = Some ((t, discont), s') \<and> obs_ok s'"
proof -
  have "clock_gap (Observations_init Observations_default 0 5000) 20000000 20006000 \<le> OBS_BOUND"
    by (simp add: clock_gap_def Observations_init_def OBS_BOUND_def)
  then show ?thesis
    using skew_estimation_safe [OF reflib.gst_lib_spec_axioms
        obs_ok_init_default [of 0 5000], of 20000000 20006000] by auto
qed

section \<open>Reachable contexts\<close>

text \<open>
  The contexts of a run in which no stream changes its CNAME. \<^verbatim>\<open>ct\<close> is the time the process
  took first, which \<^verbatim>\<open>as_duration\<close> uses throughout.
\<close>

inductive sync_reach :: "gst_lib \<Rightarrow> system_time \<Rightarrow> sync_context \<Rightarrow> bool" for L ct where
  new: "sync_reach L ct (Context_new m)"
| rate: "sync_reach L ct c \<Longrightarrow> sync_reach L ct (set_clock_rate v r c)"
| assoc: "sync_reach L ct c \<Longrightarrow> cname_at c v = None \<or> cname_at c v = Some cn \<Longrightarrow>
    sync_reach L ct (associate v cn c)"
| remove: "sync_reach L ct c \<Longrightarrow> sync_reach L ct (remove_ssrc v c)"
| report: "sync_reach L ct c \<Longrightarrow> add_sender_report v ts ntp c = Some c' \<Longrightarrow> sync_reach L ct c'"
| packet: "sync_reach L ct c \<Longrightarrow> calculate_pts L ct v ts arrival c = Some (r, c') \<Longrightarrow> sync_reach L ct c'"

lemma sync_reach_ok: "sync_reach L ct c \<Longrightarrow> sync_ok L ct c"
proof (induction rule: sync_reach.induct)
  case (packet c v ts arrival r c')
  then show ?case by (cases r) (auto intro: sync_ok_calculate_pts)
qed (auto intro: sync_ok_set_clock_rate sync_ok_associate sync_ok_remove_ssrc sync_ok_add_sender_report)

section \<open>An example\<close>

text \<open>A stream with a CNAME and a sender report, before its first packet.\<close>

definition sync_example :: sync_context where
  "sync_example = the (add_sender_report 1 0 (100 * 2 ^ 32)
     (associate 1 [97] (set_clock_rate 1 90000 (Context_new Rtp))))"

named_theorems sync_eval \<open>evaluation of the operations on a concrete context\<close>

lemmas [sync_eval] = add_sender_report_def Ssrc_add_sender_report_def associate_def remove_ssrc_def
  disassociate_def set_clock_rate_def Context_new_def Ssrc_new_def ExtendedTimestamp_next_def
  ExtendedTimestamp_default_def calculate_pts_def mode_pts_def apply_sender_report_def
  ref_lib_def fits_def SECOND_def as_duration_def as_duration_with_current_time_def
  system_time_to_ntp_time_u64_def duration_since_def from_duration_def UNIX_TO_NTP_TIME_OFFSET_def
  ntp_era_from_system_time_def timestamp_era_for_def chk_u64_def usub_def update_delay_def
  base_ntp_time_of_def delay_of_def as_i64_def chk_i64_def ntp_time_of_def forget_delay_def
  cname_offset_def as_u64_def base_ntp_def packet_ns_def cname_at_def Let_def

lemma sync_example_reach: "sync_reach L ct sync_example"
proof (rule sync_reach.report, rule sync_reach.assoc, rule sync_reach.rate, rule sync_reach.new)
  show "cname_at (set_clock_rate 1 90000 (Context_new Rtp)) 1 = None
      \<or> cname_at (set_clock_rate 1 90000 (Context_new Rtp)) 1 = Some [97]"
    by (simp add: sync_eval)
  show "add_sender_report 1 0 (100 * 2 ^ 32)
      (associate 1 [97] (set_clock_rate 1 90000 (Context_new Rtp))) = Some sync_example"
    by (simp add: sync_example_def sync_eval)
qed




text \<open>C28: In every context reached without changing the CNAME of a stream, each stream is in the
  list of its CNAME and in no other one, every listed stream exists, a cached largest delay that
  is in sync is an upper bound of the delays of the CNAME's streams and the delay of one of them
  (or one of them waits for a new delay), and every delay is the arrival time of the stream's
  first packet minus its NTP time.
\<close>

theorem sync_bookkeeping:
  assumes "sync_reach L ct c"
  shows "(cname_at c v = Some cn \<longleftrightarrow> (\<exists>vals. cnames_to_ssrcs c cn = Some vals \<and> v \<in> set vals))
    \<and> (\<forall>s l d. ssrcs c v = Some s \<and> sc_cname s = Some cn \<and> sc_current_delay s = Some d
         \<and> cname_to_largest_delays c cn = Some (l, True) \<longrightarrow> d \<le> l)
    \<and> (\<forall>l. cname_to_largest_delays c cn = Some (l, True) \<longrightarrow>
         (\<exists>u s. ssrcs c u = Some s \<and> sc_cname s = Some cn
            \<and> (sc_current_delay s = None \<or> sc_current_delay s = Some l)))
    \<and> (\<forall>s d. ssrcs c v = Some s \<and> sc_current_delay s = Some d \<longrightarrow>
         (\<exists>bn ba br bp. base_ntp L ct s = Some bn \<and> sc_base_times s = Some (ba, br, bp)
           \<and> d = as_i64 ba - as_i64 bn))"
proof -
  note ok = sync_reach_ok [OF assms]
  have "d \<le> l" if "ssrcs c v = Some s" "sc_cname s = Some cn" "sc_current_delay s = Some d"
    "cname_to_largest_delays c cn = Some (l, True)" for s l d
    using sync_ok_entry [OF ok that(4,1,2)] that(3) by (simp add: entry_ok_def)
  moreover have "\<exists>u s. ssrcs c u = Some s \<and> sc_cname s = Some cn
      \<and> (sc_current_delay s = None \<or> sc_current_delay s = Some l)"
    if "cname_to_largest_delays c cn = Some (l, True)" for l
    using sync_ok_attained [OF ok that] by (simp add: attained_def)
  moreover have "\<exists>bn ba br bp. base_ntp L ct s = Some bn \<and> sc_base_times s = Some (ba, br, bp)
      \<and> d = as_i64 ba - as_i64 bn"
    if "ssrcs c v = Some s" "sc_current_delay s = Some d" for s d
  proof -
    have "delay_ok L ct s" using ok that(1) by (simp add: sync_ok_def)
    then show ?thesis using that(2) unfolding delay_ok_def by blast
  qed
  ultimately show ?thesis using reg_okD [OF sync_ok_reg [OF ok]] by blast
qed

theorem sync_bookkeeping_witness:
  "sync_reach ref_lib 0 sync_example \<and> cname_at sync_example 1 = Some [97]
    \<and> (\<exists>vals. cnames_to_ssrcs sync_example [97] = Some vals \<and> 1 \<in> set vals)"
  using sync_bookkeeping [OF sync_example_reach [of ref_lib 0], of 1 "[97]"] sync_example_reach
  by (simp add: sync_example_def sync_eval)





section \<open>Operations that panic\<close>

text \<open>C35: Changing the CNAME of a stream leaves the stream in the list of its old CNAME, since the
  code removes it from the list of the new one. When the stream is then removed while the
  largest delay of the old CNAME is not cached, so that the next packet has to compute it, every
  packet of another stream of the old CNAME panics. (The context before the change is one reached
  without changing a CNAME.)
\<close>

theorem cname_change_panics:
  assumes "sync_reach L ct c" and "cname_at c v = Some old" and "cname_at c u = Some old"
    and "u \<noteq> v" and "new \<noteq> old" and "cname_to_largest_delays c old = None"
  shows "calculate_pts L ct u ts arrival (remove_ssrc v (associate v new c)) = None"
proof (rule ccontr)
  define c' where "c' = remove_ssrc v (associate v new c)"
  obtain vals where vals: "cnames_to_ssrcs c old = Some vals" "v \<in> set vals"
    using reg_okD(2) [OF sync_ok_reg [OF sync_reach_ok [OF assms(1)]] assms(2)] by blast
  obtain sv where sv: "ssrcs c v = Some sv" "sc_cname sv = Some old"
    using assms(2) by (auto simp: cname_at_def split: option.splits)
  have c': "ssrcs c' = (ssrcs c)(v := None)" "cnames_to_ssrcs c' old = Some vals"
    "cname_to_largest_delays c' old = None"
    using sv vals assms(5,6)
    by (auto simp: c'_def remove_ssrc_def associate_def disassociate_def Let_def split: option.splits)
  assume "calculate_pts L ct u ts arrival (remove_ssrc v (associate v new c)) \<noteq> None"
  then obtain pts ntp c'' where "calculate_pts L ct u ts arrival c' = Some ((pts, ntp), c'')"
    by (auto simp: c'_def)
  then show False
  proof (rule calculate_ptsE)
    fix s rate ext et rtp_ns p0 s1 c1 ba br bp s3 c3
    assume s: "ssrcs c' u = Some s"
      and m: "mode_pts L c' (s\<lparr>sc_extended_timestamp := et\<rparr>) rtp_ns arrival = Some (p0, s1, c1)"
      and r: "apply_sender_report L ct c1 (s1\<lparr>sc_base_times := Some (ba, br, bp)\<rparr>) (unat rate)
           rtp_ns br ba = Some (ntp, s3, c3)"
      and o: "cname_offset (c3\<lparr>ssrcs := (ssrcs c3)(u \<mapsto> s3)\<rparr>) s3 (p0 + ba - bp) = Some (pts, c'')"
    note f = mode_pts_frame [OF m] apply_sender_report_frame [OF r]
    have cn: "sc_cname s3 = Some old" using s f assms(3,4) c'(1) by (simp add: cname_at_def)
    have "cname_entry (c3\<lparr>ssrcs := (ssrcs c3)(u \<mapsto> s3)\<rparr>) old = None"
      using f c' vals(2) assms(4) by (simp add: cname_entry_def largest_delay_missing [of v])
    then show False using cname_offsetE [OF o cn] by (metis option.distinct(1))
  qed
qed

theorem cname_change_panics_witness:
  "calculate_pts ref_lib 0 2 90000 5000 (remove_ssrc 1 (associate 1 [98]
     (associate 2 [97] (set_clock_rate 2 90000 sync_example)))) = None"
proof (rule cname_change_panics [where old = "[97]"])
  show "sync_reach ref_lib 0 (associate 2 [97] (set_clock_rate 2 90000 sync_example))"
    by (intro sync_reach.assoc sync_reach.rate sync_example_reach)
      (simp add: sync_example_def sync_eval)
qed (simp_all add: sync_example_def sync_eval)

text \<open>C36: A sender report whose NTP time cannot be mapped to the first packet makes the next packet
  panic, in every timestamping mode but Skew and when the largest delay of the CNAME is cached:
  the report clears the delay of the stream, and the cached entry says that every stream has one.
\<close>

theorem unmappable_report_panics:
  assumes "mode c \<noteq> Skew" and "ssrcs c v = Some s" and "sc_cname s = Some cn"
    and "cname_to_largest_delays c cn = Some (l, True)" and "sc_current_delay s = None"
    and "sc_base_times s \<noteq> None" and "base_ntp L ct s = None"
  shows "calculate_pts L ct v ts arrival c = None"
proof (rule ccontr)
  assume "calculate_pts L ct v ts arrival c \<noteq> None"
  then obtain pts ntp c' where "calculate_pts L ct v ts arrival c = Some ((pts, ntp), c')" by auto
  then show False
  proof (rule calculate_ptsE)
    fix s0 rate ext et rtp_ns p0 s1 c1 ba br bp s3 c3
    assume s: "ssrcs c v = Some s0" "sc_clock_rate s0 = Some rate"
      and m: "mode_pts L c (s0\<lparr>sc_extended_timestamp := et\<rparr>) rtp_ns arrival = Some (p0, s1, c1)"
      and b: "(ba, br, bp) = (case sc_base_times s1 of None \<Rightarrow> (arrival, rtp_ns, p0) | Some b \<Rightarrow> b)"
      and r: "apply_sender_report L ct c1 (s1\<lparr>sc_base_times := Some (ba, br, bp)\<rparr>) (unat rate)
           rtp_ns br ba = Some (ntp, s3, c3)"
      and o: "cname_offset (c3\<lparr>ssrcs := (ssrcs c3)(v \<mapsto> s3)\<rparr>) s3 (p0 + ba - bp) = Some (pts, c')"
    have s0: "s0 = s" "s1 = s0\<lparr>sc_extended_timestamp := et\<rparr>" "c1 = c"
      using s(1) assms(1,2) mode_pts_frame(5) [OF m] by simp_all
    have bt: "sc_base_times s = Some (ba, br, bp)" using b s0 assms(6) by auto
    from r have "sc_current_delay s3 = None \<and> c3 = c \<and> sc_cname s3 = Some cn"
    proof (cases rule: apply_sender_report_cases)
      case (delay sr ext sr_ns dur bn d)
      then have "base_ntp L ct s = Some bn" using s s0 bt by (simp add: base_ntp_def)
      with assms(7) show ?thesis by simp
    qed (use s0 assms(3,5) in simp_all)
    then show False using o assms(4) by (simp add: cname_offset_def)
  qed
qed

text \<open>
  A stream with a clock rate of 1 that is in sync, then a report half a cycle ahead.
\<close>

definition sync_report_example :: "sync_context option" where
  "sync_report_example = do {
     c \<leftarrow> add_sender_report 1 0 (61505153 * 2 ^ 32)
            (associate 1 [97] (set_clock_rate 1 1 (Context_new Rtp)));
     (r, c) \<leftarrow> calculate_pts ref_lib 0 1 0 5000 c;
     add_sender_report 1 0x7fffffff (61505153 * 2 ^ 32) c
   }"

lemma sync_report_example_eval:
  "\<exists>c s l. sync_report_example = Some c \<and> mode c = Rtp \<and> ssrcs c 1 = Some s
    \<and> sc_cname s = Some [97] \<and> cname_to_largest_delays c [97] = Some (l, True)
    \<and> sc_current_delay s = None \<and> sc_base_times s \<noteq> None \<and> base_ntp ref_lib 0 s = None"
  by (simp add: sync_report_example_def sync_eval)

theorem unmappable_report_panics_witness:
  "\<exists>c. sync_report_example = Some c \<and> calculate_pts ref_lib 0 1 0x7fffffff 6000 c = None"
proof -
  obtain c s l where c: "sync_report_example = Some c" "mode c = Rtp" and s: "ssrcs c 1 = Some s"
    "sc_cname s = Some [97]" "cname_to_largest_delays c [97] = Some (l, True)"
    "sc_current_delay s = None" "sc_base_times s \<noteq> None" "base_ntp ref_lib 0 s = None"
    using sync_report_example_eval by blast
  have "mode c \<noteq> Skew" using c(2) by simp
  from unmappable_report_panics [OF this s] c(1) show ?thesis by blast
qed

end
