(* ===== verification/Lru_Cache.thy ===== *)
theory Lru_Cache
  imports Rtp_Prelude
begin

text \<open>
  The interface of \<^verbatim>\<open>lru::LruCache\<close>, which the session keeps its remote sources in. The crate is
  not part of this repository: its operations are the fields of a record that the definitions
  of the session take, and the locale \<open>lru_spec\<close> states what its documentation promises, over
  the order of \<^verbatim>\<open>iter()\<close>, most recently used entry first.
\<close>

section \<open>The operations\<close>

text \<open>
  \<^verbatim>\<open>get\<close> and \<^verbatim>\<open>get_mut\<close> answer the entry, now the most recently used one; \<open>lru_assign\<close> is the assignment
  through the reference it returned, and through those of \<^verbatim>\<open>iter_mut\<close>. \<^verbatim>\<open>get_or_insert_mut\<close>
  takes the value that its closure makes when the key is missing.
\<close>

record ('c, 'v) lru_ops =
  lru_new :: "nat \<Rightarrow> 'c"
  lru_cap :: "'c \<Rightarrow> nat"
  lru_iter :: "'c \<Rightarrow> (u32 \<times> 'v) list"
  lru_peek :: "u32 \<Rightarrow> 'c \<Rightarrow> 'v option"
  lru_get_mut :: "u32 \<Rightarrow> 'c \<Rightarrow> 'v option \<times> 'c"
  lru_assign :: "u32 \<Rightarrow> 'v \<Rightarrow> 'c \<Rightarrow> 'c"
  lru_get_or_insert_mut :: "u32 \<Rightarrow> 'v \<Rightarrow> 'c \<Rightarrow> 'v \<times> 'c"
  lru_push :: "u32 \<Rightarrow> 'v \<Rightarrow> 'c \<Rightarrow> 'c"
  lru_pop :: "u32 \<Rightarrow> 'c \<Rightarrow> 'v option \<times> 'c"
  lru_peek_lru :: "'c \<Rightarrow> (u32 \<times> 'v) option"
  lru_pop_lru :: "'c \<Rightarrow> 'c"
  lru_resize :: "nat \<Rightarrow> 'c \<Rightarrow> 'c"

abbreviation lru_contains :: "('c, 'v) lru_ops \<Rightarrow> u32 \<Rightarrow> 'c \<Rightarrow> bool" where
  "lru_contains C k c \<equiv> lru_peek C k c \<noteq> None"

text \<open>\<^verbatim>\<open>if let Some(source) = cache.get_mut(&k) { ... }\<close> with a total update.\<close>

definition lru_modify :: "('c, 'v) lru_ops \<Rightarrow> u32 \<Rightarrow> ('v \<Rightarrow> 'v) \<Rightarrow> 'c \<Rightarrow> 'c" where
  "lru_modify C k f c =
     (case lru_get_mut C k c of
        (None, c) \<Rightarrow> c
      | (Some v, c) \<Rightarrow> lru_assign C k (f v) c)"

section \<open>The contract\<close>

definition entries_without :: "u32 \<Rightarrow> (u32 \<times> 'v) list \<Rightarrow> (u32 \<times> 'v) list" where
  "entries_without k es = filter (\<lambda>e. fst e \<noteq> k) es"

definition entries_assign :: "u32 \<Rightarrow> 'v \<Rightarrow> (u32 \<times> 'v) list \<Rightarrow> (u32 \<times> 'v) list" where
  "entries_assign k v es = map (\<lambda>e. if fst e = k then (k, v) else e) es"

definition entries_front :: "u32 \<Rightarrow> (u32 \<times> 'v) list \<Rightarrow> (u32 \<times> 'v) list" where
  "entries_front k es =
     (case map_of es k of None \<Rightarrow> es | Some v \<Rightarrow> (k, v) # entries_without k es)"

locale lru_spec =
  fixes C :: "('c, 'v) lru_ops"
  assumes new_spec: "lru_iter C (lru_new C n) = []" "lru_cap C (lru_new C n) = n"
    and peek_spec: "lru_peek C k c = map_of (lru_iter C c) k"
    and get_mut_spec: "fst (lru_get_mut C k c) = map_of (lru_iter C c) k"
      "lru_iter C (snd (lru_get_mut C k c)) = entries_front k (lru_iter C c)"
      "lru_cap C (snd (lru_get_mut C k c)) = lru_cap C c"
    and assign_spec: "lru_iter C (lru_assign C k v c) = entries_assign k v (lru_iter C c)"
      "lru_cap C (lru_assign C k v c) = lru_cap C c"
    and get_or_insert_spec:
      "fst (lru_get_or_insert_mut C k v c)
        = (case map_of (lru_iter C c) k of None \<Rightarrow> v | Some w \<Rightarrow> w)"
      "lru_iter C (snd (lru_get_or_insert_mut C k v c))
        = (case map_of (lru_iter C c) k of
             None \<Rightarrow> take (lru_cap C c) ((k, v) # lru_iter C c)
           | Some w \<Rightarrow> entries_front k (lru_iter C c))"
      "lru_cap C (snd (lru_get_or_insert_mut C k v c)) = lru_cap C c"
    and push_spec:
      "lru_iter C (lru_push C k v c) = take (lru_cap C c) ((k, v) # entries_without k (lru_iter C c))"
      "lru_cap C (lru_push C k v c) = lru_cap C c"
    and pop_spec: "fst (lru_pop C k c) = map_of (lru_iter C c) k"
      "lru_iter C (snd (lru_pop C k c)) = entries_without k (lru_iter C c)"
      "lru_cap C (snd (lru_pop C k c)) = lru_cap C c"
    and peek_lru_spec:
      "lru_peek_lru C c = (if lru_iter C c = [] then None else Some (last (lru_iter C c)))"
    and pop_lru_spec: "lru_iter C (lru_pop_lru C c) = butlast (lru_iter C c)"
      "lru_cap C (lru_pop_lru C c) = lru_cap C c"
    and resize_spec: "lru_iter C (lru_resize C n c) = take n (lru_iter C c)"
      "lru_cap C (lru_resize C n c) = n"

text \<open>A reference instance on lists with a capacity: the contract can be met.\<close>

type_synonym 'v ref_cache = "nat \<times> (u32 \<times> 'v) list"

definition ref_lru :: "('v ref_cache, 'v) lru_ops" where
  "ref_lru = \<lparr>
     lru_new = (\<lambda>n. (n, [])),
     lru_cap = fst,
     lru_iter = snd,
     lru_peek = (\<lambda>k (n, es). map_of es k),
     lru_get_mut = (\<lambda>k (n, es). (map_of es k, (n, entries_front k es))),
     lru_assign = (\<lambda>k v (n, es). (n, entries_assign k v es)),
     lru_get_or_insert_mut = (\<lambda>k v (n, es).
       (case map_of es k of
          None \<Rightarrow> (v, (n, take n ((k, v) # es)))
        | Some w \<Rightarrow> (w, (n, entries_front k es)))),
     lru_push = (\<lambda>k v (n, es). (n, take n ((k, v) # entries_without k es))),
     lru_pop = (\<lambda>k (n, es). (map_of es k, (n, entries_without k es))),
     lru_peek_lru = (\<lambda>(n, es). if es = [] then None else Some (last es)),
     lru_pop_lru = (\<lambda>(n, es). (n, butlast es)),
     lru_resize = (\<lambda>n (m, es). (n, take n es))\<rparr>"

interpretation reflru: lru_spec ref_lru
  by unfold_locales (auto simp: ref_lru_def split: prod.splits option.splits)

section \<open>Consequences\<close>

lemma map_of_without: "map_of (entries_without k es) = (map_of es)(k := None)"
  unfolding entries_without_def by (induction es) auto

lemma keys_without: "fst ` set (entries_without k es) = fst ` set es - {k}"
  by (auto simp: entries_without_def)

lemma keys_assign: "map fst (entries_assign k v es) = map fst es"
  by (simp add: entries_assign_def)

lemma map_of_assign:
  "map_of (entries_assign k v es) = (\<lambda>k'. if k' = k \<and> map_of es k \<noteq> None then Some v else map_of es k')"
  unfolding entries_assign_def by (induction es) auto

lemma map_of_front: "map_of (entries_front k es) = map_of es"
  by (auto simp: entries_front_def map_of_without split: option.splits)

lemma keys_front: "fst ` set (entries_front k es) = fst ` set es"
proof (cases "map_of es k")
  case (Some v)
  then have "k \<in> fst ` set es" by (metis map_of_eq_None_iff option.distinct(1))
  with Some show ?thesis by (auto simp: entries_front_def keys_without)
qed (simp add: entries_front_def)

lemma distinct_without: "distinct (map fst es) \<Longrightarrow> distinct (map fst (entries_without k es))"
  unfolding entries_without_def by (induction es) auto

lemma distinct_front: "distinct (map fst es) \<Longrightarrow> distinct (map fst (entries_front k es))"
  by (auto simp: entries_front_def keys_without distinct_without split: option.splits)

lemma length_front: "distinct (map fst es) \<Longrightarrow> length (entries_front k es) = length es"
  using distinct_card [of "map fst (entries_front k es)"] distinct_card [of "map fst es"]
  by (simp add: distinct_front keys_front)

text \<open>
  A cache in order: no key twice, every entry as it should be, room for at least one entry and
  not more entries than there is room for.
\<close>

definition lru_keys :: "('c, 'v) lru_ops \<Rightarrow> 'c \<Rightarrow> u32 set" where
  "lru_keys C c = fst ` set (lru_iter C c)"

definition cache_wf :: "('c, 'v) lru_ops \<Rightarrow> (u32 \<Rightarrow> 'v \<Rightarrow> bool) \<Rightarrow> 'c \<Rightarrow> bool" where
  "cache_wf C P c \<longleftrightarrow> distinct (map fst (lru_iter C c)) \<and> (\<forall>(k, v) \<in> set (lru_iter C c). P k v)
     \<and> 0 < lru_cap C c \<and> length (lru_iter C c) \<le> lru_cap C c"

lemma set_front: "set (entries_front k es) \<subseteq> set es"
  by (auto simp: entries_front_def entries_without_def split: option.splits dest: map_of_SomeD)

text \<open>What a cache keeps of a list of entries it has no room for.\<close>

lemma take_entries:
  assumes "distinct (map fst es)" and "\<forall>(k, v) \<in> set es. P k v"
  shows "distinct (map fst (take n es))" and "\<forall>(k, v) \<in> set (take n es). P k v"
    and "fst ` set (take n es) \<subseteq> fst ` set es" and "length (take n es) \<le> n"
  using assms set_take_subset [of n es] by (auto simp: take_map [symmetric])

lemma cache_wf_cap: "cache_wf C P c \<Longrightarrow> 0 < lru_cap C c"
  by (simp add: cache_wf_def)

lemma cache_wf_entry: "cache_wf C P c \<Longrightarrow> map_of (lru_iter C c) k = Some v \<Longrightarrow> P k v"
  by (auto simp: cache_wf_def dest: map_of_SomeD)

context lru_spec
begin

lemma keys_iff: "k \<in> lru_keys C c \<longleftrightarrow> map_of (lru_iter C c) k \<noteq> None"
  by (simp add: lru_keys_def map_of_eq_None_iff)

lemma contains_iff: "lru_contains C k c \<longleftrightarrow> k \<in> lru_keys C c"
  by (simp add: peek_spec keys_iff)

lemma wf_new: "0 < n \<Longrightarrow> cache_wf C P (lru_new C n)" "lru_keys C (lru_new C n) = {}"
  by (simp_all add: cache_wf_def new_spec lru_keys_def)

lemma get_mut_keys: "lru_keys C (snd (lru_get_mut C k c)) = lru_keys C c"
  by (simp add: lru_keys_def get_mut_spec keys_front)

lemma wf_get_mut: "cache_wf C P c \<Longrightarrow> cache_wf C P (snd (lru_get_mut C k c))"
  using set_front [of k "lru_iter C c"]
  by (auto simp: cache_wf_def get_mut_spec distinct_front length_front)

lemma assign_keys: "lru_keys C (lru_assign C k v c) = lru_keys C c"
  by (metis (no_types) assign_spec(1) image_set keys_assign lru_keys_def)

lemma wf_assign:
  assumes "cache_wf C P c" and "P k v"
  shows "cache_wf C P (lru_assign C k v c)"
proof -
  have "length (entries_assign k v (lru_iter C c)) = length (lru_iter C c)"
    by (simp add: entries_assign_def)
  with assms show ?thesis
    by (auto simp: cache_wf_def assign_spec keys_assign) (auto simp: entries_assign_def)
qed

lemma push_keys: "lru_keys C (lru_push C k v c) \<subseteq> insert k (lru_keys C c)"
proof -
  have "fst ` set (take n ((k, v) # entries_without k (lru_iter C c)))
      \<subseteq> fst ` set ((k, v) # entries_without k (lru_iter C c))" for n
    by (intro image_mono set_take_subset)
  then show ?thesis unfolding lru_keys_def push_spec using keys_without [of k "lru_iter C c"] by auto
qed

lemma push_has: "0 < lru_cap C c \<Longrightarrow> map_of (lru_iter C (lru_push C k v c)) k = Some v"
  by (cases "lru_cap C c") (simp_all add: push_spec)

lemma wf_push:
  assumes "cache_wf C P c" and "P k v"
  shows "cache_wf C P (lru_push C k v c)"
proof -
  let ?es = "(k, v) # entries_without k (lru_iter C c)"
  have "distinct (map fst ?es)"
    using assms(1) by (simp add: cache_wf_def keys_without distinct_without)
  moreover have "\<forall>(k', v') \<in> set ?es. P k' v'"
    using assms by (auto simp: cache_wf_def entries_without_def)
  ultimately show ?thesis
    unfolding cache_wf_def push_spec
    by (intro conjI take_entries cache_wf_cap [OF assms(1)])
qed

lemma pop_keys: "lru_keys C (snd (lru_pop C k c)) = lru_keys C c - {k}"
  by (simp add: lru_keys_def pop_spec keys_without)

lemma wf_pop: "cache_wf C P c \<Longrightarrow> cache_wf C P (snd (lru_pop C k c))"
proof -
  assume "cache_wf C P c"
  moreover have "length (entries_without k (lru_iter C c)) \<le> length (lru_iter C c)"
    by (simp add: entries_without_def)
  ultimately show "cache_wf C P (snd (lru_pop C k c))"
    by (auto simp: cache_wf_def pop_spec distinct_without) (auto simp: entries_without_def)
qed

lemma get_or_insert_keys:
  "lru_keys C (snd (lru_get_or_insert_mut C k v c)) \<subseteq> insert k (lru_keys C c)"
proof (cases "map_of (lru_iter C c) k")
  case None
  have "fst ` set (take n ((k, v) # lru_iter C c)) \<subseteq> fst ` set ((k, v) # lru_iter C c)" for n
    by (intro image_mono set_take_subset)
  with None show ?thesis unfolding lru_keys_def get_or_insert_spec by auto
qed (auto simp: lru_keys_def get_or_insert_spec keys_front)

lemma wf_get_or_insert:
  assumes "cache_wf C P c" and "P k v"
  shows "cache_wf C P (snd (lru_get_or_insert_mut C k v c))" and "P k (fst (lru_get_or_insert_mut C k v c))"
proof -
  show "P k (fst (lru_get_or_insert_mut C k v c))"
    using assms cache_wf_entry [OF assms(1)] by (auto simp: get_or_insert_spec split: option.splits)
  show "cache_wf C P (snd (lru_get_or_insert_mut C k v c))"
  proof (cases "map_of (lru_iter C c) k")
    case None
    then have "k \<notin> fst ` set (lru_iter C c)" by (simp add: map_of_eq_None_iff)
    then have "distinct (map fst ((k, v) # lru_iter C c))" using assms(1) by (simp add: cache_wf_def)
    moreover have "\<forall>(k', v') \<in> set ((k, v) # lru_iter C c). P k' v'"
      using assms by (auto simp: cache_wf_def)
    ultimately show ?thesis
      unfolding cache_wf_def get_or_insert_spec None option.case
      by (intro conjI take_entries cache_wf_cap [OF assms(1)])
  next
    case (Some w)
    then show ?thesis
      using wf_get_mut [OF assms(1), of k]
      by (simp add: cache_wf_def get_or_insert_spec get_mut_spec)
  qed
qed

lemma pop_lru_keys: "lru_keys C (lru_pop_lru C c) \<subseteq> lru_keys C c"
  by (auto simp: lru_keys_def pop_lru_spec dest: in_set_butlastD)

lemma wf_pop_lru: "cache_wf C P c \<Longrightarrow> cache_wf C P (lru_pop_lru C c)"
  by (auto simp: cache_wf_def pop_lru_spec map_butlast distinct_butlast dest: in_set_butlastD)

lemma wf_resize: "cache_wf C P c \<Longrightarrow> 0 < n \<Longrightarrow> cache_wf C P (lru_resize C n c)"
  by (auto simp: cache_wf_def resize_spec take_map [symmetric] dest: in_set_takeD)

lemma resize_keys: "lru_keys C (lru_resize C n c) \<subseteq> lru_keys C c"
  by (auto simp: lru_keys_def resize_spec dest: in_set_takeD)

lemma wf_modify:
  assumes "cache_wf C P c" and "\<And>v. P k v \<Longrightarrow> P k (f v)"
  shows "cache_wf C P (lru_modify C k f c)"
proof (cases "lru_get_mut C k c")
  case (Pair o' c')
  have wf: "cache_wf C P c'" using wf_get_mut [OF assms(1), of k] Pair by simp
  show ?thesis
  proof (cases o')
    case (Some v)
    then have "map_of (lru_iter C c) k = Some v" using get_mut_spec(1) [of k c] Pair by simp
    then have "P k v" by (rule cache_wf_entry [OF assms(1)])
    then show ?thesis using wf_assign [OF wf assms(2)] Some Pair by (simp add: lru_modify_def)
  qed (use wf Pair in \<open>simp add: lru_modify_def\<close>)
qed

lemma modify_keys: "lru_keys C (lru_modify C k f c) = lru_keys C c"
  using get_mut_keys [of k c] assign_keys
  by (cases "lru_get_mut C k c") (auto simp: lru_modify_def split: option.splits)

end

end
