(* ===== verification/Session_Core.thy ===== *)
theory Session_Core
  imports Rtp_Source F64 Lru_Cache
begin

text \<open>
  The RTP session of \<^verbatim>\<open>net/rtp/src/rtpbin2/session.rs\<close>: its state, its settings, the count of
  its members, and the RTCP interval that follows from them.

  The state is the record \<open>session\<close>, whose two caches of remote sources have the types of the
  external cache. What the session uses of other crates is the record \<open>session_env\<close>: \<^verbatim>\<open>MulDiv\<close>, the
  two caches, the numbers of the SDES item types and the size and bytes of a compound RTCP packet of
  \<^verbatim>\<open>rtcp_types\<close>. Random numbers are arguments: a draw of \<^verbatim>\<open>random::<f64>()\<close> is a rational.
\<close>

section \<open>Definitions\<close>

definition RTCP_MIN_REPORT_INTERVAL :: duration where "RTCP_MIN_REPORT_INTERVAL = 5 * SECOND"
definition RTCP_SOURCE_TIMEOUT_N_INTERVALS :: nat where "RTCP_SOURCE_TIMEOUT_N_INTERVALS = 5"
definition RTCP_ADDRESS_CONFLICT_TIMEOUT :: duration where
  "RTCP_ADDRESS_CONFLICT_TIMEOUT = 12 * RTCP_MIN_REPORT_INTERVAL"
definition RTCP_MIN_BANDWIDTH :: nat where "RTCP_MIN_BANDWIDTH = 400"
definition RTCP_MTU :: nat where "RTCP_MTU = 1200"
definition UDP_IP_OVERHEAD_BYTES :: nat where "UDP_IP_OVERHEAD_BYTES = 28"
definition DEFAULT_MAX_REMOTE_SOURCES :: nat where "DEFAULT_MAX_REMOTE_SOURCES = 150"

subsection \<open>The state\<close>

record rtcp_time_members =
  tm_time :: "instant option"
  tm_p_members :: nat

record bye_state =
  bs_members :: nat
  bs_pmembers :: nat

datatype rtp_profile = Avp | Avpf

definition is_feedback :: "rtp_profile \<Rightarrow> bool" where
  "is_feedback self \<longleftrightarrow> self = Avpf"

datatype request_early_rtcp_result = NotScheduled | Scheduled | EarlyTimerReconsideration

datatype recv_reply =
  NewSsrc u32 u8 | RecvHold nat | RecvDrop nat | RecvForward nat | RecvPassthrough | RecvIgnore
| SsrcCollision u32

datatype send_reply = SendNewSsrc u32 u8 | SendPassthrough | SendDrop | SendSsrcCollision u32

datatype rtcp_recv_reply =
  RtcpNewSsrc u32 | RtcpSsrcCollision u32 | TimerReconsideration
| RequestKeyUnit "u32 list" bool | NewCName rstring u32 | NewRtpNtp u32 u32 nat
| SsrcBye u32 | SsrcTimedOut "u32 list"

datatype rtcp_send_reply = SendSsrcTimedOut "u32 list" | Data "u8 list" | SendSsrcBye u32

datatype request_remote_key_unit_reply = KeyUnitTimerReconsideration

record ('cs, 'cr) session =
  min_rtcp_interval :: duration
  profile :: rtp_profile
  reduced_size_rtcp :: bool
  local_senders :: "(u32 \<times> local_send_source) list"
  local_receivers :: "(u32 \<times> local_receive_source) list"
  remote_receivers :: 'cr
  remote_senders :: 'cs
  timed_out_ssrcs :: "u32 list"
  average_rtcp_size :: nat
  hold_buffer_counter :: nat
  sdes :: "(u8 \<times> rstring) list"
  pt_map :: "u8 \<rightharpoonup> u32"
  conflicting_addresses :: "socket_addr \<rightharpoonup> instant"
  internal_rtcp_sender_src :: "u32 option"
  bye_state :: "bye_state option"
  is_point_to_point :: bool
  t_rr :: "duration option"
  last_rtcp_handle_time :: "instant option"
  next_rtcp_send :: rtcp_time_members
  last_rtcp_sent_times :: "instant list"
  next_early_rtcp_time :: "instant option"
  pending_rtcp_send :: "rtcp_send_reply list"

text \<open>The packets the session builds, by what it gives to the builders of \<^verbatim>\<open>rtcp_types\<close>.\<close>

datatype rtcp_builder =
  SrBuilder u32 u32 u32 nat u32 "report_block list"
| RrBuilder u32 "report_block list"
| SdesBuilder "(u32 \<times> (u8 \<times> rstring) list) list"
| ByeBuilder rstring "u32 list"
| PliBuilder u32 u32
| FirBuilder u32 "(u32 \<times> u8) list"

record ('cs, 'cr) session_env =
  gst :: gst_lib
  snd_ops :: "('cs, remote_send_source) lru_ops"
  rcv_ops :: "('cr, remote_receive_source) lru_ops"
  CNAME :: u8
  NAME :: u8
  EMAIL :: u8
  PHONE :: u8
  LOC :: u8
  TOOL :: u8
  NOTE :: u8
  calculate_size :: "rtcp_builder list \<Rightarrow> nat option"
  write_into :: "rtcp_builder list \<Rightarrow> u8 list option"

text \<open>The entries of the two caches, most recently used first.\<close>

abbreviation senders :: "('cs, 'cr) session_env \<Rightarrow> ('cs, 'cr) session \<Rightarrow> (u32 \<times> remote_send_source) list" where
  "senders E self \<equiv> lru_iter (snd_ops E) (remote_senders self)"

abbreviation receivers :: "('cs, 'cr) session_env \<Rightarrow> ('cs, 'cr) session \<Rightarrow> (u32 \<times> remote_receive_source) list" where
  "receivers E self \<equiv> lru_iter (rcv_ops E) (remote_receivers self)"

definition Session_new :: "('cs, 'cr) session_env \<Rightarrow> rstring \<Rightarrow> ('cs, 'cr) session" where
  "Session_new E cname = \<lparr>
     min_rtcp_interval = RTCP_MIN_REPORT_INTERVAL, profile = Avp, reduced_size_rtcp = False,
     local_senders = [], local_receivers = [],
     remote_receivers = lru_new (rcv_ops E) DEFAULT_MAX_REMOTE_SOURCES,
     remote_senders = lru_new (snd_ops E) DEFAULT_MAX_REMOTE_SOURCES,
     timed_out_ssrcs = [], average_rtcp_size = 100, hold_buffer_counter = 0,
     sdes = [(CNAME E, cname)], pt_map = Map.empty, conflicting_addresses = Map.empty,
     internal_rtcp_sender_src = None, bye_state = None, is_point_to_point = True,
     t_rr = None, last_rtcp_handle_time = None,
     next_rtcp_send = \<lparr>tm_time = None, tm_p_members = 0\<rparr>,
     last_rtcp_sent_times = [], next_early_rtcp_time = None, pending_rtcp_send = []\<rparr>"

subsection \<open>Settings\<close>

definition set_min_rtcp_interval :: "duration \<Rightarrow> ('cs, 'cr) session \<Rightarrow> ('cs, 'cr) session" where
  "set_min_rtcp_interval d self = self\<lparr>min_rtcp_interval := d\<rparr>"

definition set_profile :: "rtp_profile \<Rightarrow> ('cs, 'cr) session \<Rightarrow> ('cs, 'cr) session" where
  "set_profile p self = self\<lparr>profile := p\<rparr>"

definition set_reduced_size_rtcp :: "bool \<Rightarrow> ('cs, 'cr) session \<Rightarrow> ('cs, 'cr) session" where
  "set_reduced_size_rtcp b self = self\<lparr>reduced_size_rtcp := b\<rparr>"

definition set_max_remote_receiver_sources ::
  "('cs, 'cr) session_env \<Rightarrow> nat \<Rightarrow> ('cs, 'cr) session \<Rightarrow> ('cs, 'cr) session" where
  "set_max_remote_receiver_sources E n self =
     self\<lparr>remote_receivers := lru_resize (rcv_ops E) n (remote_receivers self)\<rparr>"

definition set_max_remote_sender_sources ::
  "('cs, 'cr) session_env \<Rightarrow> nat \<Rightarrow> ('cs, 'cr) session \<Rightarrow> ('cs, 'cr) session" where
  "set_max_remote_sender_sources E n self =
     self\<lparr>remote_senders := lru_resize (snd_ops E) n (remote_senders self)\<rparr>"

definition set_pt_clock_rate :: "u8 \<Rightarrow> u32 \<Rightarrow> ('cs, 'cr) session \<Rightarrow> ('cs, 'cr) session" where
  "set_pt_clock_rate pt clock_rate self = self\<lparr>pt_map := (pt_map self)(pt \<mapsto> clock_rate)\<rparr>"

definition clock_rate_from_pt :: "('cs, 'cr) session \<Rightarrow> u8 \<Rightarrow> u32 option" where
  "clock_rate_from_pt self pt = pt_map self pt"

definition set_sdes :: "(u8 \<times> rstring) list \<Rightarrow> ('cs, 'cr) session \<Rightarrow> ('cs, 'cr) session" where
  "set_sdes s self = self\<lparr>
     local_senders := hm_map_values (ls_set_sdes s) (local_senders self),
     local_receivers := hm_map_values (lr_set_sdes s) (local_receivers self),
     sdes := s\<rparr>"

definition reduced_size_rtcp_allowed :: "('cs, 'cr) session \<Rightarrow> bool" where
  "reduced_size_rtcp_allowed self \<longleftrightarrow> reduced_size_rtcp self \<and> profile self = Avpf"

subsection \<open>Members\<close>

definition count_normal :: "('s \<Rightarrow> source_state) \<Rightarrow> (u32 \<times> 's) list \<Rightarrow> nat" where
  "count_normal st es = length (filter (\<lambda>(_, source). st source = Normal) es)"

definition n_members :: "('cs, 'cr) session_env \<Rightarrow> ('cs, 'cr) session \<Rightarrow> nat" where
  "n_members E self =
     (case bye_state self of
        Some state \<Rightarrow> bs_members state
      | None \<Rightarrow> count_normal ls_state (local_senders self) + count_normal lr_state (local_receivers self)
          + count_normal rs_state (senders E self) + count_normal rr_state (receivers E self))"

definition n_senders :: "('cs, 'cr) session_env \<Rightarrow> ('cs, 'cr) session \<Rightarrow> nat" where
  "n_senders E self =
     (case bye_state self of
        Some _ \<Rightarrow> 0
      | None \<Rightarrow> count_normal ls_state (local_senders self) + count_normal rs_state (senders E self))"

definition p_members :: "('cs, 'cr) session \<Rightarrow> nat" where
  "p_members self =
     (case bye_state self of
        Some state \<Rightarrow> bs_pmembers state
      | None \<Rightarrow> tm_p_members (next_rtcp_send self))"

text \<open>The closure given to \<^verbatim>\<open>all\<close>: the first CNAME is kept, every later one compared with it.\<close>

fun one_cname :: "rstring option \<Rightarrow> rstring list \<Rightarrow> bool" where
  "one_cname cname [] = True"
| "one_cname cname (cn # cns) =
     ((cname = None \<or> cname = Some cn)
      \<and> one_cname (case cname of None \<Rightarrow> Some cn | Some c \<Rightarrow> Some c) cns)"

definition remote_cnames :: "('cs, 'cr) session_env \<Rightarrow> ('cs, 'cr) session \<Rightarrow> rstring list" where
  "remote_cnames E self =
     List.map_filter (\<lambda>(_, source). map_of (src_sdes (rs_source source)) (CNAME E)) (senders E self)
     @ List.map_filter (\<lambda>(_, source). map_of (src_sdes (rr_source source)) (CNAME E)) (receivers E self)"

definition update_point_to_point ::
  "('cs, 'cr) session_env \<Rightarrow> ('cs, 'cr) session \<Rightarrow> ('cs, 'cr) session" where
  "update_point_to_point E self =
     self\<lparr>is_point_to_point := one_cname None (remote_cnames E self)\<rparr>"

definition session_ssrcs :: "('cs, 'cr) session_env \<Rightarrow> ('cs, 'cr) session \<Rightarrow> u32 list" where
  "session_ssrcs E self =
     map fst (local_senders self) @ map fst (senders E self)
     @ map fst (local_receivers self) @ map fst (receivers E self)"

definition local_send_source_by_ssrc :: "('cs, 'cr) session \<Rightarrow> u32 \<Rightarrow> local_send_source option" where
  "local_send_source_by_ssrc self ssrc = map_of (local_senders self) ssrc"

definition local_receive_source_by_ssrc :: "('cs, 'cr) session \<Rightarrow> u32 \<Rightarrow> local_receive_source option" where
  "local_receive_source_by_ssrc self ssrc = map_of (local_receivers self) ssrc"

definition remote_send_source_by_ssrc ::
  "('cs, 'cr) session_env \<Rightarrow> ('cs, 'cr) session \<Rightarrow> u32 \<Rightarrow> remote_send_source option" where
  "remote_send_source_by_ssrc E self ssrc = lru_peek (snd_ops E) ssrc (remote_senders self)"

definition remote_receive_source_by_ssrc ::
  "('cs, 'cr) session_env \<Rightarrow> ('cs, 'cr) session \<Rightarrow> u32 \<Rightarrow> remote_receive_source option" where
  "remote_receive_source_by_ssrc E self ssrc = lru_peek (rcv_ops E) ssrc (remote_receivers self)"

definition have_ssrc :: "('cs, 'cr) session_env \<Rightarrow> ('cs, 'cr) session \<Rightarrow> u32 \<Rightarrow> bool" where
  "have_ssrc E self ssrc \<longleftrightarrow>
     map_of (local_senders self) ssrc \<noteq> None \<or> map_of (local_receivers self) ssrc \<noteq> None
     \<or> lru_contains (snd_ops E) ssrc (remote_senders self)
     \<or> lru_contains (rcv_ops E) ssrc (remote_receivers self)"

text \<open>
  The internal SSRC is drawn until an unused one comes up. The draws are a list; the loop is
  not over when the list is, which is \<^const>\<open>None\<close>.
\<close>

fun draw_ssrc :: "('cs, 'cr) session_env \<Rightarrow> ('cs, 'cr) session \<Rightarrow> u32 list \<Rightarrow> u32 option" where
  "draw_ssrc E self [] = None"
| "draw_ssrc E self (ssrc # draws) =
     (if have_ssrc E self ssrc then draw_ssrc E self draws else Some ssrc)"

definition ensure_internal_send_src ::
  "('cs, 'cr) session_env \<Rightarrow> u32 list \<Rightarrow> instant \<Rightarrow> ('cs, 'cr) session \<Rightarrow> (u32 \<times> ('cs, 'cr) session) option"
  where
  "ensure_internal_send_src E draws clock self =
     (case internal_rtcp_sender_src self of
        Some ssrc \<Rightarrow> Some (ssrc, self)
      | None \<Rightarrow> do {
          ssrc \<leftarrow> draw_ssrc E self draws;
          let source = lr_set_sdes (sdes self) (lr_set_state Normal (LocalReceiveSource_new ssrc clock));
          Some (ssrc, self\<lparr>local_receivers := hm_insert ssrc source (local_receivers self),
                           internal_rtcp_sender_src := Some ssrc\<rparr>)
        })"

subsection \<open>The RTCP interval\<close>

definition session_bandwidth :: "('cs, 'cr) session_env \<Rightarrow> ('cs, 'cr) session \<Rightarrow> nat" where
  "session_bandwidth E self =
     sum_list (map (\<lambda>(_, source). Bitrate_bitrate (gst E) (ls_bitrate source))
       (filter (\<lambda>(_, source). ls_state source = Normal) (local_senders self)))
     + sum_list (map (\<lambda>(_, source). Bitrate_bitrate (gst E) (rs_bitrate source))
       (filter (\<lambda>(_, source). rs_state source = Normal) (senders E self)))"

text \<open>The members that share the bandwidth, and the bandwidth they share.\<close>

definition rtcp_share :: "nat \<Rightarrow> nat \<Rightarrow> nat \<Rightarrow> bool \<Rightarrow> (nat \<times> nat) option" where
  "rtcp_share n_snd n_mem rtcp_bw we_sent =
     (if n_snd * 4 \<le> n_mem then
        (if we_sent then Some (n_snd, rtcp_bw div 4)
         else do { n \<leftarrow> usub n_mem n_snd; Some (n, rtcp_bw div 4 * 3) })
      else Some (n_mem, rtcp_bw))"

definition minimum_interval :: "('cs, 'cr) session \<Rightarrow> duration" where
  "minimum_interval self =
     (if is_feedback (profile self) then
        (if is_point_to_point self \<and> last_rtcp_sent_times self \<noteq> [] \<and> bye_state self = None
         then 0 else SECOND)
      else if last_rtcp_sent_times self \<noteq> [] \<and> bye_state self = None then min_rtcp_interval self
      else min_rtcp_interval self div 2)"

definition compensation_ns :: nat where "compensation_ns = 820829366"

definition deterministic_rtcp_duration ::
  "('cs, 'cr) session_env \<Rightarrow> bool \<Rightarrow> ('cs, 'cr) session \<Rightarrow> duration option" where
  "deterministic_rtcp_duration E we_sent self = do {
     let rtcp_bw = max (session_bandwidth E self div 20) RTCP_MIN_BANDWIDTH;
     (n, rtcp_bw) \<leftarrow> rtcp_share (n_senders E self) (n_members E self) rtcp_bw we_sent;
     t_nanos \<leftarrow> mul_div_round (gst E) compensation_ns (average_rtcp_size self * max n 1) (max rtcp_bw 1);
     Some (max t_nanos (minimum_interval self mod 2 ^ 64))
   }"

text \<open>\<open>r\<close> is the random number of \<^verbatim>\<open>rtcp_dither\<close>.\<close>

definition rtcp_dither :: "rat \<Rightarrow> duration \<Rightarrow> duration option" where
  "rtcp_dither r dur = mul_f64 dur (f64_add r (1 / 2))"

definition calculated_rtcp_duration ::
  "('cs, 'cr) session_env \<Rightarrow> rat \<Rightarrow> bool \<Rightarrow> ('cs, 'cr) session \<Rightarrow> duration option" where
  "calculated_rtcp_duration E r we_sent self = do {
     dur \<leftarrow> deterministic_rtcp_duration E we_sent self;
     rtcp_dither r dur
   }"

definition rtcp_interval :: "('cs, 'cr) session_env \<Rightarrow> rat \<Rightarrow> ('cs, 'cr) session \<Rightarrow> duration option" where
  "rtcp_interval E r self =
     calculated_rtcp_duration E r (local_senders self \<noteq> [] \<and> bye_state self = None) self"

definition update_rtcp_average :: "nat \<Rightarrow> ('cs, 'cr) session \<Rightarrow> ('cs, 'cr) session" where
  "update_rtcp_average additional_size self =
     (if average_rtcp_size self = 0 then self\<lparr>average_rtcp_size := additional_size\<rparr>
      else self\<lparr>average_rtcp_size := (additional_size + average_rtcp_size self * 15) div 16\<rparr>)"

text \<open>
  Reverse reconsideration moves the next RTCP time closer when members have left, and the
  last one (\<^verbatim>\<open>front_mut\<close> of the sent times).
\<close>

definition rtcp_reverse_consideration ::
  "('cs, 'cr) session_env \<Rightarrow> nat \<Rightarrow> instant \<Rightarrow> ('cs, 'cr) session \<Rightarrow> (bool \<times> ('cs, 'cr) session) option"
  where
  "rtcp_reverse_consideration E initial_n_members now self =
     (let n_mem = n_members E self
      in if n_mem \<ge> p_members self then Some (False, self)
      else
        (case tm_time (next_rtcp_send self) of
           None \<Rightarrow> Some (False, self)
         | Some prev \<Rightarrow>
             if now > prev then Some (False, self)
             else if tm_p_members (next_rtcp_send self) > 0 then do {
               let member_factor =
                 f64_div (f64_of_nat initial_n_members) (f64_of_nat (tm_p_members (next_rtcp_send self)));
               d \<leftarrow> mul_f64 (prev - now) member_factor;
               let self = self\<lparr>next_rtcp_send := \<lparr>tm_time = Some (now + d), tm_p_members = n_mem\<rparr>\<rparr>;
               (case last_rtcp_sent_times self of
                  [] \<Rightarrow> Some (True, self)
                | last_rtcp # rest \<Rightarrow> do {
                    d \<leftarrow> mul_f64 (last_rtcp - now) member_factor;
                    t \<leftarrow> usub now d;
                    Some (True, self\<lparr>last_rtcp_sent_times := t # rest\<rparr>)
                  })
             }
             else Some (False, self)))"

end
