(* ===== verification/Session_Recv.thy ===== *)
theory Session_Recv
  imports Session_Core
begin

text \<open>
  What the session of \<^verbatim>\<open>net/rtp/src/rtpbin2/session.rs\<close> does with the packets it sees: incoming
  RTP packets (\<^verbatim>\<open>handle_recv\<close>), outgoing ones (\<^verbatim>\<open>handle_send\<close>) and incoming compound RTCP packets
  (\<^verbatim>\<open>handle_rtcp_recv\<close>), with the detection of SSRC collisions and loops.

  An RTP or RTCP packet is what the accessors of \<^verbatim>\<open>rtp_types\<close> and \<^verbatim>\<open>rtcp_types\<close> answer about it.
  \<open>clock\<close> is the time the constructors of the sources read themselves.
\<close>

section \<open>Definitions\<close>

record rtp_packet =
  rtp_ssrc :: u32
  rtp_payload_type :: u8
  rtp_sequence_number :: u16
  rtp_timestamp :: u32
  rtp_payload_len :: nat

definition handle_ssrc_conflict ::
  "socket_addr \<Rightarrow> instant \<Rightarrow> ('cs, 'cr) session \<Rightarrow> bool \<times> ('cs, 'cr) session" where
  "handle_ssrc_conflict addr now self =
     (conflicting_addresses self addr = None,
      self\<lparr>conflicting_addresses := (conflicting_addresses self)(addr \<mapsto> now)\<rparr>)"

subsection \<open>Receiving an RTP packet\<close>

text \<open>The checks on the sender's address: a reply that ends the handling, or the state to go on with.\<close>

definition recv_from ::
  "('cs, 'cr) session_env \<Rightarrow> u32 \<Rightarrow> socket_addr option \<Rightarrow> instant \<Rightarrow> ('cs, 'cr) session
    \<Rightarrow> recv_reply option \<times> ('cs, 'cr) session" where
  "recv_from E ssrc from now self =
     (case from of
        None \<Rightarrow> (None, self)
      | Some addr \<Rightarrow>
          if map_of (local_senders self) ssrc \<noteq> None then
            (let (conflict, self) = handle_ssrc_conflict addr now self
             in (Some (if conflict then SsrcCollision ssrc else RecvIgnore), self))
          else
            (case lru_pop (rcv_ops E) ssrc (remote_receivers self) of
               (Some recv, c) \<Rightarrow>
                 (None, self\<lparr>remote_receivers := c,
                    remote_senders := lru_push (snd_ops E) ssrc
                      (rs_set_rtp_from from (rr_into_send recv)) (remote_senders self)\<rparr>)
             | (None, c) \<Rightarrow>
                 (let self = self\<lparr>remote_receivers := c\<rparr>
                  in case lru_get_mut (snd_ops E) ssrc (remote_senders self) of
                       (None, c) \<Rightarrow> (None, self\<lparr>remote_senders := c\<rparr>)
                     | (Some recv, c) \<Rightarrow>
                         (case rs_rtp_from recv of
                            Some from_addr \<Rightarrow>
                              (if addr \<noteq> from_addr then Some RecvIgnore else None,
                               self\<lparr>remote_senders := c\<rparr>)
                          | None \<Rightarrow>
                              (None, self\<lparr>remote_senders :=
                                 lru_assign (snd_ops E) ssrc (rs_set_rtp_from from recv) c\<rparr>)))))"

text \<open>
  The reply of the source is passed on; a held buffer takes the counter as its id.
  The global \<^verbatim>\<open>INITIAL_RECV_TIME\<close> of the sources is threaded through.
\<close>

definition recv_reply_of :: "source_recv_reply \<Rightarrow> recv_reply" where
  "recv_reply_of r =
     (case r of Hold i \<Rightarrow> RecvHold i | Drop i \<Rightarrow> RecvDrop i | Ignore \<Rightarrow> RecvIgnore
      | Forward i \<Rightarrow> RecvForward i | Passthrough \<Rightarrow> RecvPassthrough)"

definition is_hold :: "source_recv_reply \<Rightarrow> bool" where
  "is_hold r \<longleftrightarrow> (case r of Hold _ \<Rightarrow> True | _ \<Rightarrow> False)"

definition handle_recv ::
  "('cs, 'cr) session_env \<Rightarrow> instant option \<Rightarrow> instant \<Rightarrow> rtp_packet \<Rightarrow> socket_addr option \<Rightarrow> instant
    \<Rightarrow> ('cs, 'cr) session \<Rightarrow> (recv_reply \<times> instant option \<times> ('cs, 'cr) session) option" where
  "handle_recv E INITIAL_RECV_TIME clock rtp from now self =
     (case recv_from E (rtp_ssrc rtp) from now self of
        (Some reply, self) \<Rightarrow> Some (reply, INITIAL_RECV_TIME, self)
      | (None, self) \<Rightarrow>
          (let clock_rate = clock_rate_from_pt self (rtp_payload_type rtp)
           in case lru_get_mut (snd_ops E) (rtp_ssrc rtp) (remote_senders self) of
                (Some source, c) \<Rightarrow> do {
                  (reply, initial, source) \<leftarrow> recv_packet (gst E) INITIAL_RECV_TIME
                    (word_of_nat (rtp_payload_len rtp)) now (rtp_sequence_number rtp)
                    (rtp_timestamp rtp) (rtp_payload_type rtp) clock_rate (hold_buffer_counter self)
                    source;
                  Some (recv_reply_of reply, initial, self\<lparr>
                    remote_senders := lru_assign (snd_ops E) (rtp_ssrc rtp) source c,
                    hold_buffer_counter := hold_buffer_counter self + (if is_hold reply then 1 else 0)\<rparr>)
                }
              | (None, c) \<Rightarrow>
                  (let source = rs_set_rtp_from from (RemoteSendSource_new (rtp_ssrc rtp) clock)
                   in Some (NewSsrc (rtp_ssrc rtp) (rtp_payload_type rtp), INITIAL_RECV_TIME,
                        self\<lparr>remote_senders := lru_push (snd_ops E) (rtp_ssrc rtp) source c\<rparr>))))"

subsection \<open>Sending an RTP packet\<close>

text \<open>An SSRC that a remote source uses: a collision is reported once per address.\<close>

definition send_conflict ::
  "u32 \<Rightarrow> socket_addr option \<Rightarrow> instant \<Rightarrow> ('cs, 'cr) session \<Rightarrow> send_reply \<times> ('cs, 'cr) session" where
  "send_conflict ssrc from now self =
     (case from of
        None \<Rightarrow> (SendDrop, self)
      | Some addr \<Rightarrow>
          (let (conflict, self) = handle_ssrc_conflict addr now self
           in (if conflict then SendSsrcCollision ssrc else SendDrop, self)))"

definition option_or :: "'a option \<Rightarrow> 'a option \<Rightarrow> 'a option" where
  "option_or a b = (case a of None \<Rightarrow> b | Some x \<Rightarrow> Some x)"

definition handle_send_local ::
  "('cs, 'cr) session_env \<Rightarrow> instant \<Rightarrow> rtp_packet \<Rightarrow> instant \<Rightarrow> instant \<Rightarrow> ('cs, 'cr) session
    \<Rightarrow> (send_reply \<times> ('cs, 'cr) session) option" where
  "handle_send_local E clock rtp now capture_time self =
     (case map_of (local_senders self) (rtp_ssrc rtp) of
        Some source \<Rightarrow>
          if ls_state source \<noteq> Normal then Some (SendDrop, self)
          else
            (let source = ls_set_last_activity now source
             in case pt_map self (rtp_payload_type rtp) of
                  Some _ \<Rightarrow> do {
                    source \<leftarrow> sent_packet source (rtp_payload_len rtp) capture_time
                      (rtp_sequence_number rtp) (rtp_timestamp rtp) (rtp_payload_type rtp);
                    Some (SendPassthrough,
                      self\<lparr>local_senders := hm_insert (rtp_ssrc rtp) source (local_senders self)\<rparr>)
                  }
                | None \<Rightarrow>
                    Some (SendDrop,
                      self\<lparr>local_senders := hm_insert (rtp_ssrc rtp) source (local_senders self)\<rparr>))
      | None \<Rightarrow> do {
          let self = self\<lparr>local_receivers := hm_remove (rtp_ssrc rtp) (local_receivers self)\<rparr>;
          let source = ls_set_sdes (sdes self)
            (ls_set_state Normal (ls_set_last_activity now (LocalSendSource_new (rtp_ssrc rtp) clock)));
          self \<leftarrow> (if local_senders self = []
                   then map_option snd (rtcp_reverse_consideration E 0 now self) else Some self);
          Some (SendNewSsrc (rtp_ssrc rtp) (rtp_payload_type rtp),
            self\<lparr>local_senders := hm_insert (rtp_ssrc rtp) source (local_senders self)\<rparr>)
        })"

definition handle_send ::
  "('cs, 'cr) session_env \<Rightarrow> instant \<Rightarrow> rtp_packet \<Rightarrow> instant \<Rightarrow> instant \<Rightarrow> ('cs, 'cr) session
    \<Rightarrow> (send_reply \<times> ('cs, 'cr) session) option" where
  "handle_send E clock rtp now capture_time self =
     (case lru_get_mut (snd_ops E) (rtp_ssrc rtp) (remote_senders self) of
        (Some source, c) \<Rightarrow>
          Some (send_conflict (rtp_ssrc rtp) (option_or (rs_rtp_from source) (rs_rtcp_from source)) now
            (self\<lparr>remote_senders := c\<rparr>))
      | (None, c) \<Rightarrow>
          (let self = self\<lparr>remote_senders := c\<rparr>
           in case lru_get_mut (rcv_ops E) (rtp_ssrc rtp) (remote_receivers self) of
                (Some source, c) \<Rightarrow>
                  Some (send_conflict (rtp_ssrc rtp) (rr_rtcp_from source) now (self\<lparr>remote_receivers := c\<rparr>))
              | (None, c) \<Rightarrow> handle_send_local E clock rtp now capture_time (self\<lparr>remote_receivers := c\<rparr>)))"

subsection \<open>Receiving RTCP\<close>

text \<open>The packets of a compound, \<^verbatim>\<open>Err(_)\<close> included.\<close>

datatype feedback_control = FciPli | FciFir "u32 list" | FciOther

datatype rtcp_packet =
  AppPacket
| ByePacket "u32 list"
| RrPacket u32 "report_block list"
| SrPacket u32 nat u32 u32 u32 "report_block list"
| SdesPacket "(u32 \<times> (u8 \<times> u8 list) list) list"
| PayloadFeedback u32 u32 feedback_control
| OtherPacket
| PacketError

text \<open>Source state of a role change: the entry moves from one cache to the other.\<close>

definition make_sender :: "('cs, 'cr) session_env \<Rightarrow> u32 \<Rightarrow> ('cs, 'cr) session \<Rightarrow> ('cs, 'cr) session" where
  "make_sender E ssrc self =
     (case lru_pop (rcv_ops E) ssrc (remote_receivers self) of
        (Some source, c) \<Rightarrow> self\<lparr>remote_receivers := c,
          remote_senders := lru_push (snd_ops E) ssrc (rr_into_send source) (remote_senders self)\<rparr>
      | (None, c) \<Rightarrow> self\<lparr>remote_receivers := c\<rparr>)"

definition make_receiver :: "('cs, 'cr) session_env \<Rightarrow> u32 \<Rightarrow> ('cs, 'cr) session \<Rightarrow> ('cs, 'cr) session" where
  "make_receiver E ssrc self =
     (case lru_pop (snd_ops E) ssrc (remote_senders self) of
        (Some source, c) \<Rightarrow> self\<lparr>remote_senders := c,
          remote_receivers := lru_push (rcv_ops E) ssrc (rs_into_receive source) (remote_receivers self)\<rparr>
      | (None, c) \<Rightarrow> self\<lparr>remote_senders := c\<rparr>)"

text \<open>What every report does to the source it is about or comes from.\<close>

definition rs_seen :: "socket_addr option \<Rightarrow> instant \<Rightarrow> remote_send_source \<Rightarrow> remote_send_source" where
  "rs_seen from now s = rs_set_last_activity now (rs_set_state Normal (rs_set_rtcp_from from s))"

definition rr_seen :: "socket_addr option \<Rightarrow> instant \<Rightarrow> remote_receive_source \<Rightarrow> remote_receive_source" where
  "rr_seen from now s = rr_set_last_activity now (rr_set_state Normal (rr_set_rtcp_from from s))"

definition handle_rb ::
  "('cs, 'cr) session_env \<Rightarrow> instant \<Rightarrow> u32 \<Rightarrow> report_block \<Rightarrow> socket_addr option \<Rightarrow> instant \<Rightarrow> system_time
    \<Rightarrow> ('cs, 'cr) session \<Rightarrow> (rtcp_recv_reply option \<times> ('cs, 'cr) session) option" where
  "handle_rb E clock sender_ssrc rb from now ntp_time self =
     (case map_of (local_senders self) (blk_ssrc rb) of
        Some source \<Rightarrow> do {
          source \<leftarrow> ls_add_last_rb (gst E) source sender_ssrc rb now ntp_time;
          Some (None, self\<lparr>local_senders :=
            hm_insert (blk_ssrc rb) (ls_set_last_activity now source) (local_senders self)\<rparr>)
        }
      | None \<Rightarrow> do {
          let self = make_sender E (blk_ssrc rb) self;
          let ret = (if lru_contains (snd_ops E) (blk_ssrc rb) (remote_senders self) then None
                     else Some (RtcpNewSsrc (blk_ssrc rb)));
          let (source, c) = lru_get_or_insert_mut (snd_ops E) (blk_ssrc rb)
            (RemoteSendSource_new (blk_ssrc rb) clock) (remote_senders self);
          source \<leftarrow> rs_add_last_rb (gst E) (rs_seen from now source) sender_ssrc rb now ntp_time;
          Some (ret, self\<lparr>remote_senders := lru_assign (snd_ops E) (blk_ssrc rb) source c\<rparr>)
        })"

fun handle_rbs ::
  "('cs, 'cr) session_env \<Rightarrow> instant \<Rightarrow> u32 \<Rightarrow> report_block list \<Rightarrow> socket_addr option \<Rightarrow> instant
    \<Rightarrow> system_time \<Rightarrow> rtcp_recv_reply list \<Rightarrow> ('cs, 'cr) session
    \<Rightarrow> (rtcp_recv_reply list \<times> ('cs, 'cr) session) option" where
  "handle_rbs E clock sender_ssrc [] from now ntp_time replies self = Some (replies, self)"
| "handle_rbs E clock sender_ssrc (rb # rbs) from now ntp_time replies self = do {
     (reply, self) \<leftarrow> handle_rb E clock sender_ssrc rb from now ntp_time self;
     handle_rbs E clock sender_ssrc rbs from now ntp_time
       (replies @ (case reply of None \<Rightarrow> [] | Some r \<Rightarrow> [r])) self
   }"

text \<open>One SSRC of a BYE, and the BYE.\<close>

definition bye_ssrc ::
  "('cs, 'cr) session_env \<Rightarrow> socket_addr option \<Rightarrow> instant \<Rightarrow> u32
    \<Rightarrow> bool \<times> rtcp_recv_reply list \<times> ('cs, 'cr) session
    \<Rightarrow> bool \<times> rtcp_recv_reply list \<times> ('cs, 'cr) session" where
  "bye_ssrc E from now ssrc st =
     (case st of (check, replies, self) \<Rightarrow>
        (case lru_get_mut (snd_ops E) ssrc (remote_senders self) of
           (Some source, c) \<Rightarrow>
             (True, replies @ [SsrcBye ssrc], self\<lparr>remote_senders := lru_assign (snd_ops E) ssrc
               (rs_set_state Bye (rs_set_last_activity now (rs_set_rtcp_from from source))) c\<rparr>)
         | (None, c) \<Rightarrow>
             (let self = self\<lparr>remote_senders := c\<rparr>
              in case lru_get_mut (rcv_ops E) ssrc (remote_receivers self) of
                   (Some source, c) \<Rightarrow>
                     (True, replies @ [SsrcBye ssrc], self\<lparr>remote_receivers := lru_assign (rcv_ops E) ssrc
                       (rr_set_state Bye (rr_set_last_activity now source)) c\<rparr>)
                 | (None, c) \<Rightarrow> (check, replies, self\<lparr>remote_receivers := c\<rparr>))))"

definition reconsider ::
  "('cs, 'cr) session_env \<Rightarrow> bool \<Rightarrow> nat \<Rightarrow> instant
    \<Rightarrow> rtcp_recv_reply list \<Rightarrow> bool \<Rightarrow> ('cs, 'cr) session
    \<Rightarrow> (rtcp_recv_reply list \<times> bool \<times> ('cs, 'cr) session) option" where
  "reconsider E check n_mem now replies reconsidered self =
     (if check then do {
        (applied, self) \<leftarrow> rtcp_reverse_consideration E n_mem now self;
        Some (if applied \<and> \<not> reconsidered then (replies @ [TimerReconsideration], True, self)
              else (replies, reconsidered, self))
      } else Some (replies, reconsidered, self))"

definition recv_bye ::
  "('cs, 'cr) session_env \<Rightarrow> nat \<Rightarrow> socket_addr option \<Rightarrow> instant \<Rightarrow> u32 list
    \<Rightarrow> rtcp_recv_reply list \<Rightarrow> bool \<Rightarrow> ('cs, 'cr) session
    \<Rightarrow> (rtcp_recv_reply list \<times> bool \<times> ('cs, 'cr) session) option" where
  "recv_bye E rtcp_len from now ssrcs replies reconsidered self =
     (let n_mem = n_members E self;
          (check, replies, self) = fold (bye_ssrc E from now) ssrcs (False, replies, self)
      in case bye_state self of
           Some state \<Rightarrow>
             (let state = state\<lparr>bs_members := bs_members state + 1\<rparr>;
                  self = update_rtcp_average (rtcp_len + UDP_IP_OVERHEAD_BYTES) (self\<lparr>bye_state := Some state\<rparr>)
              in reconsider E check (bs_members state) now replies reconsidered self)
         | None \<Rightarrow> reconsider E check n_mem now replies reconsidered self)"

definition recv_rr ::
  "('cs, 'cr) session_env \<Rightarrow> instant \<Rightarrow> u32 \<Rightarrow> report_block list \<Rightarrow> socket_addr option \<Rightarrow> instant
    \<Rightarrow> system_time \<Rightarrow> rtcp_recv_reply list \<Rightarrow> ('cs, 'cr) session
    \<Rightarrow> (rtcp_recv_reply list \<times> ('cs, 'cr) session) option" where
  "recv_rr E clock ssrc rbs from now ntp_time replies self =
     (let self = make_receiver E ssrc self;
          replies = (if lru_contains (rcv_ops E) ssrc (remote_receivers self) then replies
                     else replies @ [RtcpNewSsrc ssrc]);
          (source, c) = lru_get_or_insert_mut (rcv_ops E) ssrc (RemoteReceiveSource_new ssrc clock)
            (remote_receivers self);
          self = self\<lparr>remote_receivers := lru_assign (rcv_ops E) ssrc (rr_seen from now source) c\<rparr>
      in handle_rbs E clock ssrc rbs from now ntp_time replies self)"

text \<open>Whether a report claims an SSRC of ours, from a known address.\<close>

definition claims_local :: "('cs, 'cr) session \<Rightarrow> u32 \<Rightarrow> bool" where
  "claims_local self ssrc \<longleftrightarrow>
     map_of (local_senders self) ssrc \<noteq> None \<or> map_of (local_receivers self) ssrc \<noteq> None"

definition rtcp_conflict ::
  "socket_addr \<Rightarrow> u32 \<Rightarrow> instant \<Rightarrow> rtcp_recv_reply list \<Rightarrow> ('cs, 'cr) session
    \<Rightarrow> rtcp_recv_reply list \<times> ('cs, 'cr) session" where
  "rtcp_conflict addr ssrc now replies self =
     (let (conflict, self) = handle_ssrc_conflict addr now self
      in (if conflict then replies @ [RtcpSsrcCollision ssrc] else replies, self))"

definition recv_sr ::
  "('cs, 'cr) session_env \<Rightarrow> instant \<Rightarrow> u32 \<Rightarrow> nat \<Rightarrow> u32 \<Rightarrow> u32 \<Rightarrow> u32 \<Rightarrow> report_block list
    \<Rightarrow> socket_addr option \<Rightarrow> instant \<Rightarrow> system_time \<Rightarrow> rtcp_recv_reply list \<Rightarrow> ('cs, 'cr) session
    \<Rightarrow> (rtcp_recv_reply list \<times> ('cs, 'cr) session) option" where
  "recv_sr E clock ssrc ntp rtp_time octets packets rbs from now ntp_time replies self =
     (case (from, claims_local self ssrc) of
        (Some addr, True) \<Rightarrow> Some (rtcp_conflict addr ssrc now replies self)
      | _ \<Rightarrow>
          (let self = make_sender E ssrc self;
               replies = (if lru_contains (snd_ops E) ssrc (remote_senders self) then replies
                          else replies @ [RtcpNewSsrc ssrc]);
               (source, c) = lru_get_or_insert_mut (snd_ops E) ssrc (RemoteSendSource_new ssrc clock)
                 (remote_senders self);
               source = set_last_received_sr ntp_time (NtpTime ntp) rtp_time octets packets
                 (rs_seen from now source);
               self = self\<lparr>remote_senders := lru_assign (snd_ops E) ssrc source c\<rparr>
           in handle_rbs E clock ssrc rbs from now ntp_time (replies @ [NewRtpNtp ssrc rtp_time ntp]) self))"

text \<open>The types of the items that are not skipped.\<close>

definition sdes_types :: "('cs, 'cr) session_env \<Rightarrow> u8 list" where
  "sdes_types E = [CNAME E, NAME E, EMAIL E, PHONE E, LOC E, TOOL E, NOTE E]"

definition recv_sdes_item ::
  "('cs, 'cr) session_env \<Rightarrow> instant \<Rightarrow> socket_addr option \<Rightarrow> instant \<Rightarrow> u32 \<Rightarrow> u8 \<times> u8 list
    \<Rightarrow> rtcp_recv_reply list \<times> ('cs, 'cr) session \<Rightarrow> rtcp_recv_reply list \<times> ('cs, 'cr) session" where
  "recv_sdes_item E clock from now ssrc item st =
     (case (item, st) of ((type, value), (replies, self)) \<Rightarrow>
        (case (from, claims_local self ssrc) of
           (Some addr, True) \<Rightarrow> rtcp_conflict addr ssrc now replies self
         | _ \<Rightarrow>
             if type \<notin> set (sdes_types E) then (replies, self)
             else
               (let (replies, self) =
                  (case lru_get_mut (snd_ops E) ssrc (remote_senders self) of
                     (Some source, c) \<Rightarrow>
                       (replies, self\<lparr>remote_senders := lru_assign (snd_ops E) ssrc
                          (rs_set_last_activity now (rs_set_state Normal
                            (rs_received_sdes type value (rs_set_rtcp_from from source)))) c\<rparr>)
                   | (None, c) \<Rightarrow>
                       (let self = self\<lparr>remote_senders := c\<rparr>;
                            replies = (if lru_contains (rcv_ops E) ssrc (remote_receivers self) then replies
                                       else replies @ [RtcpNewSsrc ssrc]);
                            (source, c) = lru_get_or_insert_mut (rcv_ops E) ssrc
                              (RemoteReceiveSource_new ssrc clock) (remote_receivers self)
                        in (replies, self\<lparr>remote_receivers := lru_assign (rcv_ops E) ssrc
                              (rr_set_last_activity now (rr_set_state Normal
                                (rr_received_sdes type value (rr_set_rtcp_from from source)))) c\<rparr>)))
                in (if type = CNAME E \<and> utf8_valid value then replies @ [NewCName value ssrc] else replies,
                    self))))"

definition recv_sdes ::
  "('cs, 'cr) session_env \<Rightarrow> instant \<Rightarrow> socket_addr option \<Rightarrow> instant \<Rightarrow> (u32 \<times> (u8 \<times> u8 list) list) list
    \<Rightarrow> rtcp_recv_reply list \<Rightarrow> ('cs, 'cr) session \<Rightarrow> rtcp_recv_reply list \<times> ('cs, 'cr) session" where
  "recv_sdes E clock from now chunks replies self =
     fold (\<lambda>(ssrc, items). fold (recv_sdes_item E clock from now ssrc) items) chunks (replies, self)"

text \<open>
  Key-unit requests for our streams. \<open>key_unit_media\<close> is the body of the loop over the media
  SSRCs, which are collected in the order of the packet.
\<close>

definition key_unit_media ::
  "('cs, 'cr) session_env \<Rightarrow> instant \<Rightarrow> u32 \<Rightarrow> u32 \<Rightarrow> u32 list \<times> ('cs, 'cr) session
    \<Rightarrow> u32 list \<times> ('cs, 'cr) session" where
  "key_unit_media E now sender_ssrc media_ssrc st =
     (case st of (ssrcs, self) \<Rightarrow>
        (case map_of (local_senders self) media_ssrc of
           None \<Rightarrow> (ssrcs, self)
         | Some sender \<Rightarrow>
             (case ls_last_received_rb sender sender_ssrc of
                None \<Rightarrow> (ssrcs, self)
              | Some rb \<Rightarrow>
                  (case lru_get_mut (snd_ops E) sender_ssrc (remote_senders self) of
                     (Some source, c) \<Rightarrow>
                       (let (allowed, source) = rs_remote_request_key_unit_allowed now rb source
                        in (if allowed then ssrcs @ [media_ssrc] else ssrcs,
                            self\<lparr>remote_senders := lru_assign (snd_ops E) sender_ssrc source c\<rparr>))
                   | (None, c) \<Rightarrow>
                       (let self = self\<lparr>remote_senders := c\<rparr>
                        in case lru_get_mut (rcv_ops E) sender_ssrc (remote_receivers self) of
                             (Some source, c) \<Rightarrow>
                               (let (allowed, source) = rr_remote_request_key_unit_allowed now rb source
                                in (if allowed then ssrcs @ [media_ssrc] else ssrcs,
                                    self\<lparr>remote_receivers := lru_assign (rcv_ops E) sender_ssrc source c\<rparr>))
                           | (None, c) \<Rightarrow>
                               (ssrcs @ [media_ssrc], self\<lparr>remote_receivers := c\<rparr>))))))"

definition handle_remote_request_key_unit ::
  "('cs, 'cr) session_env \<Rightarrow> instant \<Rightarrow> bool \<Rightarrow> u32 \<Rightarrow> u32 list \<Rightarrow> rtcp_recv_reply list
    \<Rightarrow> ('cs, 'cr) session \<Rightarrow> rtcp_recv_reply list \<times> ('cs, 'cr) session" where
  "handle_remote_request_key_unit E now fir sender_ssrc media_ssrcs replies self =
     (let (ssrcs, self) = fold (key_unit_media E now sender_ssrc) media_ssrcs ([], self)
      in (if ssrcs \<noteq> [] then replies @ [RequestKeyUnit ssrcs fir] else replies, self))"

text \<open>One packet of a compound, and the compound.\<close>

definition recv_rtcp_packet ::
  "('cs, 'cr) session_env \<Rightarrow> instant \<Rightarrow> nat \<Rightarrow> socket_addr option \<Rightarrow> instant \<Rightarrow> system_time \<Rightarrow> rtcp_packet
    \<Rightarrow> rtcp_recv_reply list \<Rightarrow> bool \<Rightarrow> ('cs, 'cr) session
    \<Rightarrow> (rtcp_recv_reply list \<times> bool \<times> ('cs, 'cr) session) option" where
  "recv_rtcp_packet E clock rtcp_len from now ntp_time p replies reconsidered self =
     (case p of
        ByePacket ssrcs \<Rightarrow> recv_bye E rtcp_len from now ssrcs replies reconsidered self
      | RrPacket ssrc rbs \<Rightarrow> do {
          (replies, self) \<leftarrow> recv_rr E clock ssrc rbs from now ntp_time replies self;
          Some (replies, reconsidered, self)
        }
      | SrPacket ssrc ntp rtp_time octets packets rbs \<Rightarrow> do {
          (replies, self) \<leftarrow> recv_sr E clock ssrc ntp rtp_time octets packets rbs from now ntp_time replies self;
          Some (replies, reconsidered, self)
        }
      | SdesPacket chunks \<Rightarrow>
          (let (replies, self) = recv_sdes E clock from now chunks replies self
           in Some (replies, reconsidered, self))
      | PayloadFeedback sender_ssrc media_ssrc fci \<Rightarrow>
          (case fci of
             FciPli \<Rightarrow>
               (let (replies, self) =
                  handle_remote_request_key_unit E now False sender_ssrc [media_ssrc] replies self
                in Some (replies, reconsidered, self))
           | FciFir ssrcs \<Rightarrow>
               (let (replies, self) =
                  handle_remote_request_key_unit E now True sender_ssrc ssrcs replies self
                in Some (replies, reconsidered, self))
           | FciOther \<Rightarrow> Some (replies, reconsidered, self))
      | _ \<Rightarrow> Some (replies, reconsidered, self))"

fun recv_rtcp_packets ::
  "('cs, 'cr) session_env \<Rightarrow> instant \<Rightarrow> nat \<Rightarrow> socket_addr option \<Rightarrow> instant \<Rightarrow> system_time \<Rightarrow> rtcp_packet list
    \<Rightarrow> rtcp_recv_reply list \<Rightarrow> bool \<Rightarrow> ('cs, 'cr) session
    \<Rightarrow> (rtcp_recv_reply list \<times> ('cs, 'cr) session) option" where
  "recv_rtcp_packets E clock rtcp_len from now ntp_time [] replies reconsidered self =
     Some (replies, self)"
| "recv_rtcp_packets E clock rtcp_len from now ntp_time (p # ps) replies reconsidered self = do {
     (replies, reconsidered, self) \<leftarrow>
       recv_rtcp_packet E clock rtcp_len from now ntp_time p replies reconsidered self;
     recv_rtcp_packets E clock rtcp_len from now ntp_time ps replies reconsidered self
   }"

definition handle_rtcp_recv ::
  "('cs, 'cr) session_env \<Rightarrow> instant \<Rightarrow> rtcp_packet list \<Rightarrow> nat \<Rightarrow> socket_addr option \<Rightarrow> instant
    \<Rightarrow> system_time \<Rightarrow> ('cs, 'cr) session \<Rightarrow> (rtcp_recv_reply list \<times> ('cs, 'cr) session) option" where
  "handle_rtcp_recv E clock rtcp rtcp_len from now ntp_time self = do {
     let self = (if bye_state self = None
                 then update_rtcp_average (rtcp_len + UDP_IP_OVERHEAD_BYTES) self else self);
     let replies = (if timed_out_ssrcs self = [] then [] else [SsrcTimedOut (timed_out_ssrcs self)]);
     (replies, self) \<leftarrow> recv_rtcp_packets E clock rtcp_len from now ntp_time rtcp replies False
       (self\<lparr>timed_out_ssrcs := []\<rparr>);
     Some (replies, update_point_to_point E self)
   }"

end
