(* ===== verification/Session_Rtcp.thy ===== *)
theory Session_Rtcp
  imports Session_Recv
begin

text \<open>
  The RTCP the session of \<^verbatim>\<open>net/rtp/src/rtpbin2/session.rs\<close> sends: the packets of a compound,
  the timeouts of its sources, the regular and early transmission times, and BYE.

  \<open>rng\<close> holds the random draws of one call: the candidates for the internal SSRC, which at most
  one of the packets draws, and the numbers of the dithers in the order of the calls.
\<close>

section \<open>Definitions\<close>

subsection \<open>Generating packets\<close>

text \<open>The RTP timestamp that corresponds to \<open>now\<close>, extrapolated from the last packet sent.\<close>

definition sr_rtp_timestamp ::
  "('cs, 'cr) session_env \<Rightarrow> instant \<Rightarrow> ('cs, 'cr) session \<Rightarrow> local_send_source \<Rightarrow> u32" where
  "sr_rtp_timestamp E now self sender =
     (case ls_last_rtp_sent sender of
        None \<Rightarrow> 0
      | Some (last_rtp_ts, instant) \<Rightarrow>
          last_rtp_ts +
          (case (do {
              pt \<leftarrow> src_payload_type (ls_source sender);
              clock_rate \<leftarrow> clock_rate_from_pt self pt;
              mul_div_round (gst E) ((now - instant) mod 2 ^ 64) (unat clock_rate) SECOND
            }) of
             None \<Rightarrow> 0
           | Some v \<Rightarrow> word_of_nat v))"

text \<open>The report blocks of the remote senders, and the SSRCs reported on.\<close>

definition report_ssrc :: "u32 \<Rightarrow> u32 list \<Rightarrow> u32 list" where
  "report_ssrc ssrc reported = (if ssrc \<in> set reported then reported else reported @ [ssrc])"

fun report_blocks ::
  "gst_lib \<Rightarrow> system_time \<Rightarrow> (u32 \<times> remote_send_source) list \<Rightarrow> u32 list
    \<Rightarrow> (report_block list \<times> u32 list) option" where
  "report_blocks L ntp_now [] reported = Some ([], reported)"
| "report_blocks L ntp_now ((k, sender) # es) reported =
     (if rs_state sender \<noteq> Normal then report_blocks L ntp_now es reported
      else do {
        rb \<leftarrow> generate_report_block L sender ntp_now;
        (rbs, reported) \<leftarrow>
          report_blocks L ntp_now es (report_ssrc (src_ssrc (rs_source sender)) reported);
        Some (Rb_into_builder rb # rbs, reported)
      })"

text \<open>
  The loop over the local senders. It collects the packets, the SSRCs reported, the snapshots to
  take, and the internal SSRC when there was none.
\<close>

fun sr_loop ::
  "('cs, 'cr) session_env \<Rightarrow> instant \<Rightarrow> system_time \<Rightarrow> ntp_time \<Rightarrow> bool \<Rightarrow> ('cs, 'cr) session
    \<Rightarrow> (u32 \<times> local_send_source) list \<Rightarrow> u32 list \<Rightarrow> u32 option
    \<Rightarrow> (rtcp_builder list \<times> u32 list \<times> (u32 \<times> u32) list \<times> u32 option) option" where
  "sr_loop E now ntp_now ntp_time minimum self [] reported internal =
     Some ([], reported, [], internal)"
| "sr_loop E now ntp_now ntp_time minimum self ((k, sender) # es) reported internal =
     (if ls_state sender \<noteq> Normal then sr_loop E now ntp_now ntp_time minimum self es reported internal
      else do {
        let ssrc = src_ssrc (ls_source sender);
        let internal = (case internal of None \<Rightarrow> Some ssrc | Some i \<Rightarrow> Some i);
        let rtp_timestamp = sr_rtp_timestamp E now self sender;
        let reported = report_ssrc ssrc reported;
        (rbs, reported) \<leftarrow> (if minimum then Some ([], reported)
                            else report_blocks (gst E) ntp_now (senders E self) reported);
        let sr = SrBuilder ssrc (word_of_nat (ls_sent_packets sender)) (word_of_nat (ls_sent_bytes sender))
          (ntp_val ntp_time) rtp_timestamp rbs;
        if minimum then Some ([sr], reported, [(ssrc, rtp_timestamp)], internal)
        else do {
          (srs, reported, snaps, internal) \<leftarrow>
            sr_loop E now ntp_now ntp_time minimum self es reported internal;
          Some (sr # srs, reported, (ssrc, rtp_timestamp) # snaps, internal)
        }
      })"

text \<open>Whether a local sender still sends: it is normal, or its BYE is still to be sent.\<close>

definition still_sends :: "local_send_source \<Rightarrow> bool" where
  "still_sends source \<longleftrightarrow>
     (case ls_state source of Normal \<Rightarrow> True | Probation _ \<Rightarrow> False
      | Bye \<Rightarrow> ls_bye_sent_time source = None)"

definition generate_sr ::
  "('cs, 'cr) session_env \<Rightarrow> rtcp_builder list \<Rightarrow> instant \<Rightarrow> system_time \<Rightarrow> bool \<Rightarrow> u32 list
    \<Rightarrow> ('cs, 'cr) session \<Rightarrow> (rtcp_builder list \<times> u32 list \<times> ('cs, 'cr) session) option" where
  "generate_sr E rtcp now ntp_now minimum reported self =
     (if minimum \<and> reduced_size_rtcp_allowed self then Some (rtcp, reported, self)
      else do {
        ntp_time \<leftarrow> system_time_to_ntp_time_u64 (gst E) ntp_now;
        if \<exists>e \<in> set (local_senders self). still_sends (snd e) then do {
          (srs, reported, snaps, internal) \<leftarrow> sr_loop E now ntp_now ntp_time minimum self
            (local_senders self) reported (internal_rtcp_sender_src self);
          let self = self\<lparr>internal_rtcp_sender_src := internal,
            local_senders := fold (\<lambda>(ssrc, rtp_timestamp).
              hm_modify ssrc (take_sr_snapshot ntp_now ntp_time rtp_timestamp)) snaps (local_senders self)\<rparr>;
          Some (rtcp @ srs, reported, self)
        } else Some (rtcp, reported, self)
      })"

definition generate_rr ::
  "('cs, 'cr) session_env \<Rightarrow> u32 list \<Rightarrow> instant \<Rightarrow> rtcp_builder list \<Rightarrow> instant \<Rightarrow> system_time \<Rightarrow> bool
    \<Rightarrow> u32 list \<Rightarrow> ('cs, 'cr) session \<Rightarrow> (rtcp_builder list \<times> u32 list \<times> ('cs, 'cr) session) option" where
  "generate_rr E draws clock rtcp now ntp_now minimum reported self =
     (if minimum \<and> reduced_size_rtcp_allowed self then Some (rtcp, reported, self)
      else if \<forall>e \<in> set (local_senders self). \<not> still_sends (snd e) then do {
        (ssrc, self) \<leftarrow> ensure_internal_send_src E draws clock self;
        let self = self\<lparr>
          local_senders := hm_modify ssrc (ls_set_last_activity now) (local_senders self),
          local_receivers := hm_modify ssrc (lr_set_last_activity now) (local_receivers self)\<rparr>;
        (rbs, reported) \<leftarrow> (if minimum then Some ([], reported)
                            else report_blocks (gst E) ntp_now (senders E self) reported);
        Some (rtcp @ [RrBuilder ssrc rbs], reported, self)
      } else Some (rtcp, reported, self))"

text \<open>The SDES chunk of a local source, unless it has no items.\<close>

definition sdes_chunk ::
  "('cs, 'cr) session_env \<Rightarrow> bool \<Rightarrow> source \<Rightarrow> (u32 \<times> (u8 \<times> rstring) list) list" where
  "sdes_chunk E minimum source =
     (if src_sdes source = [] then []
      else [(src_ssrc source, filter (\<lambda>(ty, _). \<not> minimum \<or> ty = CNAME E) (src_sdes source))])"

definition generate_sdes ::
  "('cs, 'cr) session_env \<Rightarrow> rtcp_builder list \<Rightarrow> bool \<Rightarrow> ('cs, 'cr) session \<Rightarrow> rtcp_builder list" where
  "generate_sdes E rtcp minimum self =
     (if minimum \<and> reduced_size_rtcp_allowed self then rtcp
      else
        (let chunks = concat (map (\<lambda>(_, s). sdes_chunk E minimum (ls_source s)) (local_senders self))
               @ concat (map (\<lambda>(_, s). sdes_chunk E minimum (lr_source s)) (local_receivers self))
         in if chunks \<noteq> [] then rtcp @ [SdesBuilder chunks] else rtcp))"

text \<open>The BYEs to send, by reason: a hash map, in the order of its iteration.\<close>

fun bye_push :: "rstring \<Rightarrow> u32 \<Rightarrow> (rstring \<times> u32 list) list \<Rightarrow> (rstring \<times> u32 list) list" where
  "bye_push reason ssrc [] = [(reason, [ssrc])]"
| "bye_push reason ssrc ((r, ssrcs) # m) =
     (if reason = r then (r, ssrcs @ [ssrc]) # m else (r, ssrcs) # bye_push reason ssrc m)"

definition bye_reason_default :: rstring where
  "bye_reason_default = [0x42, 0x79, 0x65]"

definition find_bye_sources :: "('cs, 'cr) session \<Rightarrow> (rstring \<times> u32 list) list" where
  "find_bye_sources self =
     (let add = (\<lambda>(st, sent, reason, ssrc) m.
            if st = Bye \<and> sent = None
            then bye_push (case reason of None \<Rightarrow> bye_reason_default | Some r \<Rightarrow> r) ssrc m else m)
      in fold add
           (map (\<lambda>(_, s). (ls_state s, ls_bye_sent_time s, ls_bye_reason s, src_ssrc (ls_source s)))
              (local_senders self)
            @ map (\<lambda>(_, s). (lr_state s, lr_bye_sent_time s, lr_bye_reason s, src_ssrc (lr_source s)))
              (local_receivers self)) [])"

definition bye_sent :: "instant \<Rightarrow> u32 \<Rightarrow> ('cs, 'cr) session \<Rightarrow> ('cs, 'cr) session" where
  "bye_sent now ssrc self =
     (let self = self\<lparr>pending_rtcp_send := SendSsrcBye ssrc # pending_rtcp_send self\<rparr>
      in if map_of (local_senders self) ssrc \<noteq> None
         then self\<lparr>local_senders := hm_modify ssrc (ls_bye_sent_at now) (local_senders self)\<rparr>
         else self\<lparr>local_receivers := hm_modify ssrc (lr_bye_sent_at now) (local_receivers self)\<rparr>)"

definition generate_bye ::
  "rtcp_builder list \<Rightarrow> instant \<Rightarrow> ('cs, 'cr) session \<Rightarrow> rtcp_builder list \<times> ('cs, 'cr) session" where
  "generate_bye rtcp now self =
     (let byes = find_bye_sources self
      in (rtcp @ map (\<lambda>(reason, ssrcs). ByeBuilder reason ssrcs) byes,
          fold (bye_sent now) (concat (map snd byes)) self))"

text \<open>The loops over \<^verbatim>\<open>iter_mut()\<close> of the remote senders.\<close>

definition pli_step ::
  "('cs, 'cr) session_env \<Rightarrow> u32 \<Rightarrow> u32 \<times> remote_send_source
    \<Rightarrow> rtcp_builder list \<times> ('cs, 'cr) session \<Rightarrow> rtcp_builder list \<times> ('cs, 'cr) session" where
  "pli_step E ssrc e st =
     (case (e, st) of ((k, source), (rtcp, self)) \<Rightarrow>
        (let (pli, source') = rs_generate_pli source
         in (if pli then rtcp @ [PliBuilder ssrc (src_ssrc (rs_source source))] else rtcp,
             self\<lparr>remote_senders := lru_assign (snd_ops E) k source' (remote_senders self)\<rparr>)))"

definition generate_pli ::
  "('cs, 'cr) session_env \<Rightarrow> u32 list \<Rightarrow> instant \<Rightarrow> rtcp_builder list \<Rightarrow> ('cs, 'cr) session
    \<Rightarrow> (rtcp_builder list \<times> ('cs, 'cr) session) option" where
  "generate_pli E draws clock rtcp self = do {
     (ssrc, self) \<leftarrow> ensure_internal_send_src E draws clock self;
     Some (fold (pli_step E ssrc) (senders E self) (rtcp, self))
   }"

definition fir_step ::
  "('cs, 'cr) session_env \<Rightarrow> u32 \<times> remote_send_source
    \<Rightarrow> (u32 \<times> u8) list \<times> bool \<times> ('cs, 'cr) session \<Rightarrow> (u32 \<times> u8) list \<times> bool \<times> ('cs, 'cr) session" where
  "fir_step E e st =
     (case (e, st) of ((k, source), (fir, have_fir, self)) \<Rightarrow>
        (let (fir, have_fir, source') = rs_generate_fir fir have_fir source
         in (fir, have_fir, self\<lparr>remote_senders := lru_assign (snd_ops E) k source' (remote_senders self)\<rparr>)))"

definition generate_fir ::
  "('cs, 'cr) session_env \<Rightarrow> u32 list \<Rightarrow> instant \<Rightarrow> rtcp_builder list \<Rightarrow> ('cs, 'cr) session
    \<Rightarrow> (rtcp_builder list \<times> ('cs, 'cr) session) option" where
  "generate_fir E draws clock rtcp self =
     (case fold (fir_step E) (senders E self) ([], False, self) of
        (fir, have_fir, self) \<Rightarrow>
          if have_fir then do {
            (ssrc, self) \<leftarrow> ensure_internal_send_src E draws clock self;
            Some (rtcp @ [FirBuilder ssrc fir], self)
          } else Some (rtcp, self))"

subsection \<open>Timeouts\<close>

text \<open>
  The loop that drops the least recently used source while it is too old. The cache is
  external code: whether the loop ends is a property of it.
\<close>

partial_function (option) drop_timed_out ::
  "('c, 'v) lru_ops \<Rightarrow> ('v \<Rightarrow> instant) \<Rightarrow> instant \<Rightarrow> duration \<Rightarrow> 'c \<Rightarrow> u32 list \<Rightarrow> ('c \<times> u32 list) option"
  where
  "drop_timed_out C last_activity now td c timed_out =
     (case lru_peek_lru C c of
        None \<Rightarrow> Some (c, timed_out)
      | Some (ssrc, source) \<Rightarrow>
          if now - last_activity source < td then Some (c, timed_out)
          else drop_timed_out C last_activity now td (lru_pop_lru C c) (timed_out @ [ssrc]))"

definition become_receiver :: "u32 \<Rightarrow> ('cs, 'cr) session \<Rightarrow> ('cs, 'cr) session" where
  "become_receiver ssrc self =
     (case map_of (local_senders self) ssrc of
        None \<Rightarrow> self
      | Some source \<Rightarrow> self\<lparr>
          local_senders := hm_remove ssrc (local_senders self),
          local_receivers := hm_insert (src_ssrc (ls_source source)) (ls_into_receive source)
            (local_receivers self)\<rparr>)"

definition handle_timeouts ::
  "('cs, 'cr) session_env \<Rightarrow> instant \<Rightarrow> ('cs, 'cr) session \<Rightarrow> (u32 list \<times> ('cs, 'cr) session) option" where
  "handle_timeouts E now self = do {
     dur \<leftarrow> deterministic_rtcp_duration E False self;
     let td = RTCP_SOURCE_TIMEOUT_N_INTERVALS * max dur (5 * SECOND);
     let old = (\<lambda>(_, source). \<not> now - src_last_activity (lr_source source) < td);
     let timed_out = map (\<lambda>(_, source). src_ssrc (lr_source source)) (filter old (local_receivers self));
     let self = self\<lparr>local_receivers := filter (\<lambda>e. \<not> old e) (local_receivers self)\<rparr>;
     (c, timed_out) \<leftarrow> drop_timed_out (snd_ops E) (\<lambda>s. src_last_activity (rs_source s)) now td
       (remote_senders self) timed_out;
     let self = self\<lparr>remote_senders := c\<rparr>;
     (c, timed_out) \<leftarrow> drop_timed_out (rcv_ops E) (\<lambda>s. src_last_activity (rr_source s)) now td
       (remote_receivers self) timed_out;
     let all = timed_out_ssrcs self @ timed_out;
     let self = self\<lparr>remote_receivers := c, timed_out_ssrcs := drop (length all - 256) all\<rparr>;
     let self =
       (if length (last_rtcp_sent_times self) \<ge> 2 then
          (let two_rtcp_ago = last (last_rtcp_sent_times self);
               removed = map fst (filter (\<lambda>(_, source). src_last_activity (ls_source source) < two_rtcp_ago)
                 (local_senders self))
           in fold become_receiver removed self)
        else self);
     Some (timed_out, self\<lparr>conflicting_addresses := (\<lambda>addr.
       case conflicting_addresses self addr of
         None \<Rightarrow> None
       | Some time \<Rightarrow> if now - time < RTCP_ADDRESS_CONFLICT_TIMEOUT then Some time else None)\<rparr>)
   }"

definition has_pending_bye :: "('cs, 'cr) session \<Rightarrow> bool" where
  "has_pending_bye self \<longleftrightarrow>
     (\<exists>e \<in> set (local_senders self). ls_state (snd e) = Bye \<and> ls_bye_sent_time (snd e) = None)
     \<or> (\<exists>e \<in> set (local_receivers self). lr_state (snd e) = Bye \<and> lr_bye_sent_time (snd e) = None)"

subsection \<open>Sending\<close>

record rng =
  rng_ssrcs :: "u32 list"
  rng_f1 :: rat
  rng_f2 :: rat
  rng_f3 :: rat

text \<open>The interval of feedback profiles is at least a dithered minimum interval.\<close>

definition feedback_interval :: "rat \<Rightarrow> duration \<Rightarrow> ('cs, 'cr) session \<Rightarrow> duration option" where
  "feedback_interval r interval self =
     (if is_feedback (profile self) \<and> min_rtcp_interval self \<noteq> 0 then do {
        d \<leftarrow> rtcp_dither r (min_rtcp_interval self);
        Some (max interval d)
      } else Some interval)"

text \<open>
  Whether it is time to send: \<^const>\<open>None\<close> is a panic, \<open>Some (False, self)\<close> is too early, the
  reconsidered time stored.
\<close>

definition time_to_send ::
  "('cs, 'cr) session_env \<Rightarrow> rat \<Rightarrow> bool \<Rightarrow> instant \<Rightarrow> instant \<Rightarrow> ('cs, 'cr) session
    \<Rightarrow> (bool \<times> ('cs, 'cr) session) option" where
  "time_to_send E r is_early next_time now self =
     (if is_early then
        Some (case next_early_rtcp_time self of None \<Rightarrow> True | Some t \<Rightarrow> \<not> now < t, self)
      else if now < next_time then Some (False, self)
      else do {
        let self = update_point_to_point E self;
        interval \<leftarrow> rtcp_interval E r self;
        handle_time \<leftarrow> last_rtcp_handle_time self;
        if handle_time + interval > now
        then Some (False, self\<lparr>next_rtcp_send := (next_rtcp_send self)\<lparr>tm_time := Some (handle_time + interval)\<rparr>\<rparr>)
        else Some (True, self)
      })"

definition generate_rtcp ::
  "('cs, 'cr) session_env \<Rightarrow> u32 list \<Rightarrow> instant \<Rightarrow> instant \<Rightarrow> system_time \<Rightarrow> bool \<Rightarrow> ('cs, 'cr) session
    \<Rightarrow> (rtcp_builder list \<times> u32 list \<times> ('cs, 'cr) session) option" where
  "generate_rtcp E draws clock now ntp_now is_early self = do {
     (rtcp, reported, self) \<leftarrow> generate_sr E [] now ntp_now is_early [] self;
     (rtcp, reported, self) \<leftarrow> generate_rr E draws clock rtcp now ntp_now is_early reported self;
     let rtcp = generate_sdes E rtcp is_early self;
     (rtcp, self) \<leftarrow> generate_pli E draws clock rtcp self;
     (rtcp, self) \<leftarrow> generate_fir E draws clock rtcp self;
     let (rtcp, self) = generate_bye rtcp now self;
     Some (rtcp, reported, self)
   }"

text \<open>The times of the next transmissions, after a regular one.\<close>

definition schedule_regular ::
  "('cs, 'cr) session_env \<Rightarrow> rat \<Rightarrow> rat \<Rightarrow> instant \<Rightarrow> ('cs, 'cr) session \<Rightarrow> ('cs, 'cr) session option" where
  "schedule_regular E r2 r3 now self = do {
     (timed_out, self) \<leftarrow> handle_timeouts E now self;
     let self = (if timed_out \<noteq> []
                 then self\<lparr>pending_rtcp_send := SendSsrcTimedOut timed_out # pending_rtcp_send self\<rparr> else self);
     let self = update_point_to_point E self;
     interval \<leftarrow> rtcp_interval E r2 self;
     let self = self\<lparr>t_rr := Some interval\<rparr>;
     interval \<leftarrow> feedback_interval r3 interval self;
     Some (self\<lparr>
       next_rtcp_send := \<lparr>tm_time = Some (now + interval), tm_p_members = n_members E self\<rparr>,
       last_rtcp_sent_times := take 2 (now # last_rtcp_sent_times self),
       bye_state := None\<rparr>)
   }"

definition poll_rtcp_send ::
  "('cs, 'cr) session_env \<Rightarrow> rng \<Rightarrow> instant \<Rightarrow> instant \<Rightarrow> system_time \<Rightarrow> ('cs, 'cr) session
    \<Rightarrow> (rtcp_send_reply option \<times> ('cs, 'cr) session) option" where
  "poll_rtcp_send E rng clock now ntp_now self =
     (if pending_rtcp_send self \<noteq> [] then
        Some (Some (last (pending_rtcp_send self)),
              self\<lparr>pending_rtcp_send := butlast (pending_rtcp_send self)\<rparr>)
      else
        (case tm_time (next_rtcp_send self) of
           None \<Rightarrow> Some (None, self)
         | Some next_time \<Rightarrow> do {
             let is_early = (next_early_rtcp_time self \<noteq> None \<and> last_rtcp_sent_times self \<noteq> []);
             (go, self) \<leftarrow> time_to_send E (rng_f1 rng) is_early next_time now self;
             if \<not> go then Some (None, self)
             else do {
               (rtcp, reported, self) \<leftarrow>
                 generate_rtcp E (rng_ssrcs rng) clock now ntp_now is_early self;
               size \<leftarrow> calculate_size E rtcp;
               _ \<leftarrow> rust_assert (size < RTCP_MTU);
               data \<leftarrow> write_into E rtcp;
               let self = self\<lparr>remote_senders :=
                 fold (\<lambda>ssrc. lru_modify (snd_ops E) ssrc update_last_rtcp) reported (remote_senders self)\<rparr>;
               let self = update_rtcp_average (size + UDP_IP_OVERHEAD_BYTES) self;
               self \<leftarrow> (if is_early then Some self
                        else schedule_regular E (rng_f2 rng) (rng_f3 rng) now self);
               Some (Some (Data data), self\<lparr>
                 last_rtcp_handle_time := Some now, next_early_rtcp_time := None\<rparr>)
             }
           }))"

definition poll_rtcp_send_timeout ::
  "('cs, 'cr) session_env \<Rightarrow> rat \<Rightarrow> instant \<Rightarrow> ('cs, 'cr) session
    \<Rightarrow> (instant option \<times> ('cs, 'cr) session) option" where
  "poll_rtcp_send_timeout E r now self =
     (case next_early_rtcp_time self of
        Some early_time \<Rightarrow> Some (Some early_time, self)
      | None \<Rightarrow>
          if tm_time (next_rtcp_send self) = None then do {
            let self = update_point_to_point E self;
            interval \<leftarrow> rtcp_interval E r self;
            let self = self\<lparr>t_rr := Some interval, last_rtcp_handle_time := Some now,
              next_rtcp_send := \<lparr>tm_time = Some (now + interval), tm_p_members = n_members E self\<rparr>\<rparr>;
            Some (tm_time (next_rtcp_send self), self)
          } else Some (tm_time (next_rtcp_send self), self))"

subsection \<open>Early RTCP and BYE\<close>

text \<open>
  Whether early RTCP may be sent, and from when on: after a regular packet at once, after an
  early one when a regular interval has passed.
\<close>

definition allow_early :: "instant \<Rightarrow> instant \<Rightarrow> duration \<Rightarrow> instant \<Rightarrow> duration \<Rightarrow> duration option" where
  "allow_early last_sent handle_time trr now max_delay =
     (if last_sent = handle_time then Some 0
      else if handle_time + trr \<le> now + max_delay then Some (handle_time + trr - now)
      else None)"

definition request_early_rtcp ::
  "('cs, 'cr) session_env \<Rightarrow> rat \<Rightarrow> instant \<Rightarrow> duration \<Rightarrow> ('cs, 'cr) session
    \<Rightarrow> (request_early_rtcp_result \<times> ('cs, 'cr) session) option" where
  "request_early_rtcp E r now max_delay self =
     (if \<not> is_feedback (profile self) then Some (NotScheduled, self)
      else
        (case next_early_rtcp_time self of
           Some early_time \<Rightarrow>
             Some (if now + max_delay \<ge> early_time then Scheduled else NotScheduled, self)
         | None \<Rightarrow>
             (case tm_time (next_rtcp_send self) of
                None \<Rightarrow> Some (EarlyTimerReconsideration, self)
              | Some next_time \<Rightarrow>
                  (case last_rtcp_sent_times self of
                     [] \<Rightarrow> Some (if now + max_delay \<ge> next_time then Scheduled else NotScheduled, self)
                   | last_sent # _ \<Rightarrow> do {
                       let self = update_point_to_point E self;
                       handle_time \<leftarrow> last_rtcp_handle_time self;
                       trr \<leftarrow> t_rr self;
                       let t_dither_max = (if is_point_to_point self then 0 else trr div 2);
                       if now + t_dither_max > next_time then
                         Some (if now + max_delay \<ge> next_time then Scheduled else NotScheduled, self)
                       else
                         (case allow_early last_sent handle_time trr now max_delay of
                            None \<Rightarrow>
                              Some (if next_time - now < max_delay then Scheduled else NotScheduled, self)
                          | Some offset \<Rightarrow> do {
                              d \<leftarrow> mul_f64 t_dither_max r;
                              Some (EarlyTimerReconsideration,
                                    self\<lparr>next_early_rtcp_time := Some (now + d + offset)\<rparr>)
                            })
                     }))))"

definition schedule_bye ::
  "('cs, 'cr) session_env \<Rightarrow> rat \<Rightarrow> rat \<Rightarrow> rstring \<Rightarrow> instant \<Rightarrow> ('cs, 'cr) session
    \<Rightarrow> ('cs, 'cr) session option" where
  "schedule_bye E r1 r2 reason now self =
     (if bye_state self \<noteq> None then Some self
      else
        (let self = self\<lparr>
           local_senders := hm_map_values (ls_mark_bye reason) (local_senders self),
           local_receivers := hm_map_values (lr_mark_bye reason) (local_receivers self)\<rparr>
         in if n_members E self \<le> 50 then Some self
         else do {
           let self = update_point_to_point E (self\<lparr>
             bye_state := Some \<lparr>bs_members = 1, bs_pmembers = 1\<rparr>,
             last_rtcp_sent_times := [now], average_rtcp_size := 100\<rparr>);
           interval \<leftarrow> rtcp_interval E r1 self;
           let self = self\<lparr>t_rr := Some interval\<rparr>;
           interval \<leftarrow> feedback_interval r2 interval self;
           Some (self\<lparr>next_rtcp_send :=
             \<lparr>tm_time = Some (now + interval), tm_p_members = n_members E self\<rparr>\<rparr>)
         }))"

definition request_remote_key_unit ::
  "('cs, 'cr) session_env \<Rightarrow> rat \<Rightarrow> instant \<Rightarrow> key_unit_request_type \<Rightarrow> u32 \<Rightarrow> ('cs, 'cr) session
    \<Rightarrow> (request_remote_key_unit_reply list \<times> ('cs, 'cr) session) option" where
  "request_remote_key_unit E r now typ ssrc self =
     (if \<not> lru_contains (snd_ops E) ssrc (remote_senders self) then Some ([], self)
      else do {
        (res, self) \<leftarrow> request_early_rtcp E r now (5 * SECOND) self;
        let replies = (if res = EarlyTimerReconsideration then [KeyUnitTimerReconsideration] else []);
        if res \<noteq> NotScheduled then
          (case lru_get_mut (snd_ops E) ssrc (remote_senders self) of
             (None, _) \<Rightarrow> None
           | (Some source, c) \<Rightarrow>
               Some (replies, self\<lparr>remote_senders :=
                 lru_assign (snd_ops E) ssrc (rs_request_remote_key_unit typ source) c\<rparr>))
        else Some (replies, self)
      })"

end
