(* ===== verification/Session_State.thy ===== *)
theory Session_State
  imports Rtp_Source_Facts Session_Rtcp
begin

text \<open>
  The invariant of the RTP session, kept by every operation: the caches and hash maps are in
  order and keyed by the SSRC of their sources, no SSRC is both a remote sender and a remote
  receiver or both a local sender and a local receiver, the remote senders satisfy the invariant
  of the sources, and the times of the RTCP schedule are set together.
\<close>

section \<open>What a source keeps\<close>

lemma recv_packet_state_source:
  "recv_packet_state bytes time seqnum hid diff self = (ret, self') \<Longrightarrow>
    src_ssrc (rs_source self') = src_ssrc (rs_source self)
    \<and> src_last_activity (rs_source self') = src_last_activity (rs_source self)
    \<and> rs_rtp_from self' = rs_rtp_from self"
  by (auto simp: recv_packet_state_def recv_packet_probation_def rs_set_state_def Source_set_state_def
      init_sequence_def pop_back_def Let_def split: source_state.splits if_splits option.splits)

lemma add_to_stats_source:
  "recv_packet_add_to_stats L ts now t0 pt rate n bytes self = Some self' \<Longrightarrow>
    src_ssrc (rs_source self') = src_ssrc (rs_source self)
    \<and> src_last_activity (rs_source self') = src_last_activity (rs_source self)
    \<and> rs_rtp_from self' = rs_rtp_from self"
  by (auto simp: recv_packet_add_to_stats_def bind_eq_Some_conv split: option.splits
      dest!: update_jitter_fields)

lemma add_to_stats_ok:
  "rs_ok self \<Longrightarrow> recv_packet_add_to_stats L ts now t0 pt rate n bytes self = Some self' \<Longrightarrow> rs_ok self'"
  using add_to_stats_fields [of L ts now t0 pt rate n bytes self self'] by (simp add: rs_ok_def)

lemma recv_packet_keeps:
  assumes "rs_ok self" and "recv_packet L g bytes time seqnum ts pt rate hid self = Some (reply, g', self')"
  shows "rs_ok self' \<and> src_ssrc (rs_source self') = src_ssrc (rs_source self)
    \<and> src_last_activity (rs_source self') = src_last_activity (rs_source self)
    \<and> rs_rtp_from self' = rs_rtp_from self"
  using assms(2)
proof (cases rule: recv_packet_cases)
  case bye
  with assms(1) show ?thesis by simp
next
  case (early n ext)
  have "rs_ok (self\<lparr>rs_ext_seqnum := ext\<rparr>)"
    using assms(1) es_next_ok [OF _ early(2)] by (simp add: rs_ok_def)
  from recv_packet_state_ok [OF this early(3)] recv_packet_state_source [OF early(3)]
  show ?thesis by simp
next
  case (held n ext self1 h rest t0)
  have "rs_ok (self\<lparr>rs_ext_seqnum := ext\<rparr>)"
    using assms(1) es_next_ok [OF _ held(2)] by (simp add: rs_ok_def)
  from recv_packet_state_ok [OF this held(3)] have "rs_ok (self1\<lparr>rs_held_buffers := rest\<rparr>)"
    using held(4) by (auto simp: rs_ok_def pop_back_def split: if_splits)
  from add_to_stats_ok [OF this held(6)] add_to_stats_source [OF held(6)]
    recv_packet_state_source [OF held(3)] show ?thesis by simp
next
  case (pass n ext self1 t0)
  have "rs_ok (self\<lparr>rs_ext_seqnum := ext\<rparr>)"
    using assms(1) es_next_ok [OF _ pass(2)] by (simp add: rs_ok_def)
  from recv_packet_state_ok [OF this pass(3)] have "rs_ok self1" by simp
  from add_to_stats_ok [OF this pass(5)] add_to_stats_source [OF pass(5)]
    recv_packet_state_source [OF pass(3)] show ?thesis by simp
qed

section \<open>The invariant\<close>

definition send_entry :: "u32 \<Rightarrow> remote_send_source \<Rightarrow> bool" where
  "send_entry k s \<longleftrightarrow> src_ssrc (rs_source s) = k \<and> rs_ok s"

definition recv_entry :: "u32 \<Rightarrow> remote_receive_source \<Rightarrow> bool" where
  "recv_entry k s \<longleftrightarrow> src_ssrc (rr_source s) = k"

definition remote_ok :: "('cs, 'cr) session_env \<Rightarrow> 'cs \<Rightarrow> 'cr \<Rightarrow> bool" where
  "remote_ok E cs cr \<longleftrightarrow> cache_wf (snd_ops E) send_entry cs \<and> cache_wf (rcv_ops E) recv_entry cr
     \<and> lru_keys (snd_ops E) cs \<inter> lru_keys (rcv_ops E) cr = {}"

definition local_ok :: "(u32 \<times> local_send_source) list \<Rightarrow> (u32 \<times> local_receive_source) list \<Rightarrow> bool" where
  "local_ok ls lr \<longleftrightarrow> hm_ok ls \<and> hm_ok lr \<and> fst ` set ls \<inter> fst ` set lr = {}
     \<and> (\<forall>(k, s) \<in> set ls. src_ssrc (ls_source s) = k) \<and> (\<forall>(k, s) \<in> set lr. src_ssrc (lr_source s) = k)"

definition timing_ok ::
  "instant option \<Rightarrow> instant option \<Rightarrow> duration option \<Rightarrow> instant list \<Rightarrow> instant option \<Rightarrow> bool" where
  "timing_ok next_time handle_time trr sent early \<longleftrightarrow>
     (next_time \<noteq> None \<longrightarrow> handle_time \<noteq> None \<and> trr \<noteq> None)
     \<and> (sent \<noteq> [] \<longrightarrow> next_time \<noteq> None) \<and> length sent \<le> 2
     \<and> (early \<noteq> None \<longrightarrow> next_time \<noteq> None \<and> sent \<noteq> [])"

definition not_data :: "rtcp_send_reply \<Rightarrow> bool" where
  "not_data r \<longleftrightarrow> (case r of Data _ \<Rightarrow> False | _ \<Rightarrow> True)"

definition session_ok :: "('cs, 'cr) session_env \<Rightarrow> ('cs, 'cr) session \<Rightarrow> bool" where
  "session_ok E self \<longleftrightarrow> remote_ok E (remote_senders self) (remote_receivers self)
     \<and> local_ok (local_senders self) (local_receivers self)
     \<and> timing_ok (tm_time (next_rtcp_send self)) (last_rtcp_handle_time self) (t_rr self)
         (last_rtcp_sent_times self) (next_early_rtcp_time self)
     \<and> length (timed_out_ssrcs self) \<le> 256 \<and> list_all not_data (pending_rtcp_send self)"

text \<open>The external crates keep their contracts.\<close>

locale session_lib =
  fixes E :: "('cs, 'cr) session_env"
  assumes gst_ok: "gst_lib_spec (gst E)"
    and snd_ok: "lru_spec (snd_ops E)"
    and rcv_ok: "lru_spec (rcv_ops E)"

sublocale session_lib \<subseteq> g: gst_lib_spec "gst E"
  by (rule gst_ok)

sublocale session_lib \<subseteq> s: lru_spec "snd_ops E"
  by (rule snd_ok)

sublocale session_lib \<subseteq> r: lru_spec "rcv_ops E"
  by (rule rcv_ok)

section \<open>Entries of the caches\<close>

lemma send_entry_simps [simp]:
  "send_entry k (rs_set_state st s) = send_entry k s"
  "send_entry k (rs_set_rtp_from a s) = send_entry k s"
  "send_entry k (rs_set_rtcp_from a s) = send_entry k s"
  "send_entry k (rs_set_last_activity t s) = send_entry k s"
  "send_entry k (set_last_received_sr x1 x2 x3 x4 x5 s) = send_entry k s"
  "send_entry k (rs_received_sdes x6 x7 s) = send_entry k s"
  "send_entry k (rs_request_remote_key_unit typ s) = send_entry k s"
  by (simp_all add: send_entry_def rs_set_state_def Source_set_state_def rs_set_rtp_from_def
      rs_set_rtcp_from_def rs_set_last_activity_def set_last_received_sr_def rs_received_sdes_def
      Source_received_sdes_def rs_request_remote_key_unit_def rs_ok_def split: key_unit_request_type.splits)

lemma send_entry_more [simp]:
  "send_entry k s \<Longrightarrow> send_entry k (update_last_rtcp s)"
  "send_entry k s \<Longrightarrow> send_entry k (snd (rs_generate_pli s))"
  "send_entry k s \<Longrightarrow> send_entry k (snd (snd (rs_generate_fir fir b s)))"
  "send_entry k s \<Longrightarrow> send_entry k (snd (rs_remote_request_key_unit_allowed now rb s))"
  "send_entry k s \<Longrightarrow> send_entry k (rs_seen from now s)"
  by (auto simp: send_entry_def rs_ok_def update_last_rtcp_def rs_generate_pli_def rs_generate_fir_def
      rs_remote_request_key_unit_allowed_def rs_seen_def rs_set_state_def Source_set_state_def
      rs_set_rtcp_from_def rs_set_last_activity_def split: prod.splits)

lemma send_entry_add_rb:
  "rs_add_last_rb L s ssrc rb now ntp = Some s' \<Longrightarrow> send_entry k s' = send_entry k s"
  by (auto simp: rs_add_last_rb_def send_entry_def rs_ok_def split: Option.bind_splits)

lemma recv_entry_simps [simp]:
  "recv_entry k (rr_set_state st s') = recv_entry k s'"
  "recv_entry k (rr_set_rtcp_from a s') = recv_entry k s'"
  "recv_entry k (rr_set_last_activity t s') = recv_entry k s'"
  "recv_entry k (rr_received_sdes x6 x7 s') = recv_entry k s'"
  "recv_entry k (rr_seen a t s') = recv_entry k s'"
  "recv_entry k (snd (rr_remote_request_key_unit_allowed now rb s')) = recv_entry k s'"
  by (auto simp: recv_entry_def rr_set_state_def Source_set_state_def rr_set_rtcp_from_def
      rr_set_last_activity_def rr_received_sdes_def Source_received_sdes_def rr_seen_def
      rr_remote_request_key_unit_allowed_def split: prod.splits)

lemma entry_new [simp]:
  "send_entry k (RemoteSendSource_new k clock)" "recv_entry k (RemoteReceiveSource_new k clock)"
  "send_entry k (rr_into_send s') = recv_entry k s'"
  "send_entry k s \<Longrightarrow> recv_entry k (rs_into_receive s)"
  by (simp_all add: send_entry_def recv_entry_def RemoteSendSource_new_def RemoteReceiveSource_new_def
      rr_into_send_def rs_into_receive_def rs_ok_init Source_new_def)
    (simp_all add: remote_sender_init_def)

section \<open>The caches\<close>

context session_lib
begin

lemma get_send:
  assumes "remote_ok E cs cr" and "lru_get_mut (snd_ops E) k cs = (v, c)"
  shows "remote_ok E c cr" and "lru_keys (snd_ops E) c = lru_keys (snd_ops E) cs"
    and "\<And>w. v = Some w \<Longrightarrow> send_entry k w \<and> k \<in> lru_keys (snd_ops E) cs"
    and "v = None \<Longrightarrow> k \<notin> lru_keys (snd_ops E) cs"
proof -
  have v: "v = map_of (lru_iter (snd_ops E) cs) k" and c: "c = snd (lru_get_mut (snd_ops E) k cs)"
    using assms(2) s.get_mut_spec(1) [of k cs] by simp_all
  from assms(1) show "remote_ok E c cr"
    by (simp add: remote_ok_def c s.wf_get_mut s.get_mut_keys)
  show "lru_keys (snd_ops E) c = lru_keys (snd_ops E) cs" by (simp add: c s.get_mut_keys)
  show "v = None \<Longrightarrow> k \<notin> lru_keys (snd_ops E) cs" by (simp add: v s.keys_iff)
  show "send_entry k w \<and> k \<in> lru_keys (snd_ops E) cs" if "v = Some w" for w
    using that assms(1) cache_wf_entry [of "snd_ops E" send_entry cs k w]
    by (simp add: v s.keys_iff remote_ok_def)
qed

lemma get_recv:
  assumes "remote_ok E cs cr" and "lru_get_mut (rcv_ops E) k cr = (v, c)"
  shows "remote_ok E cs c" and "lru_keys (rcv_ops E) c = lru_keys (rcv_ops E) cr"
    and "\<And>w. v = Some w \<Longrightarrow> recv_entry k w \<and> k \<in> lru_keys (rcv_ops E) cr"
    and "v = None \<Longrightarrow> k \<notin> lru_keys (rcv_ops E) cr"
proof -
  have v: "v = map_of (lru_iter (rcv_ops E) cr) k" and c: "c = snd (lru_get_mut (rcv_ops E) k cr)"
    using assms(2) r.get_mut_spec(1) [of k cr] by simp_all
  from assms(1) show "remote_ok E cs c"
    by (simp add: remote_ok_def c r.wf_get_mut r.get_mut_keys)
  show "lru_keys (rcv_ops E) c = lru_keys (rcv_ops E) cr" by (simp add: c r.get_mut_keys)
  show "v = None \<Longrightarrow> k \<notin> lru_keys (rcv_ops E) cr" by (simp add: v r.keys_iff)
  show "recv_entry k w \<and> k \<in> lru_keys (rcv_ops E) cr" if "v = Some w" for w
    using that assms(1) cache_wf_entry [of "rcv_ops E" recv_entry cr k w]
    by (simp add: v r.keys_iff remote_ok_def)
qed

lemma assign_send: "remote_ok E cs cr \<Longrightarrow> send_entry k v \<Longrightarrow> remote_ok E (lru_assign (snd_ops E) k v cs) cr"
  by (simp add: remote_ok_def s.wf_assign s.assign_keys)

lemma assign_recv: "remote_ok E cs cr \<Longrightarrow> recv_entry k v \<Longrightarrow> remote_ok E cs (lru_assign (rcv_ops E) k v cr)"
  by (simp add: remote_ok_def r.wf_assign r.assign_keys)

lemma modify_send:
  "remote_ok E cs cr \<Longrightarrow> (\<And>v. send_entry k v \<Longrightarrow> send_entry k (f v)) \<Longrightarrow>
    remote_ok E (lru_modify (snd_ops E) k f cs) cr"
  by (simp add: remote_ok_def s.wf_modify s.modify_keys)

lemma push_send:
  "remote_ok E cs cr \<Longrightarrow> send_entry k v \<Longrightarrow> k \<notin> lru_keys (rcv_ops E) cr \<Longrightarrow>
    remote_ok E (lru_push (snd_ops E) k v cs) cr"
  using s.push_keys [of k v cs] by (auto simp: remote_ok_def s.wf_push)

lemma push_recv:
  "remote_ok E cs cr \<Longrightarrow> recv_entry k v \<Longrightarrow> k \<notin> lru_keys (snd_ops E) cs \<Longrightarrow>
    remote_ok E cs (lru_push (rcv_ops E) k v cr)"
  using r.push_keys [of k v cr] by (auto simp: remote_ok_def r.wf_push)

lemma pop_recv:
  assumes "remote_ok E cs cr" and "lru_pop (rcv_ops E) k cr = (v, c)"
  shows "remote_ok E cs c" and "lru_keys (rcv_ops E) c = lru_keys (rcv_ops E) cr - {k}"
    and "\<And>w. v = Some w \<Longrightarrow> recv_entry k w"
proof -
  have v: "v = map_of (lru_iter (rcv_ops E) cr) k" and c: "c = snd (lru_pop (rcv_ops E) k cr)"
    using assms(2) r.pop_spec(1) [of k cr] by simp_all
  from assms(1) show "remote_ok E cs c" by (auto simp: remote_ok_def c r.wf_pop r.pop_keys)
  show "lru_keys (rcv_ops E) c = lru_keys (rcv_ops E) cr - {k}" by (simp add: c r.pop_keys)
  show "recv_entry k w" if "v = Some w" for w
    using that assms(1) cache_wf_entry [of "rcv_ops E" recv_entry cr k w] by (simp add: v remote_ok_def)
qed

lemma pop_send:
  assumes "remote_ok E cs cr" and "lru_pop (snd_ops E) k cs = (v, c)"
  shows "remote_ok E c cr" and "lru_keys (snd_ops E) c = lru_keys (snd_ops E) cs - {k}"
    and "\<And>w. v = Some w \<Longrightarrow> send_entry k w"
proof -
  have v: "v = map_of (lru_iter (snd_ops E) cs) k" and c: "c = snd (lru_pop (snd_ops E) k cs)"
    using assms(2) s.pop_spec(1) [of k cs] by simp_all
  from assms(1) show "remote_ok E c cr" by (auto simp: remote_ok_def c s.wf_pop s.pop_keys)
  show "lru_keys (snd_ops E) c = lru_keys (snd_ops E) cs - {k}" by (simp add: c s.pop_keys)
  show "send_entry k w" if "v = Some w" for w
    using that assms(1) cache_wf_entry [of "snd_ops E" send_entry cs k w] by (simp add: v remote_ok_def)
qed

lemma goi_send:
  assumes "remote_ok E cs cr" and "lru_get_or_insert_mut (snd_ops E) k v cs = (w, c)"
    and "send_entry k v" and "k \<notin> lru_keys (rcv_ops E) cr"
  shows "remote_ok E c cr" and "send_entry k w"
  using assms s.wf_get_or_insert [of send_entry cs k v] s.get_or_insert_keys [of k v cs]
  by (auto simp: remote_ok_def)

lemma goi_recv:
  assumes "remote_ok E cs cr" and "lru_get_or_insert_mut (rcv_ops E) k v cr = (w, c)"
    and "recv_entry k v" and "k \<notin> lru_keys (snd_ops E) cs"
  shows "remote_ok E cs c" and "recv_entry k w"
  using assms r.wf_get_or_insert [of recv_entry cr k v] r.get_or_insert_keys [of k v cr]
  by (auto simp: remote_ok_def)

lemma shrink:
  "remote_ok E cs cr \<Longrightarrow> remote_ok E (lru_pop_lru (snd_ops E) cs) cr"
  "remote_ok E cs cr \<Longrightarrow> remote_ok E cs (lru_pop_lru (rcv_ops E) cr)"
  "remote_ok E cs cr \<Longrightarrow> 0 < n \<Longrightarrow> remote_ok E (lru_resize (snd_ops E) n cs) cr"
  "remote_ok E cs cr \<Longrightarrow> 0 < n \<Longrightarrow> remote_ok E cs (lru_resize (rcv_ops E) n cr)"
  using s.pop_lru_keys [of cs] r.pop_lru_keys [of cr] s.resize_keys [of n cs] r.resize_keys [of n cr]
  by (auto simp: remote_ok_def s.wf_pop_lru r.wf_pop_lru s.wf_resize r.wf_resize)

end

section \<open>Steps on one part of the state\<close>

lemma session_ok_unaffected [simp]:
  "session_ok E (self\<lparr>conflicting_addresses := x1\<rparr>) = session_ok E self"
  "session_ok E (self\<lparr>hold_buffer_counter := x2\<rparr>) = session_ok E self"
  "session_ok E (self\<lparr>average_rtcp_size := x2\<rparr>) = session_ok E self"
  "session_ok E (self\<lparr>bye_state := x3\<rparr>) = session_ok E self"
  "session_ok E (self\<lparr>internal_rtcp_sender_src := x4\<rparr>) = session_ok E self"
  "session_ok E (self\<lparr>is_point_to_point := x5\<rparr>) = session_ok E self"
  "session_ok E (self\<lparr>sdes := x6\<rparr>) = session_ok E self"
  "session_ok E (self\<lparr>pt_map := x7\<rparr>) = session_ok E self"
  "session_ok E (self\<lparr>min_rtcp_interval := x2\<rparr>) = session_ok E self"
  "session_ok E (self\<lparr>profile := x8\<rparr>) = session_ok E self"
  "session_ok E (self\<lparr>reduced_size_rtcp := x5\<rparr>) = session_ok E self"
  by (simp_all add: session_ok_def)

lemma session_ok_updates [simp]:
  "session_ok E (update_point_to_point E self) = session_ok E self"
  "session_ok E (update_rtcp_average n self) = session_ok E self"
  "session_ok E (snd (handle_ssrc_conflict addr now self)) = session_ok E self"
  by (simp_all add: update_point_to_point_def update_rtcp_average_def handle_ssrc_conflict_def)

lemma session_ok_remote:
  "session_ok E self \<Longrightarrow> remote_ok E cs cr \<Longrightarrow>
    session_ok E (self\<lparr>remote_senders := cs, remote_receivers := cr\<rparr>)"
  "session_ok E self \<Longrightarrow> remote_ok E cs cr \<Longrightarrow>
    session_ok E (self\<lparr>remote_receivers := cr, remote_senders := cs\<rparr>)"
  "session_ok E self \<Longrightarrow> remote_ok E cs (remote_receivers self) \<Longrightarrow> session_ok E (self\<lparr>remote_senders := cs\<rparr>)"
  "session_ok E self \<Longrightarrow> remote_ok E (remote_senders self) cr \<Longrightarrow> session_ok E (self\<lparr>remote_receivers := cr\<rparr>)"
  by (simp_all add: session_ok_def)

lemma session_ok_local:
  "session_ok E self \<Longrightarrow> local_ok ls lr \<Longrightarrow>
    session_ok E (self\<lparr>local_senders := ls, local_receivers := lr\<rparr>)"
  "session_ok E self \<Longrightarrow> local_ok ls (local_receivers self) \<Longrightarrow> session_ok E (self\<lparr>local_senders := ls\<rparr>)"
  "session_ok E self \<Longrightarrow> local_ok (local_senders self) lr \<Longrightarrow> session_ok E (self\<lparr>local_receivers := lr\<rparr>)"
  by (simp_all add: session_ok_def)

lemma session_ok_parts:
  "session_ok E self \<Longrightarrow> remote_ok E (remote_senders self) (remote_receivers self)"
  "session_ok E self \<Longrightarrow> local_ok (local_senders self) (local_receivers self)"
  by (simp_all add: session_ok_def)

section \<open>The local sources\<close>

lemma set_hm_insert: "set (hm_insert k v m) \<subseteq> insert (k, v) (set m)"
  by (induction m rule: hm_insert.induct [case_names Nil Cons]) auto

lemma local_ok_insert_send:
  "local_ok ls lr \<Longrightarrow> src_ssrc (ls_source v) = k \<Longrightarrow> k \<notin> fst ` set lr \<Longrightarrow> local_ok (hm_insert k v ls) lr"
  using set_hm_insert [of k v ls] by (auto simp: local_ok_def hm_simps)

lemma local_ok_insert_recv:
  "local_ok ls lr \<Longrightarrow> src_ssrc (lr_source v) = k \<Longrightarrow> k \<notin> fst ` set ls \<Longrightarrow> local_ok ls (hm_insert k v lr)"
  using set_hm_insert [of k v lr] by (auto simp: local_ok_def hm_simps)

lemma local_ok_remove_recv:
  "local_ok ls lr \<Longrightarrow> local_ok ls (hm_remove k lr)"
  unfolding local_ok_def hm_simps by (auto simp: hm_simps) (auto simp: hm_remove_def)

lemma local_ok_remove_send:
  "local_ok ls lr \<Longrightarrow> local_ok (hm_remove k ls) lr"
  unfolding local_ok_def hm_simps by (auto simp: hm_simps) (auto simp: hm_remove_def)

lemma local_ok_filter_recv: "local_ok ls lr \<Longrightarrow> local_ok ls (filter P lr)"
  by (auto simp: local_ok_def distinct_map_filter)

lemma local_ok_modify:
  "local_ok ls lr \<Longrightarrow> (\<And>v. src_ssrc (ls_source (f v)) = src_ssrc (ls_source v)) \<Longrightarrow> local_ok (hm_modify k f ls) lr"
  "local_ok ls lr \<Longrightarrow> (\<And>v. src_ssrc (lr_source (g v)) = src_ssrc (lr_source v)) \<Longrightarrow> local_ok ls (hm_modify k g lr)"
  unfolding local_ok_def by (auto simp: hm_modify_def case_prod_beta image_image comp_def)

lemma local_ok_map_values:
  "local_ok ls lr \<Longrightarrow> (\<And>v. src_ssrc (ls_source (f v)) = src_ssrc (ls_source v)) \<Longrightarrow>
    (\<And>v. src_ssrc (lr_source (g v)) = src_ssrc (lr_source v)) \<Longrightarrow>
    local_ok (hm_map_values f ls) (hm_map_values g lr)"
  unfolding local_ok_def by (auto simp: hm_map_values_def case_prod_beta image_image comp_def)

lemma map_of_entry: "map_of m k = Some v \<Longrightarrow> k \<in> fst ` set m \<and> (k, v) \<in> set m"
  by (force dest: map_of_SomeD)

lemma local_ok_lookup:
  "local_ok ls lr \<Longrightarrow> map_of ls k = Some v \<Longrightarrow> src_ssrc (ls_source v) = k \<and> k \<notin> fst ` set lr"
  using map_of_entry [of ls k v] unfolding local_ok_def by blast

lemma local_source_ssrc [simp]:
  "src_ssrc (ls_source (ls_set_last_activity t v)) = src_ssrc (ls_source v)"
  "src_ssrc (ls_source (ls_set_sdes m v)) = src_ssrc (ls_source v)"
  "src_ssrc (ls_source (ls_set_state st v)) = src_ssrc (ls_source v)"
  "src_ssrc (ls_source (ls_mark_bye reason v)) = src_ssrc (ls_source v)"
  "src_ssrc (ls_source (ls_bye_sent_at t v)) = src_ssrc (ls_source v)"
  "src_ssrc (ls_source (take_sr_snapshot n1 n2 n3 v)) = src_ssrc (ls_source v)"
  "src_ssrc (ls_source (LocalSendSource_new k t)) = k"
  "src_ssrc (lr_source (lr_set_last_activity t w)) = src_ssrc (lr_source w)"
  "src_ssrc (lr_source (lr_set_sdes m w)) = src_ssrc (lr_source w)"
  "src_ssrc (lr_source (lr_set_state st w)) = src_ssrc (lr_source w)"
  "src_ssrc (lr_source (lr_mark_bye reason w)) = src_ssrc (lr_source w)"
  "src_ssrc (lr_source (lr_bye_sent_at t w)) = src_ssrc (lr_source w)"
  "src_ssrc (lr_source (LocalReceiveSource_new k t)) = k"
  "src_ssrc (lr_source (ls_into_receive v)) = src_ssrc (ls_source v)"
  by (simp_all add: ls_set_last_activity_def ls_set_sdes_def ls_set_state_def ls_mark_bye_def
      ls_bye_sent_at_def take_sr_snapshot_def LocalSendSource_new_def lr_set_last_activity_def
      lr_set_sdes_def lr_set_state_def lr_mark_bye_def lr_bye_sent_at_def LocalReceiveSource_new_def
      ls_into_receive_def Source_set_state_def Source_new_def)

lemma sent_packet_ssrc:
  "sent_packet v n t q ts pt = Some v' \<Longrightarrow> src_ssrc (ls_source v') = src_ssrc (ls_source v)"
  by (auto simp: sent_packet_def bind_eq_Some_conv Let_def split: option.splits)

lemma ls_add_last_rb_ssrc:
  "ls_add_last_rb L v ssrc rb now ntp = Some v' \<Longrightarrow> src_ssrc (ls_source v') = src_ssrc (ls_source v)"
  by (auto simp: ls_add_last_rb_def bind_eq_Some_conv)

end
