(* ===== verification/Session_Recv_Facts.thy ===== *)
theory Session_Recv_Facts
  imports Session_State
begin

text \<open>
  Receiving RTP, receiving RTCP and sending RTP keep the invariant of the session.
\<close>

lemma fold_keeps: "(\<And>x st. P st \<Longrightarrow> P (f x st)) \<Longrightarrow> P st \<Longrightarrow> P (fold f xs st)"
  by (induction xs arbitrary: st) auto

section \<open>Receiving\<close>

lemma reverse_consideration_cases:
  assumes "rtcp_reverse_consideration E n now self = Some (applied, self')"
  shows "self' = self \<or> (\<exists>t sent. tm_time (next_rtcp_send self) \<noteq> None
    \<and> length sent = length (last_rtcp_sent_times self)
    \<and> self' = self\<lparr>next_rtcp_send := \<lparr>tm_time = Some t, tm_p_members = n_members E self\<rparr>,
        last_rtcp_sent_times := sent\<rparr>)"
proof (cases "last_rtcp_sent_times self")
  case Nil
  then have same: "self\<lparr>next_rtcp_send := m\<rparr> = self\<lparr>next_rtcp_send := m, last_rtcp_sent_times := []\<rparr>" for m
    by simp
  from Nil assms show ?thesis
    unfolding rtcp_reverse_consideration_def Let_def
    by (clarsimp split: if_splits option.splits simp: bind_eq_Some_conv) (metis same)
next
  case (Cons last_rtcp rest)
  with assms show ?thesis
    unfolding rtcp_reverse_consideration_def Let_def
    by (clarsimp split: if_splits option.splits simp: bind_eq_Some_conv) (metis length_Cons)
qed

lemma reverse_consideration_ok:
  assumes "session_ok E self" and "rtcp_reverse_consideration E n now self = Some (applied, self')"
  shows "session_ok E self' \<and> local_senders self' = local_senders self
    \<and> local_receivers self' = local_receivers self"
  using reverse_consideration_cases [OF assms(2)] assms(1) by (auto simp: session_ok_def timing_ok_def)

text \<open>The call of the source's handler, with what the packet and the session give it.\<close>

definition recv_source ::
  "('cs, 'cr) session_env \<Rightarrow> instant option \<Rightarrow> rtp_packet \<Rightarrow> instant \<Rightarrow> ('cs, 'cr) session \<Rightarrow> remote_send_source
    \<Rightarrow> (source_recv_reply \<times> instant option \<times> remote_send_source) option" where
  "recv_source E t0 rtp now self source =
     recv_packet (gst E) t0 (word_of_nat (rtp_payload_len rtp)) now (rtp_sequence_number rtp)
       (rtp_timestamp rtp) (rtp_payload_type rtp) (clock_rate_from_pt self (rtp_payload_type rtp))
       (hold_buffer_counter self) source"

lemma handle_recv_source:
  assumes "recv_from E (rtp_ssrc rtp) from now self = (None, self1)"
    and "lru_get_mut (snd_ops E) (rtp_ssrc rtp) (remote_senders self1) = (Some source, d)"
    and "handle_recv E t0 clock rtp from now self = Some (reply, t1, self')"
  shows "\<exists>rep t1 source'. recv_source E t0 rtp now self1 source = Some (rep, t1, source')
    \<and> self' = self1\<lparr>remote_senders := lru_assign (snd_ops E) (rtp_ssrc rtp) source' d,
        hold_buffer_counter := hold_buffer_counter self1 + (if is_hold rep then 1 else 0)\<rparr>"
proof (cases "recv_source E t0 rtp now self1 source")
  case None
  with assms show ?thesis by (simp add: handle_recv_def recv_source_def)
next
  case (Some a)
  with assms show ?thesis by (cases a) (simp add: handle_recv_def recv_source_def)
qed

context session_lib
begin

lemma recv_from_ok:
  assumes "session_ok E self" and "recv_from E ssrc from now self = (reply, self')"
  shows "session_ok E self' \<and> (reply = None \<longrightarrow>
    (if from = None then self' = self else ssrc \<notin> lru_keys (rcv_ops E) (remote_receivers self')))"
proof (cases "from = None \<or> map_of (local_senders self) ssrc \<noteq> None")
  case True
  with assms show ?thesis
    by (auto simp: recv_from_def handle_ssrc_conflict_def split: option.splits)
next
  case False
  then obtain addr where from_eq: "from = Some addr" by auto
  obtain v c where pop: "lru_pop (rcv_ops E) ssrc (remote_receivers self) = (v, c)" by (rule prod.exhaust)
  obtain w d where get: "lru_get_mut (snd_ops E) ssrc (remote_senders self) = (w, d)" by (rule prod.exhaust)
  note p = pop_recv [OF session_ok_parts(1) [OF assms(1)] pop] and g = get_send [OF _ get]
  show ?thesis
  proof (cases v)
    case (Some recv)
    have "remote_ok E (lru_push (snd_ops E) ssrc (rs_set_rtp_from from (rr_into_send recv)) (remote_senders self)) c"
      using p Some by (simp add: push_send)
    moreover have "self' = self\<lparr>remote_receivers := c, remote_senders := lru_push (snd_ops E) ssrc
        (rs_set_rtp_from from (rr_into_send recv)) (remote_senders self)\<rparr>"
      using assms(2) from_eq False pop Some by (simp add: recv_from_def)
    ultimately show ?thesis using assms(1) p(2) from_eq by (simp add: session_ok_remote)
  next
    case None
    then have "\<exists>cs. self' = self\<lparr>remote_receivers := c, remote_senders := cs\<rparr>
        \<and> (cs = d \<or> (\<exists>recv. w = Some recv \<and> cs = lru_assign (snd_ops E) ssrc (rs_set_rtp_from from recv) d))"
      using assms(2) from_eq False pop get by (auto simp: recv_from_def Let_def split: option.splits)
    moreover have "remote_ok E d c" "w = Some recv \<Longrightarrow> send_entry ssrc recv" for recv
      using g [OF p(1)] by simp_all
    ultimately show ?thesis using assms(1) p(2) from_eq by (auto simp: session_ok_remote assign_send)
  qed
qed

lemma handle_recv_ok:
  assumes "session_ok E self" and "handle_recv E INITIAL_RECV_TIME clock rtp from now self = Some (reply, t0, self')"
    and "from = None \<Longrightarrow> rtp_ssrc rtp \<notin> lru_keys (rcv_ops E) (remote_receivers self)"
  shows "session_ok E self'"
proof -
  obtain r1 self1 where rf: "recv_from E (rtp_ssrc rtp) from now self = (r1, self1)" by (rule prod.exhaust)
  note rfo = recv_from_ok [OF assms(1) rf]
  obtain w d where get: "lru_get_mut (snd_ops E) (rtp_ssrc rtp) (remote_senders self1) = (w, d)"
    by (rule prod.exhaust)
  note g = get_send [OF session_ok_parts(1) [OF conjunct1 [OF rfo]] get]
  show ?thesis
  proof (cases r1)
    case (Some x)
    with rf rfo assms(2) show ?thesis by (simp add: handle_recv_def)
  next
    case None
    with rfo assms(3) have nr: "rtp_ssrc rtp \<notin> lru_keys (rcv_ops E) (remote_receivers self1)"
      by (auto split: if_splits)
    show ?thesis
    proof (cases w)
      case None2: None
      then have "self' = self1\<lparr>remote_senders := lru_push (snd_ops E) (rtp_ssrc rtp)
          (rs_set_rtp_from from (RemoteSendSource_new (rtp_ssrc rtp) clock)) d\<rparr>"
        using assms(2) rf None get by (simp add: handle_recv_def Let_def)
      with rfo g(1) nr show ?thesis by (simp add: session_ok_remote push_send)
    next
      case (Some source)
      obtain rep t1 source' where
        rp: "recv_source E INITIAL_RECV_TIME rtp now self1 source = Some (rep, t1, source')"
        and self': "self' = self1\<lparr>remote_senders := lru_assign (snd_ops E) (rtp_ssrc rtp) source' d,
          hold_buffer_counter := hold_buffer_counter self1 + (if is_hold rep then 1 else 0)\<rparr>"
        using handle_recv_source [OF rf [unfolded None] get [unfolded Some] assms(2)] by blast
      have "send_entry (rtp_ssrc rtp) source'"
        using g(3) [OF Some] recv_packet_keeps [OF _ rp [unfolded recv_source_def]] by (auto simp: send_entry_def)
      with rfo g(1) show ?thesis unfolding self' by (simp add: session_ok_remote assign_send)
    qed
  qed
qed

lemma make_sender_ok:
  assumes "session_ok E self"
  shows "session_ok E (make_sender E ssrc self)"
    and "ssrc \<notin> lru_keys (rcv_ops E) (remote_receivers (make_sender E ssrc self))"
proof -
  obtain v c where pop: "lru_pop (rcv_ops E) ssrc (remote_receivers self) = (v, c)" by (rule prod.exhaust)
  note p = pop_recv [OF session_ok_parts(1) [OF assms] pop]
  show "session_ok E (make_sender E ssrc self)"
    using assms pop p by (auto simp: make_sender_def session_ok_remote push_send split: option.splits)
  show "ssrc \<notin> lru_keys (rcv_ops E) (remote_receivers (make_sender E ssrc self))"
    using pop p by (auto simp: make_sender_def split: option.splits)
qed

lemma make_receiver_ok:
  assumes "session_ok E self"
  shows "session_ok E (make_receiver E ssrc self)"
    and "ssrc \<notin> lru_keys (snd_ops E) (remote_senders (make_receiver E ssrc self))"
proof -
  obtain v c where pop: "lru_pop (snd_ops E) ssrc (remote_senders self) = (v, c)" by (rule prod.exhaust)
  note p = pop_send [OF session_ok_parts(1) [OF assms] pop]
  show "session_ok E (make_receiver E ssrc self)"
    using assms pop p by (auto simp: make_receiver_def session_ok_remote push_recv split: option.splits)
  show "ssrc \<notin> lru_keys (snd_ops E) (remote_senders (make_receiver E ssrc self))"
    using pop p by (auto simp: make_receiver_def split: option.splits)
qed

text \<open>Looking an entry up in a cache and storing an updated one.\<close>

lemma update_send:
  assumes "session_ok E self" and "lru_get_mut (snd_ops E) k (remote_senders self) = (v, c)"
  shows "session_ok E (self\<lparr>remote_senders := c\<rparr>)"
    and "v = Some w \<Longrightarrow> (send_entry k w \<Longrightarrow> send_entry k w') \<Longrightarrow>
      session_ok E (self\<lparr>remote_senders := lru_assign (snd_ops E) k w' c\<rparr>)"
  using assms(1) get_send [OF session_ok_parts(1) [OF assms(1)] assms(2)]
  by (simp_all add: session_ok_remote assign_send)

lemma update_recv:
  assumes "session_ok E self" and "lru_get_mut (rcv_ops E) k (remote_receivers self) = (v, c)"
  shows "session_ok E (self\<lparr>remote_receivers := c\<rparr>)"
    and "v = Some w \<Longrightarrow> (recv_entry k w \<Longrightarrow> recv_entry k w') \<Longrightarrow>
      session_ok E (self\<lparr>remote_receivers := lru_assign (rcv_ops E) k w' c\<rparr>)"
  using assms(1) get_recv [OF session_ok_parts(1) [OF assms(1)] assms(2)]
  by (simp_all add: session_ok_remote assign_recv)

lemma handle_rb_ok:
  assumes "session_ok E self" and "handle_rb E clock sender_ssrc rb from now ntp self = Some (reply, self')"
  shows "session_ok E self'"
proof (cases "map_of (local_senders self) (blk_ssrc rb)")
  case (Some source)
  with assms(2) obtain source' where add: "ls_add_last_rb (gst E) source sender_ssrc rb now ntp = Some source'"
    and self': "self' = self\<lparr>local_senders :=
      hm_insert (blk_ssrc rb) (ls_set_last_activity now source') (local_senders self)\<rparr>"
    by (auto simp: handle_rb_def bind_eq_Some_conv)
  show ?thesis
    using assms(1) local_ok_lookup [OF session_ok_parts(2) [OF assms(1)] Some] ls_add_last_rb_ssrc [OF add]
    unfolding self' by (intro session_ok_local local_ok_insert_send session_ok_parts) simp_all
next
  case None
  let ?self = "make_sender E (blk_ssrc rb) self"
  obtain source c where goi: "lru_get_or_insert_mut (snd_ops E) (blk_ssrc rb)
      (RemoteSendSource_new (blk_ssrc rb) clock) (remote_senders ?self) = (source, c)" by (rule prod.exhaust)
  from None assms(2) goi obtain source' where
    add: "rs_add_last_rb (gst E) (rs_seen from now source) sender_ssrc rb now ntp = Some source'"
    and self': "self' = ?self\<lparr>remote_senders := lru_assign (snd_ops E) (blk_ssrc rb) source' c\<rparr>"
    by (auto simp: handle_rb_def Let_def bind_eq_Some_conv)
  note m = make_sender_ok [OF assms(1), of "blk_ssrc rb"]
  note g = goi_send [OF session_ok_parts(1) [OF m(1)] goi entry_new(1) m(2)]
  show ?thesis unfolding self'
    using m(1) g send_entry_add_rb [OF add] by (simp add: session_ok_remote assign_send)
qed

lemma handle_rbs_ok:
  "session_ok E self \<Longrightarrow> handle_rbs E clock ssrc rbs from now ntp replies self = Some (replies', self') \<Longrightarrow>
    session_ok E self'"
  by (induction rbs arbitrary: replies self) (auto simp: bind_eq_Some_conv dest: handle_rb_ok)

lemma bye_ssrc_ok:
  assumes "session_ok E (snd (snd st))"
  shows "session_ok E (snd (snd (bye_ssrc E from now ssrc st)))"
proof -
  obtain check replies self where st: "st = (check, replies, self)" by (rule prod_cases3)
  obtain v c where get: "lru_get_mut (snd_ops E) ssrc (remote_senders self) = (v, c)" by (rule prod.exhaust)
  let ?self = "self\<lparr>remote_senders := c\<rparr>"
  obtain w d where get2: "lru_get_mut (rcv_ops E) ssrc (remote_receivers ?self) = (w, d)" by (rule prod.exhaust)
  have ok: "session_ok E self" using assms st by simp
  note u = update_send [OF ok get] and u2 = update_recv [OF update_send(1) [OF ok get] get2]
  show ?thesis
  proof (cases v)
    case (Some source)
    with get st u(2) show ?thesis by (simp add: bye_ssrc_def)
  next
    case None
    with get get2 st u2 show ?thesis by (simp add: bye_ssrc_def Let_def split: option.splits)
  qed
qed

lemma reconsider_ok:
  "session_ok E self \<Longrightarrow> reconsider E check n now replies rec self = Some (replies', rec', self') \<Longrightarrow>
    session_ok E self'"
  using reverse_consideration_ok [of E self n now]
  by (auto simp: reconsider_def bind_eq_Some_conv split: if_splits)

lemma recv_bye_ok:
  assumes "session_ok E self"
    and "recv_bye E len from now ssrcs replies rec self = Some (replies', rec', self')"
  shows "session_ok E self'"
proof -
  obtain check replies1 self1 where f: "fold (bye_ssrc E from now) ssrcs (False, replies, self)
      = (check, replies1, self1)" by (rule prod_cases3)
  have "session_ok E (snd (snd (fold (bye_ssrc E from now) ssrcs (False, replies, self))))"
    using assms(1) by (intro fold_keeps [where P = "\<lambda>st. session_ok E (snd (snd st))"] bye_ssrc_ok) simp_all
  then have "session_ok E self1" by (simp add: f)
  with assms(2) show ?thesis
    by (auto simp: recv_bye_def f Let_def split: option.splits elim!: reconsider_ok [rotated])
qed

lemma recv_rr_ok:
  assumes "session_ok E self" and "recv_rr E clock ssrc rbs from now ntp replies self = Some (replies', self')"
  shows "session_ok E self'"
proof -
  let ?self = "make_receiver E ssrc self"
  obtain source c where goi: "lru_get_or_insert_mut (rcv_ops E) ssrc (RemoteReceiveSource_new ssrc clock)
      (remote_receivers ?self) = (source, c)" by (rule prod.exhaust)
  note m = make_receiver_ok [OF assms(1), of ssrc]
  note g = goi_recv [OF session_ok_parts(1) [OF m(1)] goi entry_new(2) m(2)]
  have "session_ok E (?self\<lparr>remote_receivers := lru_assign (rcv_ops E) ssrc (rr_seen from now source) c\<rparr>)"
    using m(1) g by (simp add: session_ok_remote assign_recv)
  then show ?thesis
    by (rule handle_rbs_ok) (use assms(2) in \<open>simp add: recv_rr_def Let_def goi\<close>)
qed

lemma rtcp_conflict_ok [simp]:
  "session_ok E (snd (rtcp_conflict addr ssrc now replies self)) = session_ok E self"
  by (simp add: rtcp_conflict_def handle_ssrc_conflict_def)

lemma recv_sr_ok:
  assumes "session_ok E self"
    and "recv_sr E clock ssrc ntp rtp_time octets packets rbs from now ntp_time replies self = Some (replies', self')"
  shows "session_ok E self'"
proof (cases "from \<noteq> None \<and> claims_local self ssrc")
  case True
  then have "session_ok E (snd (replies', self'))"
    using assms rtcp_conflict_ok [of "the from" ssrc now replies self]
    by (auto simp: recv_sr_def simp del: rtcp_conflict_ok)
  then show ?thesis by simp
next
  case False
  let ?self = "make_sender E ssrc self"
  obtain source c where goi: "lru_get_or_insert_mut (snd_ops E) ssrc (RemoteSendSource_new ssrc clock)
      (remote_senders ?self) = (source, c)" by (rule prod.exhaust)
  note m = make_sender_ok [OF assms(1), of ssrc]
  note g = goi_send [OF session_ok_parts(1) [OF m(1)] goi entry_new(1) m(2)]
  have "session_ok E (?self\<lparr>remote_senders := lru_assign (snd_ops E) ssrc
      (set_last_received_sr ntp_time (NtpTime ntp) rtp_time octets packets (rs_seen from now source)) c\<rparr>)"
    using m(1) g by (simp add: session_ok_remote assign_send)
  moreover have "\<exists>replies1. handle_rbs E clock ssrc rbs from now ntp_time replies1
      (?self\<lparr>remote_senders := lru_assign (snd_ops E) ssrc
      (set_last_received_sr ntp_time (NtpTime ntp) rtp_time octets packets (rs_seen from now source)) c\<rparr>)
      = Some (replies', self')"
    using assms(2) False by (auto simp: recv_sr_def Let_def goi split: option.splits bool.splits)
  ultimately show ?thesis using handle_rbs_ok by blast
qed

lemma recv_sdes_item_ok:
  assumes "session_ok E (snd st)"
  shows "session_ok E (snd (recv_sdes_item E clock from now ssrc item st))"
proof -
  obtain type val where item: "item = (type, val)" by (rule prod.exhaust)
  obtain replies self where st: "st = (replies, self)" by (rule prod.exhaust)
  show ?thesis
  proof (cases "from \<noteq> None \<and> claims_local self ssrc \<or> type \<notin> set (sdes_types E)")
    case True
    with assms show ?thesis by (auto simp: recv_sdes_item_def item st split: option.splits bool.splits)
  next
    case False
    have ok: "session_ok E self" using assms st by simp
    obtain v c where get: "lru_get_mut (snd_ops E) ssrc (remote_senders self) = (v, c)" by (rule prod.exhaust)
    obtain w d where goi: "lru_get_or_insert_mut (rcv_ops E) ssrc (RemoteReceiveSource_new ssrc clock)
      (remote_receivers self) = (w, d)" by (rule prod.exhaust)
    let ?send = "self\<lparr>remote_senders := lru_assign (snd_ops E) ssrc (rs_set_last_activity now
      (rs_set_state Normal (rs_received_sdes type val (rs_set_rtcp_from from (the v))))) c\<rparr>"
    let ?recv = "self\<lparr>remote_senders := c, remote_receivers := lru_assign (rcv_ops E) ssrc (rr_set_last_activity now
      (rr_set_state Normal (rr_received_sdes type val (rr_set_rtcp_from from w)))) d\<rparr>"
    have "session_ok E (if v = None then ?recv else ?send)"
    proof (cases v)
      case None
      note g = get_send [OF session_ok_parts(1) [OF ok] get]
      have "remote_ok E c d" "recv_entry ssrc w"
        using goi_recv [OF g(1) goi entry_new(2)] g(2) g(4) None by auto
      then show ?thesis using ok None by (simp add: session_ok_remote assign_recv)
    next
      case (Some source)
      then show ?thesis using update_send(2) [OF ok get] by simp
    qed
    moreover have "snd (recv_sdes_item E clock from now ssrc item st) = (if v = None then ?recv else ?send)"
      using False get goi
      by (auto simp: recv_sdes_item_def item st Let_def case_prod_beta split: option.splits bool.splits)
    ultimately show ?thesis by simp
  qed
qed

lemma recv_sdes_ok:
  assumes "session_ok E self"
  shows "session_ok E (snd (recv_sdes E clock from now chunks replies self))"
proof -
  let ?P = "\<lambda>st. session_ok E (snd st)"
  have "?P (fold (recv_sdes_item E clock from now ssrc) items st)" if "?P st" for ssrc items st
    using that by (intro fold_keeps [where P = ?P] recv_sdes_item_ok)
  then show ?thesis
    unfolding recv_sdes_def using assms by (intro fold_keeps [where P = ?P]) (auto simp: case_prod_beta)
qed

lemma key_unit_media_ok:
  assumes "session_ok E (snd st)"
  shows "session_ok E (snd (key_unit_media E now sender_ssrc media_ssrc st))"
proof -
  obtain ssrcs self where st: "st = (ssrcs, self)" by (rule prod.exhaust)
  obtain v c where get: "lru_get_mut (snd_ops E) sender_ssrc (remote_senders self) = (v, c)"
    by (rule prod.exhaust)
  let ?self = "self\<lparr>remote_senders := c\<rparr>"
  obtain w d where get2: "lru_get_mut (rcv_ops E) sender_ssrc (remote_receivers ?self) = (w, d)"
    by (rule prod.exhaust)
  have ok: "session_ok E self" using assms st by simp
  note u = update_send [OF ok get] and u2 = update_recv [OF update_send(1) [OF ok get] get2]
  show ?thesis
  proof (cases v)
    case (Some source)
    with get st ok u(2) show ?thesis
      by (auto simp: key_unit_media_def case_prod_beta split: option.splits)
  next
    case None
    with get get2 st ok u2 show ?thesis
      by (auto simp: key_unit_media_def Let_def case_prod_beta split: option.splits)
  qed
qed

lemma handle_remote_request_key_unit_ok:
  assumes "session_ok E self"
  shows "session_ok E (snd (handle_remote_request_key_unit E now fir sender_ssrc media_ssrcs replies self))"
proof -
  have "session_ok E (snd (fold (key_unit_media E now sender_ssrc) media_ssrcs ([], self)))"
    using assms by (intro fold_keeps [where P = "\<lambda>st. session_ok E (snd st)"] key_unit_media_ok) simp_all
  then show ?thesis by (simp add: handle_remote_request_key_unit_def case_prod_beta)
qed

lemma recv_rtcp_packet_ok:
  assumes "session_ok E self"
    and "recv_rtcp_packet E clock len from now ntp p replies rec self = Some (replies', rec', self')"
  shows "session_ok E self'"
proof (cases p)
  case (ByePacket ssrcs)
  with assms show ?thesis by (auto simp: recv_rtcp_packet_def dest: recv_bye_ok)
next
  case (RrPacket ssrc rbs)
  with assms show ?thesis by (auto simp: recv_rtcp_packet_def bind_eq_Some_conv dest: recv_rr_ok)
next
  case (SrPacket x1 x2 x3 x4 x5 x6)
  with assms show ?thesis by (auto simp: recv_rtcp_packet_def bind_eq_Some_conv dest: recv_sr_ok)
next
  case (SdesPacket chunks)
  with assms recv_sdes_ok [OF assms(1), of clock "from" now chunks replies] show ?thesis
    by (auto simp: recv_rtcp_packet_def case_prod_beta)
next
  case (PayloadFeedback sender media fci)
  with assms handle_remote_request_key_unit_ok [OF assms(1)] show ?thesis
    by (auto simp: recv_rtcp_packet_def case_prod_beta split: feedback_control.splits)
qed (use assms in \<open>simp_all add: recv_rtcp_packet_def\<close>)

lemma recv_rtcp_packets_ok:
  "session_ok E self \<Longrightarrow> recv_rtcp_packets E clock len from now ntp ps replies rec self = Some (replies', self') \<Longrightarrow>
    session_ok E self'"
  by (induction ps arbitrary: replies rec self) (auto simp: bind_eq_Some_conv dest: recv_rtcp_packet_ok)

lemma handle_rtcp_recv_ok:
  assumes "session_ok E self"
    and "handle_rtcp_recv E clock rtcp len from now ntp self = Some (replies, self')"
  shows "session_ok E self'"
proof -
  have "session_ok E (x\<lparr>timed_out_ssrcs := []\<rparr>)" if "session_ok E x" for x
    using that by (simp add: session_ok_def)
  with assms show ?thesis
    by (auto simp: handle_rtcp_recv_def Let_def bind_eq_Some_conv elim!: recv_rtcp_packets_ok [rotated]
        split: if_splits)
qed

section \<open>Sending RTP\<close>

lemma handle_send_local_ok:
  assumes "session_ok E self" and "handle_send_local E clock rtp now capture_time self = Some (reply, self')"
  shows "session_ok E self'"
proof (cases "map_of (local_senders self) (rtp_ssrc rtp)")
  case (Some source)
  note l = local_ok_lookup [OF session_ok_parts(2) [OF assms(1)] Some]
  have ins: "session_ok E (self\<lparr>local_senders := hm_insert (rtp_ssrc rtp) source' (local_senders self)\<rparr>)"
    if "src_ssrc (ls_source source') = rtp_ssrc rtp" for source'
    using assms(1) l that by (auto intro!: session_ok_local local_ok_insert_send session_ok_parts)
  show ?thesis
    using assms Some l
    by (auto simp: handle_send_local_def Let_def bind_eq_Some_conv split: if_splits option.splits
        intro!: ins dest!: sent_packet_ssrc)
next
  case None
  let ?self = "self\<lparr>local_receivers := hm_remove (rtp_ssrc rtp) (local_receivers self)\<rparr>"
  have ok: "session_ok E ?self"
    using assms(1) by (intro session_ok_local local_ok_remove_recv session_ok_parts)
  obtain self1 where self1: "session_ok E self1 \<and> local_senders self1 = local_senders self
      \<and> local_receivers self1 = local_receivers ?self"
    and self': "self' = self1\<lparr>local_senders := hm_insert (rtp_ssrc rtp) (ls_set_sdes (sdes self)
      (ls_set_state Normal (ls_set_last_activity now (LocalSendSource_new (rtp_ssrc rtp) clock)))) (local_senders self1)\<rparr>"
  proof (cases "local_senders self = []")
    case True
    with None assms(2) that reverse_consideration_ok [OF ok, of 0 now] show thesis
      by (auto simp: handle_send_local_def Let_def bind_eq_Some_conv)
  next
    case False
    with None assms(2) that [of ?self] ok show thesis
      by (simp add: handle_send_local_def Let_def)
  qed
  have "local_ok (local_senders self1) (local_receivers self1)"
    using self1 session_ok_parts(2) by blast
  with self1 show ?thesis
    unfolding self' by (intro session_ok_local local_ok_insert_send) (auto simp: hm_simps)
qed

lemma handle_send_ok:
  assumes "session_ok E self" and "handle_send E clock rtp now capture_time self = Some (reply, self')"
  shows "session_ok E self'"
proof -
  obtain v c where get: "lru_get_mut (snd_ops E) (rtp_ssrc rtp) (remote_senders self) = (v, c)"
    by (rule prod.exhaust)
  let ?self = "self\<lparr>remote_senders := c\<rparr>"
  obtain w d where get2: "lru_get_mut (rcv_ops E) (rtp_ssrc rtp) (remote_receivers ?self) = (w, d)"
    by (rule prod.exhaust)
  note u = update_send(1) [OF assms(1) get] and u2 = update_recv(1) [OF update_send(1) [OF assms(1) get] get2]
  have conf: "session_ok E x'"
    if "send_conflict (rtp_ssrc rtp) a now x = (reply, x')" and "session_ok E x" for a x x'
    using that by (auto simp: send_conflict_def handle_ssrc_conflict_def split: option.splits)
  show ?thesis
  proof (cases v)
    case (Some source)
    with assms(2) get u show ?thesis by (auto simp: handle_send_def elim: conf)
  next
    case None
    with assms(2) get get2 u2 show ?thesis
      by (auto simp: handle_send_def Let_def split: option.splits dest: handle_send_local_ok elim: conf)
  qed
qed

end

end
