(* ===== verification/Session_Invariant.thy ===== *)
theory Session_Invariant
  imports Session_Recv_Facts
begin

text \<open>
  Sending RTCP and the timeouts keep the invariant of the session, and so does every sequence of
  its operations.
\<close>

section \<open>Timeouts\<close>

text \<open>
  The loop over the least recently used sources ends, and drops exactly the longest run of old
  sources at that end of the cache.
\<close>

definition cache_rest :: "('v \<Rightarrow> bool) \<Rightarrow> (u32 \<times> 'v) list \<Rightarrow> (u32 \<times> 'v) list" where
  "cache_rest old es = rev (dropWhile (\<lambda>(_, v). old v) (rev es))"

definition cache_dropped :: "('v \<Rightarrow> bool) \<Rightarrow> (u32 \<times> 'v) list \<Rightarrow> u32 list" where
  "cache_dropped old es = map fst (takeWhile (\<lambda>(_, v). old v) (rev es))"

lemma cache_rest_take: "cache_rest old es = take (length (cache_rest old es)) es"
  by (simp add: cache_rest_def dropWhile_eq_drop rev_drop)

context lru_spec
begin

lemma drop_timed_out_spec:
  "\<exists>c'. drop_timed_out C la now td c acc
      = Some (c', acc @ cache_dropped (\<lambda>v. \<not> now - la v < td) (lru_iter C c))
    \<and> lru_iter C c' = cache_rest (\<lambda>v. \<not> now - la v < td) (lru_iter C c) \<and> lru_cap C c' = lru_cap C c"
proof (induction "length (lru_iter C c)" arbitrary: c acc)
  case 0
  then show ?case
    by (subst drop_timed_out.simps) (simp add: peek_lru_spec cache_rest_def cache_dropped_def)
next
  case (Suc n)
  then obtain es e where "lru_iter C c = es @ [e]"
    by (cases "lru_iter C c" rule: rev_cases) auto
  then obtain ssrc v where es: "lru_iter C c = es @ [(ssrc, v)]" by (cases e) simp
  show ?case
  proof (cases "now - la v < td")
    case True
    then show ?thesis
      by (subst drop_timed_out.simps) (simp add: peek_lru_spec es cache_rest_def cache_dropped_def)
  next
    case False
    from Suc.hyps(2) es have "n = length (lru_iter C (lru_pop_lru C c))" by (simp add: pop_lru_spec)
    from Suc.hyps(1) [OF this, of "acc @ [ssrc]"] False es show ?thesis
      by (subst drop_timed_out.simps)
        (simp add: peek_lru_spec pop_lru_spec cache_rest_def cache_dropped_def)
  qed
qed

lemma wf_rest:
  assumes "cache_wf C P c" and "lru_iter C c' = cache_rest old (lru_iter C c)" and "lru_cap C c' = lru_cap C c"
  shows "cache_wf C P c' \<and> lru_keys C c' \<subseteq> lru_keys C c"
proof -
  let ?n = "length (cache_rest old (lru_iter C c))"
  have "lru_iter C c' = take ?n (lru_iter C c)" using assms(2) cache_rest_take by metis
  with assms(1,3) show ?thesis
    by (auto simp: cache_wf_def lru_keys_def take_map [symmetric] dest: in_set_takeD)
qed

end

lemma become_receiver_ok:
  assumes "session_ok E self"
  shows "session_ok E (become_receiver ssrc self)"
proof (cases "map_of (local_senders self) ssrc")
  case (Some source)
  note l = local_ok_lookup [OF session_ok_parts(2) [OF assms] Some]
  have "local_ok (hm_remove ssrc (local_senders self)) (hm_insert ssrc (ls_into_receive source) (local_receivers self))"
    using session_ok_parts(2) [OF assms] l
    by (intro local_ok_insert_recv local_ok_remove_send) (simp_all add: hm_simps)
  with Some l assms show ?thesis by (simp add: become_receiver_def session_ok_local)
qed (use assms in \<open>simp add: become_receiver_def\<close>)

lemma become_receiver_keeps [simp]:
  "remote_senders (become_receiver ssrc self) = remote_senders self"
  "remote_receivers (become_receiver ssrc self) = remote_receivers self"
  "timed_out_ssrcs (become_receiver ssrc self) = timed_out_ssrcs self"
  by (simp_all add: become_receiver_def split: option.splits)

lemma session_ok_timed_out:
  "session_ok E self \<Longrightarrow> length ts \<le> 256 \<Longrightarrow> session_ok E (self\<lparr>timed_out_ssrcs := ts\<rparr>)"
  by (simp add: session_ok_def)

text \<open>The state after the timeouts, up to the local senders that become receivers.\<close>

definition stale :: "instant \<Rightarrow> duration \<Rightarrow> source \<Rightarrow> bool" where
  "stale now td s \<longleftrightarrow> \<not> now - src_last_activity s < td"

definition timed_out_of :: "('cs, 'cr) session_env \<Rightarrow> instant \<Rightarrow> duration \<Rightarrow> ('cs, 'cr) session \<Rightarrow> u32 list" where
  "timed_out_of E now td self =
     map (\<lambda>(_, s). src_ssrc (lr_source s)) (filter (\<lambda>(_, s). stale now td (lr_source s)) (local_receivers self))
     @ cache_dropped (\<lambda>s. stale now td (rs_source s)) (senders E self)
     @ cache_dropped (\<lambda>s. stale now td (rr_source s)) (receivers E self)"

definition after_timeouts ::
  "('cs, 'cr) session_env \<Rightarrow> instant \<Rightarrow> duration \<Rightarrow> 'cs \<Rightarrow> 'cr \<Rightarrow> ('cs, 'cr) session \<Rightarrow> ('cs, 'cr) session" where
  "after_timeouts E now td cs cr self =
     (let all = timed_out_ssrcs self @ timed_out_of E now td self
      in self\<lparr>local_receivers := filter (\<lambda>(_, s). \<not> stale now td (lr_source s)) (local_receivers self),
              remote_senders := cs, remote_receivers := cr, timed_out_ssrcs := drop (length all - 256) all\<rparr>)"

context session_lib
begin

lemma handle_timeouts_eq:
  assumes "deterministic_rtcp_duration E False self = Some dur"
    and td: "td = RTCP_SOURCE_TIMEOUT_N_INTERVALS * max dur (5 * SECOND)"
  shows "\<exists>cs cr removed m.
    lru_iter (snd_ops E) cs = cache_rest (\<lambda>s. stale now td (rs_source s)) (senders E self)
    \<and> lru_cap (snd_ops E) cs = lru_cap (snd_ops E) (remote_senders self)
    \<and> lru_iter (rcv_ops E) cr = cache_rest (\<lambda>s. stale now td (rr_source s)) (receivers E self)
    \<and> lru_cap (rcv_ops E) cr = lru_cap (rcv_ops E) (remote_receivers self)
    \<and> handle_timeouts E now self = Some (timed_out_of E now td self,
        (fold become_receiver removed (after_timeouts E now td cs cr self))\<lparr>conflicting_addresses := m\<rparr>)"
proof -
  let ?t0 = "map (\<lambda>(_, s). src_ssrc (lr_source s))
    (filter (\<lambda>(_, s). stale now td (lr_source s)) (local_receivers self))"
  obtain cs where cs: "drop_timed_out (snd_ops E) (\<lambda>s. src_last_activity (rs_source s)) now td
      (remote_senders self) ?t0
        = Some (cs, ?t0 @ cache_dropped (\<lambda>s. stale now td (rs_source s)) (senders E self))"
    "lru_iter (snd_ops E) cs = cache_rest (\<lambda>s. stale now td (rs_source s)) (senders E self)"
    "lru_cap (snd_ops E) cs = lru_cap (snd_ops E) (remote_senders self)"
    using s.drop_timed_out_spec [of "\<lambda>s. src_last_activity (rs_source s)" now td "remote_senders self" ?t0]
    unfolding stale_def by auto
  let ?t1 = "?t0 @ cache_dropped (\<lambda>s. stale now td (rs_source s)) (senders E self)"
  obtain cr where cr: "drop_timed_out (rcv_ops E) (\<lambda>s. src_last_activity (rr_source s)) now td
      (remote_receivers self) ?t1
        = Some (cr, ?t1 @ cache_dropped (\<lambda>s. stale now td (rr_source s)) (receivers E self))"
    "lru_iter (rcv_ops E) cr = cache_rest (\<lambda>s. stale now td (rr_source s)) (receivers E self)"
    "lru_cap (rcv_ops E) cr = lru_cap (rcv_ops E) (remote_receivers self)"
    using r.drop_timed_out_spec [of "\<lambda>s. src_last_activity (rr_source s)" now td "remote_receivers self" ?t1]
    unfolding stale_def by auto
  have "\<exists>removed m. handle_timeouts E now self = Some (timed_out_of E now td self,
        (fold become_receiver removed (after_timeouts E now td cs cr self))\<lparr>conflicting_addresses := m\<rparr>)"
  proof (cases "length (last_rtcp_sent_times self) \<ge> 2")
    case True
    show ?thesis
      unfolding handle_timeouts_def assms(1) Let_def bind.bind_lunit td [symmetric] stale_def [symmetric]
      using cs(1) cr(1) True
      by (simp add: case_prod_unfold timed_out_of_def after_timeouts_def Let_def) blast
  next
    case False
    show ?thesis
      unfolding handle_timeouts_def assms(1) Let_def bind.bind_lunit td [symmetric] stale_def [symmetric]
      using cs(1) cr(1) False
      by (intro exI [of _ "[]"]) (simp add: case_prod_unfold timed_out_of_def after_timeouts_def Let_def, blast)
  qed
  with cs(2,3) cr(2,3) show ?thesis by blast
qed

lemma handle_timeouts_eq':
  assumes ok: "session_ok E self" and dur: "deterministic_rtcp_duration E False self = Some dur"
    and td: "td = RTCP_SOURCE_TIMEOUT_N_INTERVALS * max dur (5 * SECOND)"
  shows "\<exists>cs cr removed m.
    lru_iter (snd_ops E) cs = cache_rest (\<lambda>s. stale now td (rs_source s)) (senders E self)
    \<and> lru_iter (rcv_ops E) cr = cache_rest (\<lambda>s. stale now td (rr_source s)) (receivers E self)
    \<and> handle_timeouts E now self = Some (timed_out_of E now td self,
        (fold become_receiver removed (after_timeouts E now td cs cr self))\<lparr>conflicting_addresses := m\<rparr>)
    \<and> session_ok E (after_timeouts E now td cs cr self)"
proof -
  obtain cs cr removed m where
    cs: "lru_iter (snd_ops E) cs = cache_rest (\<lambda>s. stale now td (rs_source s)) (senders E self)"
      "lru_cap (snd_ops E) cs = lru_cap (snd_ops E) (remote_senders self)"
    and cr: "lru_iter (rcv_ops E) cr = cache_rest (\<lambda>s. stale now td (rr_source s)) (receivers E self)"
      "lru_cap (rcv_ops E) cr = lru_cap (rcv_ops E) (remote_receivers self)"
    and h: "handle_timeouts E now self = Some (timed_out_of E now td self,
        (fold become_receiver removed (after_timeouts E now td cs cr self))\<lparr>conflicting_addresses := m\<rparr>)"
    using handle_timeouts_eq [OF dur td, of now] by auto
  have R: "remote_ok E cs cr"
    using session_ok_parts(1) [OF ok] s.wf_rest [OF _ cs] r.wf_rest [OF _ cr]
    unfolding remote_ok_def by blast
  have "session_ok E (after_timeouts E now td cs cr self)"
    unfolding after_timeouts_def Let_def using ok R
    by (intro session_ok_timed_out session_ok_remote session_ok_local(3) local_ok_filter_recv session_ok_parts) auto
  with cs(1) cr(1) h show ?thesis by blast
qed

lemma handle_timeouts_ok:
  assumes "session_ok E self" and "handle_timeouts E now self = Some (timed_out, self')"
  shows "session_ok E self'"
proof -
  obtain dur where dur: "deterministic_rtcp_duration E False self = Some dur"
    using assms(2) by (auto simp: handle_timeouts_def bind_eq_Some_conv)
  obtain a removed m where "session_ok E a"
    and self': "self' = (fold become_receiver removed a)\<lparr>conflicting_addresses := m\<rparr>"
    using handle_timeouts_eq' [OF assms(1) dur refl, of now] assms(2) by auto
  then have "session_ok E (fold become_receiver removed a)"
    by (intro fold_keeps [where P = "session_ok E"] become_receiver_ok)
  then show ?thesis by (simp add: self')
qed

end

section \<open>Generating RTCP\<close>

lemma draw_ssrc_fresh: "draw_ssrc E self draws = Some ssrc \<Longrightarrow> \<not> have_ssrc E self ssrc \<and> ssrc \<in> set draws"
  by (induction draws) (auto split: if_splits)

lemma ensure_internal_cases:
  assumes "ensure_internal_send_src E draws clock self = Some (ssrc, self')"
  shows "internal_rtcp_sender_src self' = Some ssrc \<and>
    (self' = self \<or> (\<not> have_ssrc E self ssrc \<and> self' = self\<lparr>
      local_receivers := hm_insert ssrc (lr_set_sdes (sdes self)
        (lr_set_state Normal (LocalReceiveSource_new ssrc clock))) (local_receivers self),
      internal_rtcp_sender_src := Some ssrc\<rparr>))"
  using assms by (auto simp: ensure_internal_send_src_def bind_eq_Some_conv Let_def
      split: option.splits dest: draw_ssrc_fresh)

lemma ensure_internal_ok:
  assumes "session_ok E self" and "ensure_internal_send_src E draws clock self = Some (ssrc, self')"
  shows "session_ok E self'"
proof -
  have "session_ok E (self\<lparr>local_receivers := hm_insert ssrc (lr_set_sdes (sdes self)
        (lr_set_state Normal (LocalReceiveSource_new ssrc clock))) (local_receivers self)\<rparr>)"
    if "\<not> have_ssrc E self ssrc"
    using that assms(1)
    by (intro session_ok_local local_ok_insert_recv session_ok_parts)
      (auto simp: have_ssrc_def map_of_eq_None_iff)
  with ensure_internal_cases [OF assms(2)] assms(1) show ?thesis by auto
qed

lemma generate_sr_ok:
  assumes "session_ok E self"
    and "generate_sr E rtcp now ntp_now minimum reported self = Some (rtcp', reported', self')"
  shows "session_ok E self'"
proof -
  have "session_ok E (self\<lparr>internal_rtcp_sender_src := i, local_senders := fold (\<lambda>(ssrc, ts).
      hm_modify ssrc (take_sr_snapshot ntp_now ntp_time ts)) snaps (local_senders self)\<rparr>)" for i ntp_time snaps
  proof -
    have "local_ok (fold (\<lambda>(ssrc, ts). hm_modify ssrc (take_sr_snapshot ntp_now ntp_time ts)) snaps
        (local_senders self)) (local_receivers self)"
      using session_ok_parts(2) [OF assms(1)]
      by (intro fold_keeps [where P = "\<lambda>ls. local_ok ls (local_receivers self)"])
        (auto simp: local_ok_modify split: prod.splits)
    then show ?thesis using assms(1) by (simp add: session_ok_def)
  qed
  with assms show ?thesis
    by (auto simp: generate_sr_def bind_eq_Some_conv Let_def split: if_splits)
qed

lemma generate_rr_ok:
  assumes "session_ok E self"
    and "generate_rr E draws clock rtcp now ntp_now minimum reported self = Some (rtcp', reported', self')"
  shows "session_ok E self'"
proof -
  have "session_ok E (x\<lparr>local_senders := hm_modify ssrc (ls_set_last_activity now) (local_senders x),
      local_receivers := hm_modify ssrc (lr_set_last_activity now) (local_receivers x)\<rparr>)"
    if "session_ok E x" for x ssrc
    using that by (intro session_ok_local local_ok_modify session_ok_parts) simp_all
  with assms ensure_internal_ok [OF assms(1)] show ?thesis
    by (auto simp: generate_rr_def bind_eq_Some_conv Let_def split: if_splits)
qed

lemma fold_keeps_list: "P st \<Longrightarrow> (\<And>x st. x \<in> set xs \<Longrightarrow> P st \<Longrightarrow> P (f x st)) \<Longrightarrow> P (fold f xs st)"
  by (induction xs arbitrary: st) auto

lemma senders_entry: "session_ok E self \<Longrightarrow> (k, v) \<in> set (senders E self) \<Longrightarrow> send_entry k v"
  by (auto simp: session_ok_def remote_ok_def cache_wf_def)

lemma bye_sent_ok: "session_ok E self \<Longrightarrow> session_ok E (bye_sent now ssrc self)"
  by (simp add: bye_sent_def Let_def session_ok_def local_ok_modify not_data_def)

lemma generate_bye_ok: "session_ok E self \<Longrightarrow> session_ok E (snd (generate_bye rtcp now self))"
  by (simp add: generate_bye_def Let_def fold_keeps [where P = "session_ok E"] bye_sent_ok)

text \<open>The steps of a compound packet.\<close>

lemma generate_rtcp_steps:
  assumes "generate_rtcp E draws clock now ntp_now is_early self = Some (rtcp, reported, self')"
  obtains (steps) rtcp1 rep1 self1 rtcp2 self2 rtcp3 self3 rtcp4 self4 where
    "generate_sr E [] now ntp_now is_early [] self = Some (rtcp1, rep1, self1)"
    "generate_rr E draws clock rtcp1 now ntp_now is_early rep1 self1 = Some (rtcp2, reported, self2)"
    "generate_pli E draws clock (generate_sdes E rtcp2 is_early self2) self2 = Some (rtcp3, self3)"
    "generate_fir E draws clock rtcp3 self3 = Some (rtcp4, self4)"
    "generate_bye rtcp4 now self4 = (rtcp, self')"
proof -
  obtain rtcp1 rep1 self1 where 1: "generate_sr E [] now ntp_now is_early [] self = Some (rtcp1, rep1, self1)"
    using assms by (auto simp: generate_rtcp_def bind_eq_Some_conv)
  obtain rtcp2 rep2 self2 where
    2: "generate_rr E draws clock rtcp1 now ntp_now is_early rep1 self1 = Some (rtcp2, rep2, self2)"
    using assms by (auto simp: generate_rtcp_def 1 bind_eq_Some_conv)
  obtain rtcp3 self3 where
    3: "generate_pli E draws clock (generate_sdes E rtcp2 is_early self2) self2 = Some (rtcp3, self3)"
    using assms by (auto simp: generate_rtcp_def 1 2 bind_eq_Some_conv)
  obtain rtcp4 self4 where 4: "generate_fir E draws clock rtcp3 self3 = Some (rtcp4, self4)"
    using assms by (auto simp: generate_rtcp_def 1 2 3 bind_eq_Some_conv)
  have 5: "generate_bye rtcp4 now self4 = (rtcp, self')" and "rep2 = reported"
    using assms by (cases "generate_bye rtcp4 now self4", simp add: generate_rtcp_def 1 2 3 4)+
  with 2 show ?thesis by (intro steps [OF 1 _ 3 4 5]) simp
qed

context session_lib
begin

lemma generate_pli_ok:
  assumes "session_ok E self" and "generate_pli E draws clock rtcp self = Some (rtcp', self')"
  shows "session_ok E self'"
proof -
  obtain ssrc self1 where e: "ensure_internal_send_src E draws clock self = Some (ssrc, self1)"
    and f: "fold (pli_step E ssrc) (senders E self1) (rtcp, self1) = (rtcp', self')"
    using assms(2) by (auto simp: generate_pli_def bind_eq_Some_conv)
  have ok: "session_ok E self1" by (rule ensure_internal_ok [OF assms(1) e])
  have "session_ok E (snd (pli_step E ssrc x st))" if "x \<in> set (senders E self1)" "session_ok E (snd st)" for x st
  proof -
    obtain k v where x: "x = (k, v)" by (rule prod.exhaust)
    obtain rtcp self where st: "st = (rtcp, self)" by (rule prod.exhaust)
    have "send_entry k v" using that(1) senders_entry [OF ok] unfolding x by blast
    with that(2) show ?thesis
      by (simp add: pli_step_def x st case_prod_beta session_ok_remote assign_send session_ok_parts)
  qed
  then have "session_ok E (snd (fold (pli_step E ssrc) (senders E self1) (rtcp, self1)))"
    using ok by (intro fold_keeps_list [where P = "\<lambda>st. session_ok E (snd st)"]) simp_all
  then show ?thesis by (simp add: f)
qed

lemma generate_fir_ok:
  assumes "session_ok E self" and "generate_fir E draws clock rtcp self = Some (rtcp', self')"
  shows "session_ok E self'"
proof -
  obtain fir have_fir self1 where
    f: "fold (fir_step E) (senders E self) ([], False, self) = (fir, have_fir, self1)" by (rule prod_cases3)
  have "session_ok E (snd (snd (fir_step E x st)))"
    if "x \<in> set (senders E self)" "session_ok E (snd (snd st))" for x st
  proof -
    obtain k v where x: "x = (k, v)" by (rule prod.exhaust)
    obtain fir hf self0 where st: "st = (fir, hf, self0)" by (rule prod_cases3)
    have "send_entry k v" using that(1) senders_entry [OF assms(1)] unfolding x by blast
    with that(2) show ?thesis
      by (simp add: fir_step_def x st case_prod_beta session_ok_remote assign_send session_ok_parts)
  qed
  then have "session_ok E (snd (snd (fold (fir_step E) (senders E self) ([], False, self))))"
    using assms(1) by (intro fold_keeps_list [where P = "\<lambda>st. session_ok E (snd (snd st))"]) simp_all
  then have "session_ok E self1" by (simp add: f)
  with assms(2) show ?thesis
    by (auto simp: generate_fir_def f bind_eq_Some_conv split: if_splits dest: ensure_internal_ok)
qed

lemma generate_rtcp_ok:
  assumes "session_ok E self"
    and "generate_rtcp E draws clock now ntp_now is_early self = Some (rtcp, reported, self')"
  shows "session_ok E self'"
  using assms(2)
proof (cases rule: generate_rtcp_steps)
  case (steps rtcp1 rep1 self1 rtcp2 self2 rtcp3 self3 rtcp4 self4)
  note generate_fir_ok [OF generate_pli_ok [OF generate_rr_ok [OF generate_sr_ok [OF assms(1) steps(1)] steps(2)] steps(3)] steps(4)]
  from generate_bye_ok [OF this, of rtcp4 now] steps(5) show ?thesis by simp
qed

end

section \<open>The schedule\<close>

text \<open>What a poll does: the cases, with the steps of a transmission.\<close>

definition early_due :: "('cs, 'cr) session \<Rightarrow> bool" where
  "early_due self \<longleftrightarrow> next_early_rtcp_time self \<noteq> None \<and> last_rtcp_sent_times self \<noteq> []"

definition after_sending ::
  "('cs, 'cr) session_env \<Rightarrow> u32 list \<Rightarrow> nat \<Rightarrow> ('cs, 'cr) session \<Rightarrow> ('cs, 'cr) session" where
  "after_sending E reported n self =
     update_rtcp_average (n + UDP_IP_OVERHEAD_BYTES) (self\<lparr>remote_senders :=
       fold (\<lambda>ssrc. lru_modify (snd_ops E) ssrc update_last_rtcp) reported (remote_senders self)\<rparr>)"

lemma bind_SomeD: "Option.bind x f = Some y \<Longrightarrow> \<exists>a. x = Some a"
  by (cases x) simp_all

lemma some_pair: "\<exists>a. x = Some a \<Longrightarrow> (\<And>b c. x = Some (b, c) \<Longrightarrow> thesis) \<Longrightarrow> thesis"
  by auto

lemma poll_rtcp_send_eq:
  assumes "pending_rtcp_send self = []" and "tm_time (next_rtcp_send self) = Some next_time"
  shows "poll_rtcp_send E rng clock now ntp_now self = do {
    (go, self1) \<leftarrow> time_to_send E (rng_f1 rng) (early_due self) next_time now self;
    if \<not> go then Some (None, self1)
    else do {
      (rtcp, reported, self2) \<leftarrow> generate_rtcp E (rng_ssrcs rng) clock now ntp_now (early_due self) self1;
      n \<leftarrow> calculate_size E rtcp;
      _ \<leftarrow> rust_assert (n < RTCP_MTU);
      data \<leftarrow> write_into E rtcp;
      self4 \<leftarrow> (if early_due self then Some (after_sending E reported n self2)
        else schedule_regular E (rng_f2 rng) (rng_f3 rng) now (after_sending E reported n self2));
      Some (Some (Data data), self4\<lparr>last_rtcp_handle_time := Some now, next_early_rtcp_time := None\<rparr>)
    }
  }"
  using assms unfolding poll_rtcp_send_def Let_def early_due_def after_sending_def by simp

lemma poll_rtcp_send_cases:
  assumes "poll_rtcp_send E rng clock now ntp_now self = Some (reply, self')"
  obtains (queued) "pending_rtcp_send self \<noteq> []" "reply = Some (last (pending_rtcp_send self))"
    "self' = self\<lparr>pending_rtcp_send := butlast (pending_rtcp_send self)\<rparr>"
  | (unscheduled) "pending_rtcp_send self = []" "tm_time (next_rtcp_send self) = None" "reply = None" "self' = self"
  | (wait) next_time where "pending_rtcp_send self = []" "tm_time (next_rtcp_send self) = Some next_time"
    "time_to_send E (rng_f1 rng) (early_due self) next_time now self = Some (False, self')" "reply = None"
  | (sent) next_time self1 rtcp reported self2 n data self4 where "pending_rtcp_send self = []"
    "tm_time (next_rtcp_send self) = Some next_time"
    "time_to_send E (rng_f1 rng) (early_due self) next_time now self = Some (True, self1)"
    "generate_rtcp E (rng_ssrcs rng) clock now ntp_now (early_due self) self1 = Some (rtcp, reported, self2)"
    "calculate_size E rtcp = Some n" "n < RTCP_MTU" "write_into E rtcp = Some data"
    "(if early_due self then Some (after_sending E reported n self2)
      else schedule_regular E (rng_f2 rng) (rng_f3 rng) now (after_sending E reported n self2)) = Some self4"
    "reply = Some (Data data)" "self' = self4\<lparr>last_rtcp_handle_time := Some now, next_early_rtcp_time := None\<rparr>"
proof (cases "pending_rtcp_send self \<noteq> [] \<or> tm_time (next_rtcp_send self) = None")
  case True
  show ?thesis
  proof (cases "pending_rtcp_send self = []")
    case p: True
    have "reply = None" "self' = self" using assms True p by (simp_all add: poll_rtcp_send_def)
    with True p show ?thesis by (intro unscheduled) simp_all
  next
    case p: False
    show ?thesis by (rule queued [OF p]) (use assms p in \<open>simp_all add: poll_rtcp_send_def\<close>)
  qed
next
  case False
  then obtain next_time where nt: "pending_rtcp_send self = []" "tm_time (next_rtcp_send self) = Some next_time"
    by auto
  note D = assms [unfolded poll_rtcp_send_eq [OF nt]]
  obtain go self1 where 1: "time_to_send E (rng_f1 rng) (early_due self) next_time now self = Some (go, self1)"
    by (rule some_pair [OF bind_SomeD [OF D]])
  note D1 = D [unfolded 1 bind.bind_lunit prod.case]
  show ?thesis
  proof (cases go)
    case False
    have "reply = None" "self' = self1" using D1 False by simp_all
    with nt 1 False show ?thesis by (intro wait) simp_all
  next
    case True
    then have go: "go = True" by simp
    note D2 = D1 [unfolded go not_True_eq_False if_False]
    obtain rtcp x where x: "generate_rtcp E (rng_ssrcs rng) clock now ntp_now (early_due self) self1 = Some (rtcp, x)"
      by (rule some_pair [OF bind_SomeD [OF D2]])
    obtain reported self2 where x2: "x = (reported, self2)" by (rule prod.exhaust)
    note D3 = D2 [unfolded x x2 bind.bind_lunit prod.case]
    obtain n where 3: "calculate_size E rtcp = Some n" using bind_SomeD [OF D3] by blast
    note D4 = D3 [unfolded 3 bind.bind_lunit]
    have 4: "n < RTCP_MTU" using bind_SomeD [OF D4] by (auto simp: rust_assert_def split: if_splits)
    then have "rust_assert (n < RTCP_MTU) = Some ()" by (simp add: rust_assert_def)
    note D5 = D4 [unfolded this bind.bind_lunit]
    obtain data where 5: "write_into E rtcp = Some data" using bind_SomeD [OF D5] by blast
    note D6 = D5 [unfolded 5 bind.bind_lunit]
    obtain self4 where 6: "(if early_due self then Some (after_sending E reported n self2)
        else schedule_regular E (rng_f2 rng) (rng_f3 rng) now (after_sending E reported n self2)) = Some self4"
      using bind_SomeD [OF D6] by blast
    have 7: "reply = Some (Data data)" "self' = self4\<lparr>last_rtcp_handle_time := Some now, next_early_rtcp_time := None\<rparr>"
      using D6 [unfolded 6 bind.bind_lunit] by simp_all
    show ?thesis by (rule sent [OF nt 1 [unfolded go] x [unfolded x2] 3 4 5 6 7])
  qed
qed

lemma time_to_send_cases:
  assumes "time_to_send E r is_early next_time now self = Some (go, self')"
  obtains (early) "is_early" "self' = self" "go \<longleftrightarrow> (case next_early_rtcp_time self of None \<Rightarrow> True | Some t \<Rightarrow> t \<le> now)"
  | (before) "\<not> is_early" "now < next_time" "\<not> go" "self' = self"
  | (due) interval handle_time where "\<not> is_early" "next_time \<le> now"
    "rtcp_interval E r (update_point_to_point E self) = Some interval"
    "last_rtcp_handle_time self = Some handle_time" "go \<longleftrightarrow> handle_time + interval \<le> now"
    "self' = (if go then update_point_to_point E self else update_point_to_point E self\<lparr>next_rtcp_send :=
      (next_rtcp_send self)\<lparr>tm_time := Some (handle_time + interval)\<rparr>\<rparr>)"
proof (cases "is_early \<or> now < next_time")
  case True
  with assms early before show ?thesis
    by (auto simp: time_to_send_def not_less split: if_splits option.splits)
next
  case False
  have same: "last_rtcp_handle_time (update_point_to_point E self) = last_rtcp_handle_time self"
    "next_rtcp_send (update_point_to_point E self) = next_rtcp_send self"
    by (simp_all add: update_point_to_point_def)
  obtain interval where i: "rtcp_interval E r (update_point_to_point E self) = Some interval"
    using assms False by (auto simp: time_to_send_def Let_def bind_eq_Some_conv)
  obtain handle_time where h: "last_rtcp_handle_time self = Some handle_time"
    using assms False by (auto simp: time_to_send_def Let_def i same bind_eq_Some_conv)
  show ?thesis
    by (rule due [OF _ _ i h]) (use assms False in \<open>auto simp: time_to_send_def Let_def i h same split: if_splits\<close>)
qed

lemma time_to_send_ok:
  assumes "session_ok E self" and "time_to_send E r is_early next_time now self = Some (go, self')"
    and "tm_time (next_rtcp_send self) \<noteq> None"
  shows "session_ok E self'"
  using assms(2)
proof (cases rule: time_to_send_cases)
  case (due interval handle_time)
  with assms(1,3) show ?thesis
    by (auto simp: session_ok_def timing_ok_def update_point_to_point_def)
qed (use assms(1) in simp_all)

context session_lib
begin

lemma modify_reported_ok:
  assumes "session_ok E self"
  shows "session_ok E (self\<lparr>remote_senders :=
    fold (\<lambda>ssrc. lru_modify (snd_ops E) ssrc update_last_rtcp) reported (remote_senders self)\<rparr>)"
proof -
  have "remote_ok E (fold (\<lambda>ssrc. lru_modify (snd_ops E) ssrc update_last_rtcp) reported (remote_senders self))
      (remote_receivers self)"
    using session_ok_parts(1) [OF assms]
    by (intro fold_keeps [where P = "\<lambda>c. remote_ok E c (remote_receivers self)"] modify_send) simp_all
  with assms show ?thesis by (rule session_ok_remote)
qed

lemma schedule_regular_ok:
  assumes "session_ok E self" and "schedule_regular E r2 r3 now self = Some self'"
  shows "session_ok E (self'\<lparr>last_rtcp_handle_time := Some now, next_early_rtcp_time := None\<rparr>)"
proof -
  obtain timed_out self1 where h: "handle_timeouts E now self = Some (timed_out, self1)"
    using assms(2) by (auto simp: schedule_regular_def bind_eq_Some_conv)
  define self2 where "self2 = update_point_to_point E (if timed_out \<noteq> []
    then self1\<lparr>pending_rtcp_send := SendSsrcTimedOut timed_out # pending_rtcp_send self1\<rparr> else self1)"
  have ok: "session_ok E self2"
    using handle_timeouts_ok [OF assms(1) h] by (simp add: self2_def session_ok_def not_data_def
        update_point_to_point_def)
  obtain i1 i2 where "self' = self2\<lparr>t_rr := Some i1,
       next_rtcp_send := \<lparr>tm_time = Some (now + i2), tm_p_members = n_members E (self2\<lparr>t_rr := Some i1\<rparr>)\<rparr>,
       last_rtcp_sent_times := take 2 (now # last_rtcp_sent_times self2), bye_state := None\<rparr>"
    using assms(2) by (auto simp: schedule_regular_def h self2_def [symmetric] bind_eq_Some_conv Let_def)
  with ok show ?thesis by (simp add: session_ok_def timing_ok_def)
qed

lemma poll_rtcp_send_ok:
  assumes "session_ok E self" and "poll_rtcp_send E rng clock now ntp_now self = Some (reply, self')"
  shows "session_ok E self'"
  using assms(2)
proof (cases rule: poll_rtcp_send_cases)
  case queued
  have "list_all not_data (butlast xs)" if "list_all not_data xs" for xs
    using that by (auto simp: list_all_iff dest: in_set_butlastD)
  with queued assms(1) show ?thesis by (auto simp: session_ok_def)
next
  case unscheduled
  with assms(1) show ?thesis by simp
next
  case (wait next_time)
  with time_to_send_ok [OF assms(1) wait(3)] show ?thesis by simp
next
  case (sent next_time self1 rtcp reported self2 n data self4)
  have "session_ok E self1" using time_to_send_ok [OF assms(1) sent(3)] sent(2) by simp
  note ok = modify_reported_ok [OF generate_rtcp_ok [OF this sent(4)]]
  then have ok4: "session_ok E (after_sending E reported n self2)" by (simp add: after_sending_def)
  show ?thesis
  proof (cases "early_due self")
    case True
    with sent ok4 show ?thesis by (auto simp: session_ok_def timing_ok_def)
  next
    case False
    with sent schedule_regular_ok [OF ok4] show ?thesis by simp
  qed
qed

lemma poll_rtcp_send_timeout_ok:
  assumes "session_ok E self" and "poll_rtcp_send_timeout E r now self = Some (t, self')"
  shows "session_ok E self'"
  using assms
  by (auto simp: poll_rtcp_send_timeout_def Let_def bind_eq_Some_conv session_ok_def timing_ok_def
      update_point_to_point_def split: option.splits if_splits)

lemma request_early_rtcp_ok:
  assumes "session_ok E self" and "request_early_rtcp E r now max_delay self = Some (res, self')"
  shows "session_ok E self' \<and> remote_senders self' = remote_senders self"
proof (cases "is_feedback (profile self) \<and> next_early_rtcp_time self = None
    \<and> tm_time (next_rtcp_send self) \<noteq> None \<and> last_rtcp_sent_times self \<noteq> []")
  case False
  with assms show ?thesis
    by (auto simp: request_early_rtcp_def split: option.splits if_splits list.splits)
next
  case True
  define self1 where "self1 = update_point_to_point E self"
  have ok: "session_ok E self1" and same: "remote_senders self1 = remote_senders self"
    "last_rtcp_sent_times self1 = last_rtcp_sent_times self" "next_rtcp_send self1 = next_rtcp_send self"
    using assms(1) by (simp_all add: self1_def) (simp_all add: update_point_to_point_def)
  then have upd: "session_ok E (self1\<lparr>next_early_rtcp_time := Some t\<rparr>)" for t
    using True by (simp add: session_ok_def timing_ok_def)
  from True obtain next_time last_sent rest where "tm_time (next_rtcp_send self) = Some next_time"
    "last_rtcp_sent_times self = last_sent # rest" by (auto simp: neq_Nil_conv)
  with True assms(2) have "self' = self1 \<or> (\<exists>t. self' = self1\<lparr>next_early_rtcp_time := Some t\<rparr>)"
    by (auto simp: request_early_rtcp_def self1_def [symmetric] Let_def bind_eq_Some_conv
        split: option.splits if_splits)
  with ok same upd show ?thesis by auto
qed

lemma schedule_bye_ok:
  assumes "session_ok E self" and "schedule_bye E r1 r2 reason now self = Some self'"
    and "last_rtcp_handle_time self \<noteq> None"
  shows "session_ok E self'"
proof -
  define self1 where "self1 = self\<lparr>local_senders := hm_map_values (ls_mark_bye reason) (local_senders self),
    local_receivers := hm_map_values (lr_mark_bye reason) (local_receivers self)\<rparr>"
  have ok: "session_ok E self1"
    unfolding self1_def using assms(1)
    by (intro session_ok_local local_ok_map_values session_ok_parts) simp_all
  have h: "last_rtcp_handle_time self1 \<noteq> None" using assms(3) by (simp add: self1_def)
  define self2 where "self2 = update_point_to_point E (self1\<lparr>
    bye_state := Some \<lparr>bs_members = 1, bs_pmembers = 1\<rparr>, last_rtcp_sent_times := [now], average_rtcp_size := 100\<rparr>)"
  have "self' = self \<or> self' = self1 \<or> (\<exists>i j n. self' = self2\<lparr>t_rr := Some i,
      next_rtcp_send := \<lparr>tm_time = Some j, tm_p_members = n\<rparr>\<rparr>)"
    using assms(2) by (auto simp: schedule_bye_def self1_def [symmetric] self2_def [symmetric] Let_def
        bind_eq_Some_conv simp del: One_nat_def split: if_splits)
  moreover have "session_ok E (self2\<lparr>t_rr := Some i, next_rtcp_send := \<lparr>tm_time = Some j, tm_p_members = n\<rparr>\<rparr>)"
    for i j n
    using ok h by (simp add: self2_def update_point_to_point_def session_ok_def timing_ok_def)
  ultimately show ?thesis using assms(1) ok by auto
qed

lemma request_remote_key_unit_ok:
  assumes "session_ok E self" and "request_remote_key_unit E r now typ ssrc self = Some (replies, self')"
  shows "session_ok E self'"
proof (cases "lru_contains (snd_ops E) ssrc (remote_senders self)")
  case True
  then obtain res self1 where e: "request_early_rtcp E r now (5 * SECOND) self = Some (res, self1)"
    using assms(2) by (auto simp: request_remote_key_unit_def bind_eq_Some_conv)
  obtain v c where get: "lru_get_mut (snd_ops E) ssrc (remote_senders self1) = (v, c)" by (rule prod.exhaust)
  have ok: "session_ok E self1" using request_early_rtcp_ok [OF assms(1) e] by simp
  show ?thesis
    using assms(2) True ok update_send(2) [OF ok get]
    by (auto simp: request_remote_key_unit_def e get Let_def split: option.splits if_splits)
qed (use assms in \<open>simp add: request_remote_key_unit_def\<close>)

lemma settings_ok:
  assumes "session_ok E self"
  shows "session_ok E (set_min_rtcp_interval d self)" "session_ok E (set_profile p self)"
    "session_ok E (set_reduced_size_rtcp b self)" "session_ok E (set_pt_clock_rate pt rate self)"
    "session_ok E (set_sdes items self)"
    "0 < n \<Longrightarrow> session_ok E (set_max_remote_receiver_sources E n self)"
    "0 < n \<Longrightarrow> session_ok E (set_max_remote_sender_sources E n self)"
proof -
  show "session_ok E (set_sdes items self)"
    using assms local_ok_map_values [OF session_ok_parts(2) [OF assms], of "ls_set_sdes items" "lr_set_sdes items"]
    by (simp add: set_sdes_def session_ok_local)
qed (use assms session_ok_parts(1) [OF assms] in \<open>simp_all add: set_min_rtcp_interval_def set_profile_def
    set_reduced_size_rtcp_def set_pt_clock_rate_def set_max_remote_receiver_sources_def
    set_max_remote_sender_sources_def session_ok_remote shrink\<close>)

lemma Session_new_ok: "session_ok E (Session_new E cname)"
  by (simp add: Session_new_def session_ok_def remote_ok_def local_ok_def timing_ok_def
      DEFAULT_MAX_REMOTE_SOURCES_def s.wf_new r.wf_new)

end

section \<open>Reachable states\<close>

text \<open>
  What can be done with a session. A packet of a source that is a remote receiver comes with an
  address (\<^verbatim>\<open>handle_recv\<close> does not look at the remote receivers without one), and BYE is scheduled
  when RTCP was scheduled before.
\<close>

inductive session_reach :: "('cs, 'cr) session_env \<Rightarrow> ('cs, 'cr) session \<Rightarrow> bool" for E where
  new: "session_reach E (Session_new E cname)"
| min_interval: "session_reach E self \<Longrightarrow> session_reach E (set_min_rtcp_interval d self)"
| profile: "session_reach E self \<Longrightarrow> session_reach E (set_profile p self)"
| reduced: "session_reach E self \<Longrightarrow> session_reach E (set_reduced_size_rtcp b self)"
| clock_rate: "session_reach E self \<Longrightarrow> session_reach E (set_pt_clock_rate pt rate self)"
| sdes: "session_reach E self \<Longrightarrow> session_reach E (set_sdes items self)"
| max_receivers: "session_reach E self \<Longrightarrow> 0 < n \<Longrightarrow> session_reach E (set_max_remote_receiver_sources E n self)"
| max_senders: "session_reach E self \<Longrightarrow> 0 < n \<Longrightarrow> session_reach E (set_max_remote_sender_sources E n self)"
| recv: "session_reach E self \<Longrightarrow>
    (from = None \<Longrightarrow> \<not> lru_contains (rcv_ops E) (rtp_ssrc rtp) (remote_receivers self)) \<Longrightarrow>
    handle_recv E t0 clock rtp from now self = Some (reply, t1, self') \<Longrightarrow> session_reach E self'"
| send: "session_reach E self \<Longrightarrow>
    handle_send E clock rtp now capture_time self = Some (reply', self') \<Longrightarrow> session_reach E self'"
| rtcp_recv: "session_reach E self \<Longrightarrow>
    handle_rtcp_recv E clock rtcp len from now ntp self = Some (replies, self') \<Longrightarrow> session_reach E self'"
| rtcp_send: "session_reach E self \<Longrightarrow>
    poll_rtcp_send E rng clock now ntp self = Some (reply'', self') \<Longrightarrow> session_reach E self'"
| timeout: "session_reach E self \<Longrightarrow>
    poll_rtcp_send_timeout E r now self = Some (t, self') \<Longrightarrow> session_reach E self'"
| early: "session_reach E self \<Longrightarrow>
    request_early_rtcp E r now max_delay self = Some (res, self') \<Longrightarrow> session_reach E self'"
| bye: "session_reach E self \<Longrightarrow> last_rtcp_handle_time self \<noteq> None \<Longrightarrow>
    schedule_bye E r r2 reason now self = Some self' \<Longrightarrow> session_reach E self'"
| key_unit: "session_reach E self \<Longrightarrow>
    request_remote_key_unit E r now typ ssrc self = Some (replies', self') \<Longrightarrow> session_reach E self'"

context session_lib
begin

lemma reach_ok: "session_reach E self \<Longrightarrow> session_ok E self"
proof (induction rule: session_reach.induct)
  case (recv self "from" rtp t0 clock now reply t1 self')
  then show ?case using handle_recv_ok [OF recv.IH recv.hyps(3)] by (simp add: r.peek_spec r.keys_iff)
qed (blast intro: Session_new_ok settings_ok handle_send_ok handle_rtcp_recv_ok poll_rtcp_send_ok
    poll_rtcp_send_timeout_ok request_early_rtcp_ok [THEN conjunct1] schedule_bye_ok request_remote_key_unit_ok)+

end

end
