(* ===== verification/Session_Schedule.thy ===== *)
theory Session_Schedule
  imports Session_Invariant
begin

text \<open>
  The RTCP interval and the transmission of RTCP packets: the interval is defined and within the
  bounds of RFC 3550, generating packets and the timeouts leave the schedule alone, and neither
  panics.
\<close>

section \<open>A reference environment\<close>

text \<open>
  Lists for the caches, and the sizes of RFC 3550 and RFC 4585 for the packets; a report has room
  for 31 report blocks. Instances of it show that the hypotheses below can hold.
\<close>

definition pad4 :: "nat \<Rightarrow> nat" where
  "pad4 n = (n + 3) div 4 * 4"

definition ref_size :: "rtcp_builder \<Rightarrow> nat option" where
  "ref_size b =
     (case b of
        SrBuilder _ _ _ _ _ rbs \<Rightarrow> if length rbs \<le> 31 then Some (28 + 24 * length rbs) else None
      | RrBuilder _ rbs \<Rightarrow> if length rbs \<le> 31 then Some (8 + 24 * length rbs) else None
      | SdesBuilder chunks \<Rightarrow>
          Some (4 + sum_list (map (\<lambda>(_, items). pad4 (5 + sum_list (map (\<lambda>(_, v). 2 + length v) items))) chunks))
      | ByeBuilder reason ssrcs \<Rightarrow> Some (4 + 4 * length ssrcs + pad4 (1 + length reason))
      | PliBuilder _ _ \<Rightarrow> Some 12
      | FirBuilder _ fir \<Rightarrow> Some (12 + 8 * length fir))"

fun ref_calculate_size :: "rtcp_builder list \<Rightarrow> nat option" where
  "ref_calculate_size [] = Some 0"
| "ref_calculate_size (b # bs) = do { n \<leftarrow> ref_size b; m \<leftarrow> ref_calculate_size bs; Some (n + m) }"

type_synonym ref_session = "(remote_send_source ref_cache, remote_receive_source ref_cache) session"

definition ref_env :: "(remote_send_source ref_cache, remote_receive_source ref_cache) session_env" where
  "ref_env = \<lparr>gst = ref_lib, snd_ops = ref_lru, rcv_ops = ref_lru, CNAME = 1, NAME = 2, EMAIL = 3,
     PHONE = 4, LOC = 5, TOOL = 6, NOTE = 7, calculate_size = ref_calculate_size,
     write_into = (\<lambda>bs. map_option (\<lambda>n. replicate n 0) (ref_calculate_size bs))\<rparr>"

interpretation refsess: session_lib ref_env
  by (rule session_lib.intro)
    (simp_all add: ref_env_def reflib.gst_lib_spec_axioms reflru.lru_spec_axioms)

section \<open>The RTCP interval\<close>

lemma f64_add_half:
  assumes "0 \<le> r" and "r \<le> 1"
  shows "(1 - f64_eps) / 2 \<le> f64_add r (1 / 2)" and "f64_add r (1 / 2) \<le> (1 + f64_eps) * 3 / 2"
proof -
  have "(1 - f64_eps) * (1 / 2) \<le> (1 - f64_eps) * (r + 1 / 2)"
    by (rule mult_left_mono) (use assms f64_eps_bounds in simp_all)
  moreover have "(1 + f64_eps) * (r + 1 / 2) \<le> (1 + f64_eps) * (3 / 2)"
    by (rule mult_left_mono) (use assms f64_eps_bounds in simp_all)
  ultimately show "(1 - f64_eps) / 2 \<le> f64_add r (1 / 2)" and "f64_add r (1 / 2) \<le> (1 + f64_eps) * 3 / 2"
    using f64_rnd_between [of "r + 1 / 2"] assms(1) unfolding f64_add_def by linarith+
qed

lemma of_nat_less_one: "(of_nat n :: rat) < of_nat m + 1 \<Longrightarrow> n \<le> m"
  by linarith

lemma rtcp_dither_bounds:
  assumes "d < 2 ^ 48" and "0 \<le> r" and "r \<le> 1"
  shows "\<exists>i. rtcp_dither r d = Some i \<and> d \<le> 2 * i + 2 \<and> 2 * i \<le> 3 * d + 2"
proof -
  define f where "f = f64_add r (1 / 2)"
  note h = f64_add_half [OF assms(2,3), folded f_def]
  have f2: "0 \<le> f" "f \<le> 2" using h by (simp_all add: f64_eps_def)
  obtain i where i: "rtcp_dither r d = Some i" "\<bar>of_nat i - of_nat d * f\<bar> \<le> 1"
    using mul_f64_error [OF assms(1) f2] unfolding rtcp_dither_def f_def [symmetric] by auto
  define e where "e = of_nat d * f64_eps"
  have "(of_nat d :: rat) < of_nat (2 ^ 48)" using assms(1) by (simp only: of_nat_less_iff)
  then have e: "0 \<le> e" "e < 1 / 8" by (simp_all add: e_def f64_eps_def)
  have "of_nat d * ((1 - f64_eps) / 2) \<le> of_nat d * f" and "of_nat d * f \<le> of_nat d * ((1 + f64_eps) * 3 / 2)"
    by (rule mult_left_mono [OF h(1)], simp) (rule mult_left_mono [OF h(2)], simp)
  then have "of_nat d / 2 - e / 2 \<le> of_nat d * f" "of_nat d * f \<le> 3 / 2 * of_nat d + 3 / 2 * e"
    by (simp_all add: e_def algebra_simps)
  with i(2) e have "(of_nat d :: rat) < of_nat (2 * i + 2) + 1" "(of_nat (2 * i) :: rat) < of_nat (3 * d + 2) + 1"
    by (auto simp: abs_le_iff)
  with i(1) show ?thesis by (blast dest: of_nat_less_one)
qed

lemma deterministic_min:
  "deterministic_rtcp_duration E we_sent self = Some d \<Longrightarrow> minimum_interval self mod 2 ^ 64 \<le> d"
  by (auto simp: deterministic_rtcp_duration_def Let_def bind_eq_Some_conv)

text \<open>
  Sessions whose RTCP interval fits: up to 480 members, packets of up to 70,000 bytes and a
  configured interval of less than a day.
\<close>

definition size_ok :: "('cs, 'cr) session_env \<Rightarrow> ('cs, 'cr) session \<Rightarrow> bool" where
  "size_ok E self \<longleftrightarrow> average_rtcp_size self \<le> 70000 \<and> n_members E self \<le> 480 \<and> min_rtcp_interval self < 2 ^ 46"

lemma rtcp_share_total:
  assumes "n_snd \<le> n_mem" and "400 \<le> bw"
  shows "\<exists>n bw'. rtcp_share n_snd n_mem bw we_sent = Some (n, bw') \<and> n \<le> n_mem \<and> 100 \<le> bw'"
proof -
  have "100 \<le> bw div 4" using assms(2) by linarith
  then show ?thesis using assms by (auto simp: rtcp_share_def usub_def)
qed

lemma n_senders_le: "n_senders E self \<le> n_members E self"
  by (simp add: n_senders_def n_members_def split: option.splits)

lemma scaled_div_bound:
  fixes c :: nat
  assumes "x \<le> m" and "100 \<le> bw"
  shows "(c * x + bw div 2) div bw \<le> c * m div 100 + 1"
proof -
  have "(c * x + bw div 2) div bw \<le> (c * m + bw) div bw"
    using assms by (intro div_le_mono add_mono mult_left_mono) auto
  also have "\<dots> = c * m div bw + 1" using assms(2) by simp
  also have "\<dots> \<le> c * m div 100 + 1" using div_le_mono2 [of 100 bw "c * m"] assms(2) by simp
  finally show ?thesis .
qed

lemma deterministic_total:
  assumes "gst_lib_spec (gst E)" and "size_ok E self"
  shows "\<exists>d. deterministic_rtcp_duration E we_sent self = Some d \<and> d < 2 ^ 48"
proof -
  let ?bw = "max (session_bandwidth E self div 20) RTCP_MIN_BANDWIDTH"
  obtain n bw where sh: "rtcp_share (n_senders E self) (n_members E self) ?bw we_sent = Some (n, bw)"
    "n \<le> n_members E self" "100 \<le> bw"
    using rtcp_share_total [OF n_senders_le, of ?bw E self we_sent] by (auto simp: RTCP_MIN_BANDWIDTH_def)
  define x where "x = average_rtcp_size self * max n 1"
  have "x \<le> 70000 * 480"
    unfolding x_def using assms(2) sh(2) by (intro mult_mono) (auto simp: size_ok_def)
  from scaled_div_bound [OF this sh(3), of compensation_ns]
  have b: "(compensation_ns * x + bw div 2) div bw < 2 ^ 48" by (simp add: compensation_ns_def)
  have m: "minimum_interval self mod 2 ^ 64 < 2 ^ 48"
    using assms(2) by (auto simp: minimum_interval_def size_ok_def SECOND_def)
  have bw: "max bw 1 = bw" "0 < bw" using sh(3) by auto
  have md: "mul_div_round (gst E) compensation_ns x bw = Some ((compensation_ns * x + bw div 2) div bw)"
    using b gst_lib_spec.round_spec [OF assms(1) bw(2), of compensation_ns x] by (simp add: fits_def)
  show ?thesis
    unfolding deterministic_rtcp_duration_def Let_def sh(1) bind.bind_lunit prod.case x_def [symmetric] bw(1) md
    using b m by simp
qed

lemma rtcp_interval_total:
  assumes "gst_lib_spec (gst E)" and "size_ok E self" and "0 \<le> r" and "r \<le> 1"
  shows "\<exists>i. rtcp_interval E r self = Some i \<and> i \<le> 2 ^ 49"
proof -
  obtain d where d: "deterministic_rtcp_duration E (local_senders self \<noteq> [] \<and> bye_state self = None) self = Some d"
    "d < 2 ^ 48" using deterministic_total [OF assms(1,2)] by blast
  obtain i where "rtcp_dither r d = Some i" "2 * i \<le> 3 * d + 2"
    using rtcp_dither_bounds [OF d(2) assms(3,4)] by blast
  with d show ?thesis by (simp add: rtcp_interval_def calculated_rtcp_duration_def)
qed

lemma feedback_interval_total:
  assumes "size_ok E self" and "0 \<le> r" and "r \<le> 1"
  shows "\<exists>i'. feedback_interval r i self = Some i' \<and> i \<le> i'"
proof -
  have "min_rtcp_interval self < 2 ^ 48" using assms(1) by (auto simp: size_ok_def)
  from rtcp_dither_bounds [OF this assms(2,3)] show ?thesis by (auto simp: feedback_interval_def)
qed

section \<open>What a transmission leaves alone\<close>

text \<open>
  The schedule, the limits of the caches and the settings, which generating packets and the
  timeouts do not touch, and the number of local sources.
\<close>

definition frame_of where
  "frame_of E self = (next_rtcp_send self, last_rtcp_handle_time self, t_rr self, last_rtcp_sent_times self,
     next_early_rtcp_time self, bye_state self, min_rtcp_interval self, profile self, average_rtcp_size self,
     lru_cap (snd_ops E) (remote_senders self), lru_cap (rcv_ops E) (remote_receivers self))"

definition local_count :: "('cs, 'cr) session \<Rightarrow> nat" where
  "local_count self = length (local_senders self) + length (local_receivers self)"

lemma frame_of_unaffected [simp]:
  "frame_of E (self\<lparr>local_senders := x1\<rparr>) = frame_of E self"
  "frame_of E (self\<lparr>local_receivers := x2\<rparr>) = frame_of E self"
  "frame_of E (self\<lparr>internal_rtcp_sender_src := x5\<rparr>) = frame_of E self"
  "frame_of E (self\<lparr>pending_rtcp_send := x6\<rparr>) = frame_of E self"
  "frame_of E (self\<lparr>is_point_to_point := x8\<rparr>) = frame_of E self"
  "frame_of E (self\<lparr>conflicting_addresses := x9\<rparr>) = frame_of E self"
  "frame_of E (self\<lparr>timed_out_ssrcs := x10\<rparr>) = frame_of E self"
  by (simp_all add: frame_of_def)

lemma length_hm:
  "length (hm_modify k f m) = length m" "length (hm_insert k v m) \<le> Suc (length m)"
  "length (hm_remove k m) \<le> length m" "map_of m k \<noteq> None \<Longrightarrow> length (hm_remove k m) < length m"
proof -
  show "length (hm_modify k f m) = length m" by (simp add: hm_modify_def)
  show "length (hm_insert k v m) \<le> Suc (length m)"
    by (induction m rule: hm_insert.induct [case_names Nil Cons]) auto
  show "length (hm_remove k m) \<le> length m" by (simp add: hm_remove_def)
  show "map_of m k \<noteq> None \<Longrightarrow> length (hm_remove k m) < length m"
    unfolding hm_remove_def by (rule length_filter_less [of "(k, the (map_of m k))"]) (auto dest: map_of_SomeD)
qed

lemma frame_of_updates [simp]:
  "frame_of E (update_point_to_point E' self) = frame_of E self"
  "frame_of E (become_receiver ssrc self) = frame_of E self"
  "frame_of E (bye_sent now ssrc self) = frame_of E self"
  by (simp_all add: update_point_to_point_def become_receiver_def bye_sent_def Let_def split: option.splits)

lemma local_count_updates:
  "local_count (become_receiver ssrc self) \<le> local_count self"
  "local_count (bye_sent now ssrc self) = local_count self"
proof -
  show "local_count (become_receiver ssrc self) \<le> local_count self"
  proof (cases "map_of (local_senders self) ssrc")
    case (Some source)
    with length_hm(4) [of "local_senders self" ssrc]
      length_hm(2) [of "src_ssrc (ls_source source)" "ls_into_receive source" "local_receivers self"]
    show ?thesis by (simp add: become_receiver_def local_count_def)
  qed (simp add: become_receiver_def)
  show "local_count (bye_sent now ssrc self) = local_count self"
    by (simp add: bye_sent_def local_count_def length_hm Let_def)
qed

lemma ensure_internal_frame:
  "ensure_internal_send_src E draws clock self = Some (ssrc, self') \<Longrightarrow>
    frame_of E self' = frame_of E self \<and> local_count self' \<le> local_count self + 1
    \<and> internal_rtcp_sender_src self' = Some ssrc"
  by (drule ensure_internal_cases) (auto simp: local_count_def length_hm)

lemma fold_same: "(\<And>x st. f (g x st) = f st) \<Longrightarrow> f (fold g xs st) = f st"
  by (induction xs arbitrary: st) simp_all

lemma fold_le: "(\<And>x st. (f (g x st) :: nat) \<le> f st) \<Longrightarrow> f (fold g xs st) \<le> f st"
  by (induction xs arbitrary: st) (auto intro: order_trans)

lemma generate_bye_frame:
  "frame_of E (snd (generate_bye rtcp now self)) = frame_of E self
    \<and> local_count (snd (generate_bye rtcp now self)) = local_count self"
  by (simp add: generate_bye_def Let_def fold_same [where f = "frame_of E"]
      fold_same [where f = local_count] local_count_updates)

lemma generate_sr_frame:
  assumes "generate_sr E rtcp now ntp_now minimum reported self = Some (rtcp', reported', self')"
  shows "frame_of E self' = frame_of E self \<and> local_count self' = local_count self"
proof -
  have "length (fold (\<lambda>(ssrc, ts). hm_modify ssrc (take_sr_snapshot ntp_now ntp_time ts)) snaps m) = length m"
    for ntp_time snaps m
    by (rule fold_same) (auto simp: length_hm)
  with assms show ?thesis
    by (auto simp: generate_sr_def bind_eq_Some_conv Let_def local_count_def split: if_splits)
qed

lemma generate_rr_frame:
  assumes "generate_rr E draws clock rtcp now ntp_now minimum reported self = Some (rtcp', reported', self')"
  shows "frame_of E self' = frame_of E self \<and> local_count self' \<le> local_count self + 1"
  using assms [unfolded generate_rr_def Let_def]
  by (auto simp: bind_eq_Some_conv local_count_def length_hm(1) split: if_splits dest!: ensure_internal_frame)

context session_lib
begin

lemma frame_of_remote [simp]:
  "lru_cap (snd_ops E) c = lru_cap (snd_ops E) (remote_senders self) \<Longrightarrow>
    frame_of E (self\<lparr>remote_senders := c\<rparr>) = frame_of E self"
  "lru_cap (rcv_ops E) d = lru_cap (rcv_ops E) (remote_receivers self) \<Longrightarrow>
    frame_of E (self\<lparr>remote_receivers := d\<rparr>) = frame_of E self"
  by (simp_all add: frame_of_def)

lemma generate_pli_frame:
  assumes "generate_pli E draws clock rtcp self = Some (rtcp', self')"
  shows "frame_of E self' = frame_of E self \<and> local_count self' \<le> local_count self + 1"
proof -
  obtain ssrc self1 where e: "ensure_internal_send_src E draws clock self = Some (ssrc, self1)"
    and f: "fold (pli_step E ssrc) (senders E self1) (rtcp, self1) = (rtcp', self')"
    using assms by (auto simp: generate_pli_def bind_eq_Some_conv)
  have "frame_of E (snd (fold (pli_step E ssrc) (senders E self1) (rtcp, self1))) = frame_of E (snd (rtcp, self1))"
    by (rule fold_same) (simp add: pli_step_def case_prod_beta s.assign_spec)
  moreover have "local_count (snd (fold (pli_step E ssrc) (senders E self1) (rtcp, self1))) = local_count (snd (rtcp, self1))"
    by (rule fold_same) (simp add: pli_step_def case_prod_beta local_count_def)
  ultimately show ?thesis using f ensure_internal_frame [OF e] by simp
qed

lemma generate_fir_frame:
  assumes "generate_fir E draws clock rtcp self = Some (rtcp', self')"
  shows "frame_of E self' = frame_of E self \<and> local_count self' \<le> local_count self + 1"
proof -
  obtain fir have_fir self1 where
    f: "fold (fir_step E) (senders E self) ([], False, self) = (fir, have_fir, self1)" by (rule prod_cases3)
  have "frame_of E (snd (snd (fold (fir_step E) (senders E self) ([], False, self))))
      = frame_of E (snd (snd ([] :: (u32 \<times> u8) list, False, self)))"
    by (rule fold_same [where f = "\<lambda>st. frame_of E (snd (snd st))"])
      (simp add: fir_step_def case_prod_beta s.assign_spec)
  moreover have "local_count (snd (snd (fold (fir_step E) (senders E self) ([], False, self))))
      = local_count (snd (snd ([] :: (u32 \<times> u8) list, False, self)))"
    by (rule fold_same [where f = "\<lambda>st. local_count (snd (snd st))"])
      (simp add: fir_step_def case_prod_beta local_count_def)
  ultimately have "frame_of E self1 = frame_of E self" "local_count self1 = local_count self" using f by simp_all
  with assms f show ?thesis
    by (auto simp: generate_fir_def bind_eq_Some_conv split: if_splits dest!: ensure_internal_frame)
qed

lemma generate_rtcp_frame:
  assumes "generate_rtcp E draws clock now ntp_now is_early self = Some (rtcp, reported, self')"
  shows "frame_of E self' = frame_of E self \<and> local_count self' \<le> local_count self + 3"
  using assms
proof (cases rule: generate_rtcp_steps)
  case (steps rtcp1 rep1 self1 rtcp2 self2 rtcp3 self3 rtcp4 self4)
  show ?thesis
    using generate_sr_frame [OF steps(1)] generate_rr_frame [OF steps(2)] generate_pli_frame [OF steps(3)]
      generate_fir_frame [OF steps(4)] generate_bye_frame [of E rtcp4 now self4] steps(5) by simp
qed

lemma handle_timeouts_frame:
  assumes "handle_timeouts E now self = Some (timed_out, self')"
  shows "frame_of E self' = frame_of E self \<and> local_count self' \<le> local_count self"
proof -
  obtain dur where dur: "deterministic_rtcp_duration E False self = Some dur"
    using assms by (auto simp: handle_timeouts_def bind_eq_Some_conv)
  obtain cs cr removed m td where caps: "lru_cap (snd_ops E) cs = lru_cap (snd_ops E) (remote_senders self)"
      "lru_cap (rcv_ops E) cr = lru_cap (rcv_ops E) (remote_receivers self)"
    and self': "self' = (fold become_receiver removed (after_timeouts E now td cs cr self))\<lparr>conflicting_addresses := m\<rparr>"
    using handle_timeouts_eq [OF dur refl, of now] assms by auto
  let ?a = "after_timeouts E now td cs cr self"
  have "frame_of E ?a = frame_of E self" "local_count ?a \<le> local_count self"
    using caps by (simp_all add: after_timeouts_def Let_def local_count_def)
  moreover have "frame_of E (fold become_receiver removed ?a) = frame_of E ?a"
    by (rule fold_same) simp
  moreover have "local_count (fold become_receiver removed ?a) \<le> local_count ?a"
    by (rule fold_le) (rule local_count_updates)
  ultimately show ?thesis unfolding self' by (simp add: local_count_def)
qed

end

section \<open>Transmissions do not panic\<close>

lemma report_blocks_total:
  assumes "gst_lib_spec L" and "\<forall>e \<in> set es. rs_ok (snd e)"
  shows "\<exists>rbs reported'. report_blocks L ntp_now es reported = Some (rbs, reported')
    \<and> length rbs = count_normal rs_state es"
  using assms(2)
proof (induction es arbitrary: reported)
  case (Cons e es)
  obtain k sender where e: "e = (k, sender)" by (rule prod.exhaust)
  obtain rb where "generate_report_block L sender ntp_now = Some rb"
    using gst_lib_spec.generate_report_block_total [OF assms(1)] Cons.prems e by fastforce
  then show ?case
    using Cons.IH [of reported] Cons.IH [of "report_ssrc (src_ssrc (rs_source sender)) reported"] Cons.prems
    by (auto simp: e count_normal_def)
qed (simp add: count_normal_def)

lemma sr_loop_total:
  assumes "gst_lib_spec (gst E)" and "\<forall>e \<in> set (senders E self). rs_ok (snd e)"
  shows "\<exists>x. sr_loop E now ntp_now ntp_time minimum self es reported internal = Some x"
proof (induction es arbitrary: reported internal)
  case (Cons e es)
  obtain k sender where e: "e = (k, sender)" by (rule prod.exhaust)
  let ?r = "report_ssrc (src_ssrc (ls_source sender)) reported"
  let ?i = "case internal of None \<Rightarrow> Some (src_ssrc (ls_source sender)) | Some i \<Rightarrow> Some i"
  obtain rbs rep where rbs: "report_blocks (gst E) ntp_now (senders E self) ?r = Some (rbs, rep)"
    using report_blocks_total [OF assms] by blast
  obtain srs rep' snaps i' where "sr_loop E now ntp_now ntp_time minimum self es rep ?i = Some (srs, rep', snaps, i')"
    using Cons.IH [of rep ?i] by (auto simp: split_paired_Ex)
  then show ?case using Cons.IH [of reported internal] rbs by (cases minimum) (simp_all add: e Let_def)
qed simp

lemma sr_loop_internal:
  "sr_loop E now ntp_now ntp_time minimum self es reported internal = Some (srs, rep, snaps, internal') \<Longrightarrow>
    internal \<noteq> None \<Longrightarrow> internal' = internal"
proof (induction es arbitrary: reported srs rep snaps)
  case (Cons e es)
  obtain k sender where e: "e = (k, sender)" by (rule prod.exhaust)
  from Cons show ?case
    by (auto simp: e Let_def bind_eq_Some_conv split: if_splits option.splits)
qed simp

lemma draw_ssrc_total: "\<exists>x \<in> set draws. \<not> have_ssrc E self x \<Longrightarrow> \<exists>ssrc. draw_ssrc E self draws = Some ssrc"
  by (induction draws) auto

text \<open>An internal SSRC is known, or one of the draws is free.\<close>

definition can_draw :: "('cs, 'cr) session_env \<Rightarrow> u32 list \<Rightarrow> ('cs, 'cr) session \<Rightarrow> bool" where
  "can_draw E draws self \<longleftrightarrow> internal_rtcp_sender_src self \<noteq> None \<or> (\<exists>x \<in> set draws. \<not> have_ssrc E self x)"

lemma ensure_internal_total:
  "can_draw E draws self \<Longrightarrow> \<exists>ssrc self'. ensure_internal_send_src E draws clock self = Some (ssrc, self')"
  by (cases "internal_rtcp_sender_src self")
    (auto simp: can_draw_def ensure_internal_send_src_def Let_def dest!: draw_ssrc_total)

lemma generate_sr_total:
  assumes "gst_lib_spec (gst E)" and "\<forall>e \<in> set (senders E self). rs_ok (snd e)" and "0 \<le> ntp_now"
    and "can_draw E draws self"
  shows "\<exists>rtcp' reported' self'. generate_sr E rtcp now ntp_now minimum reported self = Some (rtcp', reported', self')
    \<and> can_draw E draws self' \<and> remote_senders self' = remote_senders self"
proof -
  obtain ntp where ntp: "system_time_to_ntp_time_u64 (gst E) ntp_now = Some ntp"
    using assms(3) gst_lib_spec.from_duration_full [OF assms(1)]
    by (simp add: system_time_to_ntp_time_u64_def duration_since_def)
  obtain srs rep snaps i where sr: "sr_loop E now ntp_now ntp minimum self (local_senders self) reported
      (internal_rtcp_sender_src self) = Some (srs, rep, snaps, i)"
    using sr_loop_total [OF assms(1,2)] by (metis prod_cases4)
  let ?ls = "fold (\<lambda>(ssrc, ts). hm_modify ssrc (take_sr_snapshot ntp_now ntp ts)) snaps (local_senders self)"
  have "map fst ?ls = map fst (local_senders self)"
    by (rule fold_same [where f = "map fst"]) (auto simp: hm_modify_map_fst)
  then have "fst ` set ?ls = fst ` set (local_senders self)" by (metis image_set)
  then have "have_ssrc E (self\<lparr>internal_rtcp_sender_src := i, local_senders := ?ls\<rparr>) x = have_ssrc E self x" for x
    unfolding have_ssrc_def map_of_eq_None_iff by simp
  moreover have "i \<noteq> None \<or> internal_rtcp_sender_src self = None" using sr_loop_internal [OF sr] by blast
  ultimately have "can_draw E draws (self\<lparr>internal_rtcp_sender_src := i, local_senders := ?ls\<rparr>)"
    using assms(4) by (auto simp: can_draw_def)
  with assms(4) show ?thesis by (simp add: generate_sr_def ntp sr)
qed

lemma session_ok_senders: "session_ok E self \<Longrightarrow> \<forall>e \<in> set (senders E self). rs_ok (snd e)"
  by (auto dest!: senders_entry simp: send_entry_def)

lemma generate_rr_total:
  assumes "gst_lib_spec (gst E)" and "\<forall>e \<in> set (senders E self). rs_ok (snd e)" and "can_draw E draws self"
  shows "\<exists>rtcp' reported' self'. generate_rr E draws clock rtcp now ntp_now minimum reported self
      = Some (rtcp', reported', self') \<and> can_draw E draws self'"
proof -
  obtain ssrc self1 where e: "ensure_internal_send_src E draws clock self = Some (ssrc, self1)"
    using ensure_internal_total [OF assms(3)] by blast
  have s1: "internal_rtcp_sender_src self1 = Some ssrc" "remote_senders self1 = remote_senders self"
    using ensure_internal_cases [OF e] by auto
  let ?self = "self1\<lparr>local_senders := hm_modify ssrc (ls_set_last_activity now) (local_senders self1),
    local_receivers := hm_modify ssrc (lr_set_last_activity now) (local_receivers self1)\<rparr>"
  obtain rbs rep where rbs: "report_blocks (gst E) ntp_now (senders E self) reported = Some (rbs, rep)"
    using report_blocks_total [OF assms(1,2)] by blast
  have "can_draw E draws ?self" using s1 by (simp add: can_draw_def)
  with assms(3) rbs s1 show ?thesis by (cases minimum) (simp_all add: generate_rr_def e Let_def)
qed

text \<open>
  A session that stays small: with room for at most 477 sources in the caches and locally,
  whatever a transmission adds.
\<close>

definition small :: "nat \<Rightarrow> ('cs, 'cr) session_env \<Rightarrow> ('cs, 'cr) session \<Rightarrow> bool" where
  "small n E self \<longleftrightarrow> bye_state self = None \<and> average_rtcp_size self \<le> 70000 \<and> min_rtcp_interval self < 2 ^ 46
     \<and> lru_cap (snd_ops E) (remote_senders self) + lru_cap (rcv_ops E) (remote_receivers self)
       + local_count self \<le> n"

lemma small_frame:
  "small n E self \<Longrightarrow> frame_of E self' = frame_of E self \<Longrightarrow> local_count self' \<le> local_count self + k \<Longrightarrow>
    small (n + k) E self'"
  by (auto simp: small_def frame_of_def)

lemma small_size:
  assumes "session_ok E self" and "small 480 E self"
  shows "size_ok E self"
proof -
  have le: "count_normal st es \<le> length es" for st :: "'x \<Rightarrow> source_state" and es
    by (simp add: count_normal_def)
  have "length (senders E self) \<le> lru_cap (snd_ops E) (remote_senders self)"
    "length (receivers E self) \<le> lru_cap (rcv_ops E) (remote_receivers self)"
    using session_ok_parts(1) [OF assms(1)] by (auto simp: remote_ok_def cache_wf_def)
  with assms(2) le [of ls_state "local_senders self"] le [of lr_state "local_receivers self"]
    le [of rs_state "senders E self"] le [of rr_state "receivers E self"]
  show ?thesis by (auto simp: size_ok_def small_def n_members_def local_count_def)
qed

lemma size_ok_updates [simp]:
  "size_ok E (update_point_to_point E' self) = size_ok E self" "size_ok E (self\<lparr>t_rr := x\<rparr>) = size_ok E self"
  "size_ok E (self\<lparr>pending_rtcp_send := y\<rparr>) = size_ok E self"
  by (simp_all add: size_ok_def update_point_to_point_def n_members_def split: option.splits)

context session_lib
begin

lemma generate_pli_total:
  assumes "can_draw E draws self"
  shows "\<exists>rtcp' self'. generate_pli E draws clock rtcp self = Some (rtcp', self')
    \<and> internal_rtcp_sender_src self' \<noteq> None"
proof -
  obtain ssrc self1 where e: "ensure_internal_send_src E draws clock self = Some (ssrc, self1)"
    using ensure_internal_total [OF assms] by blast
  have "internal_rtcp_sender_src (snd (fold (pli_step E ssrc) (senders E self1) (rtcp, self1)))
      = internal_rtcp_sender_src (snd (rtcp, self1))"
    by (rule fold_same) (simp add: pli_step_def case_prod_beta)
  with ensure_internal_frame [OF e] show ?thesis
    by (auto simp: generate_pli_def e intro!: exI [of _ "fst (fold (pli_step E ssrc) (senders E self1) (rtcp, self1))"]
        exI [of _ "snd (fold (pli_step E ssrc) (senders E self1) (rtcp, self1))"])
qed

lemma generate_fir_total:
  assumes "internal_rtcp_sender_src self \<noteq> None"
  shows "\<exists>rtcp' self'. generate_fir E draws clock rtcp self = Some (rtcp', self')"
proof -
  obtain fir have_fir self1 where
    f: "fold (fir_step E) (senders E self) ([], False, self) = (fir, have_fir, self1)" by (rule prod_cases3)
  have "internal_rtcp_sender_src (snd (snd (fold (fir_step E) (senders E self) ([], False, self))))
      = internal_rtcp_sender_src (snd (snd ([] :: (u32 \<times> u8) list, False, self)))"
    by (rule fold_same [where f = "\<lambda>st. internal_rtcp_sender_src (snd (snd st))"])
      (simp add: fir_step_def case_prod_beta)
  with f assms show ?thesis by (auto simp: generate_fir_def ensure_internal_send_src_def)
qed

lemma generate_rtcp_total:
  assumes "session_ok E self" and "0 \<le> ntp_now" and "can_draw E draws self"
  shows "\<exists>rtcp reported self'. generate_rtcp E draws clock now ntp_now is_early self = Some (rtcp, reported, self')"
proof -
  note ok = session_ok_senders [OF assms(1)]
  obtain rtcp1 rep1 self1 where 1: "generate_sr E [] now ntp_now is_early [] self = Some (rtcp1, rep1, self1)"
    "can_draw E draws self1" "remote_senders self1 = remote_senders self"
    using generate_sr_total [OF gst_ok ok assms(2,3)] by blast
  obtain rtcp2 rep2 self2 where
    2: "generate_rr E draws clock rtcp1 now ntp_now is_early rep1 self1 = Some (rtcp2, rep2, self2)"
    "can_draw E draws self2"
    using generate_rr_total [OF gst_ok _ 1(2)] ok 1(3) by metis
  obtain rtcp3 self3 where
    3: "generate_pli E draws clock (generate_sdes E rtcp2 is_early self2) self2 = Some (rtcp3, self3)"
    "internal_rtcp_sender_src self3 \<noteq> None" using generate_pli_total [OF 2(2)] by blast
  obtain rtcp4 self4 where "generate_fir E draws clock rtcp3 self3 = Some (rtcp4, self4)"
    using generate_fir_total [OF 3(2)] by blast
  with 1(1) 2(1) 3(1) show ?thesis by (simp add: generate_rtcp_def case_prod_beta)
qed

lemma schedule_regular_total:
  assumes "session_ok E self" and "small 480 E self"
    and r: "0 \<le> r2" "r2 \<le> 1" "0 \<le> r3" "r3 \<le> 1"
  shows "\<exists>self' t. schedule_regular E r2 r3 now self = Some self' \<and> tm_time (next_rtcp_send self') = Some t
    \<and> now \<le> t \<and> last_rtcp_sent_times self' = take 2 (now # last_rtcp_sent_times self)"
proof -
  obtain dur where "deterministic_rtcp_duration E False self = Some dur"
    using deterministic_total [OF gst_ok small_size [OF assms(1,2)]] by blast
  then obtain timed_out self1 where h: "handle_timeouts E now self = Some (timed_out, self1)"
    using handle_timeouts_eq [OF _ refl, of self dur now] by auto
  define self2 where "self2 = update_point_to_point E (if timed_out \<noteq> []
    then self1\<lparr>pending_rtcp_send := SendSsrcTimedOut timed_out # pending_rtcp_send self1\<rparr> else self1)"
  have "small 480 E self1"
    using small_frame [OF assms(2), of self1 0] handle_timeouts_frame [OF h] by simp
  then have sz: "size_ok E self2"
    using small_size [OF handle_timeouts_ok [OF assms(1) h]] by (simp add: self2_def)
  obtain i where i: "rtcp_interval E r2 self2 = Some i" using rtcp_interval_total [OF gst_ok sz r(1,2)] by blast
  obtain i' where i': "feedback_interval r3 i (self2\<lparr>t_rr := Some i\<rparr>) = Some i'"
    using feedback_interval_total [of E "self2\<lparr>t_rr := Some i\<rparr>" r3 i] sz r(3,4) by auto
  have "last_rtcp_sent_times self2 = last_rtcp_sent_times self"
    using handle_timeouts_frame [OF h] by (simp add: self2_def update_point_to_point_def frame_of_def)
  then show ?thesis
    unfolding schedule_regular_def h bind.bind_lunit prod.case Let_def self2_def [symmetric] i i' by simp
qed

lemma small_after_sending:
  assumes "small m E self" and "n < RTCP_MTU"
  shows "small m E (after_sending E reported n self)"
proof -
  have "lru_cap (snd_ops E) (fold (\<lambda>ssrc. lru_modify (snd_ops E) ssrc update_last_rtcp) reported c)
      = lru_cap (snd_ops E) c" for c
    by (rule fold_same [where f = "lru_cap (snd_ops E)"])
      (simp add: lru_modify_def s.assign_spec s.get_mut_spec(3) case_prod_beta split: option.splits)
  moreover have "(k + 28 + a * 15) div 16 \<le> 70000" if "k < 1200" "a \<le> 70000" for k a :: nat
    using that by linarith
  ultimately show ?thesis
    using assms by (simp add: small_def after_sending_def update_rtcp_average_def local_count_def
        RTCP_MTU_def UDP_IP_OVERHEAD_BYTES_def)
qed

lemma poll_total:
  assumes "session_ok E self" and "pending_rtcp_send self = []"
    and "tm_time (next_rtcp_send self) = Some next_time" and "\<not> early_due self"
    and "last_rtcp_handle_time self = Some h" and "next_time \<le> now"
    and due: "\<And>i. rtcp_interval E (rng_f1 rng) (update_point_to_point E self) = Some i \<Longrightarrow> h + i \<le> now"
    and "small 477 E self" and "0 \<le> ntp_now" and "can_draw E (rng_ssrcs rng) self"
    and "\<And>rtcp reported self2. generate_rtcp E (rng_ssrcs rng) clock now ntp_now False (update_point_to_point E self)
      = Some (rtcp, reported, self2) \<Longrightarrow>
      \<exists>n data. calculate_size E rtcp = Some n \<and> n < RTCP_MTU \<and> write_into E rtcp = Some data"
    and r: "0 \<le> rng_f1 rng" "rng_f1 rng \<le> 1" "0 \<le> rng_f2 rng" "rng_f2 rng \<le> 1" "0 \<le> rng_f3 rng" "rng_f3 rng \<le> 1"
  shows "\<exists>data self' t. poll_rtcp_send E rng clock now ntp_now self = Some (Some (Data data), self')
    \<and> tm_time (next_rtcp_send self') = Some t \<and> now \<le> t
    \<and> last_rtcp_sent_times self' = take 2 (now # last_rtcp_sent_times self)"
proof -
  let ?self = "update_point_to_point E self"
  have sm: "small 477 E ?self" and ok: "session_ok E ?self" and dr: "can_draw E (rng_ssrcs rng) ?self"
    using assms by (simp_all add: small_def update_point_to_point_def local_count_def can_draw_def have_ssrc_def)
  have "small 480 E ?self" using sm by (simp add: small_def)
  then obtain i where i: "rtcp_interval E (rng_f1 rng) ?self = Some i"
    using rtcp_interval_total [OF gst_ok small_size [OF ok] r(1,2)] by blast
  have t: "time_to_send E (rng_f1 rng) False next_time now self = Some (True, ?self)"
    using assms(5,6) i due [OF i] by (simp add: time_to_send_def Let_def update_point_to_point_def)
  obtain rtcp reported self2 where
    g: "generate_rtcp E (rng_ssrcs rng) clock now ntp_now False ?self = Some (rtcp, reported, self2)"
    using generate_rtcp_total [OF ok assms(9) dr] by blast
  obtain n data where n: "calculate_size E rtcp = Some n" "n < RTCP_MTU" "write_into E rtcp = Some data"
    using assms(11) [OF g] by blast
  note fr = generate_rtcp_frame [OF g]
  have ok4: "session_ok E (after_sending E reported n self2)"
    using modify_reported_ok [OF generate_rtcp_ok [OF ok g]] by (simp add: after_sending_def)
  have sm4: "small 480 E (after_sending E reported n self2)"
    using small_after_sending [OF small_frame [OF sm, of self2 3] n(2)] fr by simp
  obtain self' t where sr: "schedule_regular E (rng_f2 rng) (rng_f3 rng) now (after_sending E reported n self2) = Some self'"
    "tm_time (next_rtcp_send self') = Some t" "now \<le> t"
    "last_rtcp_sent_times self' = take 2 (now # last_rtcp_sent_times (after_sending E reported n self2))"
    using schedule_regular_total [OF ok4 sm4 r(3-6)] by blast
  have "last_rtcp_sent_times (after_sending E reported n self2) = last_rtcp_sent_times self"
    using fr by (simp add: after_sending_def update_rtcp_average_def frame_of_def update_point_to_point_def)
  with assms(4) t g n sr show ?thesis
    by (simp add: poll_rtcp_send_eq [OF assms(2,3)] rust_assert_def)
qed

end

end
