(* ===== verification/Session_Facts.thy ===== *)
theory Session_Facts
  imports Session_Schedule
begin

text \<open>
  The properties of the RTP session: its invariant, the RTCP interval and the transmission times,
  the choice of its SSRC, the timeouts of its sources, and the handling of new and colliding
  sources.
\<close>

section \<open>Lemmas\<close>

lemma finite_draws: 
  assumes "distinct draws" and "length (session_ssrcs E self) < length draws"
  shows "\<exists>x \<in> set draws. x \<notin> set (session_ssrcs E self)"
proof (rule ccontr)
  assume "\<not> ?thesis"
  then have "set draws \<subseteq> set (session_ssrcs E self)" by blast
  then have "card (set draws) \<le> length (session_ssrcs E self)"
    by (meson List.finite_set card_length card_mono order_trans)
  with assms show False by (simp add: distinct_card)
qed

text \<open>A remote sender that the session knows, with the address its packets come from.\<close>

definition known_sender ::
  "('cs, 'cr) session_env \<Rightarrow> u32 \<Rightarrow> socket_addr \<Rightarrow> remote_send_source \<Rightarrow> ('cs, 'cr) session \<Rightarrow> bool" where
  "known_sender E ssrc addr src self \<longleftrightarrow> map_of (local_senders self) ssrc = None
     \<and> map_of (receivers E self) ssrc = None \<and> map_of (senders E self) ssrc = Some src
     \<and> rs_rtp_from src = Some addr"

text \<open>What the timeouts take from the least recently used end of a cache.\<close>

lemma cache_rest_split:
  obtains gone where "es = cache_rest old es @ gone" and "\<forall>(k, v) \<in> set gone. old v"
    and "fst ` set gone = set (cache_dropped old es)"
    and "cache_rest old es = [] \<or> \<not> old (snd (last (cache_rest old es)))"
proof -
  let ?P = "\<lambda>(_, v). old v"
  have "es = rev (takeWhile ?P (rev es) @ dropWhile ?P (rev es))" by simp
  then have 1: "es = cache_rest old es @ rev (takeWhile ?P (rev es))"
    unfolding cache_rest_def rev_append by simp
  have 2: "\<forall>(k, v) \<in> set (rev (takeWhile ?P (rev es))). old v"
    using set_takeWhileD [of _ ?P "rev es"] by fastforce
  have 3: "cache_rest old es = [] \<or> \<not> old (snd (last (cache_rest old es)))"
  proof (cases "dropWhile ?P (rev es)")
    case (Cons e xs)
    then have "\<not> ?P e" using hd_dropWhile [of ?P "rev es"] by simp
    then show ?thesis by (simp add: cache_rest_def Cons case_prod_beta)
  qed (simp add: cache_rest_def)
  show thesis by (rule that [OF 1 2 _ 3]) (simp add: cache_dropped_def)
qed

text \<open>A local sender that becomes a receiver does not take the place of a receiver.\<close>

lemma become_receiver_other:
  assumes "session_ok E self" and "k \<notin> fst ` set (local_senders self)"
  shows "map_of (local_receivers (become_receiver ssrc self)) k = map_of (local_receivers self) k
    \<and> k \<notin> fst ` set (local_senders (become_receiver ssrc self))"
proof (cases "map_of (local_senders self) ssrc")
  case (Some source)
  note l = local_ok_lookup [OF session_ok_parts(2) [OF assms(1)] Some]
  have "k \<noteq> ssrc" using Some assms(2) by (metis map_of_eq_None_iff option.distinct(1))
  then show ?thesis using Some l assms(2) by (simp add: become_receiver_def hm_simps)
qed (use assms in \<open>simp add: become_receiver_def\<close>)

lemma fold_become_receiver_other:
  assumes "session_ok E self" and "k \<notin> fst ` set (local_senders self)"
  shows "map_of (local_receivers (fold become_receiver ssrcs self)) k = map_of (local_receivers self) k"
  using assms
proof (induction ssrcs arbitrary: self)
  case (Cons ssrc ssrcs)
  note b = become_receiver_other [OF Cons.prems, of ssrc]
  from Cons.IH [OF become_receiver_ok [OF Cons.prems(1)]] b show ?case by simp
qed simp

lemma recv_packet_from:
  assumes "recv_packet L g bytes time seqnum ts pt rate hid self = Some (reply, g', self')"
  shows "rs_rtp_from self' = rs_rtp_from self"
  using assms
proof (cases rule: recv_packet_cases)
  case (early n ext)
  from recv_packet_state_source [OF early(3)] show ?thesis by simp
next
  case (held n ext self1 h rest t0)
  from add_to_stats_source [OF held(6)] recv_packet_state_source [OF held(3)] show ?thesis by simp
next
  case (pass n ext self1 t0)
  from add_to_stats_source [OF pass(5)] recv_packet_state_source [OF pass(3)] show ?thesis by simp
qed simp

context session_lib
begin

lemma have_ssrc_iff: "have_ssrc E self x \<longleftrightarrow> x \<in> set (session_ssrcs E self)"
  unfolding have_ssrc_def session_ssrcs_def s.peek_spec r.peek_spec map_of_eq_None_iff by auto

lemma get_mut_pair:
  "lru_get_mut (snd_ops E) k c = (map_of (lru_iter (snd_ops E) c) k, snd (lru_get_mut (snd_ops E) k c))"
  "lru_pop (rcv_ops E) k d = (map_of (lru_iter (rcv_ops E) d) k, snd (lru_pop (rcv_ops E) k d))"
  by (metis prod.collapse s.get_mut_spec(1), metis prod.collapse r.pop_spec(1))

lemma recv_from_unknown:
  assumes "map_of (local_senders self) ssrc = None" and "map_of (receivers E self) ssrc = None"
    and "map_of (senders E self) ssrc = None \<or> (\<exists>src. known_sender E ssrc addr src self)"
  shows "recv_from E ssrc (Some addr) now self
    = (None, self\<lparr>remote_receivers := snd (lru_pop (rcv_ops E) ssrc (remote_receivers self)),
        remote_senders := snd (lru_get_mut (snd_ops E) ssrc (remote_senders self))\<rparr>)"
proof -
  obtain v c w d where get: "lru_get_mut (snd_ops E) ssrc (remote_senders self) = (v, c)"
    and pop: "lru_pop (rcv_ops E) ssrc (remote_receivers self) = (w, d)" by (metis prod.exhaust)
  have "v = map_of (senders E self) ssrc" "w = None"
    using assms(2) get_mut_pair(1) [of ssrc "remote_senders self"] get_mut_pair(2) [of ssrc "remote_receivers self"]
    by (simp_all add: get pop)
  with assms get pop show ?thesis by (auto simp: recv_from_def known_sender_def Let_def)
qed

lemma handle_recv_new:
  assumes "session_ok E self" and "map_of (local_senders self) (rtp_ssrc rtp) = None"
    and "map_of (receivers E self) (rtp_ssrc rtp) = None" and "map_of (senders E self) (rtp_ssrc rtp) = None"
  shows "\<exists>self' src. handle_recv E t0 clock rtp (Some addr) now self
      = Some (NewSsrc (rtp_ssrc rtp) (rtp_payload_type rtp), t0, self')
    \<and> known_sender E (rtp_ssrc rtp) addr src self' \<and> fresh_sender src
    \<and> pt_map self' = pt_map self \<and> hold_buffer_counter self' = hold_buffer_counter self"
proof -
  let ?k = "rtp_ssrc rtp" let ?src = "rs_set_rtp_from (Some addr) (RemoteSendSource_new ?k clock)"
  define c where "c = snd (lru_get_mut (snd_ops E) ?k (remote_senders self))"
  define c2 where "c2 = snd (lru_get_mut (snd_ops E) ?k c)"
  define d where "d = snd (lru_pop (rcv_ops E) ?k (remote_receivers self))"
  define self' where "self' = self\<lparr>remote_receivers := d, remote_senders := lru_push (snd_ops E) ?k ?src c2\<rparr>"
  note rf = recv_from_unknown [OF assms(2,3), of addr now, folded c_def d_def]
  have c: "map_of (lru_iter (snd_ops E) c) ?k = None"
    using assms(4) by (simp add: c_def s.get_mut_spec map_of_front)
  have get: "lru_get_mut (snd_ops E) ?k c = (None, c2)" using get_mut_pair(1) [of ?k c] c by (simp add: c2_def)
  have "handle_recv E t0 clock rtp (Some addr) now self = Some (NewSsrc ?k (rtp_payload_type rtp), t0, self')"
    using rf assms(4) get by (simp add: handle_recv_def self'_def Let_def)
  moreover have "0 < lru_cap (snd_ops E) c2"
    using session_ok_parts(1) [OF assms(1)]
    by (simp add: c2_def c_def s.get_mut_spec remote_ok_def cache_wf_def)
  then have "known_sender E ?k addr ?src self'"
    using assms(2) s.push_has [of c2 ?k ?src]
    by (simp add: known_sender_def self'_def d_def r.pop_spec map_of_without rs_set_rtp_from_def)
  moreover have "fresh_sender ?src"
    using fresh_sender_new [of ?k clock] by (simp add: fresh_sender_def rs_set_rtp_from_def rs_state_def)
  ultimately show ?thesis by (auto simp: self'_def)
qed

lemma handle_recv_known:
  assumes "known_sender E (rtp_ssrc rtp) addr src self"
    and "recv_source E t0 rtp now self src = Some (reply, t1, src')" and "rs_rtp_from src' = rs_rtp_from src"
  shows "\<exists>self'. handle_recv E t0 clock rtp (Some addr) now self = Some (recv_reply_of reply, t1, self')
    \<and> known_sender E (rtp_ssrc rtp) addr src' self' \<and> pt_map self' = pt_map self
    \<and> hold_buffer_counter self' = hold_buffer_counter self + (if is_hold reply then 1 else 0)"
proof -
  let ?k = "rtp_ssrc rtp"
  note k = assms(1) [unfolded known_sender_def]
  define c where "c = snd (lru_get_mut (snd_ops E) ?k (remote_senders self))"
  define c2 where "c2 = snd (lru_get_mut (snd_ops E) ?k c)"
  define d where "d = snd (lru_pop (rcv_ops E) ?k (remote_receivers self))"
  define self1 where "self1 = self\<lparr>remote_receivers := d, remote_senders := c\<rparr>"
  define self' where "self' = self1\<lparr>remote_senders := lru_assign (snd_ops E) ?k src' c2,
    hold_buffer_counter := hold_buffer_counter self + (if is_hold reply then 1 else 0)\<rparr>"
  have rf: "recv_from E ?k (Some addr) now self = (None, self1)"
    unfolding self1_def c_def d_def by (rule recv_from_unknown) (use k assms(1) in blast)+
  have c: "map_of (lru_iter (snd_ops E) c) ?k = Some src"
    using k by (simp add: c_def s.get_mut_spec map_of_front)
  have get: "lru_get_mut (snd_ops E) ?k (remote_senders self1) = (Some src, c2)"
    using get_mut_pair(1) [of ?k c] c by (simp add: c2_def self1_def)
  have rs: "recv_source E t0 rtp now self1 src = Some (reply, t1, src')"
    using assms(2) by (simp add: recv_source_def self1_def clock_rate_from_pt_def)
  have "handle_recv E t0 clock rtp (Some addr) now self = Some (recv_reply_of reply, t1, self')"
    using rf get rs [unfolded recv_source_def]
    by (simp add: handle_recv_def self'_def Let_def) (simp add: self1_def)
  moreover have "map_of (lru_iter (snd_ops E) c2) ?k = Some src"
    using c by (simp add: c2_def s.get_mut_spec map_of_front)
  then have "known_sender E ?k addr src' self'"
    using k assms(3)
    by (simp add: known_sender_def self'_def self1_def d_def r.pop_spec map_of_without s.assign_spec map_of_assign)
  ultimately show ?thesis by (simp add: self'_def self1_def)
qed

lemma new_source_sequence:
  assumes "session_ok E self" and "map_of (local_senders self) ssrc = None"
    and "map_of (receivers E self) ssrc = None" and "map_of (senders E self) ssrc = None"
    and rate: "rate_ok (pt_map self pt)"
    and p1: "rtp_ssrc p1 = ssrc" "rtp_payload_type p1 = pt"
    and p2: "rtp_ssrc p2 = ssrc" "rtp_payload_type p2 = pt" "rtp_sequence_number p2 = rtp_sequence_number p1 + 1"
  obtains t1 self1 self2 self3 self4 src where
    "handle_recv E t0 clock p1 (Some addr) now1 self = Some (NewSsrc ssrc pt, t0, self1)"
    "handle_recv E t0 clock p1 (Some addr) now1 self1 = Some (RecvHold (hold_buffer_counter self), t1, self2)"
    "handle_recv E t1 clock p2 (Some addr) now2 self2 = Some (RecvForward (hold_buffer_counter self), t1, self3)"
    "handle_recv E t1 clock p2 (Some addr) now2 self3 = Some (RecvPassthrough, t1, self4)"
    "remote_send_source_by_ssrc E self4 ssrc = Some src" "rs_state src = Normal" "rs_recv_packets src = 2"
    "hold_buffer_counter self4 = hold_buffer_counter self + 1"
proof -
  obtain self1 src0 where 1: "handle_recv E t0 clock p1 (Some addr) now1 self = Some (NewSsrc ssrc pt, t0, self1)"
    "known_sender E ssrc addr src0 self1" "fresh_sender src0" "pt_map self1 = pt_map self"
    "hold_buffer_counter self1 = hold_buffer_counter self"
    using handle_recv_new [of self p1 t0 clock addr now1] assms by auto
  let ?h = "hold_buffer_counter self" let ?t1 = "Some (case t0 of None \<Rightarrow> now1 | Some t \<Rightarrow> t)"
  obtain src1 src2 src3 where r:
    "recv_packet (gst E) t0 (word_of_nat (rtp_payload_len p1)) now1 (rtp_sequence_number p1) (rtp_timestamp p1) pt
      (pt_map self pt) ?h src0 = Some (Hold ?h, ?t1, src1)"
    "recv_packet (gst E) ?t1 (word_of_nat (rtp_payload_len p2)) now2 (rtp_sequence_number p1 + 1) (rtp_timestamp p2) pt
      (pt_map self pt) (?h + 1) src1 = Some (Forward ?h, ?t1, src2)"
    "recv_packet (gst E) ?t1 (word_of_nat (rtp_payload_len p2)) now2 (rtp_sequence_number p1 + 1) (rtp_timestamp p2) pt
      (pt_map self pt) (?h + 1) src2 = Some (Passthrough, ?t1, src3)"
    "rs_state src3 = Normal" "rs_recv_packets src3 = 2"
    by (rule probation_sequence [OF gst_ok rate refl 1(3), of t0 "word_of_nat (rtp_payload_len p1)" now1
      "rtp_sequence_number p1" "rtp_timestamp p1" pt ?h "word_of_nat (rtp_payload_len p2)" now2 "rtp_timestamp p2" "?h + 1"])
  have rf: "rs_rtp_from src1 = rs_rtp_from src0" "rs_rtp_from src2 = rs_rtp_from src1" "rs_rtp_from src3 = rs_rtp_from src2"
    using recv_packet_from [OF r(1)] recv_packet_from [OF r(2)] recv_packet_from [OF r(3)] by simp_all
  have s1: "recv_source E t0 p1 now1 self1 src0 = Some (Hold ?h, ?t1, src1)"
    using r(1) 1 p1 by (simp add: recv_source_def clock_rate_from_pt_def)
  obtain self2 where 2: "handle_recv E t0 clock p1 (Some addr) now1 self1 = Some (RecvHold ?h, ?t1, self2)"
    "known_sender E ssrc addr src1 self2" "pt_map self2 = pt_map self" "hold_buffer_counter self2 = ?h + 1"
    using handle_recv_known [OF _ s1 rf(1), of addr clock] 1 p1
    by (auto simp: recv_reply_of_def is_hold_def)
  have s2: "recv_source E ?t1 p2 now2 self2 src1 = Some (Forward ?h, ?t1, src2)"
    using r(2) 2 p2 by (simp add: recv_source_def clock_rate_from_pt_def)
  obtain self3 where 3: "handle_recv E ?t1 clock p2 (Some addr) now2 self2 = Some (RecvForward ?h, ?t1, self3)"
    "known_sender E ssrc addr src2 self3" "pt_map self3 = pt_map self" "hold_buffer_counter self3 = ?h + 1"
    using handle_recv_known [OF _ s2 rf(2), of addr clock] 2 p2
    by (auto simp: recv_reply_of_def is_hold_def)
  have s3: "recv_source E ?t1 p2 now2 self3 src2 = Some (Passthrough, ?t1, src3)"
    using r(3) 3 p2 by (simp add: recv_source_def clock_rate_from_pt_def)
  obtain self4 where 4: "handle_recv E ?t1 clock p2 (Some addr) now2 self3 = Some (RecvPassthrough, ?t1, self4)"
    "known_sender E ssrc addr src3 self4" "hold_buffer_counter self4 = ?h + 1"
    using handle_recv_known [OF _ s3 rf(3), of addr clock] 3 p2
    by (auto simp: recv_reply_of_def is_hold_def)
  show ?thesis
    by (rule that [OF 1(1) 2(1) 3(1) 4(1) _ r(4,5) 4(3)])
      (use 4(2) in \<open>simp add: remote_send_source_by_ssrc_def s.peek_spec known_sender_def\<close>)
qed

lemma schedule_regular_fields:
  assumes "schedule_regular E r2 r3 now self = Some self'"
  shows "\<exists>t. tm_time (next_rtcp_send self') = Some t \<and> now \<le> t
    \<and> last_rtcp_sent_times self' = take 2 (now # last_rtcp_sent_times self)"
proof -
  obtain timed_out self1 where h: "handle_timeouts E now self = Some (timed_out, self1)"
    using assms by (auto simp: schedule_regular_def bind_eq_Some_conv)
  have "last_rtcp_sent_times self1 = last_rtcp_sent_times self"
    using handle_timeouts_frame [OF h] by (simp add: frame_of_def)
  then show ?thesis
    using assms by (auto simp: schedule_regular_def h bind_eq_Some_conv Let_def update_point_to_point_def)
qed

lemma sent_when_due:
  assumes "session_ok E self" and "poll_rtcp_send E rng clock now ntp_now self = Some (Some (Data data), self')"
  shows "\<exists>next_time. tm_time (next_rtcp_send self) = Some next_time
    \<and> last_rtcp_handle_time self' = Some now \<and> next_early_rtcp_time self' = None
    \<and> (if early_due self
       then (\<exists>t. next_early_rtcp_time self = Some t \<and> t \<le> now) \<and> next_rtcp_send self' = next_rtcp_send self
         \<and> last_rtcp_sent_times self' = last_rtcp_sent_times self
       else next_time \<le> now
         \<and> (\<exists>h i. last_rtcp_handle_time self = Some h
              \<and> rtcp_interval E (rng_f1 rng) (update_point_to_point E self) = Some i \<and> h + i \<le> now)
         \<and> (\<exists>t. tm_time (next_rtcp_send self') = Some t \<and> now \<le> t)
         \<and> last_rtcp_sent_times self' = take 2 (now # last_rtcp_sent_times self))"
  using assms(2)
proof (cases rule: poll_rtcp_send_cases)
  case queued
  then have "Data data \<in> set (pending_rtcp_send self)" by (metis last_in_set option.inject)
  with assms(1) show ?thesis by (auto simp: session_ok_def list_all_iff not_data_def)
next
  case (sent next_time self1 rtcp reported self2 n data' self4)
  note fr = generate_rtcp_frame [OF sent(4)]
  have a: "next_rtcp_send (after_sending E reported n self2) = next_rtcp_send self1"
    "last_rtcp_sent_times (after_sending E reported n self2) = last_rtcp_sent_times self1"
    using fr by (simp_all add: after_sending_def update_rtcp_average_def frame_of_def)
  show ?thesis
    using sent(3)
  proof (cases rule: time_to_send_cases)
    case early
    with sent(2,8,10) a show ?thesis by (auto simp: early_due_def split: option.splits)
  next
    case before
    then show ?thesis by simp
  next
    case (due interval handle_time)
    then have "last_rtcp_sent_times self1 = last_rtcp_sent_times self"
      by (simp add: update_point_to_point_def)
    moreover obtain t where "tm_time (next_rtcp_send self4) = Some t" "now \<le> t"
      "last_rtcp_sent_times self4 = take 2 (now # last_rtcp_sent_times self1)"
      using schedule_regular_fields [of "rng_f2 rng" "rng_f3 rng" now "after_sending E reported n self2" self4]
        sent(8) due(1) a by auto
    ultimately show ?thesis using due sent(2,10) by simp
  qed
qed simp_all

end

lemma recv_from_pt_map: "recv_from E ssrc from now self = (r, self') \<Longrightarrow> pt_map self' = pt_map self"
  by (auto simp: recv_from_def Let_def handle_ssrc_conflict_def split: option.splits prod.splits if_splits)

lemma fold_become_receiver_remote:
  "remote_senders (fold become_receiver removed self) = remote_senders self"
  "remote_receivers (fold become_receiver removed self) = remote_receivers self"
  by (rule fold_same, simp)+

lemma handle_recv_total:
  assumes "session_lib E" and "session_ok E self" and "\<And>pt. rate_ok (pt_map self pt)"
  shows "\<exists>reply t1 self'. handle_recv E t0 clock rtp from now self = Some (reply, t1, self')"
proof -
  obtain r1 self1 where rf: "recv_from E (rtp_ssrc rtp) from now self = (r1, self1)" by (rule prod.exhaust)
  have ok: "session_ok E self1" using session_lib.recv_from_ok [OF assms(1,2) rf] by blast
  have pt: "pt_map self1 = pt_map self" using recv_from_pt_map [OF rf] .
  obtain w d where get: "lru_get_mut (snd_ops E) (rtp_ssrc rtp) (remote_senders self1) = (w, d)" by (rule prod.exhaust)
  show ?thesis
  proof (cases "r1 = None \<and> w \<noteq> None")
    case False
    with rf get show ?thesis by (auto simp: handle_recv_def Let_def split: option.splits)
  next
    case True
    then obtain source where w: "w = Some source" by auto
    have "rs_ok source"
      using session_lib.get_send(3) [OF assms(1) session_ok_parts(1) [OF ok] get w] by (simp add: send_entry_def)
    from recv_packet_total [OF session_lib.gst_ok [OF assms(1)] this assms(3), of t0
        "word_of_nat (rtp_payload_len rtp)" now "rtp_sequence_number rtp" "rtp_timestamp rtp"
        "rtp_payload_type rtp" "rtp_payload_type rtp" "hold_buffer_counter self1"]
    obtain reply t1 source' where "recv_packet (gst E) t0 (word_of_nat (rtp_payload_len rtp)) now
      (rtp_sequence_number rtp) (rtp_timestamp rtp) (rtp_payload_type rtp)
      (pt_map self (rtp_payload_type rtp)) (hold_buffer_counter self1) source = Some (reply, t1, source')"
      by blast
    with rf get w True pt show ?thesis by (simp add: handle_recv_def clock_rate_from_pt_def)
  qed
qed

section \<open>Properties\<close>

definition example_addr :: socket_addr where
  "example_addr = SocketAddrV4 0x0a000001 5004"

definition example_packet :: "u32 \<Rightarrow> u16 \<Rightarrow> rtp_packet" where
  "example_packet ssrc seqnum = \<lparr>rtp_ssrc = ssrc, rtp_payload_type = 96, rtp_sequence_number = seqnum,
     rtp_timestamp = 0, rtp_payload_len = 100\<rparr>"

definition example_session :: ref_session where
  "example_session = set_pt_clock_rate 96 90000 (Session_new ref_env [97])"

lemma example_session_facts:
  "session_reach ref_env example_session" "session_ok ref_env example_session"
  "local_senders example_session = []" "local_receivers example_session = []"
  "senders ref_env example_session = []" "receivers ref_env example_session = []"
  "pt_map example_session 96 = Some 90000"
proof -
  show r: "session_reach ref_env example_session"
    unfolding example_session_def by (intro session_reach.intros)
  show "session_ok ref_env example_session" by (rule refsess.reach_ok [OF r])
qed (simp_all add: example_session_def set_pt_clock_rate_def Session_new_def ref_env_def ref_lru_def)

text \<open>
  A packet of a remote receiver that comes without an address puts its source into both caches.
\<close>

lemma recv_without_address_breaks:
  assumes lib: "session_lib E" and "session_ok E self"
    and r: "rtp_ssrc rtp \<in> lru_keys (rcv_ops E) (remote_receivers self)"
    and "handle_recv E t0 clock rtp None now self = Some (reply, t1, self')"
  shows "rtp_ssrc rtp \<in> lru_keys (snd_ops E) (remote_senders self') \<inter> lru_keys (rcv_ops E) (remote_receivers self')
    \<and> \<not> session_ok E self'"
proof -
  have rem: "remote_ok E (remote_senders self) (remote_receivers self)" using session_ok_parts(1) [OF assms(2)] .
  note S = session_lib.snd_ok [OF lib]
  have "map_of (senders E self) (rtp_ssrc rtp) = None"
    using rem r by (auto simp: remote_ok_def lru_keys_def map_of_eq_None_iff)
  then obtain c where c: "lru_get_mut (snd_ops E) (rtp_ssrc rtp) (remote_senders self) = (None, c)"
    using lru_spec.get_mut_spec(1) [OF S, of "rtp_ssrc rtp" "remote_senders self"]
    by (metis prod.collapse)
  have "0 < lru_cap (snd_ops E) c"
    using lru_spec.get_mut_spec(3) [OF S, of "rtp_ssrc rtp" "remote_senders self"] rem c
    by (simp add: remote_ok_def cache_wf_def)
  from lru_spec.push_has [OF S this]
  have "rtp_ssrc rtp \<in> lru_keys (snd_ops E) (lru_push (snd_ops E) (rtp_ssrc rtp) v c)" for v
    using map_of_SomeD unfolding lru_keys_def by force
  then have "rtp_ssrc rtp \<in> lru_keys (snd_ops E) (remote_senders self') \<inter> lru_keys (rcv_ops E) (remote_receivers self')"
    using assms(4) c r by (auto simp: handle_recv_def recv_from_def Let_def)
  moreover from this have "\<not> session_ok E self'"
    using session_ok_parts(1) [of E self'] by (auto simp: remote_ok_def)
  ultimately show ?thesis ..
qed

text \<open>C8: In every state the session can be brought to by its operations, two calls excepted, the
  caches and hash maps are keyed by the SSRCs of their sources without duplicates and within their
  limits, no SSRC is both a remote sender and a remote receiver or both a local sender and a local
  receiver, every remote sender satisfies its own invariant, the times of the RTCP schedule are set
  together, and at most 256 timed-out SSRCs are remembered. The calls that are excepted are
  \<^verbatim>\<open>handle_recv\<close> without an address for a packet of a known remote receiver (which does break the
  invariant, see \<open>recv_without_address_breaks\<close>) and \<^verbatim>\<open>schedule_bye\<close> before the first
  \<^verbatim>\<open>poll_rtcp_send_timeout\<close>; the limits of the caches are set to positive numbers.\<close>

theorem session_invariant:
  assumes "session_lib E" and "session_reach E self"
  shows "session_ok E self"
  by (rule session_lib.reach_ok [OF assms])

theorem session_invariant_witness:
  "\<exists>reply t1 self'. handle_recv ref_env None 0 (example_packet 42 7) (Some example_addr) 0 example_session
      = Some (reply, t1, self') \<and> session_reach ref_env self' \<and> session_ok ref_env self'"
proof -
  obtain self' where h: "handle_recv ref_env None 0 (example_packet 42 7) (Some example_addr) 0 example_session
      = Some (NewSsrc 42 96, None, self')"
    using refsess.handle_recv_new [OF example_session_facts(2), of "example_packet 42 7" None 0 example_addr 0]
      example_session_facts by (auto simp: example_packet_def)
  then have "session_reach ref_env self'" by (rule session_reach.recv [OF example_session_facts(1), rotated]) simp
  with h session_invariant [OF refsess.session_lib_axioms this] show ?thesis by blast
qed

text \<open>C14: The RTCP interval is defined within the limits of a session (480 members, packets of 70,000
  bytes, a configured interval of less than a day), is at least the minimum interval before the
  random factor, and the random factor keeps it between one half and three halves of the
  deterministic interval, up to a nanosecond of rounding.\<close>

theorem rtcp_interval_bounds:
  assumes "gst_lib_spec (gst E)" and "size_ok E self" and "0 \<le> r" and "r \<le> 1"
  shows "\<exists>d i. deterministic_rtcp_duration E (local_senders self \<noteq> [] \<and> bye_state self = None) self = Some d
    \<and> minimum_interval self \<le> d \<and> rtcp_interval E r self = Some i \<and> d \<le> 2 * i + 2 \<and> 2 * i \<le> 3 * d + 2"
proof -
  obtain d where d: "deterministic_rtcp_duration E (local_senders self \<noteq> [] \<and> bye_state self = None) self = Some d"
    "d < 2 ^ 48" using deterministic_total [OF assms(1,2)] by blast
  have "minimum_interval self mod 2 ^ 64 = minimum_interval self"
    using assms(2) by (auto simp: minimum_interval_def size_ok_def SECOND_def)
  then have "minimum_interval self \<le> d" using deterministic_min [OF d(1)] by simp
  with rtcp_dither_bounds [OF d(2) assms(3,4)] d(1) show ?thesis
    by (auto simp: rtcp_interval_def calculated_rtcp_duration_def)
qed

theorem rtcp_interval_bounds_witness:
  "\<exists>d i. deterministic_rtcp_duration ref_env False example_session = Some d \<and> 2500000000 \<le> d
    \<and> rtcp_interval ref_env (1 / 4) example_session = Some i \<and> d \<le> 2 * i + 2 \<and> 2 * i \<le> 3 * d + 2"
proof -
  have e: "size_ok ref_env example_session" "minimum_interval example_session = 2500000000"
    by (simp_all add: size_ok_def n_members_def minimum_interval_def example_session_def
        set_pt_clock_rate_def Session_new_def count_normal_def refsess.s.new_spec refsess.r.new_spec
        is_feedback_def RTCP_MIN_REPORT_INTERVAL_def SECOND_def)
  from rtcp_interval_bounds [OF refsess.gst_ok e(1), of "1 / 4"] show ?thesis
    by (simp add: e(2) example_session_facts)
qed

text \<open>C10: RTCP is sent only when it is due: an early packet not before its time, which leaves the
  regular schedule alone, and a regular one not before the scheduled time nor before the newly drawn
  interval has passed since RTCP was last handled (timer reconsideration). A transmission sets the
  time of handling, clears the early time, and a regular one schedules the next at or after \<open>now\<close>.\<close>

theorem rtcp_sent_when_due:
  assumes "session_lib E" and "session_ok E self"
    and "poll_rtcp_send E rng clock now ntp_now self = Some (Some (Data data), self')"
  shows "\<exists>next_time. tm_time (next_rtcp_send self) = Some next_time
    \<and> last_rtcp_handle_time self' = Some now \<and> next_early_rtcp_time self' = None
    \<and> (if early_due self
       then (\<exists>t. next_early_rtcp_time self = Some t \<and> t \<le> now) \<and> next_rtcp_send self' = next_rtcp_send self
         \<and> last_rtcp_sent_times self' = last_rtcp_sent_times self
       else next_time \<le> now
         \<and> (\<exists>h i. last_rtcp_handle_time self = Some h
              \<and> rtcp_interval E (rng_f1 rng) (update_point_to_point E self) = Some i \<and> h + i \<le> now)
         \<and> (\<exists>t. tm_time (next_rtcp_send self') = Some t \<and> now \<le> t)
         \<and> last_rtcp_sent_times self' = take 2 (now # last_rtcp_sent_times self))"
  by (rule session_lib.sent_when_due [OF assms])

definition example_scheduled :: ref_session where
  "example_scheduled = example_session\<lparr>
     next_rtcp_send := \<lparr>tm_time = Some (5 * SECOND), tm_p_members = 0\<rparr>,
     last_rtcp_handle_time := Some 0, t_rr := Some (5 * SECOND)\<rparr>"

definition example_rng :: rng where
  "example_rng = \<lparr>rng_ssrcs = [7], rng_f1 = 1 / 4, rng_f2 = 1 / 2, rng_f3 = 3 / 4\<rparr>"

lemma example_scheduled_facts:
  "session_ok ref_env example_scheduled" "pending_rtcp_send example_scheduled = []"
  "tm_time (next_rtcp_send example_scheduled) = Some (5 * SECOND)" "\<not> early_due example_scheduled"
  "last_rtcp_handle_time example_scheduled = Some 0" "small 477 ref_env example_scheduled"
  "can_draw ref_env [7] example_scheduled"
proof -
  show "session_ok ref_env example_scheduled"
    using example_session_facts(2) by (simp add: example_scheduled_def session_ok_def timing_ok_def)
  show "small 477 ref_env example_scheduled"
    by (simp add: small_def local_count_def example_scheduled_def example_session_def set_pt_clock_rate_def
        Session_new_def refsess.s.new_spec refsess.r.new_spec DEFAULT_MAX_REMOTE_SOURCES_def
        RTCP_MIN_REPORT_INTERVAL_def SECOND_def)
  show "can_draw ref_env [7] example_scheduled"
    by (simp add: can_draw_def have_ssrc_def refsess.s.peek_spec refsess.r.peek_spec example_scheduled_def
        example_session_def set_pt_clock_rate_def Session_new_def refsess.s.new_spec refsess.r.new_spec)
qed (simp_all add: example_scheduled_def example_session_def set_pt_clock_rate_def Session_new_def early_due_def)

text \<open>The definitions that generating the packets of a small session unfolds.\<close>

lemmas generate_eval = generate_rtcp_def generate_sr_def generate_rr_def generate_sdes_def generate_pli_def
  generate_fir_def generate_bye_def find_bye_sources_def sdes_chunk_def ensure_internal_send_src_def
  have_ssrc_def reduced_size_rtcp_allowed_def refsess.s.peek_spec refsess.r.peek_spec
  refsess.s.new_spec refsess.r.new_spec lr_state_def lr_set_state_def lr_set_sdes_def
  lr_set_last_activity_def LocalReceiveSource_new_def Source_new_def Source_set_state_def hm_modify_def
  Let_def

lemma example_generate:
  "\<exists>self2. generate_rtcp ref_env [7] 0 now 0 False (update_point_to_point ref_env example_scheduled)
    = Some ([RrBuilder 7 [], SdesBuilder [(7, [(1, [97])])]], [], self2)"
proof -
  have "\<exists>ntp. system_time_to_ntp_time_u64 (gst ref_env) 0 = Some ntp"
    using gst_lib_spec.from_duration_full [OF refsess.gst_ok]
    by (simp add: system_time_to_ntp_time_u64_def duration_since_def)
  then show ?thesis
    by (auto simp: generate_eval update_point_to_point_def example_scheduled_def example_session_def
        set_pt_clock_rate_def Session_new_def) (simp_all add: ref_env_def)
qed

lemma example_size:
  "generate_rtcp ref_env [7] 0 now 0 False (update_point_to_point ref_env example_scheduled) = Some (rtcp, reported, self2)
    \<Longrightarrow> \<exists>n data. calculate_size ref_env rtcp = Some n \<and> n < RTCP_MTU \<and> write_into ref_env rtcp = Some data"
  using example_generate [of now] by (auto simp: ref_env_def ref_size_def pad4_def RTCP_MTU_def)

lemma example_due:
  assumes "rtcp_interval ref_env (1 / 4) (update_point_to_point ref_env example_scheduled) = Some i"
  shows "0 + i \<le> 2 ^ 50"
proof -
  have "size_ok ref_env (update_point_to_point ref_env example_scheduled)"
    using small_size [OF example_scheduled_facts(1)] example_scheduled_facts(6) by (simp add: small_def)
  from rtcp_interval_total [OF refsess.gst_ok this, of "1 / 4"] assms show ?thesis by auto
qed

lemma example_sent:
  "\<exists>data self' t. poll_rtcp_send ref_env example_rng 0 (2 ^ 50) 0 example_scheduled = Some (Some (Data data), self')
    \<and> tm_time (next_rtcp_send self') = Some t \<and> 2 ^ 50 \<le> t \<and> last_rtcp_sent_times self' = [2 ^ 50]"
proof -
  have "last_rtcp_sent_times example_scheduled = []"
    by (simp add: example_scheduled_def example_session_def set_pt_clock_rate_def Session_new_def)
  then show ?thesis
    using refsess.poll_total [OF example_scheduled_facts(1-5), of "2 ^ 50" example_rng 0 0]
      example_scheduled_facts(6,7) example_due example_size
    by (simp add: example_rng_def SECOND_def)
qed

theorem rtcp_sent_when_due_witness:
  "\<exists>data self' i t. poll_rtcp_send ref_env example_rng 0 (2 ^ 50) 0 example_scheduled = Some (Some (Data data), self')
    \<and> rtcp_interval ref_env (1 / 4) (update_point_to_point ref_env example_scheduled) = Some i \<and> 0 + i \<le> 2 ^ 50
    \<and> tm_time (next_rtcp_send self') = Some t \<and> 2 ^ 50 \<le> t"
proof -
  obtain data self' where p: "poll_rtcp_send ref_env example_rng 0 (2 ^ 50) 0 example_scheduled
      = Some (Some (Data data), self')" using example_sent by blast
  from rtcp_sent_when_due [OF refsess.session_lib_axioms example_scheduled_facts(1) p] p example_scheduled_facts(4,5)
  show ?thesis by (auto simp: example_rng_def)
qed

text \<open>C11: When regular RTCP is due, a compound packet is sent, the next one is scheduled and nothing
  panics, whatever the sources: for a session with room for at most 477 sources, random numbers
  between 0 and 1, an SSRC that can be chosen, and a compound packet that fits in the RTCP MTU.\<close>

theorem rtcp_is_sent:
  assumes "session_lib E" and "session_ok E self" and "pending_rtcp_send self = []"
    and "tm_time (next_rtcp_send self) = Some next_time" and "\<not> early_due self"
    and "last_rtcp_handle_time self = Some h" and "next_time \<le> now"
    and "\<And>i. rtcp_interval E (rng_f1 rng) (update_point_to_point E self) = Some i \<Longrightarrow> h + i \<le> now"
    and "small 477 E self" and "0 \<le> ntp_now" and "can_draw E (rng_ssrcs rng) self"
    and "\<And>rtcp reported self2. generate_rtcp E (rng_ssrcs rng) clock now ntp_now False (update_point_to_point E self)
      = Some (rtcp, reported, self2) \<Longrightarrow>
      \<exists>n data. calculate_size E rtcp = Some n \<and> n < RTCP_MTU \<and> write_into E rtcp = Some data"
    and "0 \<le> rng_f1 rng" "rng_f1 rng \<le> 1" "0 \<le> rng_f2 rng" "rng_f2 rng \<le> 1" "0 \<le> rng_f3 rng" "rng_f3 rng \<le> 1"
  shows "\<exists>data self' t. poll_rtcp_send E rng clock now ntp_now self = Some (Some (Data data), self')
    \<and> tm_time (next_rtcp_send self') = Some t \<and> now \<le> t
    \<and> last_rtcp_sent_times self' = take 2 (now # last_rtcp_sent_times self)"
  by (rule session_lib.poll_total [OF assms])

theorem rtcp_is_sent_witness:
  "\<exists>data self' t. poll_rtcp_send ref_env example_rng 0 (2 ^ 50) 0 example_scheduled = Some (Some (Data data), self')
    \<and> tm_time (next_rtcp_send self') = Some t \<and> 2 ^ 50 \<le> t"
  using rtcp_is_sent [OF refsess.session_lib_axioms example_scheduled_facts(1-5), of "2 ^ 50" example_rng 0 0]
    example_scheduled_facts(6,7) example_due example_size
  by (auto simp: example_rng_def SECOND_def)

text \<open>C13: The loop that draws the internal SSRC ends as soon as it has seen more different numbers
  than the session has sources, and the SSRC it returns is used by none of them and becomes a local
  receiver.\<close>

theorem internal_ssrc_drawn:
  assumes "session_lib E" and "distinct draws" and "length (session_ssrcs E self) < length draws"
  shows "\<exists>ssrc self'. ensure_internal_send_src E draws clock self = Some (ssrc, self')
    \<and> internal_rtcp_sender_src self' = Some ssrc
    \<and> (internal_rtcp_sender_src self = None \<longrightarrow>
         ssrc \<in> set draws \<and> ssrc \<notin> set (session_ssrcs E self) \<and> map_of (local_receivers self') ssrc \<noteq> None)"
proof -
  have "can_draw E draws self"
    using finite_draws [OF assms(2,3)] session_lib.have_ssrc_iff [OF assms(1)] by (auto simp: can_draw_def)
  then obtain ssrc self' where e: "ensure_internal_send_src E draws clock self = Some (ssrc, self')"
    using ensure_internal_total by blast
  have "ssrc \<in> set draws \<and> ssrc \<notin> set (session_ssrcs E self) \<and> map_of (local_receivers self') ssrc \<noteq> None"
    if "internal_rtcp_sender_src self = None"
    using e that session_lib.have_ssrc_iff [OF assms(1), of self ssrc]
    by (auto simp: ensure_internal_send_src_def bind_eq_Some_conv Let_def hm_simps dest!: draw_ssrc_fresh)
  with e ensure_internal_cases [OF e] show ?thesis by (intro exI [of _ ssrc] exI [of _ self']) blast
qed

theorem internal_ssrc_drawn_witness:
  "\<exists>ssrc self'. ensure_internal_send_src ref_env [42] 0 example_session = Some (ssrc, self')
    \<and> map_of (local_receivers self') ssrc \<noteq> None"
proof -
  have "session_ssrcs ref_env example_session = []"
    by (simp add: session_ssrcs_def example_session_facts)
  moreover have "internal_rtcp_sender_src example_session = None"
    by (simp add: example_session_def set_pt_clock_rate_def Session_new_def)
  ultimately show ?thesis
    using internal_ssrc_drawn [OF refsess.session_lib_axioms, of "[42]" example_session 0] by auto
qed

lemma map_of_filter_value:
  assumes "hm_ok m" and "(k, v) \<in> set m"
  shows "map_of (filter (\<lambda>(_, v). \<not> P v) m) k = (if P v then None else Some v)"
proof (cases "P v")
  case True
  have "k \<notin> fst ` set (filter (\<lambda>(_, v). \<not> P v) m)"
    using assms True by (auto dest: eq_key_imp_eq_value)
  with True show ?thesis by (simp add: map_of_eq_None_iff)
next
  case False
  have "hm_ok (filter (\<lambda>(_, v). \<not> P v) m)" by (rule distinct_map_filter [OF assms(1)])
  then show ?thesis using assms(2) False by (simp add: map_of_eq_Some_iff)
qed

text \<open>The local receivers after the timeouts.\<close>

lemma local_receivers_timeouts:
  assumes "session_ok E self" and "session_ok E (after_timeouts E now td cs cr self)"
  shows "\<forall>(k, s) \<in> set (local_receivers self).
    if stale now td (lr_source s)
    then k \<in> set (timed_out_of E now td self)
      \<and> map_of (local_receivers (fold become_receiver removed (after_timeouts E now td cs cr self))) k = None
    else map_of (local_receivers (fold become_receiver removed (after_timeouts E now td cs cr self))) k = Some s"
proof (rule ballI, clarify)
  fix k s
  assume ks: "(k, s) \<in> set (local_receivers self)"
  let ?a = "after_timeouts E now td cs cr self"
  have l: "local_ok (local_senders self) (local_receivers self)" by (rule session_ok_parts(2) [OF assms(1)])
  have "local_senders ?a = local_senders self" by (simp add: after_timeouts_def Let_def)
  moreover have "k \<notin> fst ` set (local_senders self)" using l ks unfolding local_ok_def by force
  ultimately have "map_of (local_receivers (fold become_receiver removed ?a)) k = map_of (local_receivers ?a) k"
    by (intro fold_become_receiver_other [OF assms(2)]) simp
  moreover have lr: "local_receivers ?a = filter (\<lambda>(_, s). \<not> stale now td (lr_source s)) (local_receivers self)"
    by (simp add: after_timeouts_def Let_def)
  have d: "hm_ok (local_receivers self)" "src_ssrc (lr_source s) = k" using l ks unfolding local_ok_def by auto
  have "map_of (local_receivers ?a) k = (if stale now td (lr_source s) then None else Some s)"
    unfolding lr using d(1) ks by (rule map_of_filter_value)
  moreover have "k \<in> set (timed_out_of E now td self)" if "stale now td (lr_source s)"
    using that ks d(2) unfolding timed_out_of_def by force
  ultimately show "if stale now td (lr_source s)
    then k \<in> set (timed_out_of E now td self)
      \<and> map_of (local_receivers (fold become_receiver removed ?a)) k = None
    else map_of (local_receivers (fold become_receiver removed ?a)) k = Some s" by simp
qed

text \<open>C12: Handling the timeouts ends. With \<^verbatim>\<open>td\<close> five times the deterministic RTCP interval, or five
  times five seconds if that is longer, it removes the local receivers inactive for \<^verbatim>\<open>td\<close> and keeps
  every other one, and it removes remote senders and receivers from the least recently used end of
  their caches as long as these are inactive for \<^verbatim>\<open>td\<close>: the rest stays as it is, and the least
  recently used source left was active within \<^verbatim>\<open>td\<close>. Every SSRC removed is reported.\<close>

theorem timeouts_remove_only_stale:
  assumes "session_lib E" and "session_ok E self" and "size_ok E self"
  shows "\<exists>dur td timed_out self' gone_senders gone_receivers.
    deterministic_rtcp_duration E False self = Some dur \<and> td = 5 * max dur (5 * SECOND)
    \<and> handle_timeouts E now self = Some (timed_out, self')
    \<and> senders E self = senders E self' @ gone_senders
    \<and> (\<forall>(k, s) \<in> set gone_senders. k \<in> set timed_out \<and> stale now td (rs_source s))
    \<and> (senders E self' = [] \<or> \<not> stale now td (rs_source (snd (last (senders E self')))))
    \<and> receivers E self = receivers E self' @ gone_receivers
    \<and> (\<forall>(k, s) \<in> set gone_receivers. k \<in> set timed_out \<and> stale now td (rr_source s))
    \<and> (receivers E self' = [] \<or> \<not> stale now td (rr_source (snd (last (receivers E self')))))
    \<and> (\<forall>(k, s) \<in> set (local_receivers self).
         if stale now td (lr_source s) then k \<in> set timed_out \<and> map_of (local_receivers self') k = None
         else map_of (local_receivers self') k = Some s)"
proof -
  obtain dur where dur: "deterministic_rtcp_duration E False self = Some dur"
    using deterministic_total [OF session_lib.gst_ok [OF assms(1)] assms(3)] by blast
  define td where "td = RTCP_SOURCE_TIMEOUT_N_INTERVALS * max dur (5 * SECOND)"
  have td: "td = 5 * max dur (5 * SECOND)" by (simp add: td_def RTCP_SOURCE_TIMEOUT_N_INTERVALS_def)
  obtain cs cr removed m where
    cs: "lru_iter (snd_ops E) cs = cache_rest (\<lambda>s. stale now td (rs_source s)) (senders E self)"
    and cr: "lru_iter (rcv_ops E) cr = cache_rest (\<lambda>s. stale now td (rr_source s)) (receivers E self)"
    and h: "handle_timeouts E now self = Some (timed_out_of E now td self,
      (fold become_receiver removed (after_timeouts E now td cs cr self))\<lparr>conflicting_addresses := m\<rparr>)"
    and ok: "session_ok E (after_timeouts E now td cs cr self)"
    using session_lib.handle_timeouts_eq' [OF assms(1,2) dur td_def, of now] by blast
  let ?self = "(fold become_receiver removed (after_timeouts E now td cs cr self))\<lparr>conflicting_addresses := m\<rparr>"
  have eq: "senders E ?self = cache_rest (\<lambda>s. stale now td (rs_source s)) (senders E self)"
    "receivers E ?self = cache_rest (\<lambda>s. stale now td (rr_source s)) (receivers E self)"
    by (simp_all add: fold_become_receiver_remote after_timeouts_def Let_def cs cr)
  obtain gs where gs: "senders E self = senders E ?self @ gs" "\<forall>(k, s) \<in> set gs. stale now td (rs_source s)"
    "fst ` set gs = set (cache_dropped (\<lambda>s. stale now td (rs_source s)) (senders E self))"
    "senders E ?self = [] \<or> \<not> stale now td (rs_source (snd (last (senders E ?self))))"
    unfolding eq by (rule cache_rest_split)
  obtain gr where gr: "receivers E self = receivers E ?self @ gr" "\<forall>(k, s) \<in> set gr. stale now td (rr_source s)"
    "fst ` set gr = set (cache_dropped (\<lambda>s. stale now td (rr_source s)) (receivers E self))"
    "receivers E ?self = [] \<or> \<not> stale now td (rr_source (snd (last (receivers E ?self))))"
    unfolding eq by (rule cache_rest_split)
  have "fst ` set gs \<union> fst ` set gr \<subseteq> set (timed_out_of E now td self)"
    unfolding gs(3) gr(3) timed_out_of_def by auto
  then have rep: "\<forall>(k, s) \<in> set gs. k \<in> set (timed_out_of E now td self) \<and> stale now td (rs_source s)"
    "\<forall>(k, s) \<in> set gr. k \<in> set (timed_out_of E now td self) \<and> stale now td (rr_source s)"
    using gs(2) gr(2) by force+
  have lr: "local_receivers ?self = local_receivers (fold become_receiver removed (after_timeouts E now td cs cr self))"
    by simp
  have "\<forall>(k, s) \<in> set (local_receivers self).
      if stale now td (lr_source s) then k \<in> set (timed_out_of E now td self) \<and> map_of (local_receivers ?self) k = None
      else map_of (local_receivers ?self) k = Some s"
    unfolding lr by (rule local_receivers_timeouts [OF assms(2) ok])
  then show ?thesis
    by (intro exI [of _ dur] exI [of _ td] exI [of _ "timed_out_of E now td self"] exI [of _ ?self]
        exI [of _ gs] exI [of _ gr] conjI dur td h gs(1,4) gr(1,4) rep)
qed

definition example_known :: ref_session where
  "example_known = example_session\<lparr>remote_senders := (150, [(42, RemoteSendSource_new 42 0)])\<rparr>"

lemma example_known_facts:
  "session_ok ref_env example_known" "size_ok ref_env example_known"
  "senders ref_env example_known = [(42, RemoteSendSource_new 42 0)]" "receivers ref_env example_known = []"
proof -
  have e: "remote_receivers example_session = (150, [])"
    by (simp add: example_session_def set_pt_clock_rate_def Session_new_def ref_env_def ref_lru_def
        DEFAULT_MAX_REMOTE_SOURCES_def)
  have "remote_ok ref_env (150, [(42, RemoteSendSource_new 42 0)]) (remote_receivers example_session)"
    by (simp add: remote_ok_def cache_wf_def lru_keys_def e ref_env_def ref_lru_def)
  then show "session_ok ref_env example_known"
    unfolding example_known_def by (rule session_ok_remote(3) [OF example_session_facts(2)])
  show "size_ok ref_env example_known"
    by (simp add: size_ok_def n_members_def count_normal_def example_known_def ref_env_def ref_lru_def e
        example_session_def set_pt_clock_rate_def Session_new_def RTCP_MIN_REPORT_INTERVAL_def SECOND_def)
qed (simp_all add: example_known_def example_session_facts, simp add: ref_env_def ref_lru_def)

theorem timeouts_remove_only_stale_witness:
  "\<exists>timed_out self'. handle_timeouts ref_env (2 ^ 60) example_known = Some (timed_out, self')
    \<and> 42 \<in> set timed_out \<and> senders ref_env self' = []"
proof -
  obtain dur td timed_out self' gone where
    d: "deterministic_rtcp_duration ref_env False example_known = Some dur" "td = 5 * max dur (5 * SECOND)"
    and h: "handle_timeouts ref_env (2 ^ 60) example_known = Some (timed_out, self')"
    and g: "senders ref_env example_known = senders ref_env self' @ gone"
      "\<forall>(k, s) \<in> set gone. k \<in> set timed_out \<and> stale (2 ^ 60) td (rs_source s)"
    and l: "senders ref_env self' = [] \<or> \<not> stale (2 ^ 60) td (rs_source (snd (last (senders ref_env self'))))"
    using timeouts_remove_only_stale [OF refsess.session_lib_axioms example_known_facts(1,2), of "2 ^ 60"] by blast
  have "dur < 2 ^ 48"
    using deterministic_total [OF session_lib.gst_ok [OF refsess.session_lib_axioms] example_known_facts(2), of False] d(1)
    by auto
  then have "stale (2 ^ 60) td (rs_source (RemoteSendSource_new 42 0))"
    by (simp add: d(2) stale_def RemoteSendSource_new_def Source_new_def remote_sender_init_def SECOND_def)
  with l g(1) have "senders ref_env self' = []"
    unfolding example_known_facts(3) by (cases "senders ref_env self'") auto
  with g h show ?thesis unfolding example_known_facts(3) by auto
qed

text \<open>C15: A new source is announced once, its first packet is held, and the next packet in sequence
  validates it: the held packet is forwarded, then the second one passed on, and the session has the
  source in its normal state with both packets counted and one buffer id used.\<close>

theorem new_source_validated:
  assumes "session_lib E" and "session_ok E self" and "map_of (local_senders self) ssrc = None"
    and "map_of (receivers E self) ssrc = None" and "map_of (senders E self) ssrc = None"
    and "rate_ok (pt_map self pt)"
    and "rtp_ssrc p1 = ssrc" and "rtp_payload_type p1 = pt"
    and "rtp_ssrc p2 = ssrc" and "rtp_payload_type p2 = pt"
    and "rtp_sequence_number p2 = rtp_sequence_number p1 + 1"
  shows "\<exists>t1 self1 self2 self3 self4 src.
    handle_recv E t0 clock p1 (Some addr) now1 self = Some (NewSsrc ssrc pt, t0, self1)
    \<and> handle_recv E t0 clock p1 (Some addr) now1 self1 = Some (RecvHold (hold_buffer_counter self), t1, self2)
    \<and> handle_recv E t1 clock p2 (Some addr) now2 self2 = Some (RecvForward (hold_buffer_counter self), t1, self3)
    \<and> handle_recv E t1 clock p2 (Some addr) now2 self3 = Some (RecvPassthrough, t1, self4)
    \<and> remote_send_source_by_ssrc E self4 ssrc = Some src \<and> rs_state src = Normal \<and> rs_recv_packets src = 2
    \<and> hold_buffer_counter self4 = hold_buffer_counter self + 1"
  by (rule session_lib.new_source_sequence [OF assms, of t0 clock addr now1 now2], intro exI conjI, assumption+)

theorem new_source_validated_witness:
  "\<exists>t1 self1 self2 self3 self4.
    handle_recv ref_env None 0 (example_packet 42 65535) (Some example_addr) 0 example_session
      = Some (NewSsrc 42 96, None, self1)
    \<and> handle_recv ref_env None 0 (example_packet 42 65535) (Some example_addr) 0 self1 = Some (RecvHold 0, t1, self2)
    \<and> handle_recv ref_env t1 0 (example_packet 42 0) (Some example_addr) 20 self2 = Some (RecvForward 0, t1, self3)
    \<and> handle_recv ref_env t1 0 (example_packet 42 0) (Some example_addr) 20 self3 = Some (RecvPassthrough, t1, self4)"
proof -
  have "hold_buffer_counter example_session = 0"
    by (simp add: example_session_def set_pt_clock_rate_def Session_new_def)
  with new_source_validated [OF refsess.session_lib_axioms example_session_facts(2), of 42 96
      "example_packet 42 65535" "example_packet 42 0" None 0 example_addr 0 20]
  show ?thesis by (simp add: example_session_facts rate_ok_def example_packet_def) blast
qed

text \<open>Receiving an RTP packet never panics when the clock rates of the session are at most 1 MHz,
  whatever the packet, the sender's address and the state of the sources.\<close>

theorem handle_recv_safe:
  assumes "session_lib E" and "session_ok E self" and "\<And>pt. rate_ok (pt_map self pt)"
  shows "\<exists>reply t1 self'. handle_recv E t0 clock rtp from now self = Some (reply, t1, self')"
  by (rule handle_recv_total [OF assms])

theorem handle_recv_safe_witness:
  "\<exists>reply t1 self'. handle_recv ref_env None 0 (example_packet 42 7) None 0 example_known = Some (reply, t1, self')"
proof -
  have "rate_ok (pt_map example_known pt)" for pt
    by (simp add: rate_ok_def example_known_def example_session_def set_pt_clock_rate_def Session_new_def)
  from handle_recv_safe [OF refsess.session_lib_axioms example_known_facts(1) this] show ?thesis by blast
qed

end
