(* ===== verification/Session_Roles.thy ===== *)
theory Session_Roles
  imports Session_Facts
begin

text \<open>
  What receiving RTCP does to the roles of the remote sources, abstractly: the table of the known
  remote senders and receivers, and a transition per packet. The session implements it as long as
  its caches have room, whatever the order of use, the states and the statistics of its sources.
\<close>

section \<open>The specification\<close>

text \<open>The SSRCs of the remote senders and of the remote receivers.\<close>

type_synonym membership = "u32 set \<times> u32 set"

definition as_sender :: "u32 \<Rightarrow> membership \<Rightarrow> membership" where
  "as_sender k m = (insert k (fst m), snd m - {k})"

definition as_receiver :: "u32 \<Rightarrow> membership \<Rightarrow> membership" where
  "as_receiver k m = (fst m - {k}, insert k (snd m))"

text \<open>
  A report block makes its SSRC a sender, unless it is about a sender of ours; a receiver report
  makes its source a receiver, a sender report a sender; an SDES item makes a source known.
  An SSRC of ours that comes with an address is a collision.
\<close>

definition spec_blocks :: "u32 set \<Rightarrow> report_block list \<Rightarrow> membership \<Rightarrow> membership" where
  "spec_blocks own rbs m = fold (\<lambda>rb m. if blk_ssrc rb \<in> own then m else as_sender (blk_ssrc rb) m) rbs m"

definition spec_item :: "u8 list \<Rightarrow> bool \<Rightarrow> u32 \<Rightarrow> u8 \<times> u8 list \<Rightarrow> membership \<Rightarrow> membership" where
  "spec_item types conflict k item m =
     (if conflict \<or> fst item \<notin> set types \<or> k \<in> fst m \<or> k \<in> snd m then m else as_receiver k m)"

definition spec_packet ::
  "u32 set \<Rightarrow> u32 set \<Rightarrow> u8 list \<Rightarrow> socket_addr option \<Rightarrow> rtcp_packet \<Rightarrow> membership \<Rightarrow> membership" where
  "spec_packet own_senders own_receivers types from p m =
     (let conflict = (\<lambda>k. from \<noteq> None \<and> (k \<in> own_senders \<or> k \<in> own_receivers))
      in case p of
           RrPacket ssrc rbs \<Rightarrow> spec_blocks own_senders rbs (as_receiver ssrc m)
         | SrPacket ssrc _ _ _ _ rbs \<Rightarrow>
             if conflict ssrc then m else spec_blocks own_senders rbs (as_sender ssrc m)
         | SdesPacket chunks \<Rightarrow> fold (\<lambda>(k, items). fold (spec_item types (conflict k) k) items) chunks m
         | _ \<Rightarrow> m)"

text \<open>The SSRCs a packet is about.\<close>

fun mentioned :: "rtcp_packet \<Rightarrow> u32 set" where
  "mentioned (RrPacket ssrc rbs) = insert ssrc (blk_ssrc ` set rbs)"
| "mentioned (SrPacket ssrc _ _ _ _ rbs) = insert ssrc (blk_ssrc ` set rbs)"
| "mentioned (SdesPacket chunks) = fst ` set chunks"
| "mentioned _ = {}"

lemma spec_packet_simps:
  "spec_packet S R T from (RrPacket ssrc rbs) = (\<lambda>m. spec_blocks S rbs (as_receiver ssrc m))"
  "spec_packet S R T from (SrPacket ssrc x1 x2 x3 x4 rbs) =
    (\<lambda>m. if from \<noteq> None \<and> (ssrc \<in> S \<or> ssrc \<in> R) then m else spec_blocks S rbs (as_sender ssrc m))"
  "spec_packet S R T from (SdesPacket chunks) =
    fold (\<lambda>(k, items). fold (spec_item T (from \<noteq> None \<and> (k \<in> S \<or> k \<in> R)) k) items) chunks"
  by (simp_all add: fun_eq_iff spec_packet_def)

section \<open>The abstraction\<close>

definition membership_of :: "('cs, 'cr) session_env \<Rightarrow> ('cs, 'cr) session \<Rightarrow> membership" where
  "membership_of E self = (lru_keys (snd_ops E) (remote_senders self), lru_keys (rcv_ops E) (remote_receivers self))"

definition own_senders :: "('cs, 'cr) session \<Rightarrow> u32 set" where
  "own_senders self = fst ` set (local_senders self)"

definition own_receivers :: "('cs, 'cr) session \<Rightarrow> u32 set" where
  "own_receivers self = fst ` set (local_receivers self)"

text \<open>Both caches have room for the sources in \<open>M\<close>, and hold no others.\<close>

definition room :: "('cs, 'cr) session_env \<Rightarrow> u32 set \<Rightarrow> ('cs, 'cr) session \<Rightarrow> bool" where
  "room E M self \<longleftrightarrow> finite M \<and> card M \<le> lru_cap (snd_ops E) (remote_senders self)
     \<and> card M \<le> lru_cap (rcv_ops E) (remote_receivers self)
     \<and> fst (membership_of E self) \<subseteq> M \<and> snd (membership_of E self) \<subseteq> M"

text \<open>One step: the invariant, the limits and the own SSRCs are kept, the table changes as specified.\<close>

definition refines_step ::
  "('cs, 'cr) session_env \<Rightarrow> u32 set \<Rightarrow> (membership \<Rightarrow> membership) \<Rightarrow> ('cs, 'cr) session \<Rightarrow> ('cs, 'cr) session \<Rightarrow> bool"
  where
  "refines_step E M f self self' \<longleftrightarrow> session_ok E self' \<and> room E M self'
     \<and> own_senders self' = own_senders self \<and> own_receivers self' = own_receivers self
     \<and> membership_of E self' = f (membership_of E self)"

lemma refines_refl: "session_ok E self \<Longrightarrow> room E M self \<Longrightarrow> refines_step E M (\<lambda>m. m) self self"
  by (simp add: refines_step_def)

lemma refines_trans:
  "refines_step E M f self self1 \<Longrightarrow> refines_step E M g self1 self2 \<Longrightarrow> refines_step E M (\<lambda>m. g (f m)) self self2"
  by (simp add: refines_step_def)

lemma refines_dest:
  assumes "refines_step E M f self self'"
  shows "session_ok E self'" and "room E M self'" and "own_senders self' = own_senders self"
    and "own_receivers self' = own_receivers self"
  using assms by (simp_all add: refines_step_def)

text \<open>What a step has to keep besides the table.\<close>

definition static_of where
  "static_of E self = (lru_cap (snd_ops E) (remote_senders self), lru_cap (rcv_ops E) (remote_receivers self),
     own_senders self, own_receivers self)"

lemma refinesI:
  assumes "room E M self" and "session_ok E self'" and "static_of E self' = static_of E self"
    and "membership_of E self' = f (membership_of E self)"
    and "fst (f (membership_of E self)) \<subseteq> M" and "snd (f (membership_of E self)) \<subseteq> M"
  shows "refines_step E M f self self'"
  using assms by (simp add: refines_step_def room_def static_of_def)

lemma same_table:
  assumes "session_ok E self'" and "static_of E self' = static_of E self"
    and "membership_of E self' = membership_of E self" and "room E M self"
  shows "refines_step E M (\<lambda>m. m) self self'"
  using assms by (intro refinesI) (simp_all add: room_def)

lemma membership_unaffected [simp]:
  "membership_of E (self\<lparr>conflicting_addresses := x1\<rparr>) = membership_of E self"
  "membership_of E (self\<lparr>is_point_to_point := x2\<rparr>) = membership_of E self"
  "membership_of E (self\<lparr>average_rtcp_size := x3\<rparr>) = membership_of E self"
  "membership_of E (self\<lparr>bye_state := x4\<rparr>) = membership_of E self"
  "membership_of E (self\<lparr>timed_out_ssrcs := x5\<rparr>) = membership_of E self"
  "membership_of E (self\<lparr>local_senders := x6\<rparr>) = membership_of E self"
  "membership_of E (self\<lparr>next_rtcp_send := x7\<rparr>) = membership_of E self"
  "membership_of E (self\<lparr>last_rtcp_sent_times := x8\<rparr>) = membership_of E self"
  "membership_of E (self\<lparr>remote_senders := c\<rparr>) = (lru_keys (snd_ops E) c, snd (membership_of E self))"
  "membership_of E (self\<lparr>remote_receivers := d\<rparr>) = (fst (membership_of E self), lru_keys (rcv_ops E) d)"
  by (simp_all add: membership_of_def)

lemma static_unaffected [simp]:
  "static_of E (self\<lparr>conflicting_addresses := x1\<rparr>) = static_of E self"
  "static_of E (self\<lparr>is_point_to_point := x2\<rparr>) = static_of E self"
  "static_of E (self\<lparr>average_rtcp_size := x3\<rparr>) = static_of E self"
  "static_of E (self\<lparr>bye_state := x4\<rparr>) = static_of E self"
  "static_of E (self\<lparr>timed_out_ssrcs := x5\<rparr>) = static_of E self"
  "static_of E (self\<lparr>next_rtcp_send := x7\<rparr>) = static_of E self"
  "static_of E (self\<lparr>last_rtcp_sent_times := x8\<rparr>) = static_of E self"
  by (simp_all add: static_of_def own_senders_def own_receivers_def)

lemma static_remote:
  "lru_cap (snd_ops E) c = lru_cap (snd_ops E) (remote_senders self) \<Longrightarrow>
    static_of E (self\<lparr>remote_senders := c\<rparr>) = static_of E self"
  "lru_cap (rcv_ops E) d = lru_cap (rcv_ops E) (remote_receivers self) \<Longrightarrow>
    static_of E (self\<lparr>remote_receivers := d\<rparr>) = static_of E self"
  by (simp_all add: static_of_def own_senders_def own_receivers_def)

lemma table_simps [simp]:
  "lru_keys (snd_ops E) (remote_senders self) = fst (membership_of E self)"
  "lru_keys (rcv_ops E) (remote_receivers self) = snd (membership_of E self)"
  by (simp_all add: membership_of_def)

section \<open>Caches with room\<close>

context lru_spec
begin

lemma has_room:
  assumes "cache_wf C P c" and "finite M" and "lru_keys C c \<subseteq> M" and "card M \<le> lru_cap C c" and "k \<in> M"
  shows "k \<in> lru_keys C c \<or> length (lru_iter C c) < lru_cap C c"
proof (cases "k \<in> lru_keys C c")
  case False
  then have "lru_keys C c \<subset> M" using assms(3,5) by blast
  then have "card (lru_keys C c) < card M" using assms(2) by (simp add: psubset_card_mono)
  moreover have "card (lru_keys C c) = length (lru_iter C c)"
    using assms(1) distinct_card [of "map fst (lru_iter C c)"] by (simp add: cache_wf_def lru_keys_def)
  ultimately show ?thesis using assms(4) by simp
qed simp

lemma push_keys_room:
  assumes "cache_wf C P c" and "k \<in> lru_keys C c \<or> length (lru_iter C c) < lru_cap C c"
  shows "lru_keys C (lru_push C k v c) = insert k (lru_keys C c)"
proof -
  have "length (entries_without k (lru_iter C c)) < lru_cap C c"
  proof (cases "k \<in> lru_keys C c")
    case True
    then have "length (entries_without k (lru_iter C c)) < length (lru_iter C c)"
      unfolding entries_without_def lru_keys_def by (auto intro: length_filter_less)
    then show ?thesis using assms(1) by (simp add: cache_wf_def)
  next
    case False
    with assms(2) have "length (lru_iter C c) < lru_cap C c" by simp
    moreover have "length (entries_without k (lru_iter C c)) \<le> length (lru_iter C c)"
      by (simp add: entries_without_def)
    ultimately show ?thesis by simp
  qed
  then show ?thesis by (simp add: lru_keys_def push_spec keys_without)
qed

lemma get_or_insert_keys_room:
  assumes "k \<in> lru_keys C c \<or> length (lru_iter C c) < lru_cap C c"
  shows "lru_keys C (snd (lru_get_or_insert_mut C k v c)) = insert k (lru_keys C c)"
proof (cases "map_of (lru_iter C c) k")
  case None
  with assms have "length (lru_iter C c) < lru_cap C c" by (simp add: keys_iff)
  with None show ?thesis by (simp add: lru_keys_def get_or_insert_spec)
next
  case (Some v)
  then have "k \<in> lru_keys C c" by (simp add: keys_iff)
  then show ?thesis using Some by (auto simp: lru_keys_def get_or_insert_spec keys_front)
qed

end

section \<open>The steps\<close>

context session_lib
begin

lemma make_sender_table:
  assumes "session_ok E self" and "room E M self" and "k \<in> M"
  shows "static_of E (make_sender E k self) = static_of E self"
    and "membership_of E (make_sender E k self) = (if k \<in> snd (membership_of E self)
      then as_sender k (membership_of E self) else membership_of E self)"
proof -
  note R = session_ok_parts(1) [OF assms(1)]
  obtain v c where pop: "lru_pop (rcv_ops E) k (remote_receivers self) = (v, c)" by (rule prod.exhaust)
  note p = pop_recv [OF R pop]
  have v: "v = map_of (receivers E self) k" using r.pop_spec(1) [of k "remote_receivers self"] pop by simp
  have cap: "lru_cap (rcv_ops E) c = lru_cap (rcv_ops E) (remote_receivers self)"
    using r.pop_spec(3) [of k "remote_receivers self"] pop by simp
  have wf: "cache_wf (snd_ops E) send_entry (remote_senders self)" using R by (simp add: remote_ok_def)
  have keys: "lru_keys (snd_ops E) (lru_push (snd_ops E) k w (remote_senders self))
      = insert k (fst (membership_of E self))" for w
    using s.push_keys_room [OF wf s.has_room [OF wf, of M k], of w] assms(2,3) by (simp add: room_def)
  show "static_of E (make_sender E k self) = static_of E self"
    using pop cap by (simp add: make_sender_def static_remote s.push_spec split: option.splits)
  show "membership_of E (make_sender E k self) = (if k \<in> snd (membership_of E self)
      then as_sender k (membership_of E self) else membership_of E self)"
  proof (cases v)
    case None
    then have "k \<notin> snd (membership_of E self)" using r.keys_iff [of k "remote_receivers self"] v by simp
    with pop p(2) None show ?thesis by (simp add: make_sender_def)
  next
    case (Some w)
    then have "k \<in> snd (membership_of E self)" using r.keys_iff [of k "remote_receivers self"] v by simp
    with pop p(2) keys Some show ?thesis by (simp add: make_sender_def as_sender_def)
  qed
qed

lemma make_receiver_table:
  assumes "session_ok E self" and "room E M self" and "k \<in> M"
  shows "static_of E (make_receiver E k self) = static_of E self"
    and "membership_of E (make_receiver E k self) = (if k \<in> fst (membership_of E self)
      then as_receiver k (membership_of E self) else membership_of E self)"
proof -
  note R = session_ok_parts(1) [OF assms(1)]
  obtain v c where pop: "lru_pop (snd_ops E) k (remote_senders self) = (v, c)" by (rule prod.exhaust)
  note p = pop_send [OF R pop]
  have v: "v = map_of (senders E self) k" using s.pop_spec(1) [of k "remote_senders self"] pop by simp
  have cap: "lru_cap (snd_ops E) c = lru_cap (snd_ops E) (remote_senders self)"
    using s.pop_spec(3) [of k "remote_senders self"] pop by simp
  have wf: "cache_wf (rcv_ops E) recv_entry (remote_receivers self)" using R by (simp add: remote_ok_def)
  have keys: "lru_keys (rcv_ops E) (lru_push (rcv_ops E) k w (remote_receivers self))
      = insert k (snd (membership_of E self))" for w
    using r.push_keys_room [OF wf r.has_room [OF wf, of M k], of w] assms(2,3) by (simp add: room_def)
  show "static_of E (make_receiver E k self) = static_of E self"
    using pop cap by (simp add: make_receiver_def static_remote r.push_spec split: option.splits)
  show "membership_of E (make_receiver E k self) = (if k \<in> fst (membership_of E self)
      then as_receiver k (membership_of E self) else membership_of E self)"
  proof (cases v)
    case None
    then have "k \<notin> fst (membership_of E self)" using s.keys_iff [of k "remote_senders self"] v by simp
    with pop p(2) None show ?thesis by (simp add: make_receiver_def)
  next
    case (Some w)
    then have "k \<in> fst (membership_of E self)" using s.keys_iff [of k "remote_senders self"] v by simp
    with pop p(2) keys Some show ?thesis by (simp add: make_receiver_def as_receiver_def)
  qed
qed

text \<open>Making \<open>k\<close> a sender, then looking it up or adding it, leaves it a sender whatever it was.\<close>

lemma enter_sender:
  assumes "session_ok E self" and "room E M self" and "k \<in> M"
    and "lru_get_or_insert_mut (snd_ops E) k (RemoteSendSource_new k clock)
      (remote_senders (make_sender E k self)) = (source, c)"
    and "send_entry k source \<Longrightarrow> send_entry k source'"
  shows "refines_step E M (as_sender k) self
    (make_sender E k self\<lparr>remote_senders := lru_assign (snd_ops E) k source' c\<rparr>)"
proof (rule refinesI [OF assms(2)])
  let ?self = "make_sender E k self"
  note m = make_sender_ok [OF assms(1), of k] and t = make_sender_table [OF assms(1-3)]
  note g = goi_send [OF session_ok_parts(1) [OF m(1)] assms(4) entry_new(1) m(2)]
  have c: "c = snd (lru_get_or_insert_mut (snd_ops E) k (RemoteSendSource_new k clock) (remote_senders ?self))"
    using assms(4) by simp
  show "session_ok E (?self\<lparr>remote_senders := lru_assign (snd_ops E) k source' c\<rparr>)"
    using m(1) g assms(5) by (simp add: session_ok_remote assign_send)
  have "static_of E (?self\<lparr>remote_senders := lru_assign (snd_ops E) k source' c\<rparr>) = static_of E ?self"
    by (rule static_remote) (simp add: c s.assign_spec s.get_or_insert_spec)
  with t(1) show "static_of E (?self\<lparr>remote_senders := lru_assign (snd_ops E) k source' c\<rparr>) = static_of E self"
    by simp
  have wf: "cache_wf (snd_ops E) send_entry (remote_senders ?self)"
    using session_ok_parts(1) [OF m(1)] by (simp add: remote_ok_def)
  have "k \<in> lru_keys (snd_ops E) (remote_senders ?self)
      \<or> length (lru_iter (snd_ops E) (remote_senders ?self)) < lru_cap (snd_ops E) (remote_senders ?self)"
    by (rule s.has_room [OF wf _ _ _ assms(3)])
      (use assms(2,3) t in \<open>auto simp: room_def static_of_def as_sender_def\<close>)
  then have "lru_keys (snd_ops E) c = insert k (fst (membership_of E ?self))"
    using s.get_or_insert_keys_room by (simp add: c)
  then show "membership_of E (?self\<lparr>remote_senders := lru_assign (snd_ops E) k source' c\<rparr>)
      = as_sender k (membership_of E self)"
    using t(2) by (auto simp: s.assign_keys as_sender_def)
qed (use assms(2,3) in \<open>auto simp: room_def as_sender_def\<close>)

lemma enter_receiver:
  assumes "session_ok E self" and "room E M self" and "k \<in> M"
    and "lru_get_or_insert_mut (rcv_ops E) k (RemoteReceiveSource_new k clock)
      (remote_receivers (make_receiver E k self)) = (source, c)"
    and "recv_entry k source \<Longrightarrow> recv_entry k source'"
  shows "refines_step E M (as_receiver k) self
    (make_receiver E k self\<lparr>remote_receivers := lru_assign (rcv_ops E) k source' c\<rparr>)"
proof (rule refinesI [OF assms(2)])
  let ?self = "make_receiver E k self"
  note m = make_receiver_ok [OF assms(1), of k] and t = make_receiver_table [OF assms(1-3)]
  note g = goi_recv [OF session_ok_parts(1) [OF m(1)] assms(4) entry_new(2) m(2)]
  have c: "c = snd (lru_get_or_insert_mut (rcv_ops E) k (RemoteReceiveSource_new k clock) (remote_receivers ?self))"
    using assms(4) by simp
  show "session_ok E (?self\<lparr>remote_receivers := lru_assign (rcv_ops E) k source' c\<rparr>)"
    using m(1) g assms(5) by (simp add: session_ok_remote assign_recv)
  have "static_of E (?self\<lparr>remote_receivers := lru_assign (rcv_ops E) k source' c\<rparr>) = static_of E ?self"
    by (rule static_remote) (simp add: c r.assign_spec r.get_or_insert_spec)
  with t(1) show "static_of E (?self\<lparr>remote_receivers := lru_assign (rcv_ops E) k source' c\<rparr>) = static_of E self"
    by simp
  have wf: "cache_wf (rcv_ops E) recv_entry (remote_receivers ?self)"
    using session_ok_parts(1) [OF m(1)] by (simp add: remote_ok_def)
  have "k \<in> lru_keys (rcv_ops E) (remote_receivers ?self)
      \<or> length (lru_iter (rcv_ops E) (remote_receivers ?self)) < lru_cap (rcv_ops E) (remote_receivers ?self)"
    by (rule r.has_room [OF wf _ _ _ assms(3)])
      (use assms(2,3) t in \<open>auto simp: room_def static_of_def as_receiver_def\<close>)
  then have "lru_keys (rcv_ops E) c = insert k (snd (membership_of E ?self))"
    using r.get_or_insert_keys_room by (simp add: c)
  then show "membership_of E (?self\<lparr>remote_receivers := lru_assign (rcv_ops E) k source' c\<rparr>)
      = as_receiver k (membership_of E self)"
    using t(2) by (auto simp: r.assign_keys as_receiver_def)
qed (use assms(2,3) in \<open>auto simp: room_def as_receiver_def\<close>)

lemma handle_rb_refines:
  assumes "session_ok E self" and "room E M self" and "blk_ssrc rb \<in> M"
    and "handle_rb E clock ssrc rb from now ntp self = Some (reply, self')"
  shows "refines_step E M (\<lambda>m. if blk_ssrc rb \<in> own_senders self then m else as_sender (blk_ssrc rb) m) self self'"
proof (cases "map_of (local_senders self) (blk_ssrc rb)")
  case (Some source)
  then have own: "blk_ssrc rb \<in> own_senders self"
    unfolding own_senders_def using map_of_entry by fastforce
  from Some assms(4) obtain v where "self' = self\<lparr>local_senders := hm_insert (blk_ssrc rb) v (local_senders self)\<rparr>"
    by (auto simp: handle_rb_def bind_eq_Some_conv)
  with own have "static_of E self' = static_of E self" "membership_of E self' = membership_of E self"
    by (auto simp: static_of_def own_senders_def own_receivers_def hm_simps)
  from same_table [OF handle_rb_ok [OF assms(1,4)] this assms(2)] own show ?thesis by simp
next
  case None
  then have own: "blk_ssrc rb \<notin> own_senders self" by (simp add: own_senders_def map_of_eq_None_iff)
  obtain source c where goi: "lru_get_or_insert_mut (snd_ops E) (blk_ssrc rb)
      (RemoteSendSource_new (blk_ssrc rb) clock) (remote_senders (make_sender E (blk_ssrc rb) self)) = (source, c)"
    by (rule prod.exhaust)
  from None assms(4) goi obtain source' where
    add: "rs_add_last_rb (gst E) (rs_seen from now source) ssrc rb now ntp = Some source'"
    and self': "self' = make_sender E (blk_ssrc rb) self\<lparr>remote_senders := lru_assign (snd_ops E) (blk_ssrc rb) source' c\<rparr>"
    by (auto simp: handle_rb_def Let_def bind_eq_Some_conv)
  have "send_entry (blk_ssrc rb) source \<Longrightarrow> send_entry (blk_ssrc rb) source'"
    using send_entry_add_rb [OF add] by simp
  from enter_sender [OF assms(1-3) goi this] own show ?thesis by (simp add: self')
qed

lemma handle_rbs_refines:
  "session_ok E self \<Longrightarrow> room E M self \<Longrightarrow> blk_ssrc ` set rbs \<subseteq> M \<Longrightarrow>
    handle_rbs E clock ssrc rbs from now ntp replies self = Some (replies', self') \<Longrightarrow>
    refines_step E M (spec_blocks (own_senders self) rbs) self self'"
proof (induction rbs arbitrary: replies self)
  case Nil
  then show ?case using refines_refl [of E self M] by (simp add: spec_blocks_def)
next
  case (Cons rb rbs)
  from Cons.prems(4) obtain reply self1 where h: "handle_rb E clock ssrc rb from now ntp self = Some (reply, self1)"
    and rest: "handle_rbs E clock ssrc rbs from now ntp
      (replies @ (case reply of None \<Rightarrow> [] | Some r \<Rightarrow> [r])) self1 = Some (replies', self')"
    by (auto simp: bind_eq_Some_conv)
  have st: "refines_step E M (\<lambda>m. if blk_ssrc rb \<in> own_senders self then m else as_sender (blk_ssrc rb) m) self self1"
    using handle_rb_refines [OF Cons.prems(1,2) _ h] Cons.prems(3) by simp
  have "refines_step E M (spec_blocks (own_senders self1) rbs) self1 self'"
    by (rule Cons.IH [OF refines_dest(1,2) [OF st] _ rest]) (use Cons.prems(3) in simp)
  from refines_trans [OF st this] show ?case by (simp add: spec_blocks_def refines_dest(3) [OF st] if_distrib cong: if_cong)
qed

lemma recv_rr_refines:
  assumes "session_ok E self" and "room E M self" and "insert ssrc (blk_ssrc ` set rbs) \<subseteq> M"
    and "recv_rr E clock ssrc rbs from now ntp replies self = Some (replies', self')"
  shows "refines_step E M (\<lambda>m. spec_blocks (own_senders self) rbs (as_receiver ssrc m)) self self'"
proof -
  obtain source c where goi: "lru_get_or_insert_mut (rcv_ops E) ssrc (RemoteReceiveSource_new ssrc clock)
      (remote_receivers (make_receiver E ssrc self)) = (source, c)" by (rule prod.exhaust)
  let ?self = "make_receiver E ssrc self\<lparr>remote_receivers := lru_assign (rcv_ops E) ssrc (rr_seen from now source) c\<rparr>"
  have st: "refines_step E M (as_receiver ssrc) self ?self"
    by (rule enter_receiver [OF assms(1,2) _ goi]) (use assms(3) in simp_all)
  obtain replies1 where h: "handle_rbs E clock ssrc rbs from now ntp replies1 ?self = Some (replies', self')"
    using assms(4) by (auto simp: recv_rr_def Let_def goi)
  have "refines_step E M (spec_blocks (own_senders ?self) rbs) ?self self'"
    by (rule handle_rbs_refines [OF refines_dest(1,2) [OF st] _ h]) (use assms(3) in simp)
  from refines_trans [OF st this] show ?thesis by (simp add: refines_dest(3) [OF st])
qed

lemma rtcp_conflict_refines:
  assumes "session_ok E self" and "room E M self" and "rtcp_conflict addr ssrc now replies self = (replies', self')"
  shows "refines_step E M (\<lambda>m. m) self self'"
  using assms by (intro same_table) (auto simp: rtcp_conflict_def handle_ssrc_conflict_def)

lemma claims_local_iff: "claims_local self ssrc \<longleftrightarrow> ssrc \<in> own_senders self \<or> ssrc \<in> own_receivers self"
  unfolding claims_local_def own_senders_def own_receivers_def map_of_eq_None_iff by simp

lemma recv_sr_refines:
  assumes "session_ok E self" and "room E M self" and "insert ssrc (blk_ssrc ` set rbs) \<subseteq> M"
    and "recv_sr E clock ssrc ntp rtp_time octets packets rbs from now ntp_time replies self = Some (replies', self')"
  shows "refines_step E M (\<lambda>m. if from \<noteq> None \<and> (ssrc \<in> own_senders self \<or> ssrc \<in> own_receivers self) then m
      else spec_blocks (own_senders self) rbs (as_sender ssrc m)) self self'"
proof (cases "from \<noteq> None \<and> claims_local self ssrc")
  case True
  with assms(4) obtain addr where "rtcp_conflict addr ssrc now replies self = (replies', self')"
    by (auto simp: recv_sr_def)
  from rtcp_conflict_refines [OF assms(1,2) this] True show ?thesis by (simp add: claims_local_iff)
next
  case False
  obtain source c where goi: "lru_get_or_insert_mut (snd_ops E) ssrc (RemoteSendSource_new ssrc clock)
      (remote_senders (make_sender E ssrc self)) = (source, c)" by (rule prod.exhaust)
  let ?self = "make_sender E ssrc self\<lparr>remote_senders := lru_assign (snd_ops E) ssrc
      (set_last_received_sr ntp_time (NtpTime ntp) rtp_time octets packets (rs_seen from now source)) c\<rparr>"
  have st: "refines_step E M (as_sender ssrc) self ?self"
    by (rule enter_sender [OF assms(1,2) _ goi]) (use assms(3) in simp_all)
  obtain replies1 where h: "handle_rbs E clock ssrc rbs from now ntp_time replies1 ?self = Some (replies', self')"
    using assms(4) False by (auto simp: recv_sr_def Let_def goi split: option.splits bool.splits)
  have "refines_step E M (spec_blocks (own_senders ?self) rbs) ?self self'"
    by (rule handle_rbs_refines [OF refines_dest(1,2) [OF st] _ h]) (use assms(3) in simp)
  note seq = refines_trans [OF st this, unfolded refines_dest(3) [OF st]]
  have no_conflict: "\<not> (from \<noteq> None \<and> (ssrc \<in> own_senders self \<or> ssrc \<in> own_receivers self))"
    using False by (simp add: claims_local_iff)
  from seq show ?thesis by (simp only: if_not_P [OF no_conflict])
qed

lemma recv_sdes_item_refines:
  assumes "session_ok E self" and "room E M self" and "ssrc \<in> M"
    and "recv_sdes_item E clock from now ssrc item (replies, self) = (replies', self')"
  shows "refines_step E M (spec_item (sdes_types E)
    (from \<noteq> None \<and> (ssrc \<in> own_senders self \<or> ssrc \<in> own_receivers self)) ssrc item) self self'"
proof -
  obtain type val where item: "item = (type, val)" by (rule prod.exhaust)
  have ok: "session_ok E self'" using recv_sdes_item_ok [of "(replies, self)" clock "from" now ssrc item] assms by simp
  show ?thesis
  proof (cases "from \<noteq> None \<and> claims_local self ssrc \<or> type \<notin> set (sdes_types E)")
    case True
    have "\<exists>x. self' = self\<lparr>conflicting_addresses := x\<rparr>"
      using True assms(4) exI [of "\<lambda>x. self = self\<lparr>conflicting_addresses := x\<rparr>" "conflicting_addresses self"]
      by (auto simp: recv_sdes_item_def item rtcp_conflict_def handle_ssrc_conflict_def
          split: option.splits bool.splits if_splits)
    then have "refines_step E M (\<lambda>m. m) self self'" using ok assms(2) by (auto intro!: same_table)
    moreover have "spec_item (sdes_types E) (from \<noteq> None \<and> (ssrc \<in> own_senders self \<or> ssrc \<in> own_receivers self))
        ssrc item = (\<lambda>m. m)" using True by (auto simp: spec_item_def item claims_local_iff fun_eq_iff)
    ultimately show ?thesis by simp
  next
    case False
    obtain v c where get: "lru_get_mut (snd_ops E) ssrc (remote_senders self) = (v, c)" by (rule prod.exhaust)
    obtain w d where goi: "lru_get_or_insert_mut (rcv_ops E) ssrc (RemoteReceiveSource_new ssrc clock)
      (remote_receivers self) = (w, d)" by (rule prod.exhaust)
    note g = get_send [OF session_ok_parts(1) [OF assms(1)] get]
    have caps: "lru_cap (snd_ops E) c = lru_cap (snd_ops E) (remote_senders self)"
      "lru_cap (rcv_ops E) d = lru_cap (rcv_ops E) (remote_receivers self)"
      using s.get_mut_spec(3) [of ssrc "remote_senders self"] get
        r.get_or_insert_spec(3) [of ssrc "RemoteReceiveSource_new ssrc clock" "remote_receivers self"] goi by simp_all
    have wf: "cache_wf (rcv_ops E) recv_entry (remote_receivers self)"
      using session_ok_parts(1) [OF assms(1)] by (simp add: remote_ok_def)
    have d: "lru_keys (rcv_ops E) d = insert ssrc (snd (membership_of E self))"
      using r.get_or_insert_keys_room [OF r.has_room [OF wf, of M ssrc], of "RemoteReceiveSource_new ssrc clock"]
        assms(2,3) goi by (simp add: room_def)
    have "\<exists>x y. self' = (if v = None
        then self\<lparr>remote_senders := c, remote_receivers := lru_assign (rcv_ops E) ssrc x d\<rparr>
        else self\<lparr>remote_senders := lru_assign (snd_ops E) ssrc y c\<rparr>)"
      using False get goi assms(4)
      by (auto simp: recv_sdes_item_def item Let_def split: option.splits bool.splits)
    then obtain x y where self': "self' = (if v = None
        then self\<lparr>remote_senders := c, remote_receivers := lru_assign (rcv_ops E) ssrc x d\<rparr>
        else self\<lparr>remote_senders := lru_assign (snd_ops E) ssrc y c\<rparr>)" by blast
    have st: "static_of E self' = static_of E self"
      unfolding self' using caps by (simp add: static_of_def own_senders_def own_receivers_def
          s.assign_spec r.assign_spec)
    have "membership_of E self' = (if ssrc \<in> fst (membership_of E self) \<or> ssrc \<in> snd (membership_of E self)
        then membership_of E self else as_receiver ssrc (membership_of E self))"
      using g(2) g(3,4) d unfolding self'
      by (auto simp: s.assign_keys r.assign_keys as_receiver_def insert_absorb)
    then have mem: "membership_of E self' = spec_item (sdes_types E)
        (from \<noteq> None \<and> (ssrc \<in> own_senders self \<or> ssrc \<in> own_receivers self)) ssrc item (membership_of E self)"
      using False by (auto simp: spec_item_def item claims_local_iff)
    show ?thesis
      by (rule refinesI [OF assms(2) ok st], rule mem)
        (use assms(2,3) in \<open>auto simp: spec_item_def room_def as_receiver_def\<close>)
  qed
qed

text \<open>A loop whose steps refine steps of the specification refines their sequence.\<close>

lemma fold_refines:
  assumes "\<And>x r self. x \<in> set xs \<Longrightarrow> session_ok E self \<Longrightarrow> room E M self \<Longrightarrow>
      refines_step E M (g (own_senders self) (own_receivers self) x) self (snd (f x (r, self)))"
    and "session_ok E self" and "room E M self"
  shows "refines_step E M (fold (g (own_senders self) (own_receivers self)) xs) self (snd (fold f xs (r, self)))"
  using assms
proof (induction xs arbitrary: r self)
  case Nil
  then show ?case using refines_refl [of E self M] by (simp add: id_def)
next
  case (Cons x xs)
  obtain r1 self1 where x: "f x (r, self) = (r1, self1)" by (rule prod.exhaust)
  have st: "refines_step E M (g (own_senders self) (own_receivers self) x) self self1"
    using Cons.prems(1) [of x self r] Cons.prems(2,3) x by simp
  have "refines_step E M (fold (g (own_senders self1) (own_receivers self1)) xs) self1 (snd (fold f xs (r1, self1)))"
    by (rule Cons.IH [OF Cons.prems(1) refines_dest(1,2) [OF st]]) simp_all
  from refines_trans [OF st this] show ?case
    by (simp add: x refines_dest(3,4) [OF st] comp_def)
qed

lemma recv_sdes_refines:
  assumes "session_ok E self" and "room E M self" and "fst ` set chunks \<subseteq> M"
  shows "refines_step E M (fold (\<lambda>(k, items). fold (spec_item (sdes_types E)
      (from \<noteq> None \<and> (k \<in> own_senders self \<or> k \<in> own_receivers self)) k) items) chunks) self
    (snd (recv_sdes E clock from now chunks replies self))"
proof -
  let ?g = "\<lambda>S R (k, items). fold (spec_item (sdes_types E) (from \<noteq> None \<and> (k \<in> S \<or> k \<in> R)) k) items"
  have "refines_step E M (?g (own_senders self) (own_receivers self) x) self
      (snd (case x of (ssrc, items) \<Rightarrow> fold (recv_sdes_item E clock from now ssrc) items (r, self)))"
    if "x \<in> set chunks" "session_ok E self" "room E M self" for x r self
  proof -
    obtain k items where x: "x = (k, items)" by (rule prod.exhaust)
    have "refines_step E M (spec_item (sdes_types E) (from \<noteq> None \<and> (k \<in> own_senders self \<or> k \<in> own_receivers self)) k item)
        self (snd (recv_sdes_item E clock from now k item (r, self)))"
      if "session_ok E self" "room E M self" for item r self
      using recv_sdes_item_refines [OF that, of k clock "from" now item r] \<open>x \<in> set chunks\<close> assms(3) x
      by (cases "recv_sdes_item E clock from now k item (r, self)") fastforce
    from fold_refines [where g = "\<lambda>S R. spec_item (sdes_types E) (from \<noteq> None \<and> (k \<in> S \<or> k \<in> R)) k" and xs = items
        and f = "recv_sdes_item E clock from now k", OF this that(2,3)]
    show ?thesis by (simp add: x)
  qed
  from fold_refines [where g = ?g and xs = chunks
      and f = "\<lambda>(ssrc, items). fold (recv_sdes_item E clock from now ssrc) items" and r = replies, OF _ assms(1,2)] this
  show ?thesis by (simp add: recv_sdes_def case_prod_beta)
qed

text \<open>BYE and key-unit requests leave the table alone.\<close>

definition table_of where
  "table_of self = (static_of E self, membership_of E self)"

lemma table_get:
  "lru_get_mut (snd_ops E) k (remote_senders self) = (v, c) \<Longrightarrow> table_of (self\<lparr>remote_senders := c\<rparr>) = table_of self"
  "lru_get_mut (snd_ops E) k (remote_senders self) = (v, c) \<Longrightarrow>
    table_of (self\<lparr>remote_senders := lru_assign (snd_ops E) k x c\<rparr>) = table_of self"
  "lru_get_mut (rcv_ops E) k (remote_receivers self) = (w, d) \<Longrightarrow> table_of (self\<lparr>remote_receivers := d\<rparr>) = table_of self"
  "lru_get_mut (rcv_ops E) k (remote_receivers self) = (w, d) \<Longrightarrow>
    table_of (self\<lparr>remote_receivers := lru_assign (rcv_ops E) k y d\<rparr>) = table_of self"
  using s.get_mut_spec(3) [of k "remote_senders self"] s.get_mut_keys [of k "remote_senders self"]
    r.get_mut_spec(3) [of k "remote_receivers self"] r.get_mut_keys [of k "remote_receivers self"]
  by (simp_all add: table_of_def static_remote s.assign_spec s.assign_keys r.assign_spec r.assign_keys)

lemma bye_ssrc_table: "table_of (snd (snd (bye_ssrc E from now ssrc st))) = table_of (snd (snd st))"
proof -
  obtain check replies self where st: "st = (check, replies, self)" by (rule prod_cases3)
  obtain v c where get: "lru_get_mut (snd_ops E) ssrc (remote_senders self) = (v, c)" by (rule prod.exhaust)
  let ?self = "self\<lparr>remote_senders := c\<rparr>"
  obtain w d where get2: "lru_get_mut (rcv_ops E) ssrc (remote_receivers ?self) = (w, d)" by (rule prod.exhaust)
  note t = table_get(1,2) [OF get] table_get(3,4) [OF get2]
  show ?thesis
  proof (cases v)
    case (Some source)
    with get st t(2) show ?thesis by (simp add: bye_ssrc_def)
  next
    case None
    with get get2 st t show ?thesis by (simp add: bye_ssrc_def Let_def split: option.splits)
  qed
qed

lemma key_unit_media_table: "table_of (snd (key_unit_media E now sender_ssrc media_ssrc st)) = table_of (snd st)"
proof -
  obtain ssrcs self where st: "st = (ssrcs, self)" by (rule prod.exhaust)
  obtain v c where get: "lru_get_mut (snd_ops E) sender_ssrc (remote_senders self) = (v, c)"
    by (rule prod.exhaust)
  let ?self = "self\<lparr>remote_senders := c\<rparr>"
  obtain w d where get2: "lru_get_mut (rcv_ops E) sender_ssrc (remote_receivers ?self) = (w, d)"
    by (rule prod.exhaust)
  note t = table_get(1,2) [OF get] table_get(3,4) [OF get2]
  show ?thesis
  proof (cases v)
    case (Some source)
    with get st t(2) show ?thesis by (simp add: key_unit_media_def case_prod_beta split: option.splits)
  next
    case None
    with get get2 st t show ?thesis
      by (simp add: key_unit_media_def Let_def case_prod_beta split: option.splits)
  qed
qed

lemma reconsider_table:
  assumes "reconsider E check n now replies rec self = Some (replies', rec', self')"
  shows "table_of self' = table_of self"
proof -
  have "table_of self2 = table_of self1" if "rtcp_reverse_consideration E n now self1 = Some (applied, self2)"
    for applied self1 self2
    using reverse_consideration_cases [OF that] by (auto simp: table_of_def)
  with assms show ?thesis by (auto simp: reconsider_def bind_eq_Some_conv split: if_splits)
qed

lemma recv_bye_table:
  assumes "recv_bye E len from now ssrcs replies rec self = Some (replies', rec', self')"
  shows "table_of self' = table_of self"
proof -
  obtain check replies1 self1 where f: "fold (bye_ssrc E from now) ssrcs (False, replies, self)
      = (check, replies1, self1)" by (rule prod_cases3)
  have "table_of (snd (snd (fold (bye_ssrc E from now) ssrcs (False, replies, self))))
      = table_of (snd (snd (False, replies, self)))"
    by (rule fold_same [where f = "\<lambda>st. table_of (snd (snd st))"]) (rule bye_ssrc_table)
  then have 1: "table_of self1 = table_of self" by (simp add: f)
  have "table_of (update_rtcp_average k (x\<lparr>bye_state := b\<rparr>)) = table_of x" for k x b
    by (simp add: update_rtcp_average_def table_of_def)
  with assms 1 show ?thesis
    by (auto simp: recv_bye_def f Let_def split: option.splits dest!: reconsider_table)
qed

lemma handle_key_unit_table:
  "table_of (snd (handle_remote_request_key_unit E now fir sender_ssrc media_ssrcs replies self)) = table_of self"
proof -
  have "table_of (snd (fold (key_unit_media E now sender_ssrc) media_ssrcs ([], self))) = table_of (snd ([] :: u32 list, self))"
    by (rule fold_same [where f = "\<lambda>st. table_of (snd st)"]) (rule key_unit_media_table)
  then show ?thesis by (simp add: handle_remote_request_key_unit_def case_prod_beta)
qed

lemma table_refines:
  assumes "session_ok E self'" and "room E M self" and "table_of self' = table_of self"
  shows "refines_step E M (\<lambda>m. m) self self'"
  using assms by (intro same_table) (simp_all add: table_of_def)

section \<open>The packets of a compound\<close>

lemma recv_rtcp_packet_refines:
  assumes "session_ok E self" and "room E M self" and "mentioned p \<subseteq> M"
    and "recv_rtcp_packet E clock len from now ntp p replies rec self = Some (replies', rec', self')"
  shows "refines_step E M (spec_packet (own_senders self) (own_receivers self) (sdes_types E) from p) self self'"
proof -
  note ok = recv_rtcp_packet_ok [OF assms(1,4)]
  have same: ?thesis if "table_of self' = table_of self"
    "\<And>m. spec_packet (own_senders self) (own_receivers self) (sdes_types E) from p m = m"
  proof -
    from that(2) have "spec_packet (own_senders self) (own_receivers self) (sdes_types E) from p = (\<lambda>m. m)"
      by (simp add: fun_eq_iff)
    with table_refines [OF ok assms(2) that(1)] show ?thesis by simp
  qed
  show ?thesis
  proof (cases p)
    case (ByePacket ssrcs)
    then show ?thesis using assms(4) by (intro same recv_bye_table) (auto simp: recv_rtcp_packet_def spec_packet_def)
  next
    case (RrPacket ssrc rbs)
    with assms recv_rr_refines [OF assms(1,2), of ssrc rbs clock "from" now ntp replies] show ?thesis
      by (auto simp: recv_rtcp_packet_def spec_packet_simps bind_eq_Some_conv)
  next
    case (SrPacket x1 x2 x3 x4 x5 x6)
    with assms recv_sr_refines [OF assms(1,2), of x1 x6 clock x2 x3 x4 x5 "from" now ntp replies] show ?thesis
      by (auto simp: recv_rtcp_packet_def spec_packet_simps bind_eq_Some_conv)
  next
    case (SdesPacket chunks)
    with assms recv_sdes_refines [OF assms(1,2), of chunks "from" clock now replies] show ?thesis
      by (auto simp: recv_rtcp_packet_def spec_packet_simps case_prod_beta)
  next
    case (PayloadFeedback sender media fci)
    with assms(4) handle_key_unit_table show ?thesis
      by (intro same) (auto simp: recv_rtcp_packet_def spec_packet_def case_prod_beta split: feedback_control.splits)
  next
    case AppPacket
    with assms(4) show ?thesis by (intro same) (auto simp: recv_rtcp_packet_def spec_packet_def)
  next
    case OtherPacket
    with assms(4) show ?thesis by (intro same) (auto simp: recv_rtcp_packet_def spec_packet_def)
  next
    case PacketError
    with assms(4) show ?thesis by (intro same) (auto simp: recv_rtcp_packet_def spec_packet_def)
  qed
qed

lemma recv_rtcp_packets_refines:
  "session_ok E self \<Longrightarrow> room E M self \<Longrightarrow> \<Union> (mentioned ` set ps) \<subseteq> M \<Longrightarrow>
    recv_rtcp_packets E clock len from now ntp ps replies rec self = Some (replies', self') \<Longrightarrow>
    refines_step E M (fold (spec_packet (own_senders self) (own_receivers self) (sdes_types E) from) ps) self self'"
proof (induction ps arbitrary: replies rec self)
  case Nil
  then show ?case using refines_refl [of E self M] by (simp add: id_def)
next
  case (Cons p ps)
  from Cons.prems(4) obtain replies1 rec1 self1 where
    h: "recv_rtcp_packet E clock len from now ntp p replies rec self = Some (replies1, rec1, self1)"
    and rest: "recv_rtcp_packets E clock len from now ntp ps replies1 rec1 self1 = Some (replies', self')"
    by (auto simp: bind_eq_Some_conv)
  have st: "refines_step E M (spec_packet (own_senders self) (own_receivers self) (sdes_types E) from p) self self1"
    by (rule recv_rtcp_packet_refines [OF Cons.prems(1,2) _ h]) (use Cons.prems(3) in simp)
  have "refines_step E M (fold (spec_packet (own_senders self1) (own_receivers self1) (sdes_types E) from) ps) self1 self'"
    by (rule Cons.IH [OF refines_dest(1,2) [OF st] _ rest]) (use Cons.prems(3) in simp)
  from refines_trans [OF st this] show ?case by (simp add: refines_dest(3,4) [OF st] comp_def)
qed

lemma handle_rtcp_recv_refines:
  assumes "session_ok E self" and "room E M self" and "\<Union> (mentioned ` set rtcp) \<subseteq> M"
    and "handle_rtcp_recv E clock rtcp len from now ntp self = Some (replies, self')"
  shows "refines_step E M (fold (spec_packet (own_senders self) (own_receivers self) (sdes_types E) from) rtcp) self self'"
proof -
  define self1 where "self1 = (if bye_state self = None
    then update_rtcp_average (len + UDP_IP_OVERHEAD_BYTES) self else self)\<lparr>timed_out_ssrcs := []\<rparr>"
  have "session_ok E self1" using assms(1)
    by (auto simp: self1_def session_ok_def update_rtcp_average_def)
  then have st: "refines_step E M (\<lambda>m. m) self self1"
    by (rule same_table [OF _ _ _ assms(2)]) (simp_all add: self1_def update_rtcp_average_def)
  obtain replies1 self2 where h: "recv_rtcp_packets E clock len from now ntp rtcp
      (if timed_out_ssrcs (if bye_state self = None then update_rtcp_average (len + UDP_IP_OVERHEAD_BYTES) self else self) = []
       then [] else [SsrcTimedOut (timed_out_ssrcs (if bye_state self = None
         then update_rtcp_average (len + UDP_IP_OVERHEAD_BYTES) self else self))]) False self1 = Some (replies1, self2)"
    and self': "self' = update_point_to_point E self2"
    using assms(4) by (auto simp: handle_rtcp_recv_def Let_def bind_eq_Some_conv self1_def)
  note st2 = recv_rtcp_packets_refines [OF refines_dest(1,2) [OF st] assms(3) h]
  have "refines_step E M (\<lambda>m. m) self2 self'"
    by (rule same_table [OF _ _ _ refines_dest(2) [OF st2]])
      (use refines_dest(1) [OF st2] in \<open>simp_all add: self' update_point_to_point_def\<close>)
  from refines_trans [OF refines_trans [OF st st2] this] show ?thesis
    by (simp add: refines_dest(3,4) [OF st])
qed

end

section \<open>Properties\<close>

text \<open>C9: Receiving a compound RTCP packet implements the membership table: the SSRCs of the
  remote senders and receivers afterwards are those that the transitions of the specification give
  from the ones before, packet by packet, whenever both caches have room for all the SSRCs
  involved.\<close>

theorem rtcp_recv_refines_membership:
  assumes "session_lib E" and "session_ok E self" and "room E M self"
    and "\<Union> (mentioned ` set rtcp) \<subseteq> M"
    and "handle_rtcp_recv E clock rtcp len from now ntp self = Some (replies, self')"
  shows "membership_of E self' = fold (spec_packet (own_senders self) (own_receivers self) (sdes_types E) from) rtcp
    (membership_of E self)"
  using session_lib.handle_rtcp_recv_refines [OF assms] by (simp add: refines_step_def)

definition example_rtcp :: "rtcp_packet list" where
  "example_rtcp = [RrPacket 42 [], SdesPacket [(42, [(1, [97])]), (43, [(1, [98])])]]"

theorem rtcp_recv_refines_membership_witness:
  "\<exists>replies self'. handle_rtcp_recv ref_env 0 example_rtcp 40 (Some example_addr) 0 0 example_known = Some (replies, self')
    \<and> membership_of ref_env self' = ({}, {42, 43})"
proof -
  have m: "membership_of ref_env example_known = ({42}, {})"
    by (simp add: membership_of_def lru_keys_def example_known_facts)
  have r: "room ref_env {42, 43} example_known"
    by (simp add: room_def m)
      (simp add: example_known_def example_session_def set_pt_clock_rate_def Session_new_def ref_env_def ref_lru_def
        DEFAULT_MAX_REMOTE_SOURCES_def)
  have "\<exists>replies self'. handle_rtcp_recv ref_env 0 example_rtcp 40 (Some example_addr) 0 0 example_known = Some (replies, self')"
    by (simp add: handle_rtcp_recv_def example_rtcp_def recv_rtcp_packet_def recv_rr_def Let_def case_prod_beta)
  then obtain replies self' where
    h: "handle_rtcp_recv ref_env 0 example_rtcp 40 (Some example_addr) 0 0 example_known = Some (replies, self')" by blast
  have types: "sdes_types ref_env = [1, 2, 3, 4, 5, 6, 7]" by (simp add: sdes_types_def ref_env_def)
  have own: "own_senders example_known = {}" "own_receivers example_known = {}"
    by (simp_all add: own_senders_def own_receivers_def example_known_def example_session_facts)
  from rtcp_recv_refines_membership [OF refsess.session_lib_axioms example_known_facts(1) r _ h] h
  show ?thesis
    by (auto simp: example_rtcp_def m own types spec_packet_def spec_blocks_def as_receiver_def spec_item_def)
qed

end
