(* ===== verification/Session_Findings.thy ===== *)
theory Session_Findings
  imports Session_Roles
begin

text \<open>
  Behaviour of the RTP session that is not what it means to do: states from which sending RTCP
  panics, and sources that are timed out or taken for another's although they are not.
\<close>

section \<open>Lemmas\<close>

lemma report_blocks_length:
  "report_blocks L ntp_now es reported = Some (rbs, reported') \<Longrightarrow> length rbs = count_normal rs_state es"
proof (induction es arbitrary: reported rbs)
  case (Cons e es)
  obtain k sender where e: "e = (k, sender)" by (rule prod.exhaust)
  from Cons show ?case by (auto simp: e count_normal_def bind_eq_Some_conv split: if_splits)
qed (simp add: count_normal_def)

text \<open>The receiver report of a session that sends nothing is part of the compound packet.\<close>

lemma pli_step_keeps: "x \<in> set (fst st) \<Longrightarrow> x \<in> set (fst (pli_step E ssrc e st))"
  by (simp add: pli_step_def case_prod_beta)

lemma generate_pli_keeps:
  assumes "generate_pli E draws clock rtcp self = Some (rtcp', self')" and "x \<in> set rtcp"
  shows "x \<in> set rtcp'"
proof -
  obtain ssrc self1 where f: "fold (pli_step E ssrc) (senders E self1) (rtcp, self1) = (rtcp', self')"
    using assms(1) by (auto simp: generate_pli_def bind_eq_Some_conv)
  have "x \<in> set (fst (fold (pli_step E ssrc) (senders E self1) (rtcp, self1)))"
    by (rule fold_keeps [where P = "\<lambda>st. x \<in> set (fst st)"]) (use assms(2) pli_step_keeps in auto)
  then show ?thesis by (simp add: f)
qed

lemma generate_fir_keeps:
  "generate_fir E draws clock rtcp self = Some (rtcp', self') \<Longrightarrow> x \<in> set rtcp \<Longrightarrow> x \<in> set rtcp'"
  by (auto simp: generate_fir_def bind_eq_Some_conv split: prod.splits if_splits)

lemma receiver_report_sent:
  assumes "generate_rtcp E draws clock now ntp_now False self = Some (rtcp, reported, self')"
    and "local_senders self = []"
  shows "\<exists>ssrc rbs. RrBuilder ssrc rbs \<in> set rtcp \<and> length rbs = count_normal rs_state (senders E self)"
  using assms(1)
proof (cases rule: generate_rtcp_steps)
  case (steps rtcp1 rep1 self1 rtcp2 self2 rtcp3 self3 rtcp4 self4)
  have s1: "self1 = self" using steps(1) assms(2) by (auto simp: generate_sr_def bind_eq_Some_conv)
  obtain ssrc rbs self0 where rr: "RrBuilder ssrc rbs \<in> set rtcp2"
    and e: "ensure_internal_send_src E draws clock self = Some (ssrc, self0)"
    and b: "report_blocks (gst E) ntp_now (senders E self0) rep1 = Some (rbs, reported)"
    using steps(2) assms(2) by (auto simp: generate_rr_def s1 Let_def bind_eq_Some_conv)
  have "remote_senders self0 = remote_senders self" using ensure_internal_cases [OF e] by auto
  then have len: "length rbs = count_normal rs_state (senders E self)" using report_blocks_length [OF b] by simp
  have "RrBuilder ssrc rbs \<in> set (generate_sdes E rtcp2 False self2)" using rr by (simp add: generate_sdes_def Let_def)
  from generate_fir_keeps [OF steps(4) generate_pli_keeps [OF steps(3) this]]
  have "RrBuilder ssrc rbs \<in> set rtcp" using steps(5) by (auto simp: generate_bye_def Let_def)
  with len show ?thesis by blast
qed

lemma mul_f64_zero [simp]: "mul_f64 0 f = Some 0"
  by (simp add: mul_f64_def as_secs_f64_def f64_add_def f64_mul_def f64_div_def f64_of_nat_def f64_rnd_def
      from_secs_f64_def SECOND_def rne_def)

context session_lib
begin

text \<open>A session with one remote sender, whose last activity RTP packets do not change.\<close>

definition rest_of where
  "rest_of self = (local_senders self, local_receivers self, receivers E self, bye_state self,
     average_rtcp_size self, min_rtcp_interval self)"

lemma recv_from_single:
  assumes "senders E self = [(k, src)]" and "map_of (receivers E self) k = None"
    and "recv_from E k from now self = (reply, self')"
  shows "\<exists>src'. senders E self' = [(k, src')]
    \<and> src_last_activity (rs_source src') = src_last_activity (rs_source src) \<and> rest_of self' = rest_of self"
proof (cases "from = None \<or> map_of (local_senders self) k \<noteq> None")
  case True
  with assms show ?thesis
    by (auto simp: recv_from_def handle_ssrc_conflict_def rest_of_def split: option.splits)
next
  case False
  then obtain addr where from_eq: "from = Some addr" by auto
  obtain v c where pop: "lru_pop (rcv_ops E) k (remote_receivers self) = (v, c)" by (rule prod.exhaust)
  obtain w d where get: "lru_get_mut (snd_ops E) k (remote_senders self) = (w, d)" by (rule prod.exhaust)
  have v: "v = None" using r.pop_spec(1) [of k "remote_receivers self"] pop assms(2) by simp
  have "filter (\<lambda>e. fst e \<noteq> k) (receivers E self) = receivers E self"
    using assms(2) by (auto simp: filter_id_conv map_of_eq_None_iff)
  then have c: "lru_iter (rcv_ops E) c = receivers E self"
    using r.pop_spec(2) [of k "remote_receivers self"] pop by (simp add: entries_without_def)
  have w: "w = Some src" "lru_iter (snd_ops E) d = [(k, src)]"
    using s.get_mut_spec(1,2) [of k "remote_senders self"] get assms(1)
    by (simp_all add: entries_front_def entries_without_def)
  show ?thesis
    using assms(3) from_eq False pop get v w c
    by (auto simp: recv_from_def Let_def s.assign_spec entries_assign_def rs_set_rtp_from_def rest_of_def
        split: option.splits)
qed

lemma handle_recv_single:
  assumes "session_ok E self" and "senders E self = [(rtp_ssrc rtp, src)]"
    and "map_of (receivers E self) (rtp_ssrc rtp) = None"
    and "handle_recv E t0 clock rtp from now self = Some (reply, t1, self')"
  shows "\<exists>src'. senders E self' = [(rtp_ssrc rtp, src')]
    \<and> src_last_activity (rs_source src') = src_last_activity (rs_source src) \<and> rest_of self' = rest_of self"
proof -
  let ?k = "rtp_ssrc rtp"
  obtain r1 self1 where rf: "recv_from E ?k from now self = (r1, self1)" by (rule prod.exhaust)
  obtain src1 where 1: "senders E self1 = [(?k, src1)]"
    "src_last_activity (rs_source src1) = src_last_activity (rs_source src)" "rest_of self1 = rest_of self"
    using recv_from_single [OF assms(2,3) rf] by blast
  have ok1: "session_ok E self1" using recv_from_ok [OF assms(1) rf] by simp
  obtain w d where get: "lru_get_mut (snd_ops E) ?k (remote_senders self1) = (w, d)" by (rule prod.exhaust)
  have w: "w = Some src1" "lru_iter (snd_ops E) d = [(?k, src1)]"
    using s.get_mut_spec(1,2) [of ?k "remote_senders self1"] get 1(1)
    by (simp_all add: entries_front_def entries_without_def)
  show ?thesis
  proof (cases r1)
    case (Some x)
    with rf assms(4) have "self' = self1" by (simp add: handle_recv_def)
    with 1 show ?thesis by simp
  next
    case None
    obtain rep t2 src' where rp: "recv_source E t0 rtp now self1 src1 = Some (rep, t2, src')"
      and self': "self' = self1\<lparr>remote_senders := lru_assign (snd_ops E) ?k src' d,
        hold_buffer_counter := hold_buffer_counter self1 + (if is_hold rep then 1 else 0)\<rparr>"
      using handle_recv_source [OF rf [unfolded None] get [unfolded w(1)] assms(4)] by blast
    have "rs_ok src1"
      using get_send(3) [OF session_ok_parts(1) [OF ok1] get w(1)] by (simp add: send_entry_def)
    from recv_packet_keeps [OF this rp [unfolded recv_source_def]] 1(2,3) w(2)
    show ?thesis by (simp add: self' s.assign_spec entries_assign_def rest_of_def)
  qed
qed

end

section \<open>A crowded session\<close>

text \<open>The example session with \<open>n\<close> validated remote senders.\<close>

definition crowd :: "nat \<Rightarrow> (u32 \<times> remote_send_source) list" where
  "crowd n = map (\<lambda>k. (word_of_nat k, rs_set_state Normal (RemoteSendSource_new (word_of_nat k) 0))) [0..<n]"

definition crowded :: "nat \<Rightarrow> ref_session \<Rightarrow> ref_session" where
  "crowded n self = self\<lparr>remote_senders := (150, crowd n)\<rparr>"

lemma count_normal_Nil [simp]: "count_normal st [] = 0"
  by (simp add: count_normal_def)

lemma count_crowd: "count_normal rs_state (crowd n) = n"
  by (simp add: count_normal_def crowd_def rs_set_state_def rs_state_def Source_set_state_def filter_map comp_def)

lemma senders_crowded: "senders ref_env (crowded n self) = crowd n"
  by (simp add: crowded_def ref_env_def ref_lru_def)

lemma size_ok_crowded:
  assumes "n \<le> 480" and "self = example_session \<or> self = example_scheduled"
  shows "size_ok ref_env (crowded n self)" and "n_members ref_env (crowded n self) = n"
proof -
  have "bye_state (crowded n self) = None" "local_senders (crowded n self) = []"
    "local_receivers (crowded n self) = []" "receivers ref_env (crowded n self) = []"
    "average_rtcp_size (crowded n self) = 100" "min_rtcp_interval (crowded n self) = 5 * SECOND"
    using assms(2) by (auto simp: crowded_def example_scheduled_def example_session_def set_pt_clock_rate_def
        Session_new_def refsess.r.new_spec RTCP_MIN_REPORT_INTERVAL_def)
  with assms(1) senders_crowded [of n self]
  show "n_members ref_env (crowded n self) = n" and "size_ok ref_env (crowded n self)"
    by (simp_all add: n_members_def count_crowd size_ok_def SECOND_def)
qed

lemma ref_size_limit:
  "RrBuilder ssrc rbs \<in> set rtcp \<Longrightarrow> 31 < length rbs \<Longrightarrow> calculate_size ref_env rtcp = None"
proof -
  have "ref_calculate_size rtcp = None" if "RrBuilder ssrc rbs \<in> set rtcp" "31 < length rbs"
    using that by (induction rtcp) (auto simp: ref_size_def)
  then show "RrBuilder ssrc rbs \<in> set rtcp \<Longrightarrow> 31 < length rbs \<Longrightarrow> calculate_size ref_env rtcp = None"
    by (simp add: ref_env_def)
qed

section \<open>Properties\<close>

text \<open>C37: A session that only receives panics when it is to send regular RTCP with more than 31
  validated remote senders: all of them are put in one receiver report, which has room for 31
  report blocks, and the error of the writer is unwrapped.\<close>

theorem too_many_senders_panic:
  assumes "\<And>rtcp ssrc rbs. RrBuilder ssrc rbs \<in> set rtcp \<Longrightarrow> 31 < length rbs \<Longrightarrow> calculate_size E rtcp = None"
    and "pending_rtcp_send self = []" and "tm_time (next_rtcp_send self) = Some next_time"
    and "\<not> early_due self" and "next_time \<le> now" and "last_rtcp_handle_time self = Some h"
    and "rtcp_interval E (rng_f1 rng) (update_point_to_point E self) = Some i" and "h + i \<le> now"
    and "local_senders self = []" and "31 < count_normal rs_state (senders E self)"
  shows "poll_rtcp_send E rng clock now ntp_now self = None"
proof (rule ccontr)
  assume "poll_rtcp_send E rng clock now ntp_now self \<noteq> None"
  then obtain reply self' where "poll_rtcp_send E rng clock now ntp_now self = Some (reply, self')" by auto
  then show False
  proof (cases rule: poll_rtcp_send_cases)
    case (wait nt)
    with assms show ?thesis by (auto simp: time_to_send_def Let_def update_point_to_point_def split: if_splits)
  next
    case (sent nt self1 rtcp reported self2 n data self4)
    have "self1 = update_point_to_point E self"
      using sent(2,3) assms(3-8) by (auto simp: time_to_send_def Let_def update_point_to_point_def split: if_splits)
    then have "\<exists>ssrc rbs. RrBuilder ssrc rbs \<in> set rtcp \<and> length rbs = count_normal rs_state (senders E self)"
      using receiver_report_sent [of E "rng_ssrcs rng" clock now ntp_now self1 rtcp reported self2] sent(4) assms(4,9)
      by (simp add: update_point_to_point_def)
    with assms(1,10) sent(5) show ?thesis by fastforce
  qed (use assms(2,3) in simp_all)
qed

theorem too_many_senders_panic_witness:
  "poll_rtcp_send ref_env example_rng 0 (2 ^ 50) 0 (crowded 32 example_scheduled) = None"
proof -
  let ?self = "crowded 32 example_scheduled"
  have sz: "size_ok ref_env (update_point_to_point ref_env ?self)" using size_ok_crowded(1) [of 32] by simp
  obtain i where i: "rtcp_interval ref_env (rng_f1 example_rng) (update_point_to_point ref_env ?self) = Some i" "i \<le> 2 ^ 49"
    using rtcp_interval_total [OF refsess.gst_ok sz, of "rng_f1 example_rng"] by (auto simp: example_rng_def)
  have f: "pending_rtcp_send ?self = []" "tm_time (next_rtcp_send ?self) = Some (5 * SECOND)" "\<not> early_due ?self"
    "last_rtcp_handle_time ?self = Some 0" "local_senders ?self = []"
    using example_scheduled_facts
    by (simp_all add: crowded_def early_due_def) (simp add: example_scheduled_def example_session_facts)
  show ?thesis
    by (rule too_many_senders_panic [OF ref_size_limit f(1,2,3) _ f(4) i(1) _ f(5)])
      (use i(2) senders_crowded [of 32 example_scheduled] in \<open>simp_all add: SECOND_def count_crowd\<close>)
qed

text \<open>C38: After BYE was scheduled in a session of more than 50 members that never asked for an RTCP
  timeout, the poll at the scheduled time panics: the time RTCP was last handled is unwrapped, but
  only \<^verbatim>\<open>poll_rtcp_send_timeout\<close> and a transmission set it.\<close>

theorem bye_before_first_poll_panics:
  assumes "schedule_bye E r1 r2 reason now self = Some self'"
    and "bye_state self = None" and "last_rtcp_handle_time self = None" and "next_early_rtcp_time self = None"
    and "pending_rtcp_send self = []"
    and "50 < n_members E (self\<lparr>local_senders := hm_map_values (ls_mark_bye reason) (local_senders self),
        local_receivers := hm_map_values (lr_mark_bye reason) (local_receivers self)\<rparr>)"
  shows "\<exists>t. tm_time (next_rtcp_send self') = Some t \<and>
    (\<forall>now'. t \<le> now' \<longrightarrow> poll_rtcp_send E rng clock now' ntp_now self' = None)"
proof -
  obtain t where f: "tm_time (next_rtcp_send self') = Some t" "last_rtcp_handle_time self' = None"
    "next_early_rtcp_time self' = None" "pending_rtcp_send self' = []"
    using assms by (auto simp: schedule_bye_def Let_def bind_eq_Some_conv update_point_to_point_def not_le
        split: if_splits)
  have "time_to_send E (rng_f1 rng) (early_due self') t now' self' = None" if "t \<le> now'" for now'
    using f that by (cases "rtcp_interval E (rng_f1 rng) (update_point_to_point E self')")
      (simp_all add: time_to_send_def early_due_def Let_def update_point_to_point_def)
  then show ?thesis using f(1) by (auto simp: poll_rtcp_send_eq [OF f(4,1)])
qed

theorem bye_before_first_poll_panics_witness:
  "\<exists>self' t. schedule_bye ref_env (1 / 4) (1 / 2) [] 0 (crowded 51 example_session) = Some self'
    \<and> tm_time (next_rtcp_send self') = Some t \<and> poll_rtcp_send ref_env example_rng 0 t 0 self' = None"
proof -
  let ?self = "crowded 51 example_session"
  have f: "bye_state ?self = None" "last_rtcp_handle_time ?self = None" "next_early_rtcp_time ?self = None"
    "pending_rtcp_send ?self = []" "local_senders ?self = []" "local_receivers ?self = []"
    by (simp_all add: crowded_def example_session_def set_pt_clock_rate_def Session_new_def)
  have mark: "?self\<lparr>local_senders := [], local_receivers := []\<rparr> = ?self" using f(5,6) by simp
  have n: "50 < n_members ref_env ?self" using size_ok_crowded(2) [of 51 example_session] by simp
  define self2 where "self2 = update_point_to_point ref_env (?self\<lparr>
    bye_state := Some \<lparr>bs_members = 1, bs_pmembers = 1\<rparr>, last_rtcp_sent_times := [0], average_rtcp_size := 100\<rparr>)"
  have sz: "size_ok ref_env self2"
    using size_ok_crowded(1) [of 51 example_session] by (simp add: self2_def size_ok_def n_members_def update_point_to_point_def)
  obtain i where i: "rtcp_interval ref_env (1 / 4) self2 = Some i"
    using rtcp_interval_total [OF refsess.gst_ok sz, of "1 / 4"] by auto
  obtain i' where "feedback_interval (1 / 2) i (self2\<lparr>t_rr := Some i\<rparr>) = Some i'"
    using feedback_interval_total [of ref_env "self2\<lparr>t_rr := Some i\<rparr>" "1 / 2" i] sz by auto
  with n i have "\<exists>self'. schedule_bye ref_env (1 / 4) (1 / 2) [] 0 ?self = Some self'"
    by (simp add: schedule_bye_def f hm_map_values_def mark self2_def [symmetric] Let_def del: One_nat_def)
  then obtain self' where b: "schedule_bye ref_env (1 / 4) (1 / 2) [] 0 ?self = Some self'" by blast
  from bye_before_first_poll_panics [OF b f(1-4), of example_rng 0 0] n mark show ?thesis
    using b by (auto simp: f(5,6) hm_map_values_def)
qed

text \<open>Reverse reconsideration loses the time of the last transmission: whenever it is applied, that
  time becomes \<open>now\<close>, because the distance to a time in the past saturates to zero.\<close>

theorem reverse_consideration_forgets_last:
  assumes "rtcp_reverse_consideration E n now self = Some (True, self')"
    and "last_rtcp_sent_times self = last_rtcp # rest" and "last_rtcp \<le> now"
  shows "last_rtcp_sent_times self' = now # rest"
  using assms
  by (auto simp: rtcp_reverse_consideration_def Let_def bind_eq_Some_conv usub_def split: if_splits option.splits)

theorem reverse_consideration_forgets_last_witness:
  "\<exists>self'. rtcp_reverse_consideration ref_env 1 (7 * SECOND)
      (example_session\<lparr>next_rtcp_send := \<lparr>tm_time = Some (8 * SECOND), tm_p_members = 2\<rparr>,
        last_rtcp_sent_times := [3 * SECOND]\<rparr>) = Some (True, self')
    \<and> last_rtcp_sent_times self' = [7 * SECOND]"
proof -
  let ?self = "example_session\<lparr>next_rtcp_send := \<lparr>tm_time = Some (8 * SECOND), tm_p_members = 2\<rparr>,
        last_rtcp_sent_times := [3 * SECOND]\<rparr>"
  have n: "n_members ref_env ?self = 0" "p_members ?self = 2"
    by (simp_all add: n_members_def p_members_def example_session_facts)
      (simp_all add: example_session_def set_pt_clock_rate_def Session_new_def refsess.s.new_spec refsess.r.new_spec)
  define f where "f = f64_div (f64_of_nat 1) (f64_of_nat 2)"
  have "0 \<le> f" "f \<le> 2"
    using f64_rnd_between [of "1 / 2"] by (simp_all add: f_def f64_div_def f64_of_nat_exact f64_eps_def)
  then obtain d where d: "mul_f64 SECOND f = Some d" using mul_f64_error [of SECOND f] by (auto simp: SECOND_def)
  have "8 * SECOND - 7 * SECOND = SECOND" by (simp add: SECOND_def)
  then obtain self' where h: "rtcp_reverse_consideration ref_env 1 (7 * SECOND) ?self = Some (True, self')"
    using n d by (auto simp: rtcp_reverse_consideration_def f_def [symmetric] Let_def SECOND_def [symmetric] usub_def
        simp del: One_nat_def)
  from reverse_consideration_forgets_last [OF h] h show ?thesis by (simp add: SECOND_def)
qed

text \<open>C39: RTP packets do not count as activity of their sender. When there is a single remote sender
  and its last RTCP packet, or its first packet, is five intervals ago, it is removed as timed out
  even if an RTP packet of it arrives at that very moment. (With more of them the loop stops at the
  first sender of the least recently used end that is not timed out, and the packet has moved its
  sender away from that end.)\<close>

theorem active_sender_times_out:
  assumes "session_lib E" and "session_ok E self" and "senders E self = [(rtp_ssrc rtp, src)]"
    and "map_of (receivers E self) (rtp_ssrc rtp) = None"
    and "handle_recv E t0 clock rtp from now self = Some (reply, t1, self')"
    and "deterministic_rtcp_duration E False self' = Some dur"
    and "src_last_activity (rs_source src) + 5 * max dur (5 * SECOND) \<le> now"
  shows "\<exists>timed_out self''. handle_timeouts E now self' = Some (timed_out, self'')
    \<and> rtp_ssrc rtp \<in> set timed_out \<and> senders E self'' = []"
proof -
  obtain src' where 1: "senders E self' = [(rtp_ssrc rtp, src')]"
    "src_last_activity (rs_source src') = src_last_activity (rs_source src)"
    using session_lib.handle_recv_single [OF assms(1-5)] by blast
  define td where "td = RTCP_SOURCE_TIMEOUT_N_INTERVALS * max dur (5 * SECOND)"
  have st: "stale now td (rs_source src')"
    using assms(7) by (simp add: stale_def 1(2) td_def RTCP_SOURCE_TIMEOUT_N_INTERVALS_def)
  obtain cs cr removed m where
    cs: "lru_iter (snd_ops E) cs = cache_rest (\<lambda>s. stale now td (rs_source s)) (senders E self')"
    and h: "handle_timeouts E now self' = Some (timed_out_of E now td self',
      (fold become_receiver removed (after_timeouts E now td cs cr self'))\<lparr>conflicting_addresses := m\<rparr>)"
    using session_lib.handle_timeouts_eq [OF assms(1,6) td_def, of now] by blast
  have "rtp_ssrc rtp \<in> set (timed_out_of E now td self')" using st by (simp add: timed_out_of_def 1 cache_dropped_def)
  moreover have "lru_iter (snd_ops E) cs = []" using cs st by (simp add: 1 cache_rest_def)
  ultimately show ?thesis using h by (simp add: fold_become_receiver_remote after_timeouts_def Let_def)
qed

theorem active_sender_times_out_witness:
  "\<exists>reply t1 self' timed_out self''.
    handle_recv ref_env None 0 (example_packet 42 7) (Some example_addr) (2 ^ 60) example_known = Some (reply, t1, self')
    \<and> handle_timeouts ref_env (2 ^ 60) self' = Some (timed_out, self'') \<and> 42 \<in> set timed_out"
proof -
  let ?p = "example_packet 42 7"
  have k: "rtp_ssrc ?p = 42" by (simp add: example_packet_def)
  have "rate_ok (pt_map example_known pt)" for pt
    by (simp add: rate_ok_def example_known_def example_session_def set_pt_clock_rate_def Session_new_def)
  from handle_recv_total [OF refsess.session_lib_axioms example_known_facts(1) this]
  obtain reply t1 self' where h: "handle_recv ref_env None 0 ?p (Some example_addr) (2 ^ 60) example_known
      = Some (reply, t1, self')" by blast
  have snd: "senders ref_env example_known = [(rtp_ssrc ?p, RemoteSendSource_new 42 0)]"
    and rcv: "map_of (receivers ref_env example_known) (rtp_ssrc ?p) = None"
    by (simp_all add: k example_known_facts)
  obtain src' where "senders ref_env self' = [(rtp_ssrc ?p, src')]" "refsess.rest_of self' = refsess.rest_of example_known"
    using refsess.handle_recv_single [OF example_known_facts(1) snd rcv h] by blast
  moreover have "count_normal rs_state [x] \<le> 480" for x by (simp add: count_normal_def)
  ultimately have "size_ok ref_env self'"
    by (simp add: refsess.rest_of_def size_ok_def n_members_def example_known_facts)
      (simp add: example_known_def example_session_def set_pt_clock_rate_def Session_new_def
        RTCP_MIN_REPORT_INTERVAL_def SECOND_def)
  then obtain dur where dur: "deterministic_rtcp_duration ref_env False self' = Some dur" "dur < 2 ^ 48"
    using deterministic_total [OF refsess.gst_ok] by blast
  have "src_last_activity (rs_source (RemoteSendSource_new 42 0)) + 5 * max dur (5 * SECOND) \<le> 2 ^ 60"
    using dur(2) by (simp add: RemoteSendSource_new_def remote_sender_init_def Source_new_def SECOND_def)
  from active_sender_times_out [OF refsess.session_lib_axioms example_known_facts(1) snd rcv h dur(1) this] h k
  show ?thesis by auto
qed

text \<open>C40: A report block about a local receiver (a sender of ours that stopped sending) makes our own
  SSRC a remote sender as well, and the next packet we send with it is taken for a collision.\<close>

theorem own_receiver_becomes_remote:
  assumes "session_lib E" and "session_ok E self" and "map_of (local_receivers self) (blk_ssrc rb) = Some src"
    and "map_of (senders E self) (blk_ssrc rb) = None" and "map_of (receivers E self) (blk_ssrc rb) = None"
    and "conflicting_addresses self addr = None"
    and "handle_rb E clock ssrc rb (Some addr) now ntp self = Some (reply, self')" and "rtp_ssrc rtp = blk_ssrc rb"
  shows "map_of (local_receivers self') (blk_ssrc rb) = Some src
    \<and> lru_contains (snd_ops E) (blk_ssrc rb) (remote_senders self')
    \<and> (\<exists>self''. handle_send E clock' rtp now' capture_time self' = Some (SendSsrcCollision (blk_ssrc rb), self''))"
proof -
  let ?k = "blk_ssrc rb"
  note L = assms(1)
  have ls: "map_of (local_senders self) ?k = None"
    using local_ok_lookup [OF session_ok_parts(2) [OF assms(2)], of ?k] map_of_entry [OF assms(3)]
    by (cases "map_of (local_senders self) ?k") auto
  obtain source c where goi: "lru_get_or_insert_mut (snd_ops E) ?k (RemoteSendSource_new ?k clock)
      (remote_senders (make_sender E ?k self)) = (source, c)" by (rule prod.exhaust)
  from ls assms(7) goi obtain source' where
    add: "rs_add_last_rb (gst E) (rs_seen (Some addr) now source) ssrc rb now ntp = Some source'"
    and self': "self' = make_sender E ?k self\<lparr>remote_senders := lru_assign (snd_ops E) ?k source' c\<rparr>"
    by (auto simp: handle_rb_def Let_def bind_eq_Some_conv)
  obtain d where pop: "lru_pop (rcv_ops E) ?k (remote_receivers self) = (None, d)"
    using session_lib.get_mut_pair(2) [OF L, of ?k "remote_receivers self"] assms(5) by (simp add: prod_eq_iff)
  have mk: "remote_senders (make_sender E ?k self) = remote_senders self"
    "local_receivers (make_sender E ?k self) = local_receivers self"
    "conflicting_addresses (make_sender E ?k self) = conflicting_addresses self"
    by (simp_all add: make_sender_def pop)
  have cap: "0 < lru_cap (snd_ops E) (remote_senders self)"
    using session_ok_parts(1) [OF assms(2)] by (simp add: remote_ok_def cache_wf_def)
  note spec = lru_spec.get_or_insert_spec [OF session_lib.snd_ok [OF L], of ?k "RemoteSendSource_new ?k clock" "remote_senders self"]
  have src: "source = RemoteSendSource_new ?k clock" and "map_of (lru_iter (snd_ops E) c) ?k = Some source"
    using spec goi mk(1) assms(4) cap by (auto simp: take_Cons')
  then have at: "map_of (senders E self') ?k = Some source'"
    by (simp add: self' lru_spec.assign_spec [OF session_lib.snd_ok [OF L]] map_of_assign)
  have addr: "option_or (rs_rtp_from source') (rs_rtcp_from source') = Some addr"
    using add by (auto simp: rs_add_last_rb_def bind_eq_Some_conv rs_seen_def rs_set_last_activity_def rs_set_state_def
        rs_set_rtcp_from_def src RemoteSendSource_new_def remote_sender_init_def option_or_def)
  obtain c' where get: "lru_get_mut (snd_ops E) ?k (remote_senders self') = (Some source', c')"
    using session_lib.get_mut_pair(1) [OF L, of ?k "remote_senders self'"] at by (simp add: prod_eq_iff)
  have "conflicting_addresses self' = conflicting_addresses self" "local_receivers self' = local_receivers self"
    using mk by (simp_all add: self')
  with assms(3,6,8) get addr at lru_spec.peek_spec [OF session_lib.snd_ok [OF L], of ?k "remote_senders self'"]
  show ?thesis by (auto simp: handle_send_def send_conflict_def handle_ssrc_conflict_def)
qed

definition example_block :: "u32 \<Rightarrow> report_block" where
  "example_block ssrc = \<lparr>blk_ssrc = ssrc, blk_fraction_lost = 0, blk_cumulative_lost = 0,
     blk_extended_sequence_number = 65536, blk_interarrival_jitter = 0,
     blk_last_sender_report_timestamp = 0, blk_delay_since_last_sender_report_timestamp = 0\<rparr>"

theorem own_receiver_becomes_remote_witness:
  "\<exists>reply self' self''. handle_rb ref_env 0 42 (example_block 7) (Some example_addr) 0 0
      (example_session\<lparr>local_receivers := [(7, LocalReceiveSource_new 7 0)]\<rparr>) = Some (reply, self')
    \<and> handle_send ref_env 0 (example_packet 7 0) 0 0 self' = Some (SendSsrcCollision 7, self'')"
proof -
  let ?self = "example_session\<lparr>local_receivers := [(7, LocalReceiveSource_new 7 0)]\<rparr>"
  have b: "blk_ssrc (example_block 7) = 7" "rtp_ssrc (example_packet 7 0) = 7"
    by (simp_all add: example_block_def example_packet_def)
  have ok: "session_ok ref_env ?self"
    by (rule session_ok_local(3) [OF example_session_facts(2)])
      (simp add: local_ok_def example_session_facts)
  have f: "map_of (local_receivers ?self) 7 = Some (LocalReceiveSource_new 7 0)"
    "map_of (senders ref_env ?self) 7 = None" "map_of (receivers ref_env ?self) 7 = None"
    "conflicting_addresses ?self example_addr = None"
    by (simp_all add: example_session_facts) (simp add: example_session_def set_pt_clock_rate_def Session_new_def)
  have "\<exists>ntp. system_time_to_ntp_time_u64 (gst ref_env) 0 = Some ntp"
    using gst_lib_spec.from_duration_full [OF refsess.gst_ok]
    by (simp add: system_time_to_ntp_time_u64_def duration_since_def)
  then obtain reply self' where h: "handle_rb ref_env 0 42 (example_block 7) (Some example_addr) 0 0 ?self = Some (reply, self')"
    by (auto simp: handle_rb_def b example_session_facts rs_add_last_rb_def received_rb_of_def Let_def case_prod_beta)
  from own_receiver_becomes_remote [OF refsess.session_lib_axioms ok, of "example_block 7", unfolded b, OF f h b(2), of 0 0 0] h
  show ?thesis by blast
qed

end
