(* ===== verification/Bitstream.thy ===== *)
theory Bitstream
  imports Rtp_Prelude
begin

unbundle bit_operations_syntax

text \<open>
  The interface of the \<^verbatim>\<open>bitstream_io\<close> crate, with which the payload formats are read and written,
  and of the errors of \<^verbatim>\<open>std::io\<close> and \<^verbatim>\<open>anyhow\<close>. The crate is not part of this repository: readers
  and writers are records of operations, and the locales state what the crate documents, over the
  bytes or bits that are left to read and those that were written. Writers are in memory,
  so writing does not fail for lack of room.
\<close>

section \<open>Results\<close>

datatype io_error = UnexpectedEof | InvalidInput | InvalidData

datatype anyhow = IoError io_error | Bail string | Context string anyhow

text \<open>
  An operation on a stream answers a result and the stream; \<open>io_try\<close> is the question mark operator,
  \<open>with_context\<close> the method \<^verbatim>\<open>context\<close>.
\<close>

type_synonym ('e, 'a, 'r) io = "('e + 'a) \<times> 'r"

definition io_try :: "('e, 'a, 'r) io \<Rightarrow> ('a \<Rightarrow> 'r \<Rightarrow> ('e, 'b, 'r) io) \<Rightarrow> ('e, 'b, 'r) io" where
  "io_try m f = (case m of (Inl e, r) \<Rightarrow> (Inl e, r) | (Inr a, r) \<Rightarrow> f a r)"

definition with_context :: "string \<Rightarrow> (anyhow, 'a, 'r) io \<Rightarrow> (anyhow, 'a, 'r) io" where
  "with_context c m = (map_sum (Context c) id (fst m), snd m)"

definition io_context :: "string \<Rightarrow> (io_error, 'a, 'r) io \<Rightarrow> (anyhow, 'a, 'r) io" where
  "io_context c m = (map_sum (Context c \<circ> IoError) id (fst m), snd m)"

definition bail :: "string \<Rightarrow> 'r \<Rightarrow> (anyhow, 'a, 'r) io" where
  "bail msg r = (Inl (Bail msg), r)"

definition map_ok :: "('a \<Rightarrow> 'b) \<Rightarrow> ('e, 'a, 'r) io \<Rightarrow> ('e, 'b, 'r) io" where
  "map_ok f m = (map_sum id f (fst m), snd m)"

lemma map_ok_simps [simp]:
  "map_ok f (Inr a, r) = (Inr (f a), r)" "map_ok f (Inl e, r) = (Inl e, r)"
  by (simp_all add: map_ok_def)

lemma io_try_simps [simp]:
  "io_try (Inr a, r) f = f a r" "io_try (Inl e, r) f = (Inl e, r)"
  by (simp_all add: io_try_def)

lemma io_try_InrE:
  assumes "io_try m f = (Inr b, r')"
  obtains a r1 where "m = (Inr a, r1)" "f a r1 = (Inr b, r')"
  using assms by (auto simp: io_try_def split: prod.splits sum.splits)

lemma io_context_simps [simp]:
  "io_context c (Inr a, r) = (Inr a, r)" "io_context c (Inl e, r) = (Inl (Context c (IoError e)), r)"
  by (simp_all add: io_context_def)

lemma with_context_simps [simp]:
  "with_context c (Inr a, r) = (Inr a, r)" "with_context c (Inl e, r) = (Inl (Context c e), r)"
  by (simp_all add: with_context_def)

section \<open>Bytes\<close>

record 'r byte_reader =
  rd_u8 :: "'r \<Rightarrow> (io_error, u8, 'r) io"
  rd_u16_be :: "'r \<Rightarrow> (io_error, u16, 'r) io"

record 'w byte_writer =
  wr_u8 :: "u8 \<Rightarrow> 'w \<Rightarrow> (io_error, unit, 'w) io"
  wr_u16_be :: "u16 \<Rightarrow> 'w \<Rightarrow> (io_error, unit, 'w) io"

definition u16_bytes :: "u16 \<Rightarrow> u8 list" where
  "u16_bytes v = [ucast (drop_bit 8 v), ucast v]"

definition u16_of :: "u8 \<Rightarrow> u8 \<Rightarrow> u16" where
  "u16_of a b = push_bit 8 (ucast a) OR ucast b"

locale byte_reader_spec =
  fixes R :: "'r byte_reader" and rest :: "'r \<Rightarrow> u8 list"
  assumes rd_u8_ok: "rest r = b # bs \<Longrightarrow> \<exists>r'. rd_u8 R r = (Inr b, r') \<and> rest r' = bs"
    and rd_u8_eof: "rest r = [] \<Longrightarrow> \<exists>e r'. rd_u8 R r = (Inl e, r')"
    and rd_u16_ok: "rest r = a # b # bs \<Longrightarrow> \<exists>r'. rd_u16_be R r = (Inr (u16_of a b), r') \<and> rest r' = bs"
    and rd_u16_eof: "length (rest r) < 2 \<Longrightarrow> \<exists>e r'. rd_u16_be R r = (Inl e, r')"

locale byte_writer_spec =
  fixes W :: "'w byte_writer" and written :: "'w \<Rightarrow> u8 list"
  assumes wr_u8_ok: "\<exists>w'. wr_u8 W b w = (Inr (), w') \<and> written w' = written w @ [b]"
    and wr_u16_ok: "\<exists>w'. wr_u16_be W v w = (Inr (), w') \<and> written w' = written w @ u16_bytes v"

text \<open>Reference instances: the lists of bytes themselves.\<close>

definition ref_byte_reader :: "u8 list byte_reader" where
  "ref_byte_reader = \<lparr>
     rd_u8 = (\<lambda>r. case r of [] \<Rightarrow> (Inl UnexpectedEof, r) | b # bs \<Rightarrow> (Inr b, bs)),
     rd_u16_be = (\<lambda>r. case r of a # b # bs \<Rightarrow> (Inr (u16_of a b), bs) | _ \<Rightarrow> (Inl UnexpectedEof, r))\<rparr>"

definition ref_byte_writer :: "u8 list byte_writer" where
  "ref_byte_writer = \<lparr>
     wr_u8 = (\<lambda>b w. (Inr (), w @ [b])),
     wr_u16_be = (\<lambda>v w. (Inr (), w @ u16_bytes v))\<rparr>"

interpretation refbr: byte_reader_spec ref_byte_reader "\<lambda>r. r"
  by unfold_locales (auto simp: ref_byte_reader_def split: list.splits)

interpretation refbw: byte_writer_spec ref_byte_writer "\<lambda>w. w"
  by unfold_locales (auto simp: ref_byte_writer_def)

text \<open>
  What a parser does: it consumes \<open>bs\<close> from the front of a stream and answers \<open>a\<close>. What a builder does:
  it answers \<^verbatim>\<open>Ok\<close> and appends \<open>bs\<close>.
\<close>

definition reads :: "('r \<Rightarrow> 'b list) \<Rightarrow> ('r \<Rightarrow> ('e, 'a, 'r) io) \<Rightarrow> 'b list \<Rightarrow> 'a \<Rightarrow> bool" where
  "reads rest m bs a \<longleftrightarrow> (\<forall>r tl. rest r = bs @ tl \<longrightarrow> (\<exists>r'. m r = (Inr a, r') \<and> rest r' = tl))"

definition writes :: "('w \<Rightarrow> 'b list) \<Rightarrow> ('w \<Rightarrow> ('e, unit, 'w) io) \<Rightarrow> 'b list \<Rightarrow> bool" where
  "writes written m bs \<longleftrightarrow> (\<forall>w. \<exists>w'. m w = (Inr (), w') \<and> written w' = written w @ bs)"

named_theorems reads_intros \<open>rules for what parsers consume\<close>
named_theorems writes_intros \<open>rules for what builders append\<close>

lemma writes_return [writes_intros]: "writes written (\<lambda>w. (Inr (), w)) []"
  by (simp add: writes_def)

lemma writes_if [writes_intros]:
  "(c \<Longrightarrow> writes written m bs) \<Longrightarrow> (\<not> c \<Longrightarrow> writes written m' cs)
   \<Longrightarrow> writes written (\<lambda>w. if c then m w else m' w) (if c then bs else cs)"
  by simp

lemma writes_try [writes_intros]:
  "writes written m bs \<Longrightarrow> writes written (f ()) cs \<Longrightarrow> writes written (\<lambda>w. io_try (m w) f) (bs @ cs)"
  unfolding writes_def
proof
  fix w
  assume m: "\<forall>w. \<exists>w'. m w = (Inr (), w') \<and> written w' = written w @ bs"
    and f: "\<forall>w. \<exists>w'. f () w = (Inr (), w') \<and> written w' = written w @ cs"
  from m obtain w1 where "m w = (Inr (), w1)" "written w1 = written w @ bs" by blast
  moreover from f obtain w2 where "f () w1 = (Inr (), w2)" "written w2 = written w1 @ cs" by blast
  ultimately show "\<exists>w'. io_try (m w) f = (Inr (), w') \<and> written w' = written w @ bs @ cs" by simp
qed

lemma writes_context [writes_intros]:
  "writes written m bs \<Longrightarrow> writes written (\<lambda>w. with_context c (m w)) bs"
  unfolding writes_def by (metis with_context_simps(1))

lemma writes_io_context [writes_intros]:
  "writes written m bs \<Longrightarrow> writes written (\<lambda>w. io_context c (m w)) bs"
  unfolding writes_def by (metis io_context_simps(1))

lemma reads_return [reads_intros]: "reads rest (\<lambda>r. (Inr a, r)) [] a"
  by (simp add: reads_def)

lemma reads_try [reads_intros]:
  "reads rest m bs a \<Longrightarrow> reads rest (f a) cs b \<Longrightarrow> reads rest (\<lambda>r. io_try (m r) f) (bs @ cs) b"
  unfolding reads_def
proof (intro allI impI)
  fix r ds
  assume m: "\<forall>r tl. rest r = bs @ tl \<longrightarrow> (\<exists>r'. m r = (Inr a, r') \<and> rest r' = tl)"
    and f: "\<forall>r tl. rest r = cs @ tl \<longrightarrow> (\<exists>r'. f a r = (Inr b, r') \<and> rest r' = tl)"
    and r: "rest r = (bs @ cs) @ ds"
  from m r obtain r1 where "m r = (Inr a, r1)" "rest r1 = cs @ ds" by auto
  moreover from this f obtain r2 where "f a r1 = (Inr b, r2)" "rest r2 = ds" by blast
  ultimately show "\<exists>r'. io_try (m r) f = (Inr b, r') \<and> rest r' = ds" by simp
qed

lemma readsD:
  assumes "reads rest m bs a" and "rest r = bs @ cs"
  obtains r' where "m r = (Inr a, r')" "rest r' = cs"
  using assms unfolding reads_def by blast

lemma reads_context [reads_intros]:
  "reads rest m bs a \<Longrightarrow> reads rest (\<lambda>r. with_context c (m r)) bs a"
  unfolding reads_def by (metis with_context_simps(1))

lemma reads_io_context [reads_intros]:
  "reads rest m bs a \<Longrightarrow> reads rest (\<lambda>r. io_context c (m r)) bs a"
  unfolding reads_def by (metis io_context_simps(1))

lemma reads_map_ok [reads_intros]:
  "reads rest m bs a \<Longrightarrow> reads rest (\<lambda>r. map_ok f (m r)) bs (f a)"
  unfolding reads_def by (metis map_ok_simps(1))

text \<open>Reading a number of elements, and writing all elements of a list.\<close>

primrec rd_times :: "nat \<Rightarrow> ('r \<Rightarrow> ('e, 'a, 'r) io) \<Rightarrow> 'r \<Rightarrow> ('e, 'a list, 'r) io" where
  "rd_times 0 m r = (Inr [], r)"
| "rd_times (Suc n) m r = io_try (m r) (\<lambda>x r. map_ok (Cons x) (rd_times n m r))"

primrec wr_each :: "('a \<Rightarrow> 'w \<Rightarrow> ('e, unit, 'w) io) \<Rightarrow> 'a list \<Rightarrow> 'w \<Rightarrow> ('e, unit, 'w) io" where
  "wr_each m [] w = (Inr (), w)"
| "wr_each m (x # xs) w = io_try (m x w) (\<lambda>_ w. wr_each m xs w)"

lemma reads_times:
  "(\<And>x. x \<in> set xs \<Longrightarrow> reads rest m (enc x) x)
   \<Longrightarrow> reads rest (rd_times (length xs) m) (concat (map enc xs)) xs"
proof (induction xs)
  case Nil
  have "rd_times (length []) m = (\<lambda>r. (Inr [], r))" by (simp add: fun_eq_iff)
  then show ?case by (simp add: reads_return)
next
  case (Cons x xs)
  have "rd_times (length (x # xs)) m = (\<lambda>r. io_try (m r) (\<lambda>x r. map_ok (Cons x) (rd_times (length xs) m r)))"
    by (simp add: fun_eq_iff)
  moreover have "reads rest \<dots> (enc x @ concat (map enc xs)) (x # xs)"
    by (intro reads_try [where a = x] reads_map_ok Cons.IH) (simp_all add: Cons.prems)
  ultimately show ?case by simp
qed

lemma writes_each:
  "(\<And>x. x \<in> set xs \<Longrightarrow> writes written (m x) (enc x))
   \<Longrightarrow> writes written (wr_each m xs) (concat (map enc xs))"
proof (induction xs)
  case Nil
  have "wr_each m [] = (\<lambda>w. (Inr (), w))" by (simp add: fun_eq_iff)
  then show ?case by (simp add: writes_def)
next
  case (Cons x xs)
  have "wr_each m (x # xs) = (\<lambda>w. io_try (m x w) (\<lambda>_. wr_each m xs))" by (simp add: fun_eq_iff)
  moreover have "writes written \<dots> (enc x @ concat (map enc xs))"
    using Cons by (intro writes_try) simp_all
  ultimately show ?case by simp
qed

lemma reads_optional:
  assumes "c \<longleftrightarrow> x \<noteq> None" and "\<And>v. x = Some v \<Longrightarrow> reads rest m (enc v) v"
  shows "reads rest (\<lambda>r. if c then map_ok Some (m r) else (Inr None, r))
    (case x of None \<Rightarrow> [] | Some v \<Rightarrow> enc v) x"
proof (cases x)
  case None
  with assms(1) show ?thesis by (simp add: reads_return)
next
  case (Some v)
  with assms(1) reads_map_ok [OF assms(2) [OF Some], of Some] show ?thesis by simp
qed

lemma writes_optional:
  assumes "\<And>v. x = Some v \<Longrightarrow> writes written (m v) (enc v)"
  shows "writes written (\<lambda>w. case x of None \<Rightarrow> (Inr (), w) | Some v \<Rightarrow> m v w)
    (case x of None \<Rightarrow> [] | Some v \<Rightarrow> enc v)"
  using assms by (cases x) (auto simp: writes_def)

context byte_reader_spec
begin

lemma reads_u8 [reads_intros]: "reads rest (rd_u8 R) [b] b"
  using rd_u8_ok by (auto simp: reads_def)

lemma reads_u16 [reads_intros]: "reads rest (rd_u16_be R) [a, b] (u16_of a b)"
  using rd_u16_ok by (auto simp: reads_def)

end

context byte_writer_spec
begin

lemma writes_u8 [writes_intros]: "writes written (wr_u8 W b) [b]"
  using wr_u8_ok by (auto simp: writes_def)

lemma writes_u16 [writes_intros]: "writes written (wr_u16_be W v) (u16_bytes v)"
  using wr_u16_ok by (auto simp: writes_def)

end

section \<open>Bits of bytes\<close>

lemma u8_and_bit:
  "(x :: u8) AND 1 = 0 \<longleftrightarrow> \<not> bit x 0" "x AND 2 = 0 \<longleftrightarrow> \<not> bit x 1" "x AND 4 = 0 \<longleftrightarrow> \<not> bit x 2"
  "x AND 8 = 0 \<longleftrightarrow> \<not> bit x 3" "x AND 16 = 0 \<longleftrightarrow> \<not> bit x 4" "x AND 32 = 0 \<longleftrightarrow> \<not> bit x 5"
  "x AND 64 = 0 \<longleftrightarrow> \<not> bit x 6" "x AND 128 = 0 \<longleftrightarrow> \<not> bit x 7"
  using and_exp_eq_0_iff_not_bit [of x 0] and_exp_eq_0_iff_not_bit [of x 1]
    and_exp_eq_0_iff_not_bit [of x 2] and_exp_eq_0_iff_not_bit [of x 3]
    and_exp_eq_0_iff_not_bit [of x 4] and_exp_eq_0_iff_not_bit [of x 5]
    and_exp_eq_0_iff_not_bit [of x 6] and_exp_eq_0_iff_not_bit [of x 7]
  by simp_all

text \<open>The bits of the constants: powers of two and masks.\<close>

lemma bit_powers:
  "bit (2 :: int) k \<longleftrightarrow> k = 1" "bit (4 :: int) k \<longleftrightarrow> k = 2" "bit (8 :: int) k \<longleftrightarrow> k = 3"
  "bit (16 :: int) k \<longleftrightarrow> k = 4" "bit (32 :: int) k \<longleftrightarrow> k = 5" "bit (64 :: int) k \<longleftrightarrow> k = 6"
  "bit (128 :: int) k \<longleftrightarrow> k = 7"
  using bit_exp_iff [of 1 k, where 'a = int] bit_exp_iff [of 2 k, where 'a = int]
    bit_exp_iff [of 3 k, where 'a = int] bit_exp_iff [of 4 k, where 'a = int]
    bit_exp_iff [of 5 k, where 'a = int] bit_exp_iff [of 6 k, where 'a = int]
    bit_exp_iff [of 7 k, where 'a = int]
  by auto

lemma bit_masks:
  "bit (3 :: int) k \<longleftrightarrow> k < 2" "bit (7 :: int) k \<longleftrightarrow> k < 3" "bit (15 :: int) k \<longleftrightarrow> k < 4"
  "bit (31 :: int) k \<longleftrightarrow> k < 5" "bit (127 :: int) k \<longleftrightarrow> k < 7" "bit (255 :: int) k \<longleftrightarrow> k < 8"
  "bit (32767 :: int) k \<longleftrightarrow> k < 15"
  using bit_mask_iff [of 2 k, where 'a = int] bit_mask_iff [of 3 k, where 'a = int]
    bit_mask_iff [of 4 k, where 'a = int] bit_mask_iff [of 5 k, where 'a = int]
    bit_mask_iff [of 7 k, where 'a = int] bit_mask_iff [of 8 k, where 'a = int]
    bit_mask_iff [of 15 k, where 'a = int]
  by (simp_all add: mask_eq_exp_minus_1)

lemma bit_mult_two: "bit (x * 2 :: u8) k \<longleftrightarrow> k < 8 \<and> 0 < k \<and> bit x (k - 1)"
proof -
  have "x * 2 = push_bit 1 x" by (simp only: push_bit_eq_mult power_one_right)
  then show ?thesis by (simp only: bit_push_bit_iff possible_bit_word len_num1 len_bit0) auto
qed

lemma bit_div_two: "bit (x div 2 :: u8) k \<longleftrightarrow> bit x (Suc k)"
  by (simp only: bit_Suc)

lemmas byte_bits = bit_simps bit_powers bit_masks bit_1_iff bit_mult_two bit_div_two

lemma unat_high_bits: "unat (v :: 'a :: len word) < 2 ^ n \<longleftrightarrow> (\<forall>k \<ge> n. \<not> bit v k)"
proof -
  have "take_bit n v = v \<longleftrightarrow> unat v < 2 ^ n"
    by (simp only: word_unat_eq_iff unsigned_take_bit_eq take_bit_nat_eq_self_iff)
  moreover have "take_bit n v = v \<longleftrightarrow> (\<forall>k \<ge> n. \<not> bit v k)"
    unfolding bit_eq_iff bit_take_bit_iff by (meson linorder_not_le impossible_bit)
  ultimately show ?thesis by simp
qed

lemma u8_below:
  "(v :: u8) < 0x80 \<longleftrightarrow> (\<forall>k \<ge> 7. \<not> bit v k)" "v > 0x7f \<longleftrightarrow> \<not> (\<forall>k \<ge> 7. \<not> bit v k)"
  "v > 0x1f \<longleftrightarrow> \<not> (\<forall>k \<ge> 5. \<not> bit v k)" "v > 0x07 \<longleftrightarrow> \<not> (\<forall>k \<ge> 3. \<not> bit v k)"
  "v > 0x03 \<longleftrightarrow> \<not> (\<forall>k \<ge> 2. \<not> bit v k)"
  unfolding unat_high_bits [symmetric] by (simp_all add: word_less_nat_alt) linarith+

lemma u16_of_bytes: "u16_of (ucast (drop_bit 8 v)) (ucast v) = v"
  by (rule bit_eqI) (auto simp: u16_of_def bit_simps)

section \<open>Bit streams\<close>

text \<open>Numbers as bits, most significant bit first; signed numbers in two's complement.\<close>

primrec bits_of :: "nat \<Rightarrow> nat \<Rightarrow> bool list" where
  "bits_of 0 v = []"
| "bits_of (Suc n) v = bit v n # bits_of n v"

primrec of_bits :: "bool list \<Rightarrow> nat" where
  "of_bits [] = 0"
| "of_bits (b # bs) = (if b then 2 ^ length bs else 0) + of_bits bs"

definition signed_of :: "bool list \<Rightarrow> int" where
  "signed_of bs = (if bs \<noteq> [] \<and> hd bs then int (of_bits bs) - 2 ^ length bs else int (of_bits bs))"

definition signed_bits :: "nat \<Rightarrow> int \<Rightarrow> bool list" where
  "signed_bits n v = bits_of n (nat (v mod 2 ^ n))"

lemma length_bits_of [simp]: "length (bits_of n v) = n"
  by (induction n) auto

lemma of_bits_less: "of_bits bs < 2 ^ length bs"
  by (induction bs) auto

lemma of_bits_take: "of_bits (bits_of n v) = take_bit n v"
proof (induction n)
  case 0
  show ?case by simp
next
  case (Suc n)
  have "take_bit (Suc n) v = (if bit v n then 2 ^ n else 0) + take_bit n v"
    by (simp add: take_bit_Suc_from_most of_bool_def)
  with Suc show ?case by simp
qed

lemma of_bits_of: "v < 2 ^ n \<Longrightarrow> of_bits (bits_of n v) = v"
  by (simp add: of_bits_take take_bit_nat_eq_self)

lemma signed_of_bits:
  assumes "0 < n" and "- (2 ^ (n - 1)) \<le> v" and "v < 2 ^ (n - 1)"
  shows "signed_of (signed_bits n v) = v"
proof -
  obtain m where n: "n = Suc m" using assms(1) by (cases n) auto
  let ?u = "nat (v mod 2 ^ n)"
  have u: "?u < 2 ^ n" by (simp add: nat_less_iff)
  have hd: "hd (bits_of n ?u) = bit ?u m" by (simp add: n)
  have top: "bit ?u m \<longleftrightarrow> 2 ^ m \<le> ?u"
  proof -
    have "?u div 2 ^ m < 2" using u by (simp add: n less_mult_imp_div_less mult.commute)
    moreover have "?u div 2 ^ m = 0 \<longleftrightarrow> ?u < 2 ^ m" by (simp add: div_eq_0_iff)
    ultimately show ?thesis by (auto simp: bit_iff_odd less_2_cases_iff not_less)
  qed
  have ne: "bits_of n ?u \<noteq> []" by (simp add: n)
  show ?thesis
  proof (cases "v < 0")
    case True
    then have m: "v mod 2 ^ n = v + 2 ^ n"
      using assms(2) mod_pos_pos_trivial [of "v + 2 ^ n" "2 ^ n"] by (simp add: n)
    with True assms(2) top have "bit ?u m" by (simp add: n le_nat_iff)
    with ne hd have "signed_of (signed_bits n v) = int ?u - 2 ^ n"
      by (simp only: signed_of_def signed_bits_def of_bits_of [OF u] length_bits_of) simp
    also have "int ?u = v + 2 ^ n" unfolding m [symmetric] by simp
    finally show ?thesis by simp
  next
    case False
    then have m: "v mod 2 ^ n = v" using assms(3) by (simp add: n)
    with False assms(3) top have "\<not> bit ?u m" by (simp add: n nat_less_iff not_le)
    with ne hd have "signed_of (signed_bits n v) = int ?u"
      by (simp only: signed_of_def signed_bits_def of_bits_of [OF u]) simp
    with m False show ?thesis by simp
  qed
qed

text \<open>
  A reader is asked for an unsigned number by the width of its type and the number of bits. A writer
  refuses a value that does not fit into the bits it is given.
\<close>

record 'r bit_reader =
  rd_bit :: "'r \<Rightarrow> (io_error, bool, 'r) io"
  rd_unsigned :: "nat \<Rightarrow> nat \<Rightarrow> 'r \<Rightarrow> (io_error, nat, 'r) io"
  rd_signed :: "nat \<Rightarrow> nat \<Rightarrow> 'r \<Rightarrow> (io_error, int, 'r) io"
  rd_skip :: "nat \<Rightarrow> 'r \<Rightarrow> (io_error, unit, 'r) io"
  rd_align :: "'r \<Rightarrow> 'r"
  rd_position :: "'r \<Rightarrow> nat"

record 'w bit_writer =
  wr_bit :: "bool \<Rightarrow> 'w \<Rightarrow> (io_error, unit, 'w) io"
  wr_unsigned :: "nat \<Rightarrow> nat \<Rightarrow> 'w \<Rightarrow> (io_error, unit, 'w) io"
  wr_signed :: "nat \<Rightarrow> int \<Rightarrow> 'w \<Rightarrow> (io_error, unit, 'w) io"
  wr_align :: "'w \<Rightarrow> (io_error, unit, 'w) io"

locale bit_reader_spec =
  fixes R :: "'r bit_reader" and bits :: "'r \<Rightarrow> bool list"
  assumes rd_bit_ok: "bits r = b # bs \<Longrightarrow>
      \<exists>r'. rd_bit R r = (Inr b, r') \<and> bits r' = bs \<and> rd_position R r' = rd_position R r + 1"
    and rd_bit_eof: "bits r = [] \<Longrightarrow> \<exists>e r'. rd_bit R r = (Inl e, r')"
    and rd_unsigned_ok: "n \<le> w \<Longrightarrow> bits r = bs @ cs \<Longrightarrow> length bs = n \<Longrightarrow>
      \<exists>r'. rd_unsigned R w n r = (Inr (of_bits bs), r') \<and> bits r' = cs
        \<and> rd_position R r' = rd_position R r + n"
    and rd_unsigned_err: "w < n \<or> length (bits r) < n \<Longrightarrow> \<exists>e r'. rd_unsigned R w n r = (Inl e, r')"
    and rd_signed_ok: "0 < n \<Longrightarrow> n \<le> w \<Longrightarrow> bits r = bs @ cs \<Longrightarrow> length bs = n \<Longrightarrow>
      \<exists>r'. rd_signed R w n r = (Inr (signed_of bs), r') \<and> bits r' = cs
        \<and> rd_position R r' = rd_position R r + n"
    and rd_signed_err: "w < n \<or> length (bits r) < n \<Longrightarrow> \<exists>e r'. rd_signed R w n r = (Inl e, r')"
    and rd_skip_ok: "bits r = bs @ cs \<Longrightarrow> length bs = n \<Longrightarrow>
      \<exists>r'. rd_skip R n r = (Inr (), r') \<and> bits r' = cs \<and> rd_position R r' = rd_position R r + n"
    and rd_align_ok: "bits (rd_align R r) = drop ((8 - rd_position R r mod 8) mod 8) (bits r)"
      "rd_position R (rd_align R r) = rd_position R r + min (length (bits r)) ((8 - rd_position R r mod 8) mod 8)"

locale bit_writer_spec =
  fixes W :: "'w bit_writer" and written :: "'w \<Rightarrow> bool list"
  assumes wr_bit_ok: "\<exists>w'. wr_bit W b w = (Inr (), w') \<and> written w' = written w @ [b]"
    and wr_unsigned_ok: "v < 2 ^ n \<Longrightarrow>
      \<exists>w'. wr_unsigned W n v w = (Inr (), w') \<and> written w' = written w @ bits_of n v"
    and wr_unsigned_err: "2 ^ n \<le> v \<Longrightarrow> \<exists>e w'. wr_unsigned W n v w = (Inl e, w')"
    and wr_signed_ok: "0 < n \<Longrightarrow> - (2 ^ (n - 1)) \<le> i \<Longrightarrow> i < 2 ^ (n - 1) \<Longrightarrow>
      \<exists>w'. wr_signed W n i w = (Inr (), w') \<and> written w' = written w @ signed_bits n i"
    and wr_align_ok: "\<exists>w'. wr_align W w = (Inr (), w')
      \<and> written w' = written w @ replicate ((8 - length (written w) mod 8) mod 8) False"

text \<open>Reference instances: a list of bits with the position reached, and the list of bits written.\<close>

definition ref_take :: "nat \<Rightarrow> (bool list \<Rightarrow> 'a) \<Rightarrow> nat \<times> bool list \<Rightarrow> (io_error, 'a, nat \<times> bool list) io" where
  "ref_take n f r = (if length (snd r) < n then (Inl UnexpectedEof, r)
     else (Inr (f (take n (snd r))), fst r + n, drop n (snd r)))"

definition ref_bit_reader :: "(nat \<times> bool list) bit_reader" where
  "ref_bit_reader = \<lparr>
     rd_bit = ref_take 1 hd,
     rd_unsigned = (\<lambda>w n r. if w < n then (Inl InvalidInput, r) else ref_take n of_bits r),
     rd_signed = (\<lambda>w n r. if w < n then (Inl InvalidInput, r) else ref_take n signed_of r),
     rd_skip = (\<lambda>n. ref_take n (\<lambda>_. ())),
     rd_align = (\<lambda>r. let k = (8 - fst r mod 8) mod 8 in (fst r + min (length (snd r)) k, drop k (snd r))),
     rd_position = fst\<rparr>"

definition ref_bit_writer :: "bool list bit_writer" where
  "ref_bit_writer = \<lparr>
     wr_bit = (\<lambda>b w. (Inr (), w @ [b])),
     wr_unsigned = (\<lambda>n v w. if v < 2 ^ n then (Inr (), w @ bits_of n v) else (Inl InvalidInput, w)),
     wr_signed = (\<lambda>n v w. (Inr (), w @ signed_bits n v)),
     wr_align = (\<lambda>w. (Inr (), w @ replicate ((8 - length w mod 8) mod 8) False))\<rparr>"

interpretation refbitr: bit_reader_spec ref_bit_reader snd
  by unfold_locales (auto simp: ref_bit_reader_def ref_take_def Let_def)

interpretation refbitw: bit_writer_spec ref_bit_writer "\<lambda>w. w"
  by unfold_locales (auto simp: ref_bit_writer_def)

context bit_reader_spec
begin

lemma reads_bit: "reads bits (rd_bit R) [b] b"
  using rd_bit_ok by (fastforce simp: reads_def)

lemma reads_unsigned: "n \<le> w \<Longrightarrow> v < 2 ^ n \<Longrightarrow> reads bits (rd_unsigned R w n) (bits_of n v) v"
  using rd_unsigned_ok [of n w _ "bits_of n v"] by (fastforce simp: reads_def of_bits_of)

lemma reads_signed:
  "0 < n \<Longrightarrow> n \<le> w \<Longrightarrow> - (2 ^ (n - 1)) \<le> v \<Longrightarrow> v < 2 ^ (n - 1)
   \<Longrightarrow> reads bits (rd_signed R w n) (signed_bits n v) v"
  using rd_signed_ok [of n w _ "signed_bits n v"] signed_of_bits [of n v]
  by (fastforce simp: reads_def signed_bits_def)

end

context bit_writer_spec
begin

lemma writes_bit: "writes written (wr_bit W b) [b]"
  using wr_bit_ok by (simp add: writes_def)

lemma writes_unsigned: "v < 2 ^ n \<Longrightarrow> writes written (wr_unsigned W n v) (bits_of n v)"
  using wr_unsigned_ok by (simp add: writes_def)

lemma writes_signed:
  "0 < n \<Longrightarrow> - (2 ^ (n - 1)) \<le> v \<Longrightarrow> v < 2 ^ (n - 1) \<Longrightarrow> writes written (wr_signed W n v) (signed_bits n v)"
  using wr_signed_ok by (simp add: writes_def)

end

end
