(* ===== verification/Mp4g_Header.thy ===== *)
theory Mp4g_Header
  imports Bitstream Ext_Counters
begin

text \<open>
  The configuration of an MPEG-4 generic stream, \<^verbatim>\<open>net/rtp/src/mp4g/mode.rs\<close>, and the access unit headers
  whose fields it sizes, \<^verbatim>\<open>net/rtp/src/mp4g/header.rs\<close>: parser and writer. A configuration is read from
  the fields of GStreamer caps and added to them; reading and setting a field are parameters.
\<close>

section \<open>Configuration\<close>

datatype mode_error = BothAuSizeLenAndConstantSize | MissingAuLengthParameters | MandatoryIndexDeltaLength

record mode_config =
  size_len :: u8
  index_len :: u8
  index_delta_len :: u8
  cts_delta_len :: u8
  dts_delta_len :: u8
  random_access_indication :: bool
  stream_state_indication :: u8
  auxiliary_data_size_len :: u8
  constant_size :: u32
  constant_duration :: u32
  max_displacement :: u32

definition has_header_section :: "mode_config \<Rightarrow> bool" where
  "has_header_section c \<longleftrightarrow> size_len c > 0 \<or> index_len c > 0 \<or> index_delta_len c > 0
     \<or> cts_delta_len c > 0 \<or> dts_delta_len c > 0 \<or> random_access_indication c
     \<or> stream_state_indication c > 0"

definition has_auxiliary_section :: "mode_config \<Rightarrow> bool" where
  "has_auxiliary_section c \<longleftrightarrow> auxiliary_data_size_len c > 0"

definition config_constant_duration :: "mode_config \<Rightarrow> u32 option" where
  "config_constant_duration c = (if constant_duration c = 0 then None else Some (constant_duration c))"

definition config_max_displacement :: "mode_config \<Rightarrow> u32 option" where
  "config_max_displacement c = (if max_displacement c = 0 then None else Some (max_displacement c))"

definition max_header_bit_len :: "mode_config \<Rightarrow> nat" where
  "max_header_bit_len c = unat (size_len c) + unat (max (index_len c) (index_delta_len c))
     + unat (cts_delta_len c) + unat (dts_delta_len c)
     + (if random_access_indication c then 1 else 0) + unat (stream_state_indication c)"

text \<open>
  The structure of the caps, a parameter: a field is read as a value of a type, which fails when the
  field is missing or holds another type, and set by the builder.
\<close>

datatype get_error = FieldNotFound | ValueGetError

datatype field_value = FieldI32 int | FieldU8 u8

record 's caps_ops =
  get_u8 :: "'s \<Rightarrow> string \<Rightarrow> get_error + u8"
  get_u32 :: "'s \<Rightarrow> string \<Rightarrow> get_error + u32"
  get_i32 :: "'s \<Rightarrow> string \<Rightarrow> get_error + int"
  get_str :: "'s \<Rightarrow> string \<Rightarrow> get_error + string"
  set_field :: "string \<Rightarrow> field_value \<Rightarrow> 's \<Rightarrow> 's"

text \<open>Parsing an unsigned integer, as the standard library does: digits with an optional plus sign.\<close>

fun digits_value :: "nat \<Rightarrow> string \<Rightarrow> nat option" where
  "digits_value acc [] = Some acc"
| "digits_value acc (c # cs) =
     (if 48 \<le> (of_char c :: nat) \<and> (of_char c :: nat) \<le> 57 then digits_value (acc * 10 + (of_char c - 48)) cs
      else None)"

definition str_parse :: "string \<Rightarrow> 'a::len word option" where
  "str_parse s =
     (let ds = (case s of c # cs \<Rightarrow> if c = CHR ''+'' then cs else s | [] \<Rightarrow> [])
      in if ds = [] then None
         else (case digits_value 0 ds of
             None \<Rightarrow> None
           | Some v \<Rightarrow> if v < 2 ^ LENGTH('a) then Some (word_of_nat v) else None))"

datatype field_error = FieldGet get_error | FieldRange | FieldParse

datatype caps_error = FieldContext string field_error | CapsMode mode_error

text \<open>\<^verbatim>\<open>parse_int\<close>, given how a value of the wanted type is read.\<close>

definition parse_int :: "'s caps_ops \<Rightarrow> ('s \<Rightarrow> string \<Rightarrow> get_error + 'a::len word) \<Rightarrow> 's \<Rightarrow> string \<Rightarrow> caps_error + 'a word" where
  "parse_int G get_T s field =
     (case get_T s field of
        Inr val \<Rightarrow> Inr val
      | Inl FieldNotFound \<Rightarrow> Inr 0
      | Inl ValueGetError \<Rightarrow>
          (case get_i32 G s field of
             Inr val \<Rightarrow> if 0 \<le> val \<and> val < 2 ^ LENGTH('a) then Inr (word_of_int val) else Inl (FieldContext field FieldRange)
           | Inl _ \<Rightarrow>
               (case get_str G s field of
                  Inl e \<Rightarrow> Inl (FieldContext field (FieldGet e))
                | Inr str \<Rightarrow>
                    (case str_parse str of None \<Rightarrow> Inl (FieldContext field FieldParse) | Some v \<Rightarrow> Inr v))))"

definition try_get :: "'e + 'a \<Rightarrow> ('a \<Rightarrow> 'e + 'b) \<Rightarrow> 'e + 'b" where
  "try_get m f = (case m of Inl e \<Rightarrow> Inl e | Inr a \<Rightarrow> f a)"

definition from_caps :: "'s caps_ops \<Rightarrow> 's \<Rightarrow> caps_error + mode_config" where
  "from_caps G s =
     (let int8 = parse_int G (get_u8 G) s; int32 = parse_int G (get_u32 G) s in
     try_get (int8 ''sizelength'') (\<lambda>size_len.
     try_get (int32 ''constantsize'') (\<lambda>constant_size.
     try_get (int32 ''constantduration'') (\<lambda>constant_duration.
     if size_len \<noteq> 0 \<and> constant_size \<noteq> 0 then Inl (CapsMode BothAuSizeLenAndConstantSize)
     else if size_len = 0 \<and> constant_size = 0 \<and> constant_duration = 0 then Inl (CapsMode MissingAuLengthParameters)
     else
     try_get (int8 ''indexlength'') (\<lambda>index_len.
     try_get (int8 ''indexdeltalength'') (\<lambda>index_delta_len.
     if index_len > 0 \<and> index_delta_len = 0 then Inl (CapsMode MandatoryIndexDeltaLength)
     else
     try_get (int8 ''ctsdeltalength'') (\<lambda>cts_delta_len.
     try_get (int8 ''dtsdeltalength'') (\<lambda>dts_delta_len.
     try_get (int8 ''randomaccessindication'') (\<lambda>rai.
     try_get (int8 ''streamstateindication'') (\<lambda>stream_state.
     try_get (int8 ''auxiliarydatasizelength'') (\<lambda>aux_len.
     try_get (int32 ''maxdisplacement'') (\<lambda>max_displacement.
     Inr \<lparr>size_len = size_len, index_len = index_len, index_delta_len = index_delta_len,
       cts_delta_len = cts_delta_len, dts_delta_len = dts_delta_len,
       random_access_indication = rai > 0, stream_state_indication = stream_state,
       auxiliary_data_size_len = aux_len, constant_size = constant_size,
       constant_duration = constant_duration, max_displacement = max_displacement\<rparr>))))))))))))"

text \<open>Casts to \<^verbatim>\<open>i32\<close>: of a \<^verbatim>\<open>u8\<close> it keeps the value, of a \<^verbatim>\<open>u32\<close> it wraps.\<close>

definition field_of_u8 :: "u8 \<Rightarrow> field_value" where
  "field_of_u8 v = FieldI32 (uint v)"

definition field_of_u32 :: "u32 \<Rightarrow> field_value" where
  "field_of_u32 v = FieldI32 (sint v)"

text \<open>The panic on stream states is \<^const>\<open>None\<close>.\<close>

definition add_to_caps :: "'s caps_ops \<Rightarrow> mode_config \<Rightarrow> 's \<Rightarrow> (mode_error + 's) option" where
  "add_to_caps G self builder =
     (if size_len self \<noteq> 0 \<and> constant_size self \<noteq> 0 then Some (Inl BothAuSizeLenAndConstantSize)
      else if size_len self = 0 \<and> constant_size self = 0 \<and> constant_duration self = 0
      then Some (Inl MissingAuLengthParameters)
      else if index_len self > 0 \<and> index_delta_len self = 0 then Some (Inl MandatoryIndexDeltaLength)
      else if stream_state_indication self > 0 then None
      else Some (Inr (fold (\<lambda>(f, v). set_field G f v)
        [(''sizelength'', field_of_u8 (size_len self)),
         (''indexlength'', field_of_u8 (index_len self)),
         (''indexdeltalength'', field_of_u8 (index_delta_len self)),
         (''ctsdeltalength'', field_of_u8 (cts_delta_len self)),
         (''dtsdeltalength'', field_of_u8 (dts_delta_len self)),
         (''randomaccessindication'', FieldU8 (if random_access_indication self then 1 else 0)),
         (''streamstateindication'', field_of_u8 (stream_state_indication self)),
         (''auxiliarydatasizelength'', field_of_u8 (auxiliary_data_size_len self)),
         (''constantsize'', field_of_u32 (constant_size self)),
         (''constantduration'', field_of_u32 (constant_duration self)),
         (''maxdisplacement'', field_of_u32 (max_displacement self))] builder)))"

section \<open>Access unit headers\<close>

datatype au_header_error =
    ZeroSizedAu wrapping_u32
  | UndefinedMandatorySize wrapping_u32
  | InconsistentDeltaIndex wrapping_u32 wrapping_u32
  | CtsFlagSetInFirstAuHeader wrapping_u32

datatype au_parse_error = AuIo io_error | AuErr au_header_error | AuContext string au_parse_error

definition au_context :: "string \<Rightarrow> (io_error, 'a, 'r) io \<Rightarrow> (au_parse_error, 'a, 'r) io" where
  "au_context c m = (map_sum (AuContext c \<circ> AuIo) id (fst m), snd m)"

record au_header =
  hdr_size :: "u32 option"
  hdr_index :: wrapping_u32
  hdr_cts_delta :: "int option"
  hdr_dts_delta :: "int option"
  hdr_maybe_random_access :: "bool option"
  hdr_is_interleaved :: bool

definition AuHeader_new_with :: "wrapping_u32 \<Rightarrow> au_header" where
  "AuHeader_new_with index = \<lparr>hdr_size = None, hdr_index = index, hdr_cts_delta = None, hdr_dts_delta = None,
     hdr_maybe_random_access = None, hdr_is_interleaved = False\<rparr>"

text \<open>The index, and whether the access unit is interleaved.\<close>

definition rd_index ::
  "'r bit_reader \<Rightarrow> mode_config \<Rightarrow> wrapping_u32 option \<Rightarrow> 'r \<Rightarrow> (au_parse_error, wrapping_u32 \<times> bool, 'r) io" where
  "rd_index R config prev_index r =
     (case prev_index of
        None \<Rightarrow>
          io_try (au_context ''AU-Index'' (rd_unsigned R 32 (unat (index_len config)) r)) (\<lambda>v r.
            (Inr (WrappingU32 (word_of_nat v), False), r))
      | Some prev \<Rightarrow>
          io_try (au_context ''AU-Index-delta'' (rd_unsigned R 32 (unat (index_delta_len config)) r)) (\<lambda>delta r.
            (Inr (w_add_u32 (w_add_u32 prev 1) (word_of_nat delta), delta > 0), r)))"

text \<open>A delta with its flag: present when its length is not zero and the flag is set.\<close>

definition rd_flag ::
  "'r bit_reader \<Rightarrow> string \<Rightarrow> u8 \<Rightarrow> 'r \<Rightarrow> (au_parse_error, bool, 'r) io" where
  "rd_flag R name len r = (if len > 0 then au_context name (rd_bit R r) else (Inr False, r))"

definition AuHeader_from_reader ::
  "'r bit_reader \<Rightarrow> mode_config \<Rightarrow> wrapping_u32 option \<Rightarrow> 'r \<Rightarrow> (au_parse_error, au_header, 'r) io" where
  "AuHeader_from_reader R config prev_index r =
     io_try (if size_len config > 0
       then map_ok (\<lambda>v. Some (word_of_nat v)) (au_context ''AU-size'' (rd_unsigned R 32 (unat (size_len config)) r))
       else (Inr None, r)) (\<lambda>size r.
     io_try (rd_index R config prev_index r) (\<lambda>(index, interleaved) r.
     if size = Some 0 then (Inl (AuErr (ZeroSizedAu index)), r)
     else
     io_try (io_try (rd_flag R ''CTS-flag'' (cts_delta_len config) r) (\<lambda>flag r.
       if flag then
         if prev_index = None then (Inl (AuErr (CtsFlagSetInFirstAuHeader index)), r)
         else map_ok Some (au_context ''CTS-delta'' (rd_signed R 32 (unat (cts_delta_len config)) r))
       else (Inr None, r))) (\<lambda>cts r.
     io_try (io_try (rd_flag R ''DTS-flag'' (dts_delta_len config) r) (\<lambda>flag r.
       if flag then map_ok Some (au_context ''DTS-delta'' (rd_signed R 32 (unat (dts_delta_len config)) r))
       else (Inr None, r))) (\<lambda>dts r.
     io_try (if random_access_indication config then map_ok Some (au_context ''RAP-flag'' (rd_bit R r))
       else (Inr None, r)) (\<lambda>rap r.
     io_try (if stream_state_indication config > 0
       then au_context ''Stream-state'' (rd_skip R (unat (stream_state_indication config)) r)
       else (Inr (), r)) (\<lambda>_ r.
     (Inr \<lparr>hdr_size = size, hdr_index = index, hdr_cts_delta = cts, hdr_dts_delta = dts,
        hdr_maybe_random_access = rap, hdr_is_interleaved = interleaved\<rparr>, r)))))))"

definition checked_sub :: "u32 \<Rightarrow> u32 \<Rightarrow> u32 option" where
  "checked_sub a b = (if b \<le> a then Some (a - b) else None)"

definition wr_index ::
  "'w bit_writer \<Rightarrow> mode_config \<Rightarrow> wrapping_u32 option \<Rightarrow> wrapping_u32 \<Rightarrow> 'w \<Rightarrow> (au_parse_error, unit, 'w) io" where
  "wr_index W config prev_index index w =
     (case prev_index of
        None \<Rightarrow> au_context ''AU-Index'' (wr_unsigned W (unat (index_len config)) (unat (w_val index)) w)
      | Some prev \<Rightarrow>
          (case Option.bind (checked_sub (w_val index) (w_val prev)) (\<lambda>delta. checked_sub delta 1) of
             None \<Rightarrow> (Inl (AuContext ''AU-Index-delta'' (AuErr (InconsistentDeltaIndex index prev))), w)
           | Some index_delta \<Rightarrow>
               au_context ''AU-Index-delta''
                 (wr_unsigned W (unat (index_delta_len config)) (unat index_delta) w)))"

definition wr_delta ::
  "'w bit_writer \<Rightarrow> string \<Rightarrow> string \<Rightarrow> u8 \<Rightarrow> int option \<Rightarrow> 'w \<Rightarrow> (au_parse_error, unit, 'w) io" where
  "wr_delta W flag name len delta w =
     (case delta of
        None \<Rightarrow> au_context flag (wr_bit W False w)
      | Some d \<Rightarrow> io_try (au_context flag (wr_bit W True w)) (\<lambda>_ w.
          au_context name (wr_signed W (unat len) d w)))"

definition AuHeader_to_writer ::
  "'w bit_writer \<Rightarrow> mode_config \<Rightarrow> wrapping_u32 option \<Rightarrow> au_header \<Rightarrow> 'w \<Rightarrow> (au_parse_error, unit, 'w) io" where
  "AuHeader_to_writer W config prev_index self w =
     io_try (if size_len config > 0 then
         (case hdr_size self of
            None \<Rightarrow> (Inl (AuErr (UndefinedMandatorySize (hdr_index self))), w)
          | Some sz \<Rightarrow>
              if sz = 0 then (Inl (AuErr (ZeroSizedAu (hdr_index self))), w)
              else au_context ''AU-size'' (wr_unsigned W (unat (size_len config)) (unat sz) w))
       else (Inr (), w)) (\<lambda>_ w.
     io_try (wr_index W config prev_index (hdr_index self) w) (\<lambda>_ w.
     io_try (if cts_delta_len config > 0 then
         if prev_index = None then au_context ''CTS-flag'' (wr_bit W False w)
         else wr_delta W ''CTS-flag'' ''CTS-delta'' (cts_delta_len config) (hdr_cts_delta self) w
       else (Inr (), w)) (\<lambda>_ w.
     io_try (if dts_delta_len config > 0
       then wr_delta W ''DTS-flag'' ''DTS-delta'' (dts_delta_len config) (hdr_dts_delta self) w
       else (Inr (), w)) (\<lambda>_ w.
     if random_access_indication config
     then au_context ''RAP-flag'' (wr_bit W (hdr_maybe_random_access self = Some True) w)
     else (Inr (), w)))))"

end
