(* ===== verification/Mp4g_Depay.thy ===== *)
theory Mp4g_Depay
  imports Mp4g_Header Mp4g_Deint
begin

text \<open>
  The MPEG-4 generic depayloader: the payload parser with its iterator over the access units of a packet,
  \<^verbatim>\<open>net/rtp/src/mp4g/depay/parsers.rs\<close>, and \<^verbatim>\<open>net/rtp/src/mp4g/depay/imp.rs\<close>: caps, waiting for the first packet,
  reassembling fragments, deinterleaving, and the buffers. The readers over slices, the fields of the caps and
  the base class, which drops packets and takes buffers, are parameters. The loop over the access units has fuel,
  and a panic in it is told apart from running out of fuel.
\<close>

section \<open>Payload parser\<close>

text \<open>The readers over slices, a parameter: how they are opened, and the bytes skipped.\<close>

record ('b, 'r) slice_readers =
  byte_ops :: "'b byte_reader"
  byte_open :: "u8 list \<Rightarrow> 'b"
  byte_skip :: "nat \<Rightarrow> 'b \<Rightarrow> (io_error, unit, 'b) io"
  bit_ops :: "'r bit_reader"
  bit_open :: "u8 list \<Rightarrow> 'r"

datatype parse_error =
    ParseIo string io_error
  | ParseHeader nat au_parse_error
  | ParseDepay depay_error

record duration_probation =
  cd_ts :: wrapping_u32
  cd_frames :: u32

record payload_parser =
  pp_config :: mode_config
  const_dur_probation :: "duration_probation option"
  pp_constant_duration :: "u32 option"

definition PayloadParser_reset :: "payload_parser \<Rightarrow> payload_parser" where
  "PayloadParser_reset self =
     self\<lparr>pp_constant_duration := config_constant_duration (pp_config self), const_dur_probation := None\<rparr>"

definition PayloadParser_set_config :: "mode_config \<Rightarrow> payload_parser \<Rightarrow> payload_parser" where
  "PayloadParser_set_config config self = PayloadParser_reset (self\<lparr>pp_config := config\<rparr>)"

record 'r access_unit_iter =
  it_parser :: payload_parser
  it_ext_seqnum :: nat
  it_packet_ts :: wrapping_u32
  it_prev_index :: "wrapping_u32 option"
  it_headers_r :: "'r option"
  it_headers_len :: u16
  it_data :: "u8 list"
  it_cur :: u32

definition div_ceil :: "nat \<Rightarrow> nat \<Rightarrow> nat" where
  "div_ceil a b = (a + b - 1) div b"

text \<open>
  The header section: its length in bits, the offset of what follows, and its bytes. The
  \<^verbatim>\<open>expect\<close> on the skip is \<^const>\<open>None\<close>.
\<close>

definition parse_header_section ::
  "('b, 'r) slice_readers \<Rightarrow> payload_parser \<Rightarrow> u8 list \<Rightarrow> nat \<Rightarrow> 'b
   \<Rightarrow> (parse_error + u16 \<times> nat \<times> u8 list option \<times> 'b) option" where
  "parse_header_section E self payload ext_seqnum r =
     (if has_header_section (pp_config self) then
        (case rd_u16_be (byte_ops E) r of
           (Inl e, r) \<Rightarrow> Some (Inl (ParseIo ''AU-headers-length'' e))
         | (Inr headers_len, r) \<Rightarrow>
             (let headers_len_bytes = div_ceil (unat headers_len) 8;
                  data_offset = 2 + headers_len_bytes
              in if data_offset > length payload
                 then Some (Inl (ParseDepay (AuHeaderSectionTooLarge data_offset (length payload))))
                 else
                   (case byte_skip E headers_len_bytes r of
                      (Inl e, r) \<Rightarrow> None
                    | (Inr _, r) \<Rightarrow>
                        Some (Inr (headers_len, data_offset, Some (take headers_len_bytes (drop 2 payload)), r)))))
      else if pp_constant_duration self = None
      then Some (Inl (ParseDepay (NonConstantDurationNoAuHeaders ext_seqnum)))
      else Some (Inr (0, 0, None, r)))"

definition parse_auxiliary_section ::
  "('b, 'r) slice_readers \<Rightarrow> payload_parser \<Rightarrow> u8 list \<Rightarrow> nat \<Rightarrow> 'b \<Rightarrow> parse_error + nat" where
  "parse_auxiliary_section E self payload data_offset r =
     (if has_auxiliary_section (pp_config self) then
        (case rd_u16_be (byte_ops E) r of
           (Inl e, r) \<Rightarrow> Inl (ParseIo ''auxiliary-data-size'' e)
         | (Inr aux_len, r) \<Rightarrow>
             (let data_offset = data_offset + (2 + div_ceil (unat aux_len) 8)
              in if data_offset > length payload
                 then Inl (ParseDepay (AuAuxiliarySectionTooLarge data_offset (length payload)))
                 else Inr data_offset))
      else Inr data_offset)"

definition PayloadParser_parse ::
  "('b, 'r) slice_readers \<Rightarrow> payload_parser \<Rightarrow> u8 list \<Rightarrow> nat \<Rightarrow> wrapping_u32
   \<Rightarrow> (parse_error + 'r access_unit_iter) option" where
  "PayloadParser_parse E self payload ext_seqnum packet_ts = do {
     hs \<leftarrow> parse_header_section E self payload ext_seqnum (byte_open E payload);
     case hs of
       Inl e \<Rightarrow> Some (Inl e)
     | Inr (headers_len, data_offset, headers, r) \<Rightarrow>
         (case parse_auxiliary_section E self payload data_offset r of
            Inl e \<Rightarrow> Some (Inl e)
          | Inr data_offset \<Rightarrow>
              if data_offset \<ge> length payload then Some (Inl (ParseDepay EmptyAuData))
              else Some (Inr \<lparr>it_parser = self, it_ext_seqnum = ext_seqnum, it_packet_ts = packet_ts,
                it_prev_index = None, it_headers_r = map_option (bit_open E) headers,
                it_headers_len = headers_len, it_data = drop data_offset payload, it_cur = 0\<rparr>))
   }"

section \<open>Iterating over the access units\<close>

text \<open>Multiplication of \<^verbatim>\<open>u32\<close> values; an overflow panics.\<close>

definition chk_mul_u32 :: "u32 \<Rightarrow> u32 \<Rightarrow> u32 option" where
  "chk_mul_u32 a b = (if unat a * unat b < 2 ^ 32 then Some (a * b) else None)"

text \<open>The first header of a packet: constant duration is detected, or the index checked against it.\<close>

definition first_header :: "'r access_unit_iter \<Rightarrow> au_header \<Rightarrow> (parse_error + payload_parser) option" where
  "first_header self header =
     (let parser = it_parser self
      in if it_prev_index self \<noteq> None then Some (Inr parser)
         else if w_is_zero (hdr_index header) then
           (if pp_constant_duration parser = None then
              (case const_dur_probation parser of
                 Some cd_prob \<Rightarrow>
                   if cd_frames cd_prob = 0 then None
                   else Some (Inr (parser\<lparr>const_dur_probation := None, pp_constant_duration :=
                     Some (w_val (w_sub (it_packet_ts self) (cd_ts cd_prob)) div cd_frames cd_prob)\<rparr>))
               | None \<Rightarrow>
                   Some (Inr (parser\<lparr>const_dur_probation :=
                     Some \<lparr>cd_ts = it_packet_ts self, cd_frames = 0\<rparr>\<rparr>)))
            else Some (Inr parser))
         else if pp_constant_duration parser \<noteq> None
         then Some (Inl (ParseDepay (ConstantDurationAuNonZeroIndex (hdr_index header) (it_ext_seqnum self))))
         else if const_dur_probation parser \<noteq> None
         then Some (Inr (parser\<lparr>const_dur_probation := None\<rparr>))
         else Some (Inr parser))"

definition header_timing ::
  "'r access_unit_iter \<Rightarrow> au_header \<Rightarrow> (parse_error + int option \<times> u32 option) option" where
  "header_timing self header =
     (case hdr_cts_delta header of
        Some delta \<Rightarrow> Some (Inr (Some delta, None))
      | None \<Rightarrow>
          (case pp_constant_duration (it_parser self) of
             Some const_dur \<Rightarrow> do {
               p \<leftarrow> chk_mul_u32 (w_val (hdr_index header)) const_dur;
               Some (Inr (Some (sint p), Some const_dur))
             }
           | None \<Rightarrow>
               if it_prev_index self \<noteq> None \<and> const_dur_probation (it_parser self) = None
               then Some (Inl (ParseDepay (NonConstantDurationAuNoCtsDelta (hdr_index header) (it_ext_seqnum self))))
               else Some (Inr (if it_prev_index self = None then Some 0 else None, None))))"

definition next_header ::
  "('b, 'r) slice_readers \<Rightarrow> 'r \<Rightarrow> 'r access_unit_iter
   \<Rightarrow> ((parse_error + au_header \<times> int option \<times> u32 option) option \<times> 'r access_unit_iter) option" where
  "next_header E r self =
     (let position = (\<lambda>r. word_of_nat (rd_position (bit_ops E) r) :: u16)
      in if position r \<ge> it_headers_len self then Some (None, self)
         else
           (case AuHeader_from_reader (bit_ops E) (pp_config (it_parser self)) (it_prev_index self) r of
              (Inl e, r) \<Rightarrow>
                Some (Some (Inl (ParseHeader (it_ext_seqnum self) e)), self\<lparr>it_headers_r := Some r\<rparr>)
            | (Inr header, r) \<Rightarrow>
                (let self = self\<lparr>it_headers_r := Some r\<rparr>
                 in do {
                   first \<leftarrow> first_header self header;
                   case first of
                     Inl e \<Rightarrow> Some (Some (Inl e), self)
                   | Inr parser \<Rightarrow>
                       (let self = self\<lparr>it_parser := parser\<rparr>
                        in do {
                          timing \<leftarrow> header_timing self header;
                          case timing of
                            Inl e \<Rightarrow> Some (Some (Inl e), self)
                          | Inr (cts_delta, duration) \<Rightarrow>
                              if hdr_size header = None \<and> constant_size (pp_config (it_parser self)) = 0
                                \<and> position r < it_headers_len self
                              then Some (Some (Inl (ParseDepay MultipleAusUnknownSize)), self)
                              else if it_data self = []
                              then Some (Some (Inl (ParseDepay (NoMoreAuDataLeft (hdr_index header)))), self)
                              else Some (Some (Inr (header, cts_delta, duration)),
                                self\<lparr>it_prev_index := Some (hdr_index header)\<rparr>)
                        })
                 })))"

definition next_without_header ::
  "'r access_unit_iter
   \<Rightarrow> ((parse_error + au_header \<times> int option \<times> u32 option) option \<times> 'r access_unit_iter) option" where
  "next_without_header self =
     (if it_data self = [] then Some (None, self)
      else do {
        const_dur \<leftarrow> pp_constant_duration (it_parser self);
        p \<leftarrow> chk_mul_u32 (it_cur self) const_dur;
        Some (Some (Inr (AuHeader_new_with (WrappingU32 (it_cur self)), Some (sint p), Some const_dur)), self)
      })"

definition access_unit_of ::
  "'r access_unit_iter \<Rightarrow> au_header \<Rightarrow> int option \<Rightarrow> u32 option \<Rightarrow> bool \<Rightarrow> u8 list \<Rightarrow> access_unit" where
  "access_unit_of self header cts_delta duration is_fragment data =
     \<lparr>au_ext_seqnum = it_ext_seqnum self, au_is_fragment = is_fragment, au_size = hdr_size header,
      au_index = hdr_index header, au_cts_delta = cts_delta, au_dts_delta = hdr_dts_delta header,
      au_duration = duration, au_maybe_random_access = hdr_maybe_random_access header,
      au_is_interleaved = hdr_is_interleaved header, au_data = data\<rparr>"

definition iter_au_size :: "'r access_unit_iter \<Rightarrow> au_header \<Rightarrow> nat" where
  "iter_au_size self header =
     (if constant_size (pp_config (it_parser self)) > 0 then unat (constant_size (pp_config (it_parser self)))
      else (case hdr_size header of Some sz \<Rightarrow> unat sz | None \<Rightarrow> length (it_data self)))"

text \<open>The data of the access unit, cut off what is left of the packet.\<close>

definition take_au ::
  "'r access_unit_iter \<Rightarrow> au_header \<Rightarrow> int option \<Rightarrow> u32 option
   \<Rightarrow> ((parse_error + access_unit) option \<times> 'r access_unit_iter) option" where
  "take_au self header cts_delta duration =
     (let au_size = iter_au_size self header
      in if \<not> au_size \<le> length (it_data self) \<and> it_cur self > 0
         then Some (Some (Inl (ParseDepay
           (MultipleAusGreaterSizeThanAuData au_size (length (it_data self))))), self)
         else if it_cur self = 0xffffffff then None
         else
           (let is_fragment = (\<not> au_size \<le> length (it_data self));
                cur = it_cur self + 1;
                au = access_unit_of self header cts_delta duration is_fragment (take au_size (it_data self));
                parser = it_parser self
            in Some (Some (Inr au), self\<lparr>it_data := drop au_size (it_data self), it_cur := cur,
                 it_parser := parser\<lparr>const_dur_probation :=
                   map_option (\<lambda>p. p\<lparr>cd_frames := cur\<rparr>) (const_dur_probation parser)\<rparr>\<rparr>)))"

definition next_priv ::
  "('b, 'r) slice_readers \<Rightarrow> 'r access_unit_iter
   \<Rightarrow> ((parse_error + access_unit) option \<times> 'r access_unit_iter) option" where
  "next_priv E self = do {
     (h, self) \<leftarrow> (case it_headers_r self of Some r \<Rightarrow> next_header E r self | None \<Rightarrow> next_without_header self);
     case h of
       None \<Rightarrow> Some (None, self)
     | Some (Inl e) \<Rightarrow> Some (Some (Inl e), self)
     | Some (Inr (header, cts_delta, duration)) \<Rightarrow> take_au self header cts_delta duration
   }"

definition iter_next ::
  "('b, 'r) slice_readers \<Rightarrow> 'r access_unit_iter
   \<Rightarrow> ((parse_error + access_unit) option \<times> 'r access_unit_iter) option" where
  "iter_next E self = do {
     (res, self) \<leftarrow> next_priv E self;
     Some (res, case res of Some (Inl _) \<Rightarrow> self\<lparr>it_parser := PayloadParser_reset (it_parser self)\<rparr> | _ \<Rightarrow> self)
   }"

section \<open>Depayloader state\<close>

record 's depay_state =
  st_parser :: payload_parser
  st_deint_buf :: "'s deint_buffer option"
  st_au_acc :: "access_unit option"
  st_seqnum_base :: "u32 option"
  st_clock_rate :: u32
  st_can_parse :: bool
  st_max_au_index :: "nat option"
  st_prev_au_index :: "nat option"
  st_prev_rtptime :: "nat option"
  st_last_au_index :: "nat option"

definition default_mode_config :: mode_config where
  "default_mode_config = \<lparr>size_len = 0, index_len = 0, index_delta_len = 0, cts_delta_len = 0, dts_delta_len = 0,
     random_access_indication = False, stream_state_indication = 0, auxiliary_data_size_len = 0,
     constant_size = 0, constant_duration = 0, max_displacement = 0\<rparr>"

text \<open>\<^verbatim>\<open>State::default()\<close>, which \<^verbatim>\<open>stop\<close> puts in place.\<close>

definition default_state :: "'s depay_state" where
  "default_state = \<lparr>st_parser = \<lparr>pp_config = default_mode_config, const_dur_probation = None,
     pp_constant_duration = None\<rparr>, st_deint_buf = None, st_au_acc = None, st_seqnum_base = None,
     st_clock_rate = 0, st_can_parse = False, st_max_au_index = None, st_prev_au_index = None,
     st_prev_rtptime = None, st_last_au_index = None\<rparr>"

definition depay_flush :: "('s, au_node) slab_ops \<Rightarrow> 's depay_state \<Rightarrow> 's depay_state" where
  "depay_flush S self = self\<lparr>st_parser := PayloadParser_reset (st_parser self),
     st_deint_buf := map_option (deint_flush S) (st_deint_buf self), st_can_parse := False,
     st_max_au_index := None, st_prev_au_index := None, st_prev_rtptime := None, st_last_au_index := None\<rparr>"

subsection \<open>Caps\<close>

text \<open>The codec data of the caps; decoding of hexadecimal strings is a parameter.\<close>

datatype codec_data_error = ConfigField get_error | DecodingConfig

definition CodecData_from_caps ::
  "'c caps_ops \<Rightarrow> (string \<Rightarrow> u8 list option) \<Rightarrow> 'c \<Rightarrow> codec_data_error + u8 list option" where
  "CodecData_from_caps G hex_decode s =
     (case get_str G s ''config'' of
        Inl FieldNotFound \<Rightarrow> Inr None
      | Inl e \<Rightarrow> Inl (ConfigField e)
      | Inr conf_str \<Rightarrow>
          (case hex_decode conf_str of None \<Rightarrow> Inl DecodingConfig | Some data \<Rightarrow> Inr (Some data)))"

datatype media_caps = AudioMpegCaps "u8 list option" | VideoMpegCaps "u8 list option"

definition media_builder :: "string \<Rightarrow> (u8 list option \<Rightarrow> media_caps) option" where
  "media_builder media =
     (if media = ''audio'' then Some AudioMpegCaps else if media = ''video'' then Some VideoMpegCaps else None)"

text \<open>
  \<^verbatim>\<open>set_sink_caps\<close> answers whether the caps are accepted, and the caps it sets on the source pad. The
  \<^verbatim>\<open>expect\<close>s on fields that the pad template requires are \<^const>\<open>None\<close>.
\<close>

definition set_sink_caps ::
  "('s, au_node) slab_ops \<Rightarrow> 'c caps_ops \<Rightarrow> (string \<Rightarrow> u8 list option) \<Rightarrow> 'c \<Rightarrow> 's depay_state
   \<Rightarrow> (media_caps option \<times> 's depay_state) option" where
  "set_sink_caps S G hex_decode s state =
     (case get_str G s ''mode'' of
        Inl _ \<Rightarrow> None
      | Inr mode \<Rightarrow>
          if take 4 mode = ''CELP'' then Some (None, state)
          else
            (case get_str G s ''media'' of
               Inl _ \<Rightarrow> None
             | Inr media \<Rightarrow> do {
                 builder \<leftarrow> media_builder media;
                 case from_caps G s of
                   Inl _ \<Rightarrow> Some (None, state)
                 | Inr mode_config \<Rightarrow>
                     (case CodecData_from_caps G hex_decode s of
                        Inl _ \<Rightarrow> Some (None, state)
                      | Inr codec_data \<Rightarrow>
                          (case get_i32 G s ''clock-rate'' of
                             Inl _ \<Rightarrow> None
                           | Inr clock_rate \<Rightarrow>
                               if \<not> clock_rate > 0 then None
                               else do {
                                 seqnum_base \<leftarrow> (case get_u32 G s ''seqnum-base'' of
                                   Inr b \<Rightarrow> Some (Some b) | Inl FieldNotFound \<Rightarrow> Some None | Inl _ \<Rightarrow> None);
                                 Some (Some (builder codec_data),
                                   state\<lparr>st_seqnum_base := seqnum_base, st_clock_rate := word_of_int clock_rate,
                                     st_deint_buf := (case config_max_displacement mode_config of
                                       Some d \<Rightarrow> Some (deint_new S d) | None \<Rightarrow> st_deint_buf state),
                                     st_parser := PayloadParser_set_config mode_config (st_parser state)\<rparr>)
                               }))
               }))"

subsection \<open>Fragments\<close>

text \<open>\<^verbatim>\<open>opt_ne\<close> of two options is decided when both have a value.\<close>

definition append_dts :: "access_unit \<Rightarrow> access_unit \<Rightarrow> depay_error + access_unit" where
  "append_dts self au =
     (let self' = self\<lparr>au_data := au_data self @ au_data au\<rparr>
      in case (au_dts_delta self, au_dts_delta au) of
           (Some expected, Some found) \<Rightarrow>
             if expected \<noteq> found then Inl (FragmentedAuDtsMismatch expected found (au_ext_seqnum au)) else Inr self'
         | _ \<Rightarrow> Inr self')"

definition try_append :: "access_unit \<Rightarrow> access_unit \<Rightarrow> depay_error + access_unit" where
  "try_append self au =
     (case (au_cts_delta self, au_cts_delta au) of
        (Some expected, Some found) \<Rightarrow>
          if expected \<noteq> found then Inl (FragmentedAuRtpTsMismatch expected found (au_ext_seqnum au))
          else append_dts self au
      | _ \<Rightarrow> append_dts self au)"

definition try_into_au :: "access_unit \<Rightarrow> depay_error + access_unit" where
  "try_into_au au =
     (case au_size au of
        Some expected \<Rightarrow>
          if unat expected \<noteq> length (au_data au)
          then Inl (FragmentedAuSizeMismatch expected (length (au_data au)) (au_ext_seqnum au))
          else Inr au
      | None \<Rightarrow> Inr au)"

section \<open>Packets and buffers\<close>

record depay_packet =
  pk_payload :: "u8 list"
  pk_ext_seqnum :: nat
  pk_ext_timestamp :: nat
  pk_marker :: bool

datatype timestamp_offset = OffsetPts int | OffsetPtsAndDts int int

datatype packet_to_buffer_relation =
    Seqnums nat nat
  | SeqnumsWithOffset nat nat timestamp_offset
  | OutOfBand

record out_buffer =
  buf_data :: "u8 list"
  buf_delta_unit :: bool
  buf_duration :: "nat option"

datatype drop_range = DropTo nat | DropBelow nat

text \<open>
  The base class as the depayloader sees it, a parameter: it drops packets up to a sequence number, with or
  without it, and takes buffers together with the packets they came from, which may fail.
\<close>

record ('e, 'q) depay_base =
  drop_packets :: "drop_range \<Rightarrow> 'q \<Rightarrow> 'q"
  queue_buffer :: "packet_to_buffer_relation \<Rightarrow> out_buffer \<Rightarrow> 'q \<Rightarrow> ('e + unit) \<times> 'q"

text \<open>
  Conversions of clock ticks to nanoseconds: \<open>signed_floor\<close> is \<^verbatim>\<open>mul_div_floor\<close> of \<^verbatim>\<open>gst\<close> for signed
  times, like the one of unsigned numbers a parameter.
\<close>

type_synonym signed_mul_div = "int \<Rightarrow> nat \<Rightarrow> nat \<Rightarrow> int option"

definition second_ns :: nat where
  "second_ns = 1000000000"

definition get_packet_to_buffer_relation ::
  "signed_mul_div \<Rightarrow> access_unit \<Rightarrow> u32 \<Rightarrow> nat \<Rightarrow> nat \<Rightarrow> packet_to_buffer_relation option" where
  "get_packet_to_buffer_relation signed_floor au clock_rate a b =
     (case (au_cts_delta au, au_dts_delta au) of
        (Some cts_delta, Some dts_delta) \<Rightarrow> do {
          pts_offset \<leftarrow> signed_floor cts_delta second_ns (unat clock_rate);
          dts_offset \<leftarrow> signed_floor dts_delta second_ns (unat clock_rate);
          Some (SeqnumsWithOffset a b (OffsetPtsAndDts pts_offset dts_offset))
        }
      | (Some cts_delta, None) \<Rightarrow> do {
          pts_offset \<leftarrow> signed_floor cts_delta second_ns (unat clock_rate);
          Some (SeqnumsWithOffset a b (OffsetPts pts_offset))
        }
      | (None, _) \<Rightarrow> Some (Seqnums a b))"

definition new_buffer :: "gst_lib \<Rightarrow> access_unit \<Rightarrow> u32 \<Rightarrow> out_buffer" where
  "new_buffer L au clock_rate =
     \<lparr>buf_data = au_data au, buf_delta_unit = (au_maybe_random_access au = Some False),
      buf_duration = Option.bind (au_duration au) (\<lambda>d. mul_div_floor L (unat d) second_ns (unat clock_rate))\<rparr>"

text \<open>The two branches, for one access unit and for a list, do the same for each of them.\<close>

fun finish_aus ::
  "gst_lib \<Rightarrow> signed_mul_div \<Rightarrow> ('e, 'q) depay_base \<Rightarrow> u32 \<Rightarrow> nat option \<Rightarrow> access_unit list \<Rightarrow> 'q
   \<Rightarrow> (('e + unit) \<times> 'q) option" where
  "finish_aus L signed_floor B clock_rate packet_ext_seqnum [] q = Some (Inr (), q)"
| "finish_aus L signed_floor B clock_rate packet_ext_seqnum (au # aus) q = do {
     relation \<leftarrow> get_packet_to_buffer_relation signed_floor au clock_rate (au_ext_seqnum au)
       (case packet_ext_seqnum of Some n \<Rightarrow> n | None \<Rightarrow> au_ext_seqnum au);
     case queue_buffer B relation (new_buffer L au clock_rate) q of
       (Inl e, q) \<Rightarrow> Some (Inl e, q)
     | (Inr _, q) \<Rightarrow> finish_aus L signed_floor B clock_rate packet_ext_seqnum aus q
   }"

definition finish_buffer_or_list ::
  "gst_lib \<Rightarrow> signed_mul_div \<Rightarrow> ('e, 'q) depay_base \<Rightarrow> 's depay_state \<Rightarrow> nat option \<Rightarrow> single_au_or_list \<Rightarrow> 'q
   \<Rightarrow> (('e + unit) \<times> 'q) option" where
  "finish_buffer_or_list L signed_floor B state packet_ext_seqnum aus q =
     finish_aus L signed_floor B (st_clock_rate state) packet_ext_seqnum
       (case aus of Single au \<Rightarrow> [au] | AuList au_list \<Rightarrow> au_list) q"

definition depay_drain ::
  "('s, au_node) slab_ops \<Rightarrow> gst_lib \<Rightarrow> signed_mul_div \<Rightarrow> ('e, 'q) depay_base \<Rightarrow> 's depay_state \<Rightarrow> 'q
   \<Rightarrow> (('e + unit) \<times> 's depay_state \<times> 'q) option" where
  "depay_drain S L signed_floor B state q =
     (case st_deint_buf state of
        None \<Rightarrow> Some (Inr (), state, q)
      | Some deint_buf \<Rightarrow> do {
          (out, deint_buf) \<leftarrow> deint_drain S deint_buf;
          let state = state\<lparr>st_deint_buf := Some deint_buf\<rparr>;
          case out of
            None \<Rightarrow> Some (Inr (), state, q)
          | Some aus \<Rightarrow> do {
              (r, q) \<leftarrow> finish_buffer_or_list L signed_floor B state None aus q;
              Some (r, state, q)
            }
        })"

section \<open>Handling a packet\<close>

datatype control_flow = Continue | Break

text \<open>The first marked packet is waited for; the assertion on the pending fragments is \<^const>\<open>None\<close>.\<close>

definition wait_for_marker :: "'s depay_state \<Rightarrow> depay_packet \<Rightarrow> (control_flow \<times> 's depay_state) option" where
  "wait_for_marker state packet =
     (if pk_marker packet then
        if st_au_acc state \<noteq> None then None else Some (Break, state\<lparr>st_can_parse := True\<rparr>)
      else Some (Break, state))"

definition check_initial_packet ::
  "'s depay_state \<Rightarrow> depay_packet \<Rightarrow> (control_flow \<times> 's depay_state) option" where
  "check_initial_packet state packet =
     (if st_can_parse state then Some (Continue, state)
      else
        (let seqnum = (word_of_nat (and (pk_ext_seqnum packet) 0xffff) :: u16)
         in case st_seqnum_base state of
              Some seqnum_base \<Rightarrow>
                (let seqnum_base = (ucast (seqnum_base AND 0xffff) :: u16);
                     delta = seqnum_distance seqnum seqnum_base
                 in if delta = 0 then Some (Continue, state\<lparr>st_can_parse := True\<rparr>)
                    else if delta < 0 then Some (Break, state)
                    else wait_for_marker (state\<lparr>st_seqnum_base := None\<rparr>) packet)
            | None \<Rightarrow> wait_for_marker state packet))"

text \<open>
  The body of the loop over the access units of a packet: it goes on, or it returns from
  \<^verbatim>\<open>handle_packet\<close>. Its state is that of the depayloader, the access units ready and the
  base class.
\<close>

datatype loop_flow = LoopNext | LoopReturn

definition push_au ::
  "('s, au_node) slab_ops \<Rightarrow> access_unit \<Rightarrow> 's depay_state \<Rightarrow> maybe_single_au_or_list
   \<Rightarrow> ('s depay_state \<times> maybe_single_au_or_list) option" where
  "push_au S au state aus =
     (case st_deint_buf state of
        Some deint_buf \<Rightarrow> do {
          (_, deint_buf, aus) \<leftarrow> push_and_pop S au deint_buf aus;
          Some (state\<lparr>st_deint_buf := Some deint_buf\<rparr>, aus)
        }
      | None \<Rightarrow> Some (state, ms_push aus au))"

text \<open>A pending access unit is discarded: the parser is reset and the packets so far dropped.\<close>

definition discard_pending ::
  "('e, 'q) depay_base \<Rightarrow> depay_packet \<Rightarrow> 's depay_state \<Rightarrow> 'q \<Rightarrow> 's depay_state \<times> 'q" where
  "discard_pending B packet state q =
     (state\<lparr>st_au_acc := None, st_parser := PayloadParser_reset (st_parser state)\<rparr>,
      drop_packets B (DropTo (pk_ext_seqnum packet)) q)"

definition handle_unmarked_au ::
  "('e, 'q) depay_base \<Rightarrow> depay_packet \<Rightarrow> access_unit \<Rightarrow> 's depay_state \<Rightarrow> 'q
   \<Rightarrow> loop_flow \<times> 's depay_state \<times> 'q" where
  "handle_unmarked_au B packet au state q =
     (if \<not> au_is_fragment au then (LoopNext, state, q)
      else
        (case st_au_acc state of
           Some acc \<Rightarrow>
             (case try_append acc au of
                Inl err \<Rightarrow> (LoopReturn, discard_pending B packet state q)
              | Inr acc \<Rightarrow> (LoopReturn, state\<lparr>st_au_acc := Some acc\<rparr>, q))
         | None \<Rightarrow> (LoopReturn, state\<lparr>st_au_acc := Some au\<rparr>, q)))"

text \<open>The access unit that a marked packet completes, unless the pending one is discarded.\<close>

definition complete_au ::
  "('e, 'q) depay_base \<Rightarrow> depay_packet \<Rightarrow> access_unit \<Rightarrow> 's depay_state \<Rightarrow> 'q
   \<Rightarrow> access_unit option \<times> 's depay_state \<times> 'q" where
  "complete_au B packet au state q =
     (case st_au_acc state of
        Some acc \<Rightarrow>
          (let state = state\<lparr>st_au_acc := None\<rparr>
           in if au_is_fragment au then
                (case try_append acc au of
                   Inl err \<Rightarrow> (None, discard_pending B packet state q)
                 | Inr acc \<Rightarrow>
                     (case try_into_au acc of
                        Inr au \<Rightarrow> (Some au, state, q)
                      | Inl err \<Rightarrow> (None, discard_pending B packet state q)))
              else (Some au, state, drop_packets B (DropBelow (au_ext_seqnum au)) q))
      | None \<Rightarrow> (Some au, state, q))"

definition handle_au ::
  "('s, au_node) slab_ops \<Rightarrow> ('e, 'q) depay_base \<Rightarrow> depay_packet \<Rightarrow> access_unit
   \<Rightarrow> 's depay_state \<times> maybe_single_au_or_list \<times> 'q
   \<Rightarrow> (loop_flow \<times> 's depay_state \<times> maybe_single_au_or_list \<times> 'q) option" where
  "handle_au S B packet au = (\<lambda>(state, aus, q).
     if \<not> pk_marker packet then
       (case handle_unmarked_au B packet au state q of (flow, state, q) \<Rightarrow> Some (flow, state, aus, q))
     else
       (case complete_au B packet au state q of
          (None, state, q) \<Rightarrow> Some (LoopReturn, state, aus, q)
        | (Some au, state, q) \<Rightarrow> do {
            (state, aus) \<leftarrow> push_au S au state aus;
            Some (LoopNext, state, aus, q)
          }))"

text \<open>The loop, with fuel for its iterations: it may not end.\<close>

datatype 'a run = OutOfFuel | Panicked | Finished 'a

fun au_loop ::
  "nat \<Rightarrow> ('b, 'r) slice_readers \<Rightarrow> ('s, au_node) slab_ops \<Rightarrow> ('e, 'q) depay_base \<Rightarrow> depay_packet
   \<Rightarrow> 'r access_unit_iter \<Rightarrow> 's depay_state \<times> maybe_single_au_or_list \<times> 'q
   \<Rightarrow> (loop_flow \<times> 's depay_state \<times> maybe_single_au_or_list \<times> 'q) run" where
  "au_loop 0 E S B packet au_iter x = OutOfFuel"
| "au_loop (Suc n) E S B packet au_iter (state, aus, q) =
     (case iter_next E au_iter of
        None \<Rightarrow> Panicked
      | Some (res, au_iter) \<Rightarrow>
          (let state = state\<lparr>st_parser := it_parser au_iter\<rparr>
           in case res of
                None \<Rightarrow> Finished (LoopNext, state, aus, q)
              | Some (Inl err) \<Rightarrow> au_loop n E S B packet au_iter (state, aus, q)
              | Some (Inr au) \<Rightarrow>
                  (case handle_au S B packet au (state, aus, q) of
                     None \<Rightarrow> Panicked
                   | Some (LoopReturn, x) \<Rightarrow> Finished (LoopReturn, x)
                   | Some (LoopNext, x) \<Rightarrow> au_loop n E S B packet au_iter x)))"

definition handle_packet ::
  "nat \<Rightarrow> ('b, 'r) slice_readers \<Rightarrow> ('s, au_node) slab_ops \<Rightarrow> gst_lib \<Rightarrow> signed_mul_div \<Rightarrow> ('e, 'q) depay_base
   \<Rightarrow> depay_packet \<Rightarrow> 's depay_state \<Rightarrow> 'q \<Rightarrow> (('e + unit) \<times> 's depay_state \<times> 'q) run" where
  "handle_packet fuel E S L signed_floor B packet state q =
     (case check_initial_packet state packet of
        None \<Rightarrow> Panicked
      | Some (Break, state) \<Rightarrow> Finished (Inr (), state, drop_packets B (DropTo (pk_ext_seqnum packet)) q)
      | Some (Continue, state) \<Rightarrow>
          (case PayloadParser_parse E (st_parser state) (pk_payload packet) (pk_ext_seqnum packet)
                  (w_from_ext (pk_ext_timestamp packet)) of
             None \<Rightarrow> Panicked
           | Some (Inl err) \<Rightarrow>
               Finished (Inr (), state\<lparr>st_au_acc := None\<rparr>, drop_packets B (DropTo (pk_ext_seqnum packet)) q)
           | Some (Inr au_iter) \<Rightarrow>
               (case au_loop fuel E S B packet au_iter (state, None, q) of
                  OutOfFuel \<Rightarrow> OutOfFuel
                | Panicked \<Rightarrow> Panicked
                | Finished (LoopReturn, state, aus, q) \<Rightarrow> Finished (Inr (), state, q)
                | Finished (LoopNext, state, None, q) \<Rightarrow> Finished (Inr (), state, q)
                | Finished (LoopNext, state, Some aus, q) \<Rightarrow>
                    (case finish_buffer_or_list L signed_floor B state (Some (pk_ext_seqnum packet)) aus q of
                       None \<Rightarrow> Panicked
                     | Some (r, q) \<Rightarrow> Finished (r, state, q)))))"

end
