(* ===== verification/Mp4g_Deint_Facts.thy ===== *)
theory Mp4g_Deint_Facts
  imports Mp4g_Deint "HOL-Library.Multiset"
begin

text \<open>
  The linked list of the deinterleaving buffer implements a list of waiting access units sorted
  by their distance from the expected index, and the buffer puts access units back in order.
\<close>

section \<open>Serial distance of access units\<close>

definition off :: "wrapping_u32 \<Rightarrow> wrapping_u32 \<Rightarrow> nat" where
  "off e i = unat (w_val i - w_val e)"

lemma sint_unat_u32:
  "sint (w :: u32) = (if unat w < 2 ^ 31 then int (unat w) else int (unat w) - 2 ^ 32)"
proof -
  obtain s u where s: "s = sint w" and u: "u = unat w" by blast
  have "int u = s mod 2 ^ 32"
    unfolding s u using uint_sint [of w] by (simp add: take_bit_eq_mod)
  moreover have "- (2 ^ 31) \<le> s" "s < 2 ^ 31"
    using sint_greater_eq [of w] sint_less [of w] by (simp_all add: s)
  moreover have "s mod 2 ^ 32 = s + 2 ^ 32" if "s < 0"
    using mod_pos_pos_trivial [of "s + 2 ^ 32" "2 ^ 32"] that calculation by simp
  moreover have "s mod 2 ^ 32 = s" if "0 \<le> s" using that calculation by simp
  ultimately show ?thesis unfolding s [symmetric] u [symmetric] by (cases "s < 0") auto
qed

lemma cmp_int_simps [simp]:
  "cmp_int a b = Less \<longleftrightarrow> a < b" "cmp_int a b = Equal \<longleftrightarrow> a = b" "cmp_int a b = Greater \<longleftrightarrow> b < a"
  by (auto simp: cmp_int_def)

lemma au_try_cmp_expected:
  "au_try_cmp i e =
     (if off e i = 0 then Inr Equal
      else if off e i < 2 ^ 31 then Inr Greater
      else if off e i = 2 ^ 31 then Inl (Mpeg4Generic AuIndexComparisonLimit)
      else Inr Less)"
proof -
  obtain n s where n: "n = off e i" and s: "s = sint (w_val i - w_val e)" by blast
  have sn: "s = (if n < 2 ^ 31 then int n else int n - 2 ^ 32)"
    unfolding s n off_def by (rule sint_unat_u32)
  have "n < 4294967296" unfolding n off_def by (rule unat_u32_less)
  have "au_try_cmp i e = (if s = - 0x80000000 then Inl (Mpeg4Generic AuIndexComparisonLimit)
      else Inr (cmp_int s 0))"
    by (simp add: au_try_cmp_def w_try_cmp_def w_partial_cmp_def w_distance_sint s Let_def)
  with sn \<open>n < 4294967296\<close> show ?thesis
    unfolding n [symmetric] cmp_int_def by auto
qed

lemma off_zero_iff: "off e i = 0 \<longleftrightarrow> i = e"
  by (cases i; cases e) (auto simp: off_def unat_eq_zero)

lemma off_self [simp]: "off e e = 0"
  by (simp add: off_zero_iff)

lemma off_inj: "off e i = off e j \<Longrightarrow> i = j"
proof -
  assume "off e i = off e j"
  then have "w_val i - w_val e = w_val j - w_val e"
    unfolding off_def by (simp only: word_unat_eq_iff)
  then show "i = j" by (cases i; cases j) simp
qed

lemma unat_diff_u32:
  "unat (a - b :: u32) = (if unat b \<le> unat a then unat a - unat b else 2 ^ 32 + unat a - unat b)"
  unfolding unat_sub_if' by (simp only: len_num1 len_bit0 len_bit1 add.commute mult_2) simp

lemma off_shift:
  "off y x = (if off e y \<le> off e x then off e x - off e y else 2 ^ 32 + off e x - off e y)"
proof -
  have "w_val x - w_val y = (w_val x - w_val e) - (w_val y - w_val e)" by simp
  then show ?thesis
    using unat_diff_u32 [of "w_val x - w_val e" "w_val y - w_val e"] by (simp only: off_def)
qed

lemma au_try_cmp_off:
  assumes "off e x < 2 ^ 31" "off e y < 2 ^ 31"
  shows "au_try_cmp x y =
     Inr (if off e x < off e y then Less else if off e x = off e y then Equal else Greater)"
proof -
  obtain a b where ab: "a = off e x" "b = off e y" by blast
  have "off y x = (if b \<le> a then a - b else 2 ^ 32 + a - b)"
    unfolding ab by (rule off_shift)
  moreover have "a < 2 ^ 31" "b < 2 ^ 31" using assms ab by simp_all
  ultimately show ?thesis
    unfolding ab [symmetric] au_try_cmp_expected by auto
qed

lemma off_next:
  assumes "0 < off e i"
  shows "off (w_add_u32 e 1) i = off e i - 1"
proof -
  have "w_val i - w_val (w_add_u32 e 1) = (w_val i - w_val e) - 1"
    by (simp add: w_add_u32_def)
  then have "off (w_add_u32 e 1) i = unat ((w_val i - w_val e) - 1)" by (simp only: off_def)
  also have "\<dots> = off e i - 1"
    using assms unat_diff_u32 [of "w_val i - w_val e" 1] by (simp add: off_def)
  finally show ?thesis .
qed

definition au_off :: "wrapping_u32 \<Rightarrow> access_unit \<Rightarrow> nat" where
  "au_off e au = off e (au_index au)"

lemma au_try_cmp_au_off:
  assumes "au_off e a < 2 ^ 31" "au_off e b < 2 ^ 31"
  shows "au_try_cmp (au_index a) (au_index b) =
     Inr (if au_off e a < au_off e b then Less else if au_off e a = au_off e b then Equal else Greater)"
  using au_try_cmp_off [OF assms [unfolded au_off_def]] by (simp only: au_off_def)

section \<open>The linked list\<close>

text \<open>The nodes along the links from \<open>p\<close>, with their keys, are \<open>ns\<close>.\<close>

primrec chain :: "(nat \<Rightarrow> au_node option) \<Rightarrow> nat option \<Rightarrow> (nat \<times> access_unit) list \<Rightarrow> bool" where
  "chain g p [] \<longleftrightarrow> p = None"
| "chain g p (n # ns) \<longleftrightarrow> p = Some (fst n)
     \<and> (\<exists>q. g (fst n) = Some \<lparr>an_au = snd n, an_next = q\<rparr> \<and> chain g q ns)"

lemma chain_cong:
  "(\<And>k. k \<in> fst ` set ns \<Longrightarrow> h k = g k) \<Longrightarrow> chain g p ns \<Longrightarrow> chain h p ns"
  by (induction ns arbitrary: p) auto

text \<open>Links starting at the same place lead along the same nodes.\<close>

lemma chain_unique: "chain g p ns \<Longrightarrow> chain g p ms \<Longrightarrow> ns = ms"
proof (induction ns arbitrary: p ms)
  case Nil
  then show ?case by (cases ms) auto
next
  case (Cons n ns)
  then obtain m ms' where ms: "ms = m # ms'" by (cases ms) auto
  from Cons.prems ms have "n = m" by (auto simp: prod_eq_iff)
  moreover from Cons.prems ms obtain q where "chain g q ns" "chain g q ms'" by auto
  ultimately show ?case using Cons.IH ms by blast
qed

lemma chain_entries: "chain g p ns \<Longrightarrow> k \<in> fst ` set ns \<Longrightarrow> \<exists>n. g k = Some n"
  by (induction ns arbitrary: p) auto

text \<open>The list of a buffer: the slab holds the nodes along the links from the head and no others.\<close>

definition nodes ::
  "('s, au_node) slab_ops \<Rightarrow> nat option \<Rightarrow> 's \<Rightarrow> (nat \<times> access_unit) list \<Rightarrow> bool" where
  "nodes S p s ns \<longleftrightarrow> chain (\<lambda>k. slab_get S k s) p ns \<and> distinct (map fst ns)
     \<and> (\<forall>k. slab_get S k s = None \<longleftrightarrow> k \<notin> fst ` set ns)"

text \<open>
  The access unit \<open>au\<close> was linked into the nodes \<open>ns\<close> behind \<open>n\<close>, in the order of the distances from
  \<open>e\<close>; the slab has one more entry, and the entries outside that part of the list are the same.
\<close>

definition linked_in ::
  "('s, au_node) slab_ops \<Rightarrow> wrapping_u32 \<Rightarrow> access_unit \<Rightarrow> 's \<Rightarrow> nat \<times> access_unit
   \<Rightarrow> (nat \<times> access_unit) list \<Rightarrow> 's \<Rightarrow> bool" where
  "linked_in S e au s n ns s' \<longleftrightarrow> (\<exists>new ns'. slab_get S new s = None
     \<and> (\<forall>j. j \<noteq> fst n \<and> j \<notin> fst ` set ns \<and> j \<noteq> new \<longrightarrow> slab_get S j s' = slab_get S j s)
     \<and> chain (\<lambda>k. slab_get S k s') (Some (fst n)) (n # ns')
     \<and> fst ` set ns' = insert new (fst ` set ns) \<and> distinct (map fst ns')
     \<and> map snd ns' = insort_key (au_off e) au (map snd ns))"

locale au_slab = slab_spec S for S :: "('s, au_node) slab_ops"
begin

lemma nodesD:
  assumes "nodes S p s ns"
  shows "chain (\<lambda>k. slab_get S k s) p ns" "distinct (map fst ns)"
    "slab_get S k s = None \<longleftrightarrow> k \<notin> fst ` set ns"
  using assms unfolding nodes_def by blast+

lemma nodesI:
  assumes "chain (\<lambda>k. slab_get S k s) p ns" "distinct (map fst ns)"
    "\<And>k. slab_get S k s = None \<longleftrightarrow> k \<notin> fst ` set ns"
  shows "nodes S p s ns"
  using assms unfolding nodes_def by blast

lemma nodes_len:
  assumes "nodes S p s ns"
  shows "slab_len S s = length ns"
proof -
  have "{k. slab_get S k s \<noteq> None} = set (map fst ns)"
    by (simp only: nodesD(3) [OF assms] not_not Collect_mem_eq list.set_map)
  with nodesD(2) [OF assms] show ?thesis by (simp only: len_card distinct_card length_map)
qed

lemma nodes_empty: "nodes S p s ns \<Longrightarrow> slab_is_empty S s \<longleftrightarrow> ns = []"
  by (simp add: nodes_len is_empty_len)

lemma nodes_nil: "(\<And>k. slab_get S k s = None) \<Longrightarrow> nodes S None s []"
  by (simp add: nodes_def)

lemma nodes_cons:
  assumes "nodes S p s (n # ns)"
  obtains q where "p = Some (fst n)" "slab_get S (fst n) s = Some \<lparr>an_au = snd n, an_next = q\<rparr>"
    "chain (\<lambda>k. slab_get S k s) q ns"
  using nodesD(1) [OF assms] by (auto simp only: chain.simps)

text \<open>Removing the head leaves the rest of the list.\<close>

lemma nodes_remove:
  assumes "nodes S (Some k) s ((k, a) # ns)"
  obtains q s' where "slab_remove S k s = Some (\<lparr>an_au = a, an_next = q\<rparr>, s')" "nodes S q s' ns"
proof -
  from assms obtain q where q: "slab_get S k s = Some \<lparr>an_au = a, an_next = q\<rparr>"
    "chain (\<lambda>k. slab_get S k s) q ns" by (rule nodes_cons) simp
  from remove_entry [OF q(1)] obtain s' where
    s': "slab_remove S k s = Some (\<lparr>an_au = a, an_next = q\<rparr>, s')" by blast
  have k: "k \<notin> fst ` set ns" and dist: "distinct (map fst ns)"
    using nodesD(2) [OF assms] by simp_all
  have "nodes S q s' ns"
  proof (rule nodesI)
    show "chain (\<lambda>j. slab_get S j s') q ns"
      by (rule chain_cong [OF _ q(2)]) (use k in \<open>auto simp: remove_get [OF s']\<close>)
    show "slab_get S j s' = None \<longleftrightarrow> j \<notin> fst ` set ns" for j
      using k nodesD(3) [OF assms, of j] by (auto simp: remove_get [OF s'])
  qed (fact dist)
  with s' show ?thesis by (rule that)
qed

text \<open>A new node in front of the list.\<close>

lemma nodes_insert:
  assumes "nodes S p s ns" and "slab_insert S \<lparr>an_au = a, an_next = p\<rparr> s = (k, s')"
  shows "nodes S (Some k) s' ((k, a) # ns)"
proof -
  have k: "k \<notin> fst ` set ns" using insert_new [OF assms(2)] nodesD(3) [OF assms(1)] by simp
  have "chain (\<lambda>j. slab_get S j s') p ns"
    by (rule chain_cong [OF _ nodesD(1) [OF assms(1)]]) (use k in \<open>auto simp: insert_get [OF assms(2)]\<close>)
  then have "chain (\<lambda>j. slab_get S j s') (Some k) ((k, a) # ns)"
    by (simp add: insert_get [OF assms(2)])
  then show ?thesis
  proof (rule nodesI)
    show "distinct (map fst ((k, a) # ns))" using k nodesD(2) [OF assms(1)] by simp
    show "slab_get S j s' = None \<longleftrightarrow> j \<notin> fst ` set ((k, a) # ns)" for j
      using nodesD(3) [OF assms(1), of j] by (simp add: insert_get [OF assms(2)])
  qed
qed

text \<open>A new node behind the first one of the list.\<close>

lemma link_behind_chain:
  assumes "chain (\<lambda>k. slab_get S k (early_aus self)) (Some cur) ((cur, a) # ns)"
    and "chain (\<lambda>k. slab_get S k (early_aus self)) nx ns" and "cur \<notin> fst ` set ns"
  obtains new s' where
    "link_behind S cur \<lparr>an_au = au, an_next = nx\<rparr> self = Some (self\<lparr>early_aus := s'\<rparr>)"
    "slab_get S new (early_aus self) = None"
    "\<And>j. j \<noteq> cur \<Longrightarrow> j \<noteq> new \<Longrightarrow> slab_get S j s' = slab_get S j (early_aus self)"
    "chain (\<lambda>k. slab_get S k s') (Some cur) ((cur, a) # (new, au) # ns)"
proof -
  obtain new s where ins: "slab_insert S \<lparr>an_au = au, an_next = nx\<rparr> (early_aus self) = (new, s)"
    by (rule prod.exhaust)
  from assms(1) obtain q where q: "slab_get S cur (early_aus self) = Some \<lparr>an_au = a, an_next = q\<rparr>"
    by auto
  have new: "slab_get S new (early_aus self) = None" by (rule insert_new [OF ins])
  with q have "new \<noteq> cur" by auto
  then have cur: "slab_get S cur s = Some \<lparr>an_au = a, an_next = q\<rparr>"
    by (simp add: insert_get [OF ins] q)
  let ?s = "slab_assign S cur \<lparr>an_au = a, an_next = Some new\<rparr> s"
  have get: "slab_get S j ?s = (if j = cur then Some \<lparr>an_au = a, an_next = Some new\<rparr>
      else if j = new then Some \<lparr>an_au = au, an_next = nx\<rparr> else slab_get S j (early_aus self))" for j
    using assign_get [of cur s j] cur by (simp add: insert_get [OF ins])
  have "new \<notin> fst ` set ns"
  proof -
    have "slab_get S j (early_aus self) \<noteq> None" if "j \<in> fst ` set ns" for j
      using chain_entries [OF assms(2) that] by simp
    with new show ?thesis by blast
  qed
  then have "chain (\<lambda>k. slab_get S k ?s) nx ns"
    by (intro chain_cong [OF _ assms(2)]) (use assms(3) in \<open>auto simp: get\<close>)
  then have "chain (\<lambda>k. slab_get S k ?s) (Some cur) ((cur, a) # (new, au) # ns)"
    using \<open>new \<noteq> cur\<close> by (simp add: get)
  moreover have "link_behind S cur \<lparr>an_au = au, an_next = nx\<rparr> self = Some (self\<lparr>early_aus := ?s\<rparr>)"
    by (simp add: link_behind_def ins cur)
  ultimately show ?thesis using that new get by metis
qed

text \<open>The loop of \<^verbatim>\<open>insert_au\<close> links the new access unit at its place.\<close>

lemma insert_behind_duplicate:
  assumes "chain (\<lambda>k. slab_get S k (early_aus self)) (an_next cur_node) ns"
    and "sorted_wrt (<) (map (au_off e \<circ> snd) ns)" and "\<forall>n \<in> set ns. au_off e (snd n) < 2 ^ 31"
    and "au_off e au < 2 ^ 31" and "au_off e au \<in> (au_off e \<circ> snd) ` set ns"
  shows "insert_behind S au cur cur_node self = None"
  using assms
proof (induction ns arbitrary: cur cur_node)
  case Nil
  then show ?case by simp
next
  case (Cons n ns)
  then obtain q where nx: "an_next cur_node = Some (fst n)"
    "slab_get S (fst n) (early_aus self) = Some \<lparr>an_au = snd n, an_next = q\<rparr>"
    "chain (\<lambda>k. slab_get S k (early_aus self)) q ns" by auto
  have cmp: "au_try_cmp (au_index au) (au_index (snd n)) = Inr (if au_off e au < au_off e (snd n)
      then Less else if au_off e au = au_off e (snd n) then Equal else Greater)"
    using Cons.prems by (intro au_try_cmp_au_off) auto
  from Cons.prems have ge: "\<not> au_off e au < au_off e (snd n)" by auto
  show ?case
  proof (cases "au_off e au = au_off e (snd n)")
    case True
    then show ?thesis by (simp add: insert_behind.simps [of S au cur] nx cmp)
  next
    case False
    with Cons.prems nx(3)
    have "insert_behind S au (fst n) \<lparr>an_au = snd n, an_next = q\<rparr> self = None"
      by (intro Cons.IH) auto
    with False ge show ?thesis by (simp add: insert_behind.simps [of S au cur] nx cmp)
  qed
qed

lemma link_behind_linked:
  assumes "chain (\<lambda>k. slab_get S k (early_aus self)) (Some cur) ((cur, a) # ns)"
    and "chain (\<lambda>k. slab_get S k (early_aus self)) nx ns"
    and "distinct (map fst ((cur, a) # ns))" and "\<forall>n \<in> set ns. au_off e au < au_off e (snd n)"
  obtains s' where "link_behind S cur \<lparr>an_au = au, an_next = nx\<rparr> self = Some (self\<lparr>early_aus := s'\<rparr>)"
    "linked_in S e au (early_aus self) (cur, a) ns s'"
proof -
  obtain new s' where l:
    "link_behind S cur \<lparr>an_au = au, an_next = nx\<rparr> self = Some (self\<lparr>early_aus := s'\<rparr>)"
    "slab_get S new (early_aus self) = None"
    "\<And>j. j \<noteq> cur \<Longrightarrow> j \<noteq> new \<Longrightarrow> slab_get S j s' = slab_get S j (early_aus self)"
    "chain (\<lambda>k. slab_get S k s') (Some cur) ((cur, a) # (new, au) # ns)"
    by (rule link_behind_chain [OF assms(1,2)]) (use assms(3) in auto)
  have "new \<notin> fst ` set ns" using chain_entries [OF assms(2), of new] l(2) by auto
  moreover have "insort_key (au_off e) au (map snd ns) = au # map snd ns"
    using assms(4) by (intro insort_is_Cons) (auto intro: less_imp_le)
  ultimately have "linked_in S e au (early_aus self) (cur, a) ns s'"
    using l(2-) assms(3)
    unfolding linked_in_def by (intro exI [of _ new] exI [of _ "(new, au) # ns"]) simp
  with l(1) show ?thesis by (rule that)
qed

lemma linked_in_step:
  assumes "linked_in S e au s (k, b) ns s'" and "slab_get S k s \<noteq> None"
    and "slab_get S cur s = Some \<lparr>an_au = a, an_next = Some k\<rparr>"
    and "distinct (map fst ((cur, a) # (k, b) # ns))" and "au_off e b < au_off e au"
  shows "linked_in S e au s (cur, a) ((k, b) # ns) s'"
proof -
  from assms(1) obtain new ns' where l: "slab_get S new s = None"
    "\<forall>j. j \<noteq> k \<and> j \<notin> fst ` set ns \<and> j \<noteq> new \<longrightarrow> slab_get S j s' = slab_get S j s"
    "chain (\<lambda>k. slab_get S k s') (Some k) ((k, b) # ns')"
    "fst ` set ns' = insert new (fst ` set ns)" "distinct (map fst ns')"
    "map snd ns' = insort_key (au_off e) au (map snd ns)"
    unfolding linked_in_def fst_conv by blast
  have "k \<noteq> new" "cur \<noteq> new" using l(1) assms(2,3) by auto
  moreover from this have "slab_get S cur s' = slab_get S cur s"
    using l(2) assms(4) by simp
  ultimately show ?thesis
    using l assms(3-) unfolding linked_in_def
    by (intro exI [of _ new] exI [of _ "(k, b) # ns'"]) (simp add: insert_commute)
qed

lemma insert_behind_new:
  assumes "chain (\<lambda>k. slab_get S k (early_aus self)) (Some cur) ((cur, a) # ns)"
    and "slab_get S cur (early_aus self) = Some cur_node"
    and "distinct (map fst ((cur, a) # ns))"
    and "sorted_wrt (<) (map (au_off e \<circ> snd) ns)" and "\<forall>n \<in> set ns. au_off e (snd n) < 2 ^ 31"
    and "au_off e au < 2 ^ 31" and "au_off e au \<notin> (au_off e \<circ> snd) ` set ns"
  shows "\<exists>s'. insert_behind S au cur cur_node self = Some (Inr (), self\<lparr>early_aus := s'\<rparr>)
     \<and> linked_in S e au (early_aus self) (cur, a) ns s'"
  using assms
proof (induction ns arbitrary: cur a cur_node)
  case Nil
  then have "an_next cur_node = None" by auto
  moreover obtain s' where
    "link_behind S cur \<lparr>an_au = au, an_next = None\<rparr> self = Some (self\<lparr>early_aus := s'\<rparr>)"
    "linked_in S e au (early_aus self) (cur, a) [] s'"
    by (rule link_behind_linked [OF Nil.prems(1), of None]) auto
  ultimately show ?case
    by (intro exI [of _ s']) (simp add: insert_behind.simps [of S au cur])
next
  case (Cons n ns)
  obtain k b where n: "n = (k, b)" by (rule prod.exhaust)
  from Cons.prems(1,2) n obtain q where nx: "cur_node = \<lparr>an_au = a, an_next = Some k\<rparr>"
    "slab_get S k (early_aus self) = Some \<lparr>an_au = b, an_next = q\<rparr>"
    "chain (\<lambda>k. slab_get S k (early_aus self)) q ns" by auto
  have rest: "chain (\<lambda>k. slab_get S k (early_aus self)) (Some k) ((k, b) # ns)" using nx by simp
  have cmp: "au_try_cmp (au_index au) (au_index b) = Inr (if au_off e au < au_off e b
      then Less else if au_off e au = au_off e b then Equal else Greater)"
    using Cons.prems n by (intro au_try_cmp_au_off) auto
  have ne: "au_off e au \<noteq> au_off e b" using Cons.prems(7) n by auto
  show ?case
  proof (cases "au_off e au < au_off e b")
    case True
    obtain s' where
      "link_behind S cur \<lparr>an_au = au, an_next = Some k\<rparr> self = Some (self\<lparr>early_aus := s'\<rparr>)"
      "linked_in S e au (early_aus self) (cur, a) (n # ns) s'"
      by (rule link_behind_linked [OF Cons.prems(1) rest [folded n] Cons.prems(3)])
         (use True Cons.prems(4) n in auto)
    with True nx cmp show ?thesis
      by (intro exI [of _ s']) (simp add: insert_behind.simps [of S au cur])
  next
    case False
    with Cons.prems n obtain s' where
      "insert_behind S au k \<lparr>an_au = b, an_next = q\<rparr> self = Some (Inr (), self\<lparr>early_aus := s'\<rparr>)"
      "linked_in S e au (early_aus self) (k, b) ns s'"
      using Cons.IH [OF rest nx(2)] by auto
    with False ne nx cmp Cons.prems(2,3) n show ?thesis
      by (intro exI [of _ s']) (simp add: insert_behind.simps [of S au cur] linked_in_step)
  qed
qed

end

section \<open>What the buffer promises\<close>

text \<open>
  Abstractly the buffer is the expected index and the list of the access units that wait, in the
  order of their distances from it. An access unit with the expected index is passed on with those
  that follow it without a gap; a later one waits; an earlier one, or one whose order
  cannot be told, is refused; a repeated one reaches the \<^verbatim>\<open>unreachable!()\<close>.
\<close>

type_synonym deint_state = "wrapping_u32 option \<times> access_unit list"

fun take_ready ::
  "wrapping_u32 \<Rightarrow> access_unit list \<Rightarrow> access_unit list \<times> deint_state" where
  "take_ready e [] = ([], Some e, [])"
| "take_ready e (a # as) =
     (if au_index a = e then (let (ready, st) = take_ready (w_add_u32 e 1) as in (a # ready, st))
      else ([], Some e, a # as))"

definition spec_push ::
  "access_unit \<Rightarrow> deint_state \<Rightarrow> ((depay_error + access_unit list) \<times> deint_state) option" where
  "spec_push au st =
     (let e = (case fst st of Some e \<Rightarrow> e | None \<Rightarrow> au_index au)
      in if au_off e au = 0 then
           (let (ready, st') = take_ready (w_add_u32 e 1) (snd st) in Some (Inr (au # ready), st'))
         else if au_off e au < 2 ^ 31 then
           (if au_off e au \<in> au_off e ` set (snd st) then None
            else Some (Inr [], Some e, insort_key (au_off e) au (snd st)))
         else if au_off e au = 2 ^ 31 then Some (Inl (Mpeg4Generic AuIndexComparisonLimit), st)
         else Some (Inl (TooEarlyAU (au_index au) e), st))"

text \<open>The waiting access units lie ahead of the expected index, in order.\<close>

definition waits :: "nat \<Rightarrow> deint_state \<Rightarrow> bool" where
  "waits d st \<longleftrightarrow> (case fst st of None \<Rightarrow> snd st = []
     | Some e \<Rightarrow> sorted_wrt (<) (map (au_off e) (snd st))
         \<and> (\<forall>a \<in> set (snd st). d \<le> au_off e a \<and> au_off e a < 2 ^ 31))"

definition deint_rep :: "('s, au_node) slab_ops \<Rightarrow> 's deint_buffer \<Rightarrow> deint_state \<Rightarrow> bool" where
  "deint_rep S self st \<longleftrightarrow> waits 1 st \<and> expected_index self = fst st
     \<and> (\<exists>ns. nodes S (head self) (early_aus self) ns \<and> map snd ns = snd st)"

definition ms_extend :: "maybe_single_au_or_list \<Rightarrow> access_unit list \<Rightarrow> maybe_single_au_or_list" where
  "ms_extend out aus = fold (\<lambda>au m. ms_push m au) aus out"

lemma ms_aus_push: "ms_aus (ms_push m au) = ms_aus m @ [au]"
  by (cases m) (auto simp: ms_aus_def ms_push_def split: single_au_or_list.splits)

lemma ms_aus_extend: "ms_aus (ms_extend m aus) = ms_aus m @ aus"
  unfolding ms_extend_def by (induction aus arbitrary: m) (auto simp: ms_aus_push)

lemma ms_extend_Nil [simp]: "ms_extend m [] = m"
  by (simp add: ms_extend_def)

lemma ms_extend_Cons [simp]: "ms_extend m (au # aus) = ms_extend (ms_push m au) aus"
  by (simp add: ms_extend_def)

lemma au_off_zero_iff: "au_off e a = 0 \<longleftrightarrow> au_index a = e"
  by (simp add: au_off_def off_zero_iff)

lemma au_off_next: "0 < au_off e a \<Longrightarrow> au_off (w_add_u32 e 1) a = au_off e a - 1"
  by (simp add: au_off_def off_next)

text \<open>Once the expected index moves on, the access units ahead of it are one closer.\<close>

lemma waits_next:
  assumes "waits 1 (Some e, as)"
  shows "waits 0 (Some (w_add_u32 e 1), as)"
proof -
  have "map (au_off (w_add_u32 e 1)) as = map (\<lambda>a. au_off e a - 1) as"
    using assms by (auto simp: waits_def au_off_next)
  moreover have "sorted_wrt (<) (map (\<lambda>a. au_off e a - 1) as)"
    using assms by (auto simp: waits_def sorted_wrt_map elim!: sorted_wrt_mono_rel [rotated])
  ultimately have "sorted_wrt (<) (map (au_off (w_add_u32 e 1)) as)" by (simp only:)
  with assms show ?thesis by (auto simp: waits_def au_off_next)
qed

lemma distinct_map_insort:
  "f x \<notin> f ` set xs \<Longrightarrow> distinct (map f xs) \<Longrightarrow> distinct (map f (insort_key f x xs))"
  by (induction xs) (auto simp: set_insort_key)

lemma waits_tail:
  assumes "waits 0 (Some e, a # as)"
  shows "waits 1 (Some e, as)"
  using assms by (auto simp: waits_def)

lemma waits_take_ready:
  "waits 0 (Some e, as) \<Longrightarrow> waits 1 (snd (take_ready e as))"
proof (induction as arbitrary: e)
  case Nil
  then show ?case by (simp add: waits_def)
next
  case (Cons a as)
  show ?case
  proof (cases "au_index a = e")
    case True
    with Cons.IH [OF waits_next [OF waits_tail [OF Cons.prems]]] show ?thesis
      by (simp add: case_prod_beta)
  next
    case False
    then have "0 < au_off e a" by (simp add: au_off_zero_iff [symmetric])
    with False Cons.prems show ?thesis by (fastforce simp: waits_def)
  qed
qed

lemma waits_spec_push:
  assumes "waits 1 st" and "spec_push au st = Some (r, st')"
  shows "waits 1 st'"
proof (cases "fst st")
  case None
  with assms show ?thesis
    by (auto simp: spec_push_def waits_def au_off_def)
next
  case (Some e)
  obtain ws where st: "st = (Some e, ws)" using Some by (cases st) simp
  consider (ready) "au_off e au = 0" | (early) "0 < au_off e au" "au_off e au < 2 ^ 31"
    | (late) "2 ^ 31 \<le> au_off e au" by linarith
  then show ?thesis
  proof cases
    case ready
    with assms(2) have "st' = snd (take_ready (w_add_u32 e 1) ws)"
      by (auto simp: spec_push_def st Let_def split: prod.splits)
    with waits_take_ready [OF waits_next] assms(1) st show ?thesis by simp
  next
    case early
    with assms(2) have st': "st' = (Some e, insort_key (au_off e) au ws)"
      and new: "au_off e au \<notin> au_off e ` set ws"
      by (auto simp: spec_push_def st split: if_splits)
    have "sorted_wrt (<) (map (au_off e) (insort_key (au_off e) au ws))"
      using assms(1) new unfolding st waits_def strict_sorted_iff
      by (simp add: sorted_insort_key distinct_map_insort)
    with assms(1) early show ?thesis by (auto simp: st st' waits_def set_insort_key)
  next
    case late
    with assms(2) st have "st' = st" by (auto simp: spec_push_def split: if_splits)
    with assms(1) show ?thesis by simp
  qed
qed

section \<open>The buffer keeps its promise\<close>

context au_slab
begin

lemma pop_ready_refines:
  assumes "nodes S (head self) (early_aus self) ns" and "waits 0 (Some e, map snd ns)"
    and "expected_index self = Some e"
  shows "\<exists>self' ns'. pop_ready S e self out
       = Some (Inr (), self', ms_extend out (fst (take_ready e (map snd ns))))
     \<and> nodes S (head self') (early_aus self') ns'
     \<and> (expected_index self', map snd ns') = snd (take_ready e (map snd ns))"
  using assms
proof (induction ns arbitrary: self e out)
  case Nil
  with nodes_empty [OF Nil.prems(1)] show ?case by (auto simp: pop_ready.simps)
next
  case (Cons n ns)
  obtain k a where n: "n = (k, a)" by (rule prod.exhaust)
  from Cons.prems(1) n obtain q where h: "head self = Some k"
    "slab_get S k (early_aus self) = Some \<lparr>an_au = a, an_next = q\<rparr>" by (auto elim: nodes_cons)
  have ne: "\<not> slab_is_empty S (early_aus self)" using nodes_empty [OF Cons.prems(1)] by simp
  have lim: "au_off e a < 2 ^ 31" using Cons.prems(2) n by (simp add: waits_def)
  show ?case
  proof (cases "au_index a = e")
    case True
    from Cons.prems(1) h(1) n obtain q' s' where
      r: "slab_remove S k (early_aus self) = Some (\<lparr>an_au = a, an_next = q'\<rparr>, s')" "nodes S q' s' ns"
      by (auto elim: nodes_remove)
    let ?self = "self\<lparr>early_aus := s', expected_index := Some (w_add_u32 e 1), head := q'\<rparr>"
    have "waits 0 (Some (w_add_u32 e 1), map snd ns)"
      using Cons.prems(2) n by (auto intro: waits_next waits_tail)
    with Cons.IH [of ?self "w_add_u32 e 1" "ms_push out a"] r(2)
    show ?thesis using True h ne r(1) n
      by (simp add: pop_ready.simps [of S e self] au_try_cmp_expected Let_def case_prod_beta)
  next
    case False
    then have "au_try_cmp (au_index a) e = Inr Greater"
      using lim by (simp add: au_try_cmp_expected au_off_def off_zero_iff)
    with False h ne Cons.prems n show ?thesis
      by (intro exI [of _ self] exI [of _ "n # ns"]) (simp add: pop_ready.simps [of S e self])
  qed
qed

lemma push_expected_refines:
  assumes "nodes S (head self) (early_aus self) ns" and "waits 1 (Some e, map snd ns)"
  shows "\<exists>self' ns'. push_expected S e au self out
       = Some (Inr (), self', ms_extend out (au # fst (take_ready (w_add_u32 e 1) (map snd ns))))
     \<and> nodes S (head self') (early_aus self') ns'
     \<and> (expected_index self', map snd ns') = snd (take_ready (w_add_u32 e 1) (map snd ns))"
  using pop_ready_refines [of "self\<lparr>expected_index := Some (w_add_u32 e 1)\<rparr>" ns "w_add_u32 e 1"]
    assms waits_next by (simp add: push_expected_def Let_def)

lemma linked_in_nodes:
  assumes "nodes S (Some k) s ((k, b) # ns)" and "linked_in S e au s (k, b) ns s'"
  obtains ns' where "nodes S (Some k) s' ((k, b) # ns')"
    "map snd ns' = insort_key (au_off e) au (map snd ns)"
proof -
  from assms(2) obtain new ns' where l: "slab_get S new s = None"
    "\<And>j. j \<noteq> k \<Longrightarrow> j \<notin> fst ` set ns \<Longrightarrow> j \<noteq> new \<Longrightarrow> slab_get S j s' = slab_get S j s"
    "chain (\<lambda>k. slab_get S k s') (Some k) ((k, b) # ns')"
    "fst ` set ns' = insert new (fst ` set ns)" "distinct (map fst ns')"
    "map snd ns' = insort_key (au_off e) au (map snd ns)"
    unfolding linked_in_def fst_conv by blast
  have "new \<noteq> k" using nodesD(3) [OF assms(1), of k] l(1) by auto
  have "nodes S (Some k) s' ((k, b) # ns')"
  proof (rule nodesI [OF l(3)])
    show "distinct (map fst ((k, b) # ns'))"
      using nodesD(2) [OF assms(1)] l(4,5) \<open>new \<noteq> k\<close> by simp
    show "slab_get S j s' = None \<longleftrightarrow> j \<notin> fst ` set ((k, b) # ns')" for j
    proof (cases "j \<in> fst ` set ((k, b) # ns')")
      case True
      with chain_entries [OF l(3)] show ?thesis by fastforce
    next
      case False
      with l(2) [of j] l(4) nodesD(3) [OF assms(1), of j] show ?thesis by simp
    qed
  qed
  with l(6) show ?thesis by (intro that)
qed

lemma insert_au_duplicate:
  assumes "nodes S (head self) (early_aus self) ns" and "waits 1 (Some e, map snd ns)"
    and "au_off e au < 2 ^ 31" and "au_off e au \<in> au_off e ` set (map snd ns)"
  shows "insert_au S au self = None"
proof -
  from assms(4) obtain n ns' where ns: "ns = n # ns'" by (cases ns) auto
  with assms(1) have n: "nodes S (head self) (early_aus self) (n # ns')" by simp
  then obtain q where h: "head self = Some (fst n)"
    "slab_get S (fst n) (early_aus self) = Some \<lparr>an_au = snd n, an_next = q\<rparr>"
    "chain (\<lambda>k. slab_get S k (early_aus self)) q ns'" by (rule nodes_cons)
  have cmp: "au_try_cmp (au_index au) (au_index (snd n)) = Inr (if au_off e au < au_off e (snd n)
      then Less else if au_off e au = au_off e (snd n) then Equal else Greater)"
    using assms(2,3) ns by (intro au_try_cmp_au_off) (auto simp: waits_def)
  have ge: "\<not> au_off e au < au_off e (snd n)" using assms(2,4) ns by (auto simp: waits_def)
  have ne: "\<not> slab_is_empty S (early_aus self)" using nodes_empty [OF n] by simp
  show ?thesis
  proof (cases "au_off e au = au_off e (snd n)")
    case True
    then show ?thesis using ne h cmp by (simp add: insert_au_def)
  next
    case False
    with assms(2,3,4) ns h(3) have "insert_behind S au (fst n) \<lparr>an_au = snd n, an_next = q\<rparr> self = None"
      by (intro insert_behind_duplicate [of self _ ns' e]) (auto simp: waits_def comp_def image_image)
    with False ge show ?thesis using ne h cmp by (simp add: insert_au_def)
  qed
qed

lemma insert_au_refines:
  assumes "nodes S (head self) (early_aus self) ns" and "waits 1 (Some e, map snd ns)"
    and "au_off e au < 2 ^ 31" and "au_off e au \<notin> au_off e ` set (map snd ns)"
  shows "\<exists>self' ns'. insert_au S au self = Some (Inr (), self') \<and> expected_index self' = expected_index self
      \<and> nodes S (head self') (early_aus self') ns' \<and> map snd ns' = insort_key (au_off e) au (map snd ns)"
proof (cases "\<exists>n ns'. ns = n # ns' \<and> au_off e (snd n) < au_off e au")
  case True
  then obtain k b ns' where ns: "ns = (k, b) # ns'" and lt: "au_off e b < au_off e au" by fastforce
  with assms(1) have n: "nodes S (head self) (early_aus self) ((k, b) # ns')" by simp
  then obtain q where h: "head self = Some k"
    "slab_get S k (early_aus self) = Some \<lparr>an_au = b, an_next = q\<rparr>" by (rule nodes_cons) simp
  have cmp: "au_try_cmp (au_index au) (au_index b) = Inr Greater"
    using assms(2,3) ns lt by (subst au_try_cmp_au_off [of e]) (auto simp: waits_def)
  have "\<exists>s'. insert_behind S au k \<lparr>an_au = b, an_next = q\<rparr> self = Some (Inr (), self\<lparr>early_aus := s'\<rparr>)
      \<and> linked_in S e au (early_aus self) (k, b) ns' s'"
    using nodesD(1,2) [OF n] assms(2-) ns h
    by (intro insert_behind_new) (auto simp: waits_def comp_def)
  then obtain s' where s': "insert_behind S au k \<lparr>an_au = b, an_next = q\<rparr> self = Some (Inr (), self\<lparr>early_aus := s'\<rparr>)"
    "linked_in S e au (early_aus self) (k, b) ns' s'" by blast
  from n h(1) s'(2) obtain ns'' where "nodes S (Some k) s' ((k, b) # ns'')"
    "map snd ns'' = insort_key (au_off e) au (map snd ns')" using linked_in_nodes by metis
  with s'(1) h cmp lt ns nodes_empty [OF n] show ?thesis
    by (intro exI [of _ "self\<lparr>early_aus := s'\<rparr>"] exI [of _ "(k, b) # ns''"]) (simp add: insert_au_def)
next
  case False
  then have first: "insort_key (au_off e) au (map snd ns) = au # map snd ns"
    by (cases ns) auto
  obtain k s' where ins: "slab_insert S \<lparr>an_au = au, an_next = head self\<rparr> (early_aus self) = (k, s')"
    by (rule prod.exhaust)
  have "insert_au S au self = Some (Inr (), self\<lparr>head := Some k, early_aus := s'\<rparr>)"
  proof (cases ns)
    case Nil
    with nodesD(1) [OF assms(1)] ins show ?thesis
      using nodes_empty [OF assms(1)] by (simp add: insert_au_def)
  next
    case (Cons n ns')
    with assms(1) obtain q where h: "head self = Some (fst n)"
      "slab_get S (fst n) (early_aus self) = Some \<lparr>an_au = snd n, an_next = q\<rparr>"
      by (auto elim: nodes_cons)
    have "au_try_cmp (au_index au) (au_index (snd n)) = Inr Less"
      using assms(2-) Cons False by (subst au_try_cmp_au_off [of e]) (auto simp: waits_def)
    with h ins Cons nodes_empty [OF assms(1)] show ?thesis by (simp add: insert_au_def)
  qed
  with nodes_insert [OF assms(1) ins] first show ?thesis
    by (intro exI [of _ "self\<lparr>head := Some k, early_aus := s'\<rparr>"] exI [of _ "(k, au) # ns"]) simp
qed

text \<open>\<^verbatim>\<open>push_and_pop\<close> implements \<open>spec_push\<close>.\<close>

lemma push_and_pop_panics:
  assumes "deint_rep S self st" and "spec_push au st = None"
  shows "push_and_pop S au self out = None"
proof -
  from assms(1) obtain ns where ns: "nodes S (head self) (early_aus self) ns" "map snd ns = snd st"
    "waits 1 st" "expected_index self = fst st" by (auto simp: deint_rep_def)
  from assms(2) obtain e where e: "fst st = Some e"
    by (cases "fst st") (auto simp: spec_push_def au_off_def Let_def split: prod.splits)
  then have st: "st = (Some e, map snd ns)" using ns(2) by (cases st) simp
  from assms(2) e have "0 < au_off e au" "au_off e au < 2 ^ 31" "au_off e au \<in> au_off e ` set (map snd ns)"
    by (auto simp: spec_push_def st Let_def split: if_splits prod.splits)
  with insert_au_duplicate [OF ns(1), of e au] ns(3,4) st show ?thesis
    by (simp add: push_and_pop_def au_try_cmp_expected au_off_def)
qed

lemma push_and_pop_refines:
  assumes "deint_rep S self st" and "spec_push au st = Some (r, st')"
  shows "\<exists>self'. deint_rep S self' st' \<and> push_and_pop S au self out
    = Some (map_sum id (\<lambda>_. ()) r, self', ms_extend out (case r of Inl _ \<Rightarrow> [] | Inr aus \<Rightarrow> aus))"
proof -
  from assms(1) obtain ns where ns: "nodes S (head self) (early_aus self) ns" "map snd ns = snd st"
    "waits 1 st" "expected_index self = fst st" by (auto simp: deint_rep_def)
  have w': "waits 1 st'" by (rule waits_spec_push [OF ns(3) assms(2)])
  define e where "e = (case fst st of Some e \<Rightarrow> e | None \<Rightarrow> au_index au)"
  have w: "waits 1 (Some e, map snd ns)"
    using ns(2,3) by (auto simp: e_def waits_def split: option.splits)
  consider (ready) "au_off e au = 0" | (early) "0 < au_off e au" "au_off e au < 2 ^ 31"
    | (late) "2 ^ 31 \<le> au_off e au" by linarith
  then show ?thesis
  proof cases
    case ready
    with assms(2) ns(2) have r: "r = Inr (au # fst (take_ready (w_add_u32 e 1) (map snd ns)))"
      "st' = snd (take_ready (w_add_u32 e 1) (map snd ns))"
      by (auto simp: spec_push_def e_def [symmetric] split: prod.splits)
    have eq: "push_and_pop S au self out = push_expected S e au self out"
      using ready ns(4) by (auto simp: push_and_pop_def e_def au_try_cmp_expected au_off_def split: option.splits)
    from push_expected_refines [OF ns(1) w, of au out] obtain self' ns' where
      p: "push_expected S e au self out
        = Some (Inr (), self', ms_extend out (au # fst (take_ready (w_add_u32 e 1) (map snd ns))))"
      "nodes S (head self') (early_aus self') ns'" "(expected_index self', map snd ns') = st'"
      unfolding r(2) by blast
    from p(3) have "st' = (expected_index self', map snd ns')" ..
    with p w' r(1) show ?thesis unfolding eq by (intro exI [of _ self']) (auto simp: deint_rep_def)
  next
    case early
    then obtain st_e: "fst st = Some e" by (cases "fst st") (auto simp: e_def au_off_def)
    with early assms(2) ns(2) have new: "au_off e au \<notin> au_off e ` set (map snd ns)"
      and r: "r = Inr []" "st' = (Some e, insort_key (au_off e) au (map snd ns))"
      by (auto simp: spec_push_def e_def [symmetric] split: if_splits)
    from insert_au_refines [OF ns(1) w early(2) new] early st_e ns(4) r w' show ?thesis
      by (auto simp: push_and_pop_def au_try_cmp_expected au_off_def deint_rep_def)
  next
    case late
    then obtain st_e: "fst st = Some e" by (cases "fst st") (auto simp: e_def au_off_def)
    with late assms ns(4) show ?thesis
      by (auto simp: spec_push_def push_and_pop_def au_try_cmp_expected au_off_def split: if_splits)
  qed
qed

text \<open>Draining passes on what waits, in order, and leaves an empty buffer, as flushing does.\<close>

lemma drain_list_nodes:
  assumes "nodes S p s ns"
  shows "\<exists>s'. drain_list S p s out = Some (ms_extend out (map snd ns), s') \<and> nodes S None s' []"
  using assms
proof (induction ns arbitrary: p s out)
  case Nil
  moreover from this have "p = None" using nodesD(1) by fastforce
  ultimately show ?case by (simp add: drain_list.simps)
next
  case (Cons n ns)
  obtain k a where n: "n = (k, a)" by (rule prod.exhaust)
  from Cons.prems n have "p = Some k" by (auto elim: nodes_cons)
  with Cons.prems n obtain q s' where "slab_remove S k s = Some (\<lparr>an_au = a, an_next = q\<rparr>, s')"
    "nodes S q s' ns" by (auto elim: nodes_remove)
  with Cons.IH [of q s' "ms_push out a"] n \<open>p = Some k\<close> show ?case
    by (simp add: drain_list.simps [of S "Some k"])
qed

lemma deint_rep_empty: "deint_rep S self (None, []) \<longleftrightarrow>
  expected_index self = None \<and> nodes S (head self) (early_aus self) []"
  by (auto simp: deint_rep_def waits_def)

lemma deint_new_rep: "deint_rep S (deint_new S d) (None, [])"
  by (simp add: deint_rep_empty deint_new_def nodes_nil with_capacity_get)

lemma deint_flush_rep: "deint_rep S (deint_flush S self) (None, [])"
  by (simp add: deint_rep_empty deint_flush_def nodes_nil clear_get)

lemma deint_drain_rep:
  assumes "deint_rep S self st"
  shows "\<exists>out self'. deint_drain S self = Some (out, self') \<and> ms_aus out = snd st
    \<and> deint_rep S self' (None, [])"
proof -
  from assms obtain ns where ns: "nodes S (head self) (early_aus self) ns" "map snd ns = snd st"
    by (auto simp: deint_rep_def)
  note len = nodes_len [OF ns(1)]
  consider "ns = []" | n where "ns = [n]" | "2 \<le> length ns"
    by (cases ns; cases "tl ns") auto
  then show ?thesis
  proof cases
    case 1
    moreover from this have "head self = None" using nodesD(1) [OF ns(1)] by simp
    ultimately show ?thesis using ns len by (simp add: deint_drain_def deint_rep_empty ms_aus_def)
  next
    case (2 n)
    obtain k a where n: "n = (k, a)" by (rule prod.exhaust)
    with ns 2 have h: "head self = Some k" by (auto elim: nodes_cons)
    with ns(1) 2 n obtain q s' where r: "slab_remove S k (early_aus self) = Some (\<lparr>an_au = a, an_next = q\<rparr>, s')"
      "nodes S q s' []" by (auto elim: nodes_remove)
    then have "nodes S None s' []" by (simp add: nodes_def)
    with r(1) h ns(2) 2 n len show ?thesis
      by (simp add: deint_drain_def deint_rep_empty ms_aus_def ms_from_def)
  next
    case 3
    from drain_list_nodes [OF ns(1), of ms_new_list] obtain s' where
      d: "drain_list S (head self) (early_aus self) ms_new_list = Some (ms_extend ms_new_list (map snd ns), s')"
      "nodes S None s' []" by blast
    have "ms_aus ms_new_list = []" by (simp add: ms_aus_def ms_new_list_def)
    with d ns(2) 3 len show ?thesis
      by (auto simp: deint_drain_def deint_rep_empty ms_aus_extend Let_def)
  qed
qed

end

interpretation refau: au_slab ref_slab ..

section \<open>Access units in order\<close>

text \<open>Access units pushed one after the other; the refused ones are dropped.\<close>

fun deint_pushes ::
  "('s, au_node) slab_ops \<Rightarrow> access_unit list \<Rightarrow> 's deint_buffer \<Rightarrow> maybe_single_au_or_list
   \<Rightarrow> ('s deint_buffer \<times> maybe_single_au_or_list) option" where
  "deint_pushes S [] self out = Some (self, out)"
| "deint_pushes S (au # aus) self out =
     do { (_, self, out) \<leftarrow> push_and_pop S au self out; deint_pushes S aus self out }"

text \<open>The \<open>k\<close> access units from \<open>i\<close> on were passed on, those that wait are further ahead.\<close>

definition ahead :: "wrapping_u32 \<Rightarrow> nat \<Rightarrow> access_unit list \<Rightarrow> bool" where
  "ahead i k ws \<longleftrightarrow> sorted_wrt (<) (map (au_off i) ws) \<and> (\<forall>a \<in> set ws. k < au_off i a \<and> au_off i a < 2 ^ 31)"

abbreviation index_at :: "wrapping_u32 \<Rightarrow> nat \<Rightarrow> wrapping_u32" where
  "index_at i k \<equiv> w_add_u32 i (word_of_nat k)"

lemma off_index_at: "k < 2 ^ 32 \<Longrightarrow> off i (index_at i k) = k"
  by (simp add: off_def w_add_u32_def unat_u32_of_nat)

lemma au_index_at: "k < 2 ^ 32 \<Longrightarrow> au_index a = index_at i k \<longleftrightarrow> au_off i a = k"
  unfolding au_off_def using off_index_at [of k i] off_inj by metis

lemma index_at_Suc: "w_add_u32 (index_at i k) 1 = index_at i (Suc k)"
  by (simp add: w_add_u32_def)

lemma au_off_index_at:
  assumes "k \<le> au_off i a" and "au_off i a < 2 ^ 31"
  shows "au_off (index_at i k) a = au_off i a - k"
proof -
  have "off i (index_at i k) = k" using assms by (intro off_index_at) simp
  with off_shift [of "index_at i k" "au_index a" i] assms(1) show ?thesis by (simp add: au_off_def)
qed

lemma take_ready_run:
  assumes "sorted_wrt (<) (map (au_off i) ws)" "\<forall>a \<in> set ws. k \<le> au_off i a \<and> au_off i a < 2 ^ 31"
    and "k \<le> 2 ^ 31"
  shows "\<exists>n ready rest. take_ready (index_at i k) ws = (ready, Some (index_at i n), rest)
    \<and> ws = ready @ rest \<and> k \<le> n \<and> n \<le> 2 ^ 31 \<and> map (au_off i) ready = [k..<n] \<and> ahead i n rest"
  using assms
proof (induction ws arbitrary: k)
  case Nil
  then show ?case by (auto simp: ahead_def)
next
  case (Cons a ws)
  have at: "au_index a = index_at i k \<longleftrightarrow> au_off i a = k" using Cons.prems by (intro au_index_at) simp
  show ?case
  proof (cases "au_off i a = k")
    case True
    from Cons.prems have "sorted_wrt (<) (map (au_off i) ws)"
      "\<forall>b \<in> set ws. Suc k \<le> au_off i b \<and> au_off i b < 2 ^ 31" "Suc k \<le> 2 ^ 31"
      using True by (auto simp: Suc_le_eq)
    from Cons.IH [OF this] obtain n ready rest where
      "take_ready (index_at i (Suc k)) ws = (ready, Some (index_at i n), rest)" "ws = ready @ rest"
      "Suc k \<le> n" "n \<le> 2 ^ 31" "map (au_off i) ready = [Suc k..<n]" "ahead i n rest" by blast
    with True at show ?thesis
      by (intro exI [of _ n] exI [of _ "a # ready"] exI [of _ rest])
         (simp add: index_at_Suc upt_conv_Cons)
  next
    case False
    with Cons.prems have "\<forall>b \<in> set (a # ws). k < au_off i b" by fastforce
    with False Cons.prems at show ?thesis
      by (intro exI [of _ k] exI [of _ "[]"] exI [of _ "a # ws"]) (auto simp: ahead_def)
  qed
qed

text \<open>One push, when the index of the access unit has not been seen since the first one.\<close>

lemma spec_push_run:
  assumes "ahead i k ws" and "k \<le> au_off i au" and "au_off i au < 2 ^ 31"
    and "au_off i au \<notin> au_off i ` set ws"
  shows "\<exists>n ready ws'. spec_push au (Some (index_at i k), ws) = Some (Inr ready, Some (index_at i n), ws')
    \<and> mset (au # ws) = mset ready + mset ws' \<and> k \<le> n \<and> map (au_off i) ready = [k..<n] \<and> ahead i n ws'"
proof -
  let ?e = "index_at i k"
  have off: "au_off ?e a = au_off i a - k" if "a \<in> insert au (set ws)" for a
    using that assms by (intro au_off_index_at) (auto simp: ahead_def)
  show ?thesis
  proof (cases "au_off i au = k")
    case True
    have "\<forall>a \<in> set ws. Suc k \<le> au_off i a \<and> au_off i a < 2 ^ 31" "Suc k \<le> 2 ^ 31"
      using assms True by (auto simp: ahead_def)
    with assms(1) obtain n ready rest where r:
      "take_ready (index_at i (Suc k)) ws = (ready, Some (index_at i n), rest)"
      "ws = ready @ rest" "Suc k \<le> n" "map (au_off i) ready = [Suc k..<n]" "ahead i n rest"
      using take_ready_run [of i ws "Suc k"] by (auto simp: ahead_def)
    with True off show ?thesis
      by (intro exI [of _ n] exI [of _ "au # ready"] exI [of _ rest])
         (simp add: spec_push_def index_at_Suc upt_conv_Cons)
  next
    case False
    have new: "au_off ?e au \<notin> au_off ?e ` set ws"
    proof
      assume "au_off ?e au \<in> au_off ?e ` set ws"
      then obtain a where a: "a \<in> set ws" "au_off ?e au = au_off ?e a" by blast
      with off [of au] off [of a] assms(1,2) have "au_off i au = au_off i a"
        by (auto simp: ahead_def)
      with a(1) assms(4) show False by blast
    qed
    have ins: "insort_key (au_off ?e) au ws = insort_key (au_off i) au ws"
      using off assms(1,2) unfolding ahead_def by (induction ws) auto
    have "ahead i k (insort_key (au_off i) au ws)"
      using assms False unfolding ahead_def strict_sorted_iff
      by (auto simp: sorted_insort_key distinct_map_insort set_insort_key)
    moreover have "0 < au_off ?e au" "au_off ?e au < 2 ^ 31" using False off [of au] assms(2,3) by auto
    ultimately show ?thesis using new ins
      by (intro exI [of _ k] exI [of _ "[]"] exI [of _ "insort_key (au_off i) au ws"])
         (auto simp: spec_push_def)
  qed
qed

lemma spec_push_first:
  "spec_push au (None, []) = Some (Inr [au], Some (index_at (au_index au) 1), [])"
  by (simp add: spec_push_def au_off_def)

context au_slab
begin

lemma deint_pushes_run:
  assumes "deint_rep S self (Some (index_at i k), ws)" and "ahead i k ws"
    and "map (au_off i) (ms_aus out) = [0..<k]"
    and "distinct (map (au_off i) (ms_aus out @ ws @ aus))" and "\<forall>a \<in> set aus. au_off i a < 2 ^ 31"
  shows "\<exists>self' out' n ws'. deint_pushes S aus self out = Some (self', out')
    \<and> deint_rep S self' (Some (index_at i n), ws') \<and> ahead i n ws'
    \<and> map (au_off i) (ms_aus out') = [0..<n]
    \<and> mset (ms_aus out') + mset ws' = mset (ms_aus out @ ws @ aus)"
  using assms
proof (induction aus arbitrary: self k ws out)
  case Nil
  then show ?case by fastforce
next
  case (Cons au aus)
  have "au_off i au \<notin> set (map (au_off i) (ms_aus out))" using Cons.prems(4) by auto
  then have "k \<le> au_off i au" unfolding Cons.prems(3) by simp
  with Cons.prems(2,4,5) obtain n ready ws' where sp:
    "spec_push au (Some (index_at i k), ws) = Some (Inr ready, Some (index_at i n), ws')"
    "mset (au # ws) = mset ready + mset ws'" "k \<le> n" "map (au_off i) ready = [k..<n]" "ahead i n ws'"
    using spec_push_run [of i k ws au] by auto
  from push_and_pop_refines [OF Cons.prems(1) sp(1), of out] obtain self' where
    pp: "deint_rep S self' (Some (index_at i n), ws')"
    "push_and_pop S au self out = Some (Inr (), self', ms_extend out ready)" by auto
  have out: "map (au_off i) (ms_aus (ms_extend out ready)) = [0..<n]"
    using Cons.prems(3) sp(3,4) upt_add_eq_append [of 0 k "n - k"] by (simp add: ms_aus_extend)
  have ms: "mset (ms_aus (ms_extend out ready) @ ws' @ aus) = mset (ms_aus out @ ws @ au # aus)"
    using sp(2) by (simp add: ms_aus_extend)
  have "distinct (map (au_off i) (ms_aus (ms_extend out ready) @ ws' @ aus))"
    using Cons.prems(4) mset_eq_imp_distinct_iff [of "map (au_off i) (ms_aus (ms_extend out ready) @ ws' @ aus)"
      "map (au_off i) (ms_aus out @ ws @ au # aus)"] ms by (simp only: mset_map)
  from Cons.IH [OF pp(1) sp(5) out this] Cons.prems(5) obtain self2 out2 n2 ws2 where
    "deint_pushes S aus self' (ms_extend out ready) = Some (self2, out2)"
    "deint_rep S self2 (Some (index_at i n2), ws2) \<and> ahead i n2 ws2
      \<and> map (au_off i) (ms_aus out2) = [0..<n2]"
    "mset (ms_aus out2) + mset ws2 = mset (ms_aus out @ ws @ au # aus)"
    unfolding ms by auto
  with pp(2) show ?case by (intro exI [of _ self2] exI [of _ out2] exI [of _ n2] exI [of _ ws2]) simp
qed

text \<open>
  When the indices of a sequence of access units are, in any order, those from that of the
  first one on without a gap, the buffer passes all of them on in the order of their indices.
\<close>

lemma deint_pushes_in_order:
  assumes "aus = a # as" and "mset (map (au_off (au_index a)) aus) = mset [0..<length aus]"
    and "length aus \<le> 2 ^ 31"
  shows "\<exists>self' out. deint_pushes S aus (deint_new S d) None = Some (self', out)
    \<and> mset (ms_aus out) = mset aus \<and> map (au_off (au_index a)) (ms_aus out) = [0..<length aus]
    \<and> slab_is_empty S (early_aus self')"
proof -
  let ?i = "au_index a"
  from push_and_pop_refines [OF deint_new_rep spec_push_first, of a d None] obtain self1 where
    p1: "deint_rep S self1 (Some (index_at ?i 1), [])"
    "push_and_pop S a (deint_new S d) None = Some (Inr (), self1, ms_push None a)" by auto
  have out1: "ms_aus (ms_push None a) = [a]" by (simp add: ms_aus_def ms_push_def)
  have dist: "distinct (map (au_off ?i) (ms_aus (ms_push None a) @ [] @ as))"
    using mset_eq_imp_distinct_iff [OF assms(2)] out1 assms(1) by simp
  have set_offs: "set (map (au_off ?i) aus) = {0..<length aus}"
    using arg_cong [OF assms(2), of set_mset] by (simp only: set_mset_mset set_upt)
  then have "au_off ?i b < length aus" if "b \<in> set aus" for b
    using that by (metis atLeastLessThan_iff image_eqI list.set_map)
  then have lim: "\<forall>b \<in> set as. au_off ?i b < 2 ^ 31" using assms(1,3) by fastforce
  have "ahead ?i 1 []" "map (au_off ?i) (ms_aus (ms_push None a)) = [0..<1]"
    by (simp_all add: ahead_def out1 au_off_def)
  from deint_pushes_run [OF p1(1) this dist lim] obtain self' out' n ws' where
    r: "deint_pushes S as self1 (ms_push None a) = Some (self', out')"
    "deint_rep S self' (Some (index_at ?i n), ws')" "ahead ?i n ws'"
    "map (au_off ?i) (ms_aus out') = [0..<n]" "mset (ms_aus out') + mset ws' = mset aus"
    unfolding out1 assms(1) by auto
  have "set aus = set (ms_aus out') \<union> set ws'"
    using arg_cong [OF r(5), of set_mset] by simp
  then have offs: "set [0..<n] \<union> au_off ?i ` set ws' = {0..<length aus}"
    unfolding r(4) [symmetric] set_offs [symmetric] by (simp add: image_Un)
  have "ws' = []"
  proof (rule ccontr)
    assume "ws' \<noteq> []"
    then have "hd ws' \<in> set ws'" by simp
    with offs have "au_off ?i (hd ws') < length aus" by auto
    moreover have "n < au_off ?i (hd ws')" using \<open>hd ws' \<in> set ws'\<close> r(3) by (simp add: ahead_def)
    ultimately have "n \<in> set [0..<n] \<union> au_off ?i ` set ws'" unfolding offs by simp
    with r(3) show False by (auto simp: ahead_def)
  qed
  with offs have "n = length aus" by (metis atLeastLessThan_upt atLeastLessThan_eq_iff
      bot_nat_0.extremum_uniqueI card_atLeastLessThan diff_zero image_empty list.set(1) sup_bot_right)
  moreover have "slab_is_empty S (early_aus self')"
    using r(2) \<open>ws' = []\<close> nodes_empty by (auto simp: deint_rep_def)
  ultimately show ?thesis using r p1(2) \<open>ws' = []\<close> assms(1) by simp
qed

end

section \<open>Properties\<close>

definition au_at :: "u32 \<Rightarrow> access_unit" where
  "au_at n = \<lparr>au_ext_seqnum = 0, au_is_fragment = False, au_size = None, au_index = WrappingU32 n,
     au_cts_delta = None, au_dts_delta = None, au_duration = None, au_maybe_random_access = None,
     au_is_interleaved = False, au_data = []\<rparr>"

lemma au_off_au_at: "au_off (WrappingU32 i) (au_at n) = unat (n - i)"
  by (simp add: au_off_def au_at_def off_def)

text \<open>C20: The deinterleaving buffer implements its abstract specification, a list of waiting access units
  sorted by their distance from the expected index: \<^verbatim>\<open>push_and_pop\<close> returns, panics, answers and
  outputs exactly as \<open>spec_push\<close> says and keeps the representation, and \<^verbatim>\<open>drain\<close> returns the waiting
  access units in order and leaves an empty buffer. In particular the loops along the links end.\<close>

theorem deint_refines:
  assumes "slab_spec S" and "deint_rep S self st"
  shows "(case spec_push au st of None \<Rightarrow> push_and_pop S au self out = None
     | Some (r, st') \<Rightarrow> \<exists>self'. deint_rep S self' st' \<and> push_and_pop S au self out
         = Some (map_sum id (\<lambda>_. ()) r, self', ms_extend out (case r of Inl _ \<Rightarrow> [] | Inr aus \<Rightarrow> aus)))
     \<and> (\<exists>out self'. deint_drain S self = Some (out, self') \<and> ms_aus out = snd st
         \<and> deint_rep S self' (None, []))"
proof -
  have S: "au_slab S" using assms(1) by (rule au_slab.intro)
  show ?thesis
    using au_slab.push_and_pop_panics [OF S assms(2)] au_slab.push_and_pop_refines [OF S assms(2)]
      au_slab.deint_drain_rep [OF S assms(2)]
    by (auto split: option.splits)
qed

theorem deint_refines_witness:
  "\<exists>self'. push_and_pop ref_slab (au_at 7) (deint_new ref_slab 4) None
     = Some (Inr (), self', Some (Single (au_at 7)))"
  using deint_refines [OF refslab.slab_spec_axioms refau.deint_new_rep [of 4], of "au_at 7" None]
  by (auto simp: spec_push_first ms_push_def)

text \<open>C19: Access units are put back in order: let the access unit pushed first into a new buffer have the
  lowest index, and let the indices of all of them be the ones from there on without gaps or
  repetitions, that is, their distances from the first are 0 to n - 1 for n access units, with n at
  most 2^31. Then in whatever order those after the first come, and whether the index wraps around or
  not, nothing panics, all of them are passed on in the order of their indices, and the buffer is
  empty afterwards.\<close>

theorem deint_in_order:
  assumes "slab_spec S" and "aus = a # as"
    and "mset (map (au_off (au_index a)) aus) = mset [0..<length aus]" and "length aus \<le> 2 ^ 31"
  shows "\<exists>self' out. deint_pushes S aus (deint_new S d) None = Some (self', out)
    \<and> mset (ms_aus out) = mset aus \<and> map (au_off (au_index a)) (ms_aus out) = [0..<length aus]
    \<and> slab_is_empty S (early_aus self')"
  using au_slab.deint_pushes_in_order [OF au_slab.intro [OF assms(1)] assms(2-)] .

theorem deint_in_order_witness:
  "\<exists>self' out. deint_pushes ref_slab (map au_at [4294967295, 2, 1, 0]) (deint_new ref_slab 4) None = Some (self', out)
    \<and> map (au_off (WrappingU32 4294967295)) (ms_aus out) = [0, 1, 2, 3]"
proof -
  have up: "[0..<4] = [0, 1, 2, 3::nat]" by (simp add: upt_rec)
  have four: "(4::nat) \<le> 2 ^ 31" by simp
  have "map (au_off (WrappingU32 4294967295)) (map au_at [4294967295, 2, 1, 0]) = [0, 3, 2, 1]"
    by (simp add: au_off_au_at)
  then have "mset (map (au_off (WrappingU32 4294967295)) (map au_at [4294967295, 2, 1, 0])) = mset [0..<4]"
    unfolding up by (simp only: mset.simps add_mset_commute)
  moreover have "au_index (au_at 4294967295) = WrappingU32 4294967295" "length (map au_at [4294967295, 2, 1, 0]) = 4"
    by (simp_all add: au_at_def)
  moreover have "map au_at [4294967295, 2, 1, 0] = au_at 4294967295 # map au_at [2, 1, 0]" by (rule list.map)
  ultimately show ?thesis
    using deint_in_order [OF refslab.slab_spec_axioms, of "map au_at [4294967295, 2, 1, 0]" _ _ 4]
      four unfolding up [symmetric] by metis
qed

text \<open>C32: An access unit with the index of one that is waiting reaches the \<^verbatim>\<open>unreachable!()\<close> of
  \<^verbatim>\<open>insert_au\<close>, whatever packet it came in: the index is taken from the packet, and two
  packets with different sequence numbers may carry the same one.\<close>

theorem deint_repeat_panics:
  assumes "slab_spec S" and "deint_rep S self (Some e, ws)" and "a \<in> set ws"
    and "au_index au = au_index a"
  shows "push_and_pop S au self out = None"
proof -
  have off: "au_off e au = au_off e a" by (simp add: au_off_def assms(4))
  have "0 < au_off e a" "au_off e a < 2 ^ 31"
    using assms(2,3) by (auto simp: deint_rep_def waits_def)
  with off assms(3) have "spec_push au (Some e, ws) = None" by (auto simp: spec_push_def)
  with au_slab.push_and_pop_panics [OF au_slab.intro [OF assms(1)] assms(2)] show ?thesis by simp
qed

theorem deint_repeat_panics_witness:
  "\<exists>self. deint_pushes ref_slab [au_at 0, au_at 2] (deint_new ref_slab 4) None = Some (self, Some (Single (au_at 0)))
    \<and> push_and_pop ref_slab (au_at 2) self None = None"
proof -
  obtain self1 where p1: "deint_rep ref_slab self1 (Some (WrappingU32 1), [])"
    "push_and_pop ref_slab (au_at 0) (deint_new ref_slab 4) None = Some (Inr (), self1, Some (Single (au_at 0)))"
    using refau.push_and_pop_refines [OF refau.deint_new_rep [of 4] spec_push_first [of "au_at 0"], of None]
    by (auto simp: ms_push_def au_at_def w_add_u32_def)
  have "spec_push (au_at 2) (Some (WrappingU32 1), []) = Some (Inr [], Some (WrappingU32 1), [au_at 2])"
    by (simp add: spec_push_def au_off_au_at)
  from refau.push_and_pop_refines [OF p1(1) this, of "Some (Single (au_at 0))"] obtain self2 where
    "deint_rep ref_slab self2 (Some (WrappingU32 1), [au_at 2])"
    "push_and_pop ref_slab (au_at 2) self1 (Some (Single (au_at 0))) = Some (Inr (), self2, Some (Single (au_at 0)))"
    by auto
  with p1(2) deint_repeat_panics [OF refslab.slab_spec_axioms, of self2 "WrappingU32 1" "[au_at 2]" "au_at 2" "au_at 2" None]
  show ?thesis by simp
qed

end
