(* ===== verification/Mp4g_Header_Facts.thy ===== *)
theory Mp4g_Header_Facts
  imports Mp4g_Header
begin

text \<open>
  Access unit headers are read back as they were written, and how long they are: longer than
  \<^verbatim>\<open>max_header_bit_len\<close> says when the configuration has time stamp deltas.
\<close>

section \<open>Configurations\<close>

definition mode_ok :: "mode_config \<Rightarrow> bool" where
  "mode_ok c \<longleftrightarrow> (size_len c = 0 \<or> constant_size c = 0)
     \<and> (size_len c \<noteq> 0 \<or> constant_size c \<noteq> 0 \<or> constant_duration c \<noteq> 0)
     \<and> (index_len c > 0 \<longrightarrow> index_delta_len c > 0)"

lemma try_get_Inr: "try_get m f = Inr b \<longleftrightarrow> (\<exists>a. m = Inr a \<and> f a = Inr b)"
  by (cases m) (simp_all add: try_get_def)

lemma try_get_simps: "try_get (Inr a) f = f a" "try_get (Inl e) f = Inl e"
  by (simp_all add: try_get_def)

lemma if_Inl_Inr: "(if P then Inl e else m) = Inr b \<longleftrightarrow> \<not> P \<and> m = Inr b"
  by simp

lemma from_caps_ok:
  assumes "from_caps G s = Inr c"
  shows "mode_ok c"
  using assms unfolding from_caps_def Let_def try_get_Inr if_Inl_Inr
  by (elim exE conjE) (clarsimp simp: mode_ok_def word_gt_0)

text \<open>What the documentation of \<^verbatim>\<open>gst::Structure\<close> says of a field that was set.\<close>

locale caps_spec =
  fixes G :: "'s caps_ops"
  assumes get_set_other: "g \<noteq> f \<Longrightarrow> get_u8 G (set_field G f v s) g = get_u8 G s g"
      "g \<noteq> f \<Longrightarrow> get_u32 G (set_field G f v s) g = get_u32 G s g"
      "g \<noteq> f \<Longrightarrow> get_i32 G (set_field G f v s) g = get_i32 G s g"
      "g \<noteq> f \<Longrightarrow> get_str G (set_field G f v s) g = get_str G s g"
    and get_set_i32: "get_u8 G (set_field G f (FieldI32 i) s) f = Inl ValueGetError"
      "get_u32 G (set_field G f (FieldI32 i) s) f = Inl ValueGetError"
      "get_i32 G (set_field G f (FieldI32 i) s) f = Inr i"
    and get_set_u8: "get_u8 G (set_field G f (FieldU8 b) s) f = Inr b"
begin

lemma parse_set_other:
  assumes "g \<noteq> f"
  shows "parse_int G (get_u8 G) (set_field G f v s) g = parse_int G (get_u8 G) s g"
    "parse_int G (get_u32 G) (set_field G f v s) g = parse_int G (get_u32 G) s g"
  unfolding parse_int_def by (simp_all only: get_set_other [OF assms])

lemma parse_set_u8:
  "parse_int G (get_u8 G) (set_field G f (field_of_u8 v) s) f = Inr v"
  "parse_int G (get_u8 G) (set_field G f (FieldU8 v) s) f = Inr v"
  using uint_lt2p [of v] by (simp_all add: parse_int_def field_of_u8_def get_set_i32 get_set_u8)

lemma parse_set_u32:
  assumes "unat v < 2 ^ 31"
  shows "parse_int G (get_u32 G) (set_field G f (field_of_u32 v) s) f = Inr v"
proof -
  have "uint v < 2 ^ 31" using assms by (simp flip: of_nat_less_iff [where 'a = int])
  moreover have "- (2 ^ 31) \<le> uint v" by (rule order_trans [OF _ uint_ge_0]) simp
  ultimately have "sint v = uint v"
    unfolding sint_uint by (intro signed_take_bit_int_eq_self) simp_all
  then show ?thesis
    using uint_lt2p [of v] by (simp add: parse_int_def field_of_u32_def get_set_i32)
qed

lemma added_fields:
  assumes "add_to_caps G c s = Some (Inr s')"
    and "unat (constant_size c) < 2 ^ 31" "unat (constant_duration c) < 2 ^ 31" "unat (max_displacement c) < 2 ^ 31"
  shows "parse_int G (get_u8 G) s' ''sizelength'' = Inr (size_len c)"
    "parse_int G (get_u8 G) s' ''indexlength'' = Inr (index_len c)"
    "parse_int G (get_u8 G) s' ''indexdeltalength'' = Inr (index_delta_len c)"
    "parse_int G (get_u8 G) s' ''ctsdeltalength'' = Inr (cts_delta_len c)"
    "parse_int G (get_u8 G) s' ''dtsdeltalength'' = Inr (dts_delta_len c)"
    "parse_int G (get_u8 G) s' ''randomaccessindication'' = Inr (if random_access_indication c then 1 else 0)"
    "parse_int G (get_u8 G) s' ''streamstateindication'' = Inr (stream_state_indication c)"
    "parse_int G (get_u8 G) s' ''auxiliarydatasizelength'' = Inr (auxiliary_data_size_len c)"
    "parse_int G (get_u32 G) s' ''constantsize'' = Inr (constant_size c)"
    "parse_int G (get_u32 G) s' ''constantduration'' = Inr (constant_duration c)"
    "parse_int G (get_u32 G) s' ''maxdisplacement'' = Inr (max_displacement c)"
proof -
  define ra :: u8 where "ra = (if random_access_indication c then 1 else 0)"
  have eq: "s' = set_field G ''maxdisplacement'' (field_of_u32 (max_displacement c))
    (set_field G ''constantduration'' (field_of_u32 (constant_duration c))
    (set_field G ''constantsize'' (field_of_u32 (constant_size c))
    (set_field G ''auxiliarydatasizelength'' (field_of_u8 (auxiliary_data_size_len c))
    (set_field G ''streamstateindication'' (field_of_u8 (stream_state_indication c))
    (set_field G ''randomaccessindication'' (FieldU8 ra)
    (set_field G ''dtsdeltalength'' (field_of_u8 (dts_delta_len c))
    (set_field G ''ctsdeltalength'' (field_of_u8 (cts_delta_len c))
    (set_field G ''indexdeltalength'' (field_of_u8 (index_delta_len c))
    (set_field G ''indexlength'' (field_of_u8 (index_len c))
    (set_field G ''sizelength'' (field_of_u8 (size_len c)) s))))))))))"
    using assms(1) unfolding add_to_caps_def ra_def [symmetric] by (simp split: if_split_asm)
  note parse_set = parse_set_other parse_set_u8 parse_set_u32 [OF assms(2)] parse_set_u32 [OF assms(3)]
    parse_set_u32 [OF assms(4)]
  show "parse_int G (get_u8 G) s' ''sizelength'' = Inr (size_len c)"
    "parse_int G (get_u8 G) s' ''indexlength'' = Inr (index_len c)"
    "parse_int G (get_u8 G) s' ''indexdeltalength'' = Inr (index_delta_len c)"
    "parse_int G (get_u8 G) s' ''ctsdeltalength'' = Inr (cts_delta_len c)"
    "parse_int G (get_u8 G) s' ''dtsdeltalength'' = Inr (dts_delta_len c)"
    "parse_int G (get_u8 G) s' ''randomaccessindication'' = Inr (if random_access_indication c then 1 else 0)"
    "parse_int G (get_u8 G) s' ''streamstateindication'' = Inr (stream_state_indication c)"
    "parse_int G (get_u8 G) s' ''auxiliarydatasizelength'' = Inr (auxiliary_data_size_len c)"
    "parse_int G (get_u32 G) s' ''constantsize'' = Inr (constant_size c)"
    "parse_int G (get_u32 G) s' ''constantduration'' = Inr (constant_duration c)"
    "parse_int G (get_u32 G) s' ''maxdisplacement'' = Inr (max_displacement c)"
    unfolding eq ra_def [symmetric] by (simp_all add: parse_set)
qed

lemma from_caps_add_to_caps:
  assumes "mode_ok c" and "stream_state_indication c = 0"
    and "unat (constant_size c) < 2 ^ 31" "unat (constant_duration c) < 2 ^ 31" "unat (max_displacement c) < 2 ^ 31"
  shows "\<exists>s'. add_to_caps G c s = Some (Inr s') \<and> from_caps G s' = Inr c"
proof -
  obtain s' where s': "add_to_caps G c s = Some (Inr s')"
    using assms(1,2) by (auto simp: add_to_caps_def mode_ok_def word_gt_0)
  note fields = added_fields [OF s' assms(3-5)]
  have ok: "\<not> (size_len c \<noteq> 0 \<and> constant_size c \<noteq> 0)"
    "\<not> (size_len c = 0 \<and> constant_size c = 0 \<and> constant_duration c = 0)"
    "\<not> (index_len c > 0 \<and> index_delta_len c = 0)"
    using assms(1) by (auto simp: mode_ok_def)
  have "(if random_access_indication c then 1 else 0 :: u8) > 0 \<longleftrightarrow> random_access_indication c" by simp
  then have "from_caps G s' = Inr c"
    unfolding from_caps_def Let_def fields try_get_simps by (simp add: ok)
  with s' show ?thesis by blast
qed

end

text \<open>A reference instance: a structure is the list of its fields.\<close>

definition ref_caps :: "(string \<times> field_value) list caps_ops" where
  "ref_caps = \<lparr>
     get_u8 = (\<lambda>s f. case map_of s f of None \<Rightarrow> Inl FieldNotFound | Some (FieldU8 b) \<Rightarrow> Inr b | _ \<Rightarrow> Inl ValueGetError),
     get_u32 = (\<lambda>s f. case map_of s f of None \<Rightarrow> Inl FieldNotFound | _ \<Rightarrow> Inl ValueGetError),
     get_i32 = (\<lambda>s f. case map_of s f of None \<Rightarrow> Inl FieldNotFound | Some (FieldI32 i) \<Rightarrow> Inr i | _ \<Rightarrow> Inl ValueGetError),
     get_str = (\<lambda>s f. case map_of s f of None \<Rightarrow> Inl FieldNotFound | _ \<Rightarrow> Inl ValueGetError),
     set_field = (\<lambda>f v s. (f, v) # s)\<rparr>"

interpretation refcaps: caps_spec ref_caps
  by unfold_locales (simp_all add: ref_caps_def)

section \<open>Headers\<close>

definition delta_fits :: "u8 \<Rightarrow> int \<Rightarrow> bool" where
  "delta_fits len d \<longleftrightarrow> 0 < unat len \<and> unat len \<le> 32 \<and> - (2 ^ (unat len - 1)) \<le> d \<and> d < 2 ^ (unat len - 1)"

definition index_fits :: "mode_config \<Rightarrow> wrapping_u32 option \<Rightarrow> au_header \<Rightarrow> bool" where
  "index_fits c prev h \<longleftrightarrow>
     (case prev of
        None \<Rightarrow> unat (index_len c) \<le> 32 \<and> unat (w_val (hdr_index h)) < 2 ^ unat (index_len c)
          \<and> \<not> hdr_is_interleaved h
      | Some p \<Rightarrow> unat (index_delta_len c) \<le> 32 \<and> w_val p < w_val (hdr_index h)
          \<and> unat (w_val (hdr_index h) - w_val p - 1) < 2 ^ unat (index_delta_len c)
          \<and> (hdr_is_interleaved h \<longleftrightarrow> w_val (hdr_index h) - w_val p - 1 \<noteq> 0))"

definition header_fits :: "mode_config \<Rightarrow> wrapping_u32 option \<Rightarrow> au_header \<Rightarrow> bool" where
  "header_fits c prev h \<longleftrightarrow> stream_state_indication c = 0
     \<and> (if size_len c > 0 then unat (size_len c) \<le> 32
          \<and> (\<exists>s. hdr_size h = Some s \<and> s \<noteq> 0 \<and> unat s < 2 ^ unat (size_len c)) else hdr_size h = None)
     \<and> index_fits c prev h
     \<and> (\<forall>d. hdr_cts_delta h = Some d \<longrightarrow> prev \<noteq> None \<and> delta_fits (cts_delta_len c) d)
     \<and> (\<forall>d. hdr_dts_delta h = Some d \<longrightarrow> delta_fits (dts_delta_len c) d)
     \<and> (hdr_maybe_random_access h \<noteq> None \<longleftrightarrow> random_access_indication c)"

definition index_bits :: "mode_config \<Rightarrow> wrapping_u32 option \<Rightarrow> wrapping_u32 \<Rightarrow> bool list" where
  "index_bits c prev i = (case prev of None \<Rightarrow> bits_of (unat (index_len c)) (unat (w_val i))
     | Some p \<Rightarrow> bits_of (unat (index_delta_len c)) (unat (w_val i - w_val p - 1)))"

definition delta_bits :: "u8 \<Rightarrow> int option \<Rightarrow> bool list" where
  "delta_bits len delta = (if len > 0
     then (case delta of None \<Rightarrow> [False] | Some d \<Rightarrow> True # signed_bits (unat len) d) else [])"

definition header_bits :: "mode_config \<Rightarrow> wrapping_u32 option \<Rightarrow> au_header \<Rightarrow> bool list" where
  "header_bits c prev h =
     (if size_len c > 0 then bits_of (unat (size_len c)) (unat (the (hdr_size h))) else [])
     @ index_bits c prev (hdr_index h)
     @ delta_bits (cts_delta_len c) (hdr_cts_delta h)
     @ delta_bits (dts_delta_len c) (hdr_dts_delta h)
     @ (if random_access_indication c then [hdr_maybe_random_access h = Some True] else [])"

lemma au_context_simps [simp]:
  "au_context c (Inr a, r) = (Inr a, r)" "au_context c (Inl e, r) = (Inl (AuContext c (AuIo e)), r)"
  by (simp_all add: au_context_def)

lemma reads_au_context: "reads rest m bs a \<Longrightarrow> reads rest (\<lambda>r. au_context c (m r)) bs a"
  unfolding reads_def by (metis au_context_simps(1))

lemma writes_au_context: "writes written m bs \<Longrightarrow> writes written (\<lambda>w. au_context c (m w)) bs"
  unfolding writes_def by (metis au_context_simps(1))

lemma index_delta:
  assumes "w_val p < w_val i"
  shows "Option.bind (checked_sub (w_val i) (w_val p)) (\<lambda>delta. checked_sub delta 1) = Some (w_val i - w_val p - 1)"
    "w_add_u32 (w_add_u32 p 1) (w_val i - w_val p - 1) = i"
proof -
  have "w_val i - w_val p \<noteq> 0" using assms by auto
  then have "1 \<le> w_val i - w_val p" by (simp add: word_le_nat_alt unat_gt_0 Suc_le_eq)
  with assms show "Option.bind (checked_sub (w_val i) (w_val p)) (\<lambda>delta. checked_sub delta 1) = Some (w_val i - w_val p - 1)"
    by (simp add: checked_sub_def)
  show "w_add_u32 (w_add_u32 p 1) (w_val i - w_val p - 1) = i"
    by (simp add: w_add_u32_def)
qed

context bit_writer_spec
begin

lemma writes_index:
  assumes "index_fits c prev h"
  shows "writes written (wr_index W c prev (hdr_index h)) (index_bits c prev (hdr_index h))"
proof (cases prev)
  case None
  have "wr_index W c prev (hdr_index h)
      = (\<lambda>w. au_context ''AU-Index'' (wr_unsigned W (unat (index_len c)) (unat (w_val (hdr_index h))) w))"
    by (simp add: fun_eq_iff wr_index_def None)
  moreover have "writes written \<dots> (index_bits c prev (hdr_index h))"
    using assms None by (simp add: index_bits_def index_fits_def writes_au_context writes_unsigned)
  ultimately show ?thesis by simp
next
  case (Some p)
  have "wr_index W c prev (hdr_index h) = (\<lambda>w. au_context ''AU-Index-delta''
      (wr_unsigned W (unat (index_delta_len c)) (unat (w_val (hdr_index h) - w_val p - 1)) w))"
    using assms Some index_delta(1) [of p "hdr_index h"]
    by (simp add: fun_eq_iff wr_index_def index_fits_def del: bind_eq_Some_conv)
  moreover have "writes written \<dots> (index_bits c prev (hdr_index h))"
    using assms Some by (simp add: index_bits_def index_fits_def writes_au_context writes_unsigned)
  ultimately show ?thesis by simp
qed

lemma writes_delta:
  assumes "\<forall>d. delta = Some d \<longrightarrow> delta_fits len d"
  shows "writes written (\<lambda>w. if len > 0 then wr_delta W f n len delta w else (Inr (), w)) (delta_bits len delta)"
proof (cases "len > 0")
  case True
  show ?thesis
  proof (cases delta)
    case None
    with True show ?thesis
      by (simp add: delta_bits_def wr_delta_def writes_au_context writes_bit)
  next
    case (Some d)
    have "writes written (\<lambda>w. io_try (au_context f (wr_bit W True w)) (\<lambda>_ w.
          au_context n (wr_signed W (unat len) d w))) ([True] @ signed_bits (unat len) d)"
      using assms Some by (intro writes_try writes_au_context writes_bit writes_signed) (auto simp: delta_fits_def)
    with True Some show ?thesis by (simp add: delta_bits_def wr_delta_def)
  qed
next
  case False
  then show ?thesis by (simp add: delta_bits_def writes_return)
qed

lemma writes_header:
  assumes "header_fits c prev h"
  shows "writes written (AuHeader_to_writer W c prev h) (header_bits c prev h)"
proof -
  have size: "writes written (\<lambda>w. if size_len c > 0 then
         (case hdr_size h of
            None \<Rightarrow> (Inl (AuErr (UndefinedMandatorySize (hdr_index h))), w)
          | Some sz \<Rightarrow>
              if sz = 0 then (Inl (AuErr (ZeroSizedAu (hdr_index h))), w)
              else au_context ''AU-size'' (wr_unsigned W (unat (size_len c)) (unat sz) w))
       else (Inr (), w)) (if size_len c > 0 then bits_of (unat (size_len c)) (unat (the (hdr_size h))) else [])"
    using assms by (auto simp: header_fits_def intro!: writes_au_context writes_unsigned writes_return)
  have cts: "writes written (\<lambda>w. if cts_delta_len c > 0 then
         if prev = None then au_context ''CTS-flag'' (wr_bit W False w)
         else wr_delta W ''CTS-flag'' ''CTS-delta'' (cts_delta_len c) (hdr_cts_delta h) w
       else (Inr (), w)) (delta_bits (cts_delta_len c) (hdr_cts_delta h))"
  proof (cases "prev = None")
    case True
    with assms have "hdr_cts_delta h = None" by (cases "hdr_cts_delta h") (auto simp: header_fits_def)
    with True show ?thesis by (simp add: delta_bits_def writes_au_context writes_bit writes_return)
  next
    case False
    have "\<forall>d. hdr_cts_delta h = Some d \<longrightarrow> delta_fits (cts_delta_len c) d"
      using assms by (simp add: header_fits_def)
    then show ?thesis unfolding if_not_P [OF False] by (rule writes_delta)
  qed
  have dts: "writes written (\<lambda>w. if dts_delta_len c > 0
       then wr_delta W ''DTS-flag'' ''DTS-delta'' (dts_delta_len c) (hdr_dts_delta h) w
       else (Inr (), w)) (delta_bits (dts_delta_len c) (hdr_dts_delta h))"
    using assms by (intro writes_delta) (simp add: header_fits_def)
  have idx: "writes written (wr_index W c prev (hdr_index h)) (index_bits c prev (hdr_index h))"
    using assms by (intro writes_index) (simp add: header_fits_def)
  show ?thesis
    unfolding AuHeader_to_writer_def [abs_def] header_bits_def
    by (rule writes_try [OF size], rule writes_try [OF idx], rule writes_try [OF cts], rule writes_try [OF dts])
       (intro writes_if writes_au_context writes_bit writes_return)
qed

end

context bit_reader_spec
begin

lemma reads_index:
  assumes "index_fits c prev h"
  shows "reads bits (rd_index R c prev) (index_bits c prev (hdr_index h)) (hdr_index h, hdr_is_interleaved h)"
proof (cases prev)
  case None
  have "rd_index R c prev = (\<lambda>r. io_try (au_context ''AU-Index'' (rd_unsigned R 32 (unat (index_len c)) r)) (\<lambda>v r.
      (Inr (WrappingU32 (word_of_nat v), False), r)))"
    by (simp add: fun_eq_iff rd_index_def None)
  moreover have "reads bits \<dots> (bits_of (unat (index_len c)) (unat (w_val (hdr_index h))) @ [])
      (WrappingU32 (word_of_nat (unat (w_val (hdr_index h)))), False)"
    using assms None
    by (intro reads_try [OF reads_au_context [OF reads_unsigned]] reads_return) (simp_all add: index_fits_def)
  ultimately show ?thesis using assms None by (simp add: index_bits_def index_fits_def)
next
  case (Some p)
  let ?d = "w_val (hdr_index h) - w_val p - 1"
  have "rd_index R c prev = (\<lambda>r. io_try (au_context ''AU-Index-delta'' (rd_unsigned R 32 (unat (index_delta_len c)) r)) (\<lambda>delta r.
      (Inr (w_add_u32 (w_add_u32 p 1) (word_of_nat delta), delta > 0), r)))"
    by (simp add: fun_eq_iff rd_index_def Some)
  moreover have "reads bits \<dots> (bits_of (unat (index_delta_len c)) (unat ?d) @ [])
      (w_add_u32 (w_add_u32 p 1) (word_of_nat (unat ?d)), unat ?d > 0)"
    using assms Some
    by (intro reads_try [OF reads_au_context [OF reads_unsigned]] reads_return) (simp_all add: index_fits_def)
  moreover have "w_add_u32 (w_add_u32 p 1) (word_of_nat (unat ?d)) = hdr_index h"
    using assms Some index_delta(2) [of p "hdr_index h"] by (simp add: index_fits_def del: w_add_u32_def)
  moreover have "unat ?d > 0 \<longleftrightarrow> hdr_is_interleaved h"
    using assms Some by (simp add: index_fits_def unat_gt_0)
  ultimately show ?thesis using Some by (simp add: index_bits_def)
qed

lemma reads_delta:
  assumes "\<forall>d. delta = Some d \<longrightarrow> delta_fits len d \<and> (\<forall>r. m r = map_ok Some (au_context n (rd_signed R 32 (unat len) r)))"
  shows "reads bits (\<lambda>r. io_try (rd_flag R f len r) (\<lambda>flag r. if flag then m r else (Inr None, r)))
    (delta_bits len delta) delta"
proof -
  have flag: "reads bits (rd_flag R f len) (if len > 0 then [delta \<noteq> None] else []) (len > 0 \<and> delta \<noteq> None)"
  proof -
    have "rd_flag R f len = (if len > 0 then (\<lambda>r. au_context f (rd_bit R r)) else (\<lambda>r. (Inr False, r)))"
      by (simp add: fun_eq_iff rd_flag_def)
    then show ?thesis by (simp add: reads_au_context reads_bit reads_return)
  qed
  have len: "len > 0" if "delta \<noteq> None"
    using assms that by (auto simp: delta_fits_def unat_gt_0 word_gt_0)
  have "reads bits (\<lambda>r. io_try (rd_flag R f len r) (\<lambda>flag r. if flag then m r else (Inr None, r)))
    ((if len > 0 then [delta \<noteq> None] else []) @ (case delta of None \<Rightarrow> [] | Some d \<Rightarrow> signed_bits (unat len) d)) delta"
  proof (rule reads_try [OF flag], cases delta)
    case None
    then show "reads bits (\<lambda>r. if len > 0 \<and> delta \<noteq> None then m r else (Inr None, r))
      (case delta of None \<Rightarrow> [] | Some d \<Rightarrow> signed_bits (unat len) d) delta" by (simp add: reads_return)
  next
    case (Some d)
    then have "m = (\<lambda>r. map_ok Some (au_context n (rd_signed R 32 (unat len) r)))"
      using assms by (simp add: fun_eq_iff)
    moreover have "reads bits \<dots> (signed_bits (unat len) d) (Some d)"
      using assms Some by (intro reads_map_ok reads_au_context reads_signed) (auto simp: delta_fits_def)
    ultimately show "reads bits (\<lambda>r. if len > 0 \<and> delta \<noteq> None then m r else (Inr None, r))
      (case delta of None \<Rightarrow> [] | Some d \<Rightarrow> signed_bits (unat len) d) delta" using Some len by simp
  qed
  moreover have "delta_bits len delta
      = (if len > 0 then [delta \<noteq> None] else []) @ (case delta of None \<Rightarrow> [] | Some d \<Rightarrow> signed_bits (unat len) d)"
    using len by (cases delta) (auto simp: delta_bits_def)
  ultimately show ?thesis by simp
qed

lemma reads_header:
  assumes "header_fits c prev h"
  shows "reads bits (AuHeader_from_reader R c prev) (header_bits c prev h) h"
proof -
  have size: "reads bits (\<lambda>r. if size_len c > 0
       then map_ok (\<lambda>v. Some (word_of_nat v)) (au_context ''AU-size'' (rd_unsigned R 32 (unat (size_len c)) r))
       else (Inr None, r))
      (if size_len c > 0 then bits_of (unat (size_len c)) (unat (the (hdr_size h))) else []) (hdr_size h)"
  proof (cases "size_len c > 0")
    case True
    with assms obtain sz where sz: "hdr_size h = Some sz" "unat sz < 2 ^ unat (size_len c)" "unat (size_len c) \<le> 32"
      by (auto simp: header_fits_def)
    from reads_map_ok [OF reads_au_context [OF reads_unsigned [OF sz(3,2)]], of "\<lambda>v. Some (word_of_nat v :: u32)"]
    show ?thesis using True sz(1) by simp
  next
    case False
    with assms show ?thesis by (simp add: header_fits_def reads_return)
  qed
  have nz: "hdr_size h \<noteq> Some 0" using assms by (auto simp: header_fits_def split: if_splits)
  have idx: "reads bits (rd_index R c prev) (index_bits c prev (hdr_index h)) (hdr_index h, hdr_is_interleaved h)"
    using assms by (intro reads_index) (simp add: header_fits_def)
  have cts: "reads bits (\<lambda>r. io_try (rd_flag R ''CTS-flag'' (cts_delta_len c) r) (\<lambda>flag r.
       if flag then
         if prev = None then (Inl (AuErr (CtsFlagSetInFirstAuHeader (hdr_index h))), r)
         else map_ok Some (au_context ''CTS-delta'' (rd_signed R 32 (unat (cts_delta_len c)) r))
       else (Inr None, r))) (delta_bits (cts_delta_len c) (hdr_cts_delta h)) (hdr_cts_delta h)"
    using assms by (intro reads_delta [where n = "''CTS-delta''"]) (auto simp: header_fits_def)
  have dts: "reads bits (\<lambda>r. io_try (rd_flag R ''DTS-flag'' (dts_delta_len c) r) (\<lambda>flag r.
       if flag then map_ok Some (au_context ''DTS-delta'' (rd_signed R 32 (unat (dts_delta_len c)) r))
       else (Inr None, r))) (delta_bits (dts_delta_len c) (hdr_dts_delta h)) (hdr_dts_delta h)"
    using assms by (intro reads_delta [where n = "''DTS-delta''"]) (auto simp: header_fits_def)
  have rap: "reads bits (\<lambda>r. if random_access_indication c then map_ok Some (au_context ''RAP-flag'' (rd_bit R r))
       else (Inr None, r)) (if random_access_indication c then [hdr_maybe_random_access h = Some True] else [])
       (hdr_maybe_random_access h)"
  proof (cases "hdr_maybe_random_access h")
    case None
    with assms show ?thesis by (auto simp: header_fits_def reads_return)
  next
    case (Some b)
    with assms have "random_access_indication c" by (auto simp: header_fits_def)
    with Some reads_map_ok [OF reads_au_context [OF reads_bit [of b]], of Some] show ?thesis by simp
  qed
  have st: "reads bits (\<lambda>r. if stream_state_indication c > 0
       then au_context ''Stream-state'' (rd_skip R (unat (stream_state_indication c)) r)
       else (Inr (), r)) [] ()"
    using assms by (simp add: header_fits_def reads_return)
  have h: "\<lparr>hdr_size = hdr_size h, hdr_index = hdr_index h, hdr_cts_delta = hdr_cts_delta h,
      hdr_dts_delta = hdr_dts_delta h, hdr_maybe_random_access = hdr_maybe_random_access h,
      hdr_is_interleaved = hdr_is_interleaved h\<rparr> = h" by simp
  have "reads bits (AuHeader_from_reader R c prev) (header_bits c prev h @ [] @ []) h"
    unfolding AuHeader_from_reader_def [abs_def] header_bits_def append.assoc
    apply (rule reads_try [OF size], rule reads_try [OF idx])
    apply (simp only: prod.case nz if_False)
    apply (rule reads_try [OF cts], rule reads_try [OF dts], rule reads_try [OF rap], rule reads_try [OF st])
    apply (simp only: h reads_return)
    done
  then show ?thesis by simp
qed

end

section \<open>Lengths\<close>

lemma length_delta_bits:
  "length (delta_bits len delta) = (if len > 0 then (if delta = None then 1 else 1 + unat len) else 0)"
  by (auto simp: delta_bits_def signed_bits_def split: option.splits)

lemma length_header_bits:
  "length (header_bits c prev h) \<le> max_header_bit_len c
    + (if cts_delta_len c > 0 then 1 else 0) + (if dts_delta_len c > 0 then 1 else 0)"
proof -
  have "length (index_bits c prev (hdr_index h)) \<le> unat (max (index_len c) (index_delta_len c))"
    by (auto simp: index_bits_def word_le_nat_alt [symmetric] split: option.splits)
  then show ?thesis
    by (auto simp: header_bits_def max_header_bit_len_def length_delta_bits)
qed

lemma length_header_bits_full:
  assumes "prev \<noteq> None" and "index_len c \<le> index_delta_len c" and "stream_state_indication c = 0"
    and "cts_delta_len c > 0" "hdr_cts_delta h \<noteq> None" and "dts_delta_len c > 0" "hdr_dts_delta h \<noteq> None"
  shows "length (header_bits c prev h) = max_header_bit_len c + 2"
  using assms
  by (auto simp: header_bits_def max_header_bit_len_def length_delta_bits index_bits_def max_def word_gt_0
      split: if_splits)

section \<open>Properties\<close>

definition example_mode :: mode_config where
  "example_mode = \<lparr>size_len = 13, index_len = 3, index_delta_len = 3, cts_delta_len = 12, dts_delta_len = 9,
     random_access_indication = True, stream_state_indication = 0, auxiliary_data_size_len = 0,
     constant_size = 0, constant_duration = 0, max_displacement = 0\<rparr>"

definition example_header :: au_header where
  "example_header = \<lparr>hdr_size = Some 1000, hdr_index = WrappingU32 7, hdr_cts_delta = Some (- 90),
     hdr_dts_delta = Some 45, hdr_maybe_random_access = Some True, hdr_is_interleaved = True\<rparr>"

lemma example_header_fits: "header_fits example_mode (Some (WrappingU32 4)) example_header"
  by (simp add: header_fits_def index_fits_def delta_fits_def example_mode_def example_header_def)

text \<open>C22: A configuration that \<^verbatim>\<open>add_to_caps\<close> accepts is read back from the caps as it was, whatever
  other fields they have, when its constant size, constant duration and maximum displacement are
  below 2^31: \<^verbatim>\<open>add_to_caps\<close> writes these \<^verbatim>\<open>u32\<close> values \<^verbatim>\<open>as i32\<close>, which turns larger ones negative. The
  accepted configurations have one of the size lengths but not two, index deltas where they have
  indices, and no stream states.\<close>

theorem mode_caps_round_trip:
  assumes "caps_spec G" and "mode_ok c" and "stream_state_indication c = 0"
    and "unat (constant_size c) < 2 ^ 31" "unat (constant_duration c) < 2 ^ 31" "unat (max_displacement c) < 2 ^ 31"
  shows "\<exists>s'. add_to_caps G c s = Some (Inr s') \<and> from_caps G s' = Inr c"
  using caps_spec.from_caps_add_to_caps [OF assms] .

theorem mode_caps_round_trip_witness:
  "\<exists>s'. add_to_caps ref_caps example_mode [(''media'', FieldU8 0)] = Some (Inr s')
    \<and> from_caps ref_caps s' = Inr example_mode"
  by (rule mode_caps_round_trip [OF refcaps.caps_spec_axioms])
    (simp_all add: mode_ok_def example_mode_def)

text \<open>C21: An access unit header whose values fit the configured lengths is read back as it was written, for
  the first header of a packet and for later ones, whose index is coded as a difference: the writer
  succeeds, and the parser answers the header and consumes exactly the bits written.\<close>

theorem au_header_round_trip:
  assumes "bit_reader_spec R bits" and "bit_writer_spec W written" and "header_fits c prev h"
  shows "\<exists>w' bs. AuHeader_to_writer W c prev h w = (Inr (), w') \<and> written w' = written w @ bs
    \<and> (\<forall>r tail. bits r = bs @ tail \<longrightarrow> (\<exists>r'. AuHeader_from_reader R c prev r = (Inr h, r') \<and> bits r' = tail))"
  using bit_writer_spec.writes_header [OF assms(2,3)] bit_reader_spec.reads_header [OF assms(1,3)]
  unfolding writes_def reads_def by blast

theorem au_header_round_trip_witness:
  "\<exists>bs. AuHeader_to_writer ref_bit_writer example_mode (Some (WrappingU32 4)) example_header [] = (Inr (), bs)
    \<and> (\<exists>r'. AuHeader_from_reader ref_bit_reader example_mode (Some (WrappingU32 4)) (0, bs @ [True]) = (Inr example_header, r'))"
proof -
  obtain bs where "AuHeader_to_writer ref_bit_writer example_mode (Some (WrappingU32 4)) example_header [] = (Inr (), bs)"
    "\<forall>r tail. snd r = bs @ tail \<longrightarrow> (\<exists>r'. AuHeader_from_reader ref_bit_reader example_mode (Some (WrappingU32 4)) r
        = (Inr example_header, r') \<and> snd r' = tail)"
    using au_header_round_trip [OF refbitr.bit_reader_spec_axioms refbitw.bit_writer_spec_axioms
        example_header_fits, of "[]"] by auto
  then show ?thesis by (metis snd_conv)
qed

text \<open>\<^verbatim>\<open>max_header_bit_len\<close> is too small by the flags of the time stamp deltas: every header is at most two
  bits longer, and a later header with both deltas is two bits longer than the maximum.\<close>

theorem max_header_bit_len_exceeded:
  assumes "bit_writer_spec W written" and "header_fits c (Some p) h" and "index_len c \<le> index_delta_len c"
    and "hdr_cts_delta h = Some cts" and "hdr_dts_delta h = Some dts"
  shows "\<exists>w'. AuHeader_to_writer W c (Some p) h w = (Inr (), w')
    \<and> length (written w') = length (written w) + max_header_bit_len c + 2"
proof -
  have "delta_fits (cts_delta_len c) cts" "delta_fits (dts_delta_len c) dts" "stream_state_indication c = 0"
    using assms(2,4,5) by (simp_all add: header_fits_def)
  then have "length (header_bits c (Some p) h) = max_header_bit_len c + 2"
    using assms(3-5) by (intro length_header_bits_full) (auto simp: delta_fits_def word_gt_0)
  with bit_writer_spec.writes_header [OF assms(1,2)] show ?thesis by (fastforce simp: writes_def)
qed

theorem max_header_bit_len_exceeded_witness:
  "\<exists>w'. AuHeader_to_writer ref_bit_writer example_mode (Some (WrappingU32 4)) example_header [] = (Inr (), w')
    \<and> max_header_bit_len example_mode = 38 \<and> length w' = 40"
  using max_header_bit_len_exceeded [OF refbitw.bit_writer_spec_axioms example_header_fits, of "- 90" 45 "[]"]
  by (auto simp: example_mode_def example_header_def max_header_bit_len_def)

end
