(* ===== verification/Mp4g_Depay_Facts.thy ===== *)
theory Mp4g_Depay_Facts
  imports Mp4g_Depay Mp4g_Deint_Facts Mp4g_Header_Facts
begin

text \<open>
  What the MPEG-4 generic depayloader does with packets: it finds the access units of a packet with
  headers, splits packets of access units of constant size, and puts fragments together; and where
  it does not return or panics.
\<close>

section \<open>Positions\<close>

text \<open>A parser that succeeds moves the position by the bits it consumes.\<close>

definition bits_total :: "'r bit_reader \<Rightarrow> ('r \<Rightarrow> bool list) \<Rightarrow> 'r \<Rightarrow> nat" where
  "bits_total R bits r = rd_position R r + length (bits r)"

definition conserves :: "('r \<Rightarrow> nat) \<Rightarrow> ('r \<Rightarrow> ('e, 'a, 'r) io) \<Rightarrow> bool" where
  "conserves sz m \<longleftrightarrow> (\<forall>r a r'. m r = (Inr a, r') \<longrightarrow> sz r' = sz r)"

lemma map_ok_InrE:
  assumes "map_ok g m = (Inr a, r')"
  obtains b where "m = (Inr b, r')"
  using assms by (cases m; cases "fst m") auto

lemma au_context_InrE:
  assumes "au_context c m = (Inr a, r')"
  obtains b where "m = (Inr b, r')"
  using assms by (cases m; cases "fst m") auto

lemma conservesD: "conserves sz m \<Longrightarrow> m r = (Inr a, r') \<Longrightarrow> sz r' = sz r"
  by (simp add: conserves_def)

lemma conserves_try:
  "conserves sz m \<Longrightarrow> (\<And>a. conserves sz (f a)) \<Longrightarrow> conserves sz (\<lambda>r. io_try (m r) f)"
  unfolding conserves_def [of sz "\<lambda>r. io_try (m r) f"]
proof (intro allI impI)
  fix r b r'
  assume m: "conserves sz m" and f: "\<And>a. conserves sz (f a)" and "io_try (m r) f = (Inr b, r')"
  then obtain a r1 where "m r = (Inr a, r1)" "f a r1 = (Inr b, r')" by (elim io_try_InrE)
  with conservesD [OF m] conservesD [OF f] show "sz r' = sz r" by metis
qed

lemma conserves_map_ok: "conserves sz m \<Longrightarrow> conserves sz (\<lambda>r. map_ok g (m r))"
  unfolding conserves_def [of sz "\<lambda>r. map_ok g (m r)"] by (auto elim!: map_ok_InrE dest!: conservesD)

lemma conserves_au_context: "conserves sz m \<Longrightarrow> conserves sz (\<lambda>r. au_context c (m r))"
  unfolding conserves_def [of sz "\<lambda>r. au_context c (m r)"] by (auto elim!: au_context_InrE dest!: conservesD)

lemma conserves_return: "conserves sz (\<lambda>r. (x, r))"
  by (auto simp: conserves_def)

lemma conserves_if:
  "(c \<Longrightarrow> conserves sz m) \<Longrightarrow> (\<not> c \<Longrightarrow> conserves sz m') \<Longrightarrow> conserves sz (\<lambda>r. if c then m r else m' r)"
  by (cases c) simp_all

lemmas conserves_intros = conserves_try conserves_map_ok conserves_au_context conserves_return conserves_if

context bit_reader_spec
begin

lemma conserves_bit: "conserves (bits_total R bits) (rd_bit R)"
  unfolding conserves_def
proof (intro allI impI)
  fix r a r'
  assume a: "rd_bit R r = (Inr a, r')"
  show "bits_total R bits r' = bits_total R bits r"
  proof (cases "bits r")
    case Nil
    with rd_bit_eof a show ?thesis by (metis Inl_Inr_False prod.inject)
  next
    case (Cons b bs)
    from rd_bit_ok [OF this] a Cons show ?thesis by (auto simp: bits_total_def)
  qed
qed

lemma conserves_unsigned: "conserves (bits_total R bits) (rd_unsigned R w n)"
  unfolding conserves_def
proof (intro allI impI)
  fix r a r'
  assume a: "rd_unsigned R w n r = (Inr a, r')"
  have n: "n \<le> w \<and> n \<le> length (bits r)"
  proof (rule ccontr)
    assume "\<not> (n \<le> w \<and> n \<le> length (bits r))"
    then have "w < n \<or> length (bits r) < n" by linarith
    from rd_unsigned_err [OF this] a show False by auto
  qed
  from a rd_unsigned_ok [of n w r "take n (bits r)" "drop n (bits r)"] n
  show "bits_total R bits r' = bits_total R bits r" by (auto simp: bits_total_def)
qed

lemma conserves_signed: "0 < n \<Longrightarrow> conserves (bits_total R bits) (rd_signed R w n)"
  unfolding conserves_def
proof (intro allI impI)
  fix r a r'
  assume n0: "0 < n" and a: "rd_signed R w n r = (Inr a, r')"
  have n: "n \<le> w \<and> n \<le> length (bits r)"
  proof (rule ccontr)
    assume "\<not> (n \<le> w \<and> n \<le> length (bits r))"
    then have "w < n \<or> length (bits r) < n" by linarith
    from rd_signed_err [OF this] a show False by auto
  qed
  from a rd_signed_ok [OF n0, of w r "take n (bits r)" "drop n (bits r)"] n
  show "bits_total R bits r' = bits_total R bits r" by (auto simp: bits_total_def)
qed

lemma conserves_index: "conserves (bits_total R bits) (rd_index R c prev)"
  unfolding rd_index_def [abs_def]
  by (cases prev) (simp_all, (intro conserves_intros conserves_unsigned)+)

lemma conserves_flag: "conserves (bits_total R bits) (rd_flag R f len)"
  unfolding rd_flag_def [abs_def] by (intro conserves_intros conserves_bit)

lemma conserves_delta:
  assumes "\<And>r. len > 0 \<Longrightarrow> conserves (bits_total R bits) m"
  shows "conserves (bits_total R bits) (\<lambda>r. io_try (rd_flag R f len r) (\<lambda>flag r. if flag then m r else (Inr None, r)))"
proof (cases "len > 0")
  case True
  then show ?thesis by (intro conserves_intros conserves_flag assms)
next
  case False
  then show ?thesis by (simp add: rd_flag_def conserves_return)
qed

lemma conserves_header:
  assumes "stream_state_indication c = 0"
  shows "conserves (bits_total R bits) (AuHeader_from_reader R c prev)"
proof -
  have size: "conserves (bits_total R bits) (\<lambda>r. if size_len c > 0
       then map_ok (\<lambda>v. Some (word_of_nat v :: u32)) (au_context ''AU-size'' (rd_unsigned R 32 (unat (size_len c)) r))
       else (Inr None, r))"
    by (intro conserves_intros conserves_unsigned)
  have cts: "conserves (bits_total R bits) (\<lambda>r. io_try (rd_flag R ''CTS-flag'' (cts_delta_len c) r) (\<lambda>flag r.
       if flag then
         if prev = None then (Inl (AuErr (CtsFlagSetInFirstAuHeader i)), r)
         else map_ok Some (au_context ''CTS-delta'' (rd_signed R 32 (unat (cts_delta_len c)) r))
       else (Inr None, r)))" for i
    by (intro conserves_delta conserves_intros conserves_signed) (simp add: unat_gt_0 word_gt_0)
  have dts: "conserves (bits_total R bits) (\<lambda>r. io_try (rd_flag R ''DTS-flag'' (dts_delta_len c) r) (\<lambda>flag r.
       if flag then map_ok Some (au_context ''DTS-delta'' (rd_signed R 32 (unat (dts_delta_len c)) r))
       else (Inr None, r)))"
    by (intro conserves_delta conserves_intros conserves_signed) (simp add: unat_gt_0 word_gt_0)
  have rap: "conserves (bits_total R bits) (\<lambda>r. if random_access_indication c
       then map_ok Some (au_context ''RAP-flag'' (rd_bit R r)) else (Inr None, r))"
    by (intro conserves_intros conserves_bit)
  have st: "conserves (bits_total R bits) (\<lambda>r. if stream_state_indication c > 0
       then au_context ''Stream-state'' (rd_skip R (unat (stream_state_indication c)) r) else (Inr (), r))"
    using assms by (simp add: conserves_return)
  show ?thesis
    unfolding AuHeader_from_reader_def [abs_def]
    by (rule conserves_try [OF size], rule conserves_try [OF conserves_index], unfold case_prod_beta,
      rule conserves_if, rule conserves_return, rule conserves_try [OF cts], rule conserves_try [OF dts],
      rule conserves_try [OF rap], rule conserves_try [OF st], rule conserves_return)
qed

end

section \<open>Packets with headers\<close>

text \<open>What the readers over slices promise: they start at the front of the slice.\<close>

definition octet_bits :: "u8 list \<Rightarrow> bool list" where
  "octet_bits bs = concat (map (\<lambda>b. bits_of 8 (unat b)) bs)"

lemma length_octet_bits: "length (octet_bits bs) = 8 * length bs"
  by (induction bs) (simp_all add: octet_bits_def)

locale slice_reader_spec =
  byte_reader_spec "byte_ops E" rest + bit_reader_spec "bit_ops E" bits
  for E :: "('b, 'r) slice_readers" and rest bits +
  assumes byte_open_rest: "rest (byte_open E payload) = payload"
    and byte_skip_ok: "n \<le> length (rest r) \<Longrightarrow> \<exists>r'. byte_skip E n r = (Inr (), r') \<and> rest r' = drop n (rest r)"
    and bit_open_bits: "bits (bit_open E bs) = octet_bits bs"
    and bit_open_position: "rd_position (bit_ops E) (bit_open E bs) = 0"

definition ref_slices :: "(u8 list, nat \<times> bool list) slice_readers" where
  "ref_slices = \<lparr>byte_ops = ref_byte_reader, byte_open = (\<lambda>p. p),
     byte_skip = (\<lambda>n r. if n \<le> length r then (Inr (), drop n r) else (Inl UnexpectedEof, r)),
     bit_ops = ref_bit_reader, bit_open = (\<lambda>bs. (0, octet_bits bs))\<rparr>"

interpretation refslices: slice_reader_spec ref_slices "\<lambda>r. r" snd
  using refbr.byte_reader_spec_axioms refbitr.bit_reader_spec_axioms
  by (intro slice_reader_spec.intro slice_reader_spec_axioms.intro)
    (simp_all add: ref_slices_def, simp add: ref_bit_reader_def)

text \<open>
  The access units of a packet, with their headers: sizes are coded, the first index is zero
  as the stream has constant duration \<open>d\<close>, and the offsets of the others do not overflow.
\<close>

fun packet_ok :: "mode_config \<Rightarrow> u32 \<Rightarrow> wrapping_u32 option \<Rightarrow> (au_header \<times> u8 list) list \<Rightarrow> bool" where
  "packet_ok c d prev [] \<longleftrightarrow> True"
| "packet_ok c d prev ((h, data) # aus) \<longleftrightarrow> header_fits c prev h \<and> map_option unat (hdr_size h) = Some (length data)
     \<and> (prev = None \<longrightarrow> w_is_zero (hdr_index h))
     \<and> (hdr_cts_delta h = None \<longrightarrow> unat (w_val (hdr_index h)) * unat d < 2 ^ 32)
     \<and> packet_ok c d (Some (hdr_index h)) aus"

fun packet_bits :: "mode_config \<Rightarrow> wrapping_u32 option \<Rightarrow> (au_header \<times> u8 list) list \<Rightarrow> bool list" where
  "packet_bits c prev [] = []"
| "packet_bits c prev ((h, data) # aus) = header_bits c prev h @ packet_bits c (Some (hdr_index h)) aus"

definition parsed_au :: "nat \<Rightarrow> u32 \<Rightarrow> au_header \<times> u8 list \<Rightarrow> access_unit" where
  "parsed_au ext_seqnum d = (\<lambda>(h, data).
     \<lparr>au_ext_seqnum = ext_seqnum, au_is_fragment = False, au_size = hdr_size h, au_index = hdr_index h,
      au_cts_delta = (case hdr_cts_delta h of Some delta \<Rightarrow> Some delta | None \<Rightarrow> Some (sint (w_val (hdr_index h) * d))),
      au_dts_delta = hdr_dts_delta h, au_duration = (if hdr_cts_delta h = None then Some d else None),
      au_maybe_random_access = hdr_maybe_random_access h, au_is_interleaved = hdr_is_interleaved h,
      au_data = data\<rparr>)"

text \<open>The iterator answers these items one after the other, and then ends.\<close>

fun iter_yields ::
  "('b, 'r) slice_readers \<Rightarrow> 'r access_unit_iter \<Rightarrow> (parse_error + access_unit) list \<Rightarrow> 'r access_unit_iter \<Rightarrow> bool" where
  "iter_yields E it [] it' \<longleftrightarrow> iter_next E it = Some (None, it')"
| "iter_yields E it (x # xs) it' \<longleftrightarrow> (\<exists>it1. iter_next E it = Some (Some x, it1) \<and> iter_yields E it1 xs it')"

context slice_reader_spec
begin

lemma header_step:
  assumes "header_fits c prev h" and "bits r = header_bits c prev h @ tail"
  shows "\<exists>r'. AuHeader_from_reader (bit_ops E) c prev r = (Inr h, r') \<and> bits r' = tail
    \<and> rd_position (bit_ops E) r' = rd_position (bit_ops E) r + length (header_bits c prev h)"
proof -
  obtain r' where r': "AuHeader_from_reader (bit_ops E) c prev r = (Inr h, r')" "bits r' = tail"
    using reads_header [OF assms(1)] assms(2) by (auto simp: reads_def)
  moreover have "stream_state_indication c = 0" using assms(1) by (simp add: header_fits_def)
  from conservesD [OF conserves_header [OF this] r'(1)]
  have "rd_position (bit_ops E) r' = rd_position (bit_ops E) r + length (header_bits c prev h)"
    using assms(2) r'(2) by (simp add: bits_total_def)
  ultimately show ?thesis by blast
qed

lemma position_before:
  assumes "rd_position (bit_ops E) r < unat (len :: u16)"
  shows "\<not> (word_of_nat (rd_position (bit_ops E) r) :: u16) \<ge> len"
proof -
  have "rd_position (bit_ops E) r < 2 ^ LENGTH(16)" using assms by (rule less_trans) (rule unsigned_less)
  then show ?thesis using assms by (simp add: word_le_nat_alt unsigned_of_nat take_bit_nat_eq_self)
qed

lemma header_bits_pos: "size_len c > 0 \<Longrightarrow> 0 < length (header_bits c prev h)"
  by (simp add: header_bits_def unat_gt_0 word_gt_0)

lemma first_header_constant:
  assumes "pp_constant_duration (it_parser it) = Some d" and "it_prev_index it = None \<longrightarrow> w_is_zero (hdr_index h)"
  shows "first_header it h = Some (Inr (it_parser it))"
  using assms by (auto simp: first_header_def Let_def)

lemma header_timing_constant:
  assumes "pp_constant_duration (it_parser it) = Some d"
    and "hdr_cts_delta h = None \<longrightarrow> unat (w_val (hdr_index h)) * unat d < 2 ^ 32"
  shows "header_timing it h = Some (Inr (au_cts_delta (parsed_au n d (h, data)), au_duration (parsed_au n d (h, data))))"
  using assms by (auto simp: header_timing_def parsed_au_def chk_mul_u32_def split: option.splits)

lemma next_header_ok:
  assumes c: "pp_config (it_parser it) = c" and d: "pp_constant_duration (it_parser it) = Some d"
    and aus: "packet_ok c d (it_prev_index it) ((h, data) # aus)" and sz: "size_len c > 0"
    and r: "bits r = header_bits c (it_prev_index it) h @ tail"
    and pos: "rd_position (bit_ops E) r + length (header_bits c (it_prev_index it) h) \<le> unat (it_headers_len it)"
    and data: "it_data it \<noteq> []"
  shows "\<exists>r'. next_header E r it = Some (Some (Inr (h, au_cts_delta (parsed_au n d (h, data)),
        au_duration (parsed_au n d (h, data)))), it\<lparr>it_headers_r := Some r', it_prev_index := Some (hdr_index h)\<rparr>)
      \<and> bits r' = tail
      \<and> rd_position (bit_ops E) r' = rd_position (bit_ops E) r + length (header_bits c (it_prev_index it) h)"
proof -
  obtain r' where r': "AuHeader_from_reader (bit_ops E) c (it_prev_index it) r = (Inr h, r')" "bits r' = tail"
    "rd_position (bit_ops E) r' = rd_position (bit_ops E) r + length (header_bits c (it_prev_index it) h)"
    using header_step [OF _ r] aus by auto
  let ?it = "it\<lparr>it_headers_r := Some r'\<rparr>"
  have "\<not> (word_of_nat (rd_position (bit_ops E) r) :: u16) \<ge> it_headers_len it"
    using pos header_bits_pos [OF sz, of "it_prev_index it" h] by (intro position_before) linarith
  moreover have "first_header ?it h = Some (Inr (it_parser ?it))"
    using aus d by (intro first_header_constant) auto
  moreover have "header_timing ?it h = Some (Inr (au_cts_delta (parsed_au n d (h, data)), au_duration (parsed_au n d (h, data))))"
    using aus d by (intro header_timing_constant) auto
  moreover have "hdr_size h \<noteq> None" using aus by auto
  ultimately have "next_header E r it = Some (Some (Inr (h, au_cts_delta (parsed_au n d (h, data)),
        au_duration (parsed_au n d (h, data)))), it\<lparr>it_headers_r := Some r', it_prev_index := Some (hdr_index h)\<rparr>)"
    using data c r'(1) by (simp add: next_header_def Let_def)
  with r' show ?thesis by blast
qed

lemma iter_next_ok:
  assumes c: "pp_config (it_parser it) = c" "constant_size c = 0"
    and p: "it_parser it = \<lparr>pp_config = c, const_dur_probation = None, pp_constant_duration = Some d\<rparr>"
    and aus: "packet_ok c d (it_prev_index it) ((h, data) # aus)" and sz: "size_len c > 0"
    and r: "it_headers_r it = Some r" "bits r = header_bits c (it_prev_index it) h @ tail"
    and pos: "rd_position (bit_ops E) r + length (header_bits c (it_prev_index it) h) \<le> unat (it_headers_len it)"
    and data: "it_data it = data @ left" and cur: "unat (it_cur it) + 1 < 2 ^ 32"
  shows "\<exists>r'. iter_next E it = Some (Some (Inr (parsed_au (it_ext_seqnum it) d (h, data))),
        it\<lparr>it_headers_r := Some r', it_prev_index := Some (hdr_index h), it_data := left, it_cur := it_cur it + 1\<rparr>)
      \<and> bits r' = tail
      \<and> rd_position (bit_ops E) r' = rd_position (bit_ops E) r + length (header_bits c (it_prev_index it) h)"
proof -
  obtain s where s: "hdr_size h = Some s" "unat s = length data" "s \<noteq> 0"
    using aus sz by (auto simp: header_fits_def)
  then have "it_data it \<noteq> []" using data by (auto simp: unat_eq_0)
  with next_header_ok [of it c d h data aus r tail "it_ext_seqnum it"] c p aus sz r pos obtain r' where
    r': "next_header E r it = Some (Some (Inr (h, au_cts_delta (parsed_au (it_ext_seqnum it) d (h, data)),
        au_duration (parsed_au (it_ext_seqnum it) d (h, data)))), it\<lparr>it_headers_r := Some r', it_prev_index := Some (hdr_index h)\<rparr>)"
      "bits r' = tail"
      "rd_position (bit_ops E) r' = rd_position (bit_ops E) r + length (header_bits c (it_prev_index it) h)"
    by auto
  have "it_cur it \<noteq> 0xffffffff" using cur by auto
  moreover have "iter_au_size (it\<lparr>it_headers_r := Some r', it_prev_index := Some (hdr_index h)\<rparr>) h = length data"
    using c s by (simp add: iter_au_size_def)
  ultimately have "take_au (it\<lparr>it_headers_r := Some r', it_prev_index := Some (hdr_index h)\<rparr>) h
      (au_cts_delta (parsed_au (it_ext_seqnum it) d (h, data))) (au_duration (parsed_au (it_ext_seqnum it) d (h, data)))
    = Some (Some (Inr (parsed_au (it_ext_seqnum it) d (h, data))),
        it\<lparr>it_headers_r := Some r', it_prev_index := Some (hdr_index h), it_data := left, it_cur := it_cur it + 1\<rparr>)"
    using p data by (simp add: take_au_def Let_def access_unit_of_def parsed_au_def)
  with r' r(1) show ?thesis by (intro exI [of _ r']) (simp add: iter_next_def next_priv_def)
qed

lemma iter_next_end:
  assumes "it_headers_r it = Some r" and "rd_position (bit_ops E) r = unat (it_headers_len it)"
  shows "iter_next E it = Some (None, it)"
  using assms by (simp add: iter_next_def next_priv_def next_header_def)

lemma iter_yields_ok:
  assumes "constant_size c = 0" "size_len c > 0" and "packet_ok c d (it_prev_index it) aus"
    and "it_parser it = \<lparr>pp_config = c, const_dur_probation = None, pp_constant_duration = Some d\<rparr>"
    and "it_headers_r it = Some r" "bits r = packet_bits c (it_prev_index it) aus @ pad"
    and "rd_position (bit_ops E) r + length (packet_bits c (it_prev_index it) aus) = unat (it_headers_len it)"
    and "it_data it = concat (map snd aus) @ left" and "unat (it_cur it) + length aus < 2 ^ 32"
  shows "\<exists>it'. iter_yields E it (map (Inr \<circ> parsed_au (it_ext_seqnum it) d) aus) it' \<and> it_parser it' = it_parser it"
  using assms
proof (induction aus arbitrary: it r)
  case Nil
  then show ?case using iter_next_end [of it r] by simp
next
  case (Cons x aus)
  obtain h data where x: "x = (h, data)" by (cases x)
  let ?b = "header_bits c (it_prev_index it) h" and ?n = "packet_bits c (Some (hdr_index h)) aus"
  have cur: "unat (it_cur it) + 1 < 2 ^ 32" using Cons.prems(9) by simp
  then have cur': "unat (it_cur it + 1) = unat (it_cur it) + 1"
    by (simp add: unat_word_ariths)
  obtain r' where r': "iter_next E it = Some (Some (Inr (parsed_au (it_ext_seqnum it) d (h, data))),
        it\<lparr>it_headers_r := Some r', it_prev_index := Some (hdr_index h), it_data := concat (map snd aus) @ left,
          it_cur := it_cur it + 1\<rparr>)"
      "bits r' = ?n @ pad" "rd_position (bit_ops E) r' = rd_position (bit_ops E) r + length ?b"
    using iter_next_ok [of it c d h data aus r "?n @ pad" "concat (map snd aus) @ left"] Cons.prems cur x by auto
  let ?it = "it\<lparr>it_headers_r := Some r', it_prev_index := Some (hdr_index h), it_data := concat (map snd aus) @ left,
          it_cur := it_cur it + 1\<rparr>"
  have "\<exists>it'. iter_yields E ?it (map (Inr \<circ> parsed_au (it_ext_seqnum ?it) d) aus) it' \<and> it_parser it' = it_parser ?it"
    using Cons.prems r' cur' x by (intro Cons.IH [of ?it r']) auto
  with r'(1) x show ?case by (auto simp: comp_def)
qed

lemma div_ceil_8: "k < 8 \<Longrightarrow> 8 * m = n + k \<Longrightarrow> div_ceil n 8 = m"
  by (simp add: div_ceil_def)

lemma parse_headers:
  assumes "has_header_section c" "\<not> has_auxiliary_section c" and "unat len = length bs"
    and "octet_bits hb = bs @ pad" "length pad < 8" and "data \<noteq> []"
    and p: "parser = \<lparr>pp_config = c, const_dur_probation = None, pp_constant_duration = Some d\<rparr>"
  shows "PayloadParser_parse E parser (u16_bytes len @ hb @ data) ext_seqnum ts
    = Some (Inr \<lparr>it_parser = parser, it_ext_seqnum = ext_seqnum, it_packet_ts = ts, it_prev_index = None,
        it_headers_r = Some (bit_open E hb), it_headers_len = len, it_data = data, it_cur = 0\<rparr>)"
proof -
  let ?payload = "u16_bytes len @ hb @ data"
  have hb: "div_ceil (unat len) 8 = length hb"
    using arg_cong [OF assms(4), of length] assms(3,5) by (intro div_ceil_8 [of "length pad"]) (simp_all add: length_octet_bits)
  have "rest (byte_open E ?payload) = ucast (drop_bit 8 len) # ucast len # (hb @ data)"
    by (simp add: byte_open_rest u16_bytes_def)
  from rd_u16_ok [OF this] obtain r1 where r1: "rd_u16_be (byte_ops E) (byte_open E ?payload) = (Inr len, r1)"
      "rest r1 = hb @ data"
    by (auto simp: u16_of_bytes)
  from byte_skip_ok [of "length hb" r1] r1 obtain r2 where r2: "byte_skip E (length hb) r1 = (Inr (), r2)" by auto
  have len: "length ?payload = 2 + length hb + length data" by (simp add: u16_bytes_def)
  have "parse_header_section E parser ?payload ext_seqnum (byte_open E ?payload)
      = Some (Inr (len, 2 + length hb, Some hb, r2))"
    using assms(1) p r1 r2 by (simp add: parse_header_section_def hb u16_bytes_def)
  moreover have "parse_auxiliary_section E parser ?payload (2 + length hb) r2 = Inr (2 + length hb)"
    using assms(2) p by (simp add: parse_auxiliary_section_def)
  ultimately show ?thesis
    using assms(6) unfolding PayloadParser_parse_def by (simp add: len u16_bytes_def)
qed

end

section \<open>The loop over the access units\<close>

lemma push_au_plain: "st_deint_buf st = None \<Longrightarrow> push_au S au st out = Some (st, ms_push out au)"
  by (simp add: push_au_def)

lemma handle_complete:
  "pk_marker p \<Longrightarrow> st_au_acc st = None \<Longrightarrow> st_deint_buf st = None
   \<Longrightarrow> handle_au S B p au (st, out, q) = Some (LoopNext, st, ms_push out au, q)"
  by (simp add: handle_au_def complete_au_def push_au_plain)

lemma au_loop_yields:
  assumes "iter_yields E it (map Inr aus) it'" and "pk_marker p"
    and "st_au_acc st = None" and "st_deint_buf st = None" and "length aus < n"
  shows "au_loop n E S B p it (st, out, q)
    = Finished (LoopNext, st\<lparr>st_parser := it_parser it'\<rparr>, ms_extend out aus, q)"
  using assms
proof (induction aus arbitrary: n it st out)
  case Nil
  then show ?case by (cases n) simp_all
next
  case (Cons au aus)
  from Cons.prems(1) obtain it1 where it1: "iter_next E it = Some (Some (Inr au), it1)"
    "iter_yields E it1 (map Inr aus) it'" by auto
  from Cons.prems(5) obtain m where n: "n = Suc m" by (cases n) auto
  have "handle_au S B p au (st\<lparr>st_parser := it_parser it1\<rparr>, out, q)
      = Some (LoopNext, st\<lparr>st_parser := it_parser it1\<rparr>, ms_push out au, q)"
    using Cons.prems by (intro handle_complete) simp_all
  moreover have "au_loop m E S B p it1 (st\<lparr>st_parser := it_parser it1\<rparr>, ms_push out au, q)
      = Finished (LoopNext, st\<lparr>st_parser := it_parser it'\<rparr>, ms_extend (ms_push out au) aus, q)"
    using Cons.IH [OF it1(2), of "st\<lparr>st_parser := it_parser it1\<rparr>" m "ms_push out au"] Cons.prems n by simp
  ultimately show ?case using it1(1) n by simp
qed

lemma ms_extend_None:
  assumes "aus \<noteq> []"
  obtains m where "ms_extend None aus = Some m" "(case m of Single au \<Rightarrow> [au] | AuList l \<Rightarrow> l) = aus"
proof (cases "ms_extend None aus")
  case None
  with ms_aus_extend [of None aus] assms show thesis by (simp add: ms_aus_def)
next
  case (Some m)
  moreover from this have "(case m of Single au \<Rightarrow> [au] | AuList l \<Rightarrow> l) = aus"
    using ms_aus_extend [of None aus] by (simp add: ms_aus_def split: single_au_or_list.splits)
  ultimately show thesis by (rule that)
qed

text \<open>
  What the base class is given for a list of buffers: they are queued one after the other, up to the first that
  it refuses. The buffer of an access unit has its data, a relation to the packets from the one its data
  start in to the one it ends in, with the offset of its time in nanoseconds, and the duration when that is constant.
\<close>

fun queue_all ::
  "('e, 'q) depay_base \<Rightarrow> (packet_to_buffer_relation \<times> out_buffer) list \<Rightarrow> 'q \<Rightarrow> ('e + unit) \<times> 'q" where
  "queue_all B [] q = (Inr (), q)"
| "queue_all B ((relation, buffer) # xs) q =
     (case queue_buffer B relation buffer q of
        (Inl e, q) \<Rightarrow> (Inl e, q)
      | (Inr _, q) \<Rightarrow> queue_all B xs q)"

definition au_time :: "u32 \<Rightarrow> au_header \<Rightarrow> int" where
  "au_time d h = (case hdr_cts_delta h of Some delta \<Rightarrow> delta | None \<Rightarrow> sint (w_val (hdr_index h) * d))"

definition buffer_of ::
  "gst_lib \<Rightarrow> (int \<Rightarrow> int) \<Rightarrow> u32 \<Rightarrow> nat \<Rightarrow> nat \<Rightarrow> u32 \<Rightarrow> au_header \<times> u8 list
   \<Rightarrow> packet_to_buffer_relation \<times> out_buffer" where
  "buffer_of L to_ns rate first_seqnum last_seqnum d = (\<lambda>(h, data).
     (SeqnumsWithOffset first_seqnum last_seqnum
        (case hdr_dts_delta h of
           None \<Rightarrow> OffsetPts (to_ns (au_time d h))
         | Some dts \<Rightarrow> OffsetPtsAndDts (to_ns (au_time d h)) (to_ns dts)),
      \<lparr>buf_data = data, buf_delta_unit = (hdr_maybe_random_access h = Some False),
       buf_duration = (if hdr_cts_delta h = None then mul_div_floor L (unat d) second_ns (unat rate) else None)\<rparr>))"

text \<open>The conversion to nanoseconds is defined for 32-bit values, with the result \<open>to_ns\<close>.\<close>

definition offsets_defined :: "signed_mul_div \<Rightarrow> (int \<Rightarrow> int) \<Rightarrow> u32 \<Rightarrow> bool" where
  "offsets_defined sf to_ns rate \<longleftrightarrow>
     (\<forall>v. - (2 ^ 31) \<le> v \<and> v < 2 ^ 31 \<longrightarrow> sf v second_ns (unat rate) = Some (to_ns v))"

definition deltas_fit :: "au_header \<Rightarrow> bool" where
  "deltas_fit h \<longleftrightarrow> (\<forall>v. hdr_cts_delta h = Some v \<or> hdr_dts_delta h = Some v \<longrightarrow> - (2 ^ 31) \<le> v \<and> v < 2 ^ 31)"

lemma delta_fits_32:
  assumes "delta_fits len v"
  shows "- (2 ^ 31) \<le> v \<and> v < 2 ^ 31"
proof -
  have "unat len \<le> 32" using assms by (simp only: delta_fits_def)
  then have "unat len - 1 \<le> 31" by linarith
  then have "(2 :: int) ^ (unat len - 1) \<le> 2 ^ 31" by (rule power_increasing) simp
  moreover have "- (2 ^ (unat len - 1)) \<le> v" "v < 2 ^ (unat len - 1)"
    using assms by (simp_all only: delta_fits_def)
  ultimately show ?thesis by linarith
qed

lemma header_fits_deltas:
  assumes "header_fits c prev h"
  shows "deltas_fit h"
proof -
  have "delta_fits (cts_delta_len c) v" if "hdr_cts_delta h = Some v" for v
    using assms that by (simp add: header_fits_def)
  moreover have "delta_fits (dts_delta_len c) v" if "hdr_dts_delta h = Some v" for v
    using assms that by (simp add: header_fits_def)
  ultimately show ?thesis unfolding deltas_fit_def using delta_fits_32 by blast
qed

lemma packet_ok_deltas: "packet_ok c d prev aus \<Longrightarrow> \<forall>x \<in> set aus. deltas_fit (fst x)"
proof (induction aus arbitrary: prev)
  case (Cons x aus)
  obtain h data where x: "x = (h, data)" by (rule prod.exhaust)
  from Cons.prems have "header_fits c prev h" "packet_ok c d (Some (hdr_index h)) aus" by (simp_all add: x)
  with Cons.IH header_fits_deltas show ?case by (simp add: x)
qed simp

lemma sint_32: "- (2 ^ 31) \<le> sint (w :: u32) \<and> sint w < 2 ^ 31"
  using sint_greater_eq [of w] sint_less [of w] by simp

lemma relation_of_au:
  assumes "offsets_defined sf to_ns rate" and "deltas_fit h"
  shows "get_packet_to_buffer_relation sf ((parsed_au n d (h, data))\<lparr>au_is_fragment := b\<rparr>) rate a z
      = Some (fst (buffer_of L to_ns rate a z d (h, data)))"
proof -
  have dts: "sf v second_ns (unat rate) = Some (to_ns v)" if "hdr_dts_delta h = Some v" for v
    using assms that unfolding offsets_defined_def deltas_fit_def by blast
  have "- (2 ^ 31) \<le> au_time d h \<and> au_time d h < 2 ^ 31"
  proof (cases "hdr_cts_delta h")
    case None
    then show ?thesis using sint_32 [of "w_val (hdr_index h) * d"] by (simp only: au_time_def option.case)
  next
    case (Some v)
    then show ?thesis using assms(2) unfolding deltas_fit_def au_time_def by (simp only: option.case) blast
  qed
  then have cts: "sf (au_time d h) second_ns (unat rate) = Some (to_ns (au_time d h))"
    using assms(1) unfolding offsets_defined_def by blast
  have "au_cts_delta (parsed_au n d (h, data)) = Some (au_time d h)"
    by (simp add: parsed_au_def au_time_def split: option.split)
  then show ?thesis
    using cts dts by (cases "hdr_dts_delta h")
      (simp_all add: get_packet_to_buffer_relation_def buffer_of_def, simp_all add: parsed_au_def)
qed

lemma buffer_of_au:
  "new_buffer L ((parsed_au n d (h, data))\<lparr>au_is_fragment := b\<rparr>) rate = snd (buffer_of L to_ns rate a z d (h, data))"
  by (simp add: new_buffer_def buffer_of_def parsed_au_def)

lemma finish_parsed:
  assumes "offsets_defined sf to_ns rate" and "\<forall>x \<in> set aus. deltas_fit (fst x)"
  shows "finish_aus L sf B rate (Some z) (map (\<lambda>x. (parsed_au n d x)\<lparr>au_is_fragment := b\<rparr>) aus) q
    = Some (queue_all B (map (buffer_of L to_ns rate n z d) aus) q)"
  using assms(2)
proof (induction aus arbitrary: q)
  case (Cons x aus)
  obtain h data where x: "x = (h, data)" by (rule prod.exhaust)
  have rel: "get_packet_to_buffer_relation sf ((parsed_au n d x)\<lparr>au_is_fragment := b\<rparr>) rate n z
      = Some (fst (buffer_of L to_ns rate n z d x))"
    unfolding x using Cons.prems x by (intro relation_of_au [OF assms(1)]) simp
  have buf: "new_buffer L ((parsed_au n d x)\<lparr>au_is_fragment := b\<rparr>) rate = snd (buffer_of L to_ns rate n z d x)"
    unfolding x by (rule buffer_of_au)
  have seq: "au_ext_seqnum ((parsed_au n d x)\<lparr>au_is_fragment := b\<rparr>) = n" by (simp add: parsed_au_def x)
  obtain r' b' where rb: "buffer_of L to_ns rate n z d x = (r', b')" by (rule prod.exhaust)
  show ?case
    using Cons.IH Cons.prems unfolding list.map finish_aus.simps seq option.case rel buf rb
    by (simp split: prod.split sum.split)
qed simp

text \<open>The end of \<^verbatim>\<open>handle_packet\<close> with access units to queue.\<close>

definition finishes ::
  "gst_lib \<Rightarrow> signed_mul_div \<Rightarrow> ('e, 'q) depay_base \<Rightarrow> depay_packet \<Rightarrow> access_unit list \<Rightarrow> 's depay_state \<Rightarrow> 'q
   \<Rightarrow> (('e + unit) \<times> 's depay_state \<times> 'q) run" where
  "finishes L sf B p aus st q =
     (case finish_aus L sf B (st_clock_rate st) (Some (pk_ext_seqnum p)) aus q of
        None \<Rightarrow> Panicked | Some (r, q) \<Rightarrow> Finished (r, st, q))"

lemma finishes_parsed:
  assumes "offsets_defined sf to_ns (st_clock_rate st)" and "\<forall>x \<in> set aus. deltas_fit (fst x)"
  shows "finishes L sf B p (map (\<lambda>x. (parsed_au n d x)\<lparr>au_is_fragment := b\<rparr>) aus) st q
    = (case queue_all B (map (buffer_of L to_ns (st_clock_rate st) n (pk_ext_seqnum p) d) aus) q of
         (r, q) \<Rightarrow> Finished (r, st, q))"
  unfolding finishes_def finish_parsed [OF assms] by simp

definition plain_state :: "mode_config \<Rightarrow> u32 \<Rightarrow> 's depay_state \<Rightarrow> bool" where
  "plain_state c d st \<longleftrightarrow> st_can_parse st \<and> st_deint_buf st = None
     \<and> st_parser st = \<lparr>pp_config = c, const_dur_probation = None, pp_constant_duration = Some d\<rparr>"

lemma handle_packet_continue:
  assumes "st_can_parse st"
    and "PayloadParser_parse E (st_parser st) (pk_payload p) (pk_ext_seqnum p) (w_from_ext (pk_ext_timestamp p))
      = Some (Inr it)"
  shows "handle_packet n E S L sf B p st q =
    (case au_loop n E S B p it (st, None, q) of
       OutOfFuel \<Rightarrow> OutOfFuel
     | Panicked \<Rightarrow> Panicked
     | Finished (LoopReturn, st, aus, q) \<Rightarrow> Finished (Inr (), st, q)
     | Finished (LoopNext, st, None, q) \<Rightarrow> Finished (Inr (), st, q)
     | Finished (LoopNext, st, Some aus, q) \<Rightarrow> finishes L sf B p (case aus of Single au \<Rightarrow> [au] | AuList l \<Rightarrow> l) st q)"
  using assms
  by (simp add: handle_packet_def check_initial_packet_def finish_buffer_or_list_def finishes_def
      split: run.splits loop_flow.splits option.splits prod.splits)

lemma handle_packet_complete:
  assumes "st_can_parse st" and "st_deint_buf st = None"
    and "PayloadParser_parse E (st_parser st) (pk_payload p) (pk_ext_seqnum p) (w_from_ext (pk_ext_timestamp p))
      = Some (Inr it)"
    and "iter_yields E it (map Inr aus) it'" "it_parser it' = st_parser st" "aus \<noteq> []" "length aus < n"
    and "pk_marker p" "st_au_acc st = None"
  shows "handle_packet n E S L sf B p st q = finishes L sf B p aus st q"
proof -
  obtain m where m: "ms_extend None aus = Some m" "(case m of Single au \<Rightarrow> [au] | AuList l \<Rightarrow> l) = aus"
    using assms(6) by (rule ms_extend_None)
  have "au_loop n E S B p it (st, None, q) = Finished (LoopNext, st, Some m, q)"
    using au_loop_yields [OF assms(4,8,9,2,7), of S B None q] assms(5) m(1) by simp
  then show ?thesis unfolding handle_packet_continue [OF assms(1,3)] using m(2) by simp
qed

section \<open>Access units of constant size without headers\<close>

definition plain_mode :: "mode_config \<Rightarrow> bool" where
  "plain_mode c \<longleftrightarrow> \<not> has_header_section c \<and> \<not> has_auxiliary_section c
     \<and> constant_size c \<noteq> 0 \<and> constant_duration c \<noteq> 0"

definition plain_au :: "nat \<Rightarrow> u32 \<Rightarrow> bool \<Rightarrow> u32 \<Rightarrow> u8 list \<Rightarrow> access_unit" where
  "plain_au ext_seqnum d is_fragment k data =
     \<lparr>au_ext_seqnum = ext_seqnum, au_is_fragment = is_fragment, au_size = None, au_index = WrappingU32 k,
      au_cts_delta = Some (sint (k * d)), au_dts_delta = None, au_duration = Some d,
      au_maybe_random_access = None, au_is_interleaved = False, au_data = data\<rparr>"

definition plain_iter :: "mode_config \<Rightarrow> nat \<Rightarrow> wrapping_u32 \<Rightarrow> u32 \<Rightarrow> u8 list \<Rightarrow> 'r access_unit_iter" where
  "plain_iter c ext_seqnum ts k data =
     \<lparr>it_parser = \<lparr>pp_config = c, const_dur_probation = None, pp_constant_duration = Some (constant_duration c)\<rparr>,
      it_ext_seqnum = ext_seqnum, it_packet_ts = ts, it_prev_index = None, it_headers_r = None,
      it_headers_len = 0, it_data = data, it_cur = k\<rparr>"

lemma it_parser_plain [simp]:
  "it_parser (plain_iter c ext_seqnum ts k data)
    = \<lparr>pp_config = c, const_dur_probation = None, pp_constant_duration = Some (constant_duration c)\<rparr>"
  by (simp add: plain_iter_def)

lemma parse_plain:
  assumes "plain_mode c" and "payload \<noteq> []"
  shows "PayloadParser_parse E \<lparr>pp_config = c, const_dur_probation = None,
      pp_constant_duration = Some (constant_duration c)\<rparr> payload ext_seqnum ts
    = Some (Inr (plain_iter c ext_seqnum ts 0 payload))"
  using assms
  by (simp add: PayloadParser_parse_def parse_header_section_def parse_auxiliary_section_def plain_mode_def plain_iter_def)

lemma iter_next_plain_end: "iter_next E (plain_iter c ext_seqnum ts k []) = Some (None, plain_iter c ext_seqnum ts k [])"
  by (simp add: iter_next_def next_priv_def next_without_header_def plain_iter_def)

lemma iter_next_plain:
  assumes "plain_mode c" and "data \<noteq> []" and "unat k * unat (constant_duration c) < 2 ^ 32" and "k \<noteq> 0xffffffff"
    and "unat (constant_size c) \<le> length data \<or> k = 0"
  shows "iter_next E (plain_iter c ext_seqnum ts k data)
    = Some (Some (Inr (plain_au ext_seqnum (constant_duration c) (length data < unat (constant_size c)) k
          (take (unat (constant_size c)) data))),
        plain_iter c ext_seqnum ts (k + 1) (drop (unat (constant_size c)) data))"
  using assms
  by (auto simp: iter_next_def next_priv_def next_without_header_def plain_iter_def chk_mul_u32_def take_au_def
      Let_def iter_au_size_def plain_mode_def word_gt_0 access_unit_of_def plain_au_def AuHeader_new_with_def)

text \<open>What is left of a packet and is too short is an error each time it is asked for.\<close>

lemma iter_next_plain_stuck:
  assumes "plain_mode c" and "data \<noteq> []" and "unat k * unat (constant_duration c) < 2 ^ 32"
    and "length data < unat (constant_size c)" and "k \<noteq> 0"
  shows "iter_next E (plain_iter c ext_seqnum ts k data)
    = Some (Some (Inl (ParseDepay (MultipleAusGreaterSizeThanAuData (unat (constant_size c)) (length data)))),
        plain_iter c ext_seqnum ts k data)"
  using assms
  by (auto simp: iter_next_def next_priv_def next_without_header_def plain_iter_def chk_mul_u32_def take_au_def
      Let_def iter_au_size_def plain_mode_def word_gt_0 PayloadParser_reset_def config_constant_duration_def)

lemma next_index:
  assumes "unat (k :: u32) + 1 < 2 ^ 32"
  shows "k \<noteq> 0xffffffff" "unat (k + 1) = unat k + 1" "k + 1 \<noteq> 0"
proof -
  show "k \<noteq> 0xffffffff" using assms by auto
  show "unat (k + 1) = unat k + 1" using assms by (simp add: unat_word_ariths)
  then show "k + 1 \<noteq> 0" by (metis add_is_0 unat_0 one_neq_zero)
qed

fun plain_aus :: "nat \<Rightarrow> u32 \<Rightarrow> u32 \<Rightarrow> u8 list list \<Rightarrow> access_unit list" where
  "plain_aus ext_seqnum d k [] = []"
| "plain_aus ext_seqnum d k (x # xs) = plain_au ext_seqnum d False k x # plain_aus ext_seqnum d (k + 1) xs"

lemma length_plain_aus [simp]: "length (plain_aus ext_seqnum d k xs) = length xs"
  by (induction xs arbitrary: k) auto

text \<open>The same as if they had come with headers that have an index only.\<close>

lemma plain_au_parsed:
  "plain_au n d b k data = (parsed_au n d (AuHeader_new_with (WrappingU32 k), data))\<lparr>au_is_fragment := b\<rparr>"
  by (simp add: plain_au_def parsed_au_def AuHeader_new_with_def)

lemma plain_aus_parsed:
  assumes "i = word_of_nat k"
  shows "plain_aus n d i xs = map (\<lambda>x. (parsed_au n d x)\<lparr>au_is_fragment := False\<rparr>)
     (map (\<lambda>(i, x). (AuHeader_new_with (WrappingU32 (word_of_nat i)), x)) (enumerate k xs))"
  using assms
proof (induction xs arbitrary: i k)
  case (Cons x xs)
  have "i + 1 = word_of_nat (Suc k)" using Cons.prems by (simp add: add.commute)
  from Cons.IH [OF this] Cons.prems show ?case by (simp add: plain_au_parsed)
qed simp

lemma product_bounds:
  assumes "0 < d" and "(a + b) * d < (m :: nat)"
  shows "a + b < m" "a * d < m"
proof -
  have "(a + b) * 1 \<le> (a + b) * d" using assms(1) by (intro mult_le_mono) simp_all
  with assms(2) show "a + b < m" by (simp only: mult_1_right)
  have "a * d \<le> (a + b) * d" by (intro mult_le_mono) simp_all
  then show "a * d < m" using assms(2) by (rule le_less_trans)
qed

lemma iter_yields_plain:
  assumes "plain_mode c" and "\<forall>x \<in> set xs. length x = unat (constant_size c)"
    and "(unat k + length xs) * unat (constant_duration c) < 2 ^ 32"
  shows "iter_yields E (plain_iter c ext_seqnum ts k (concat xs)) (map Inr (plain_aus ext_seqnum (constant_duration c) k xs))
    (plain_iter c ext_seqnum ts (k + word_of_nat (length xs)) [])"
  using assms
proof (induction xs arbitrary: k)
  case Nil
  then show ?case by (simp add: iter_next_plain_end)
next
  case (Cons x xs)
  let ?d = "unat (constant_duration c)"
  have d: "0 < ?d" and n: "0 < unat (constant_size c)" using Cons.prems(1) by (simp_all add: plain_mode_def unat_gt_0)
  have b: "unat k + 1 < 2 ^ 32" and k: "unat k * ?d < 2 ^ 32"
    using product_bounds [OF d Cons.prems(3)] by simp_all
  have x: "x \<noteq> []" "length x = unat (constant_size c)" using Cons.prems(2) n by auto
  have "iter_next E (plain_iter c ext_seqnum ts k (concat (x # xs)))
    = Some (Some (Inr (plain_au ext_seqnum (constant_duration c) False k x)), plain_iter c ext_seqnum ts (k + 1) (concat xs))"
    using iter_next_plain [OF Cons.prems(1), of "concat (x # xs)" k E ext_seqnum ts] next_index(1) [OF b] k x by simp
  moreover have "iter_yields E (plain_iter c ext_seqnum ts (k + 1) (concat xs))
      (map Inr (plain_aus ext_seqnum (constant_duration c) (k + 1) xs))
      (plain_iter c ext_seqnum ts (k + 1 + word_of_nat (length xs)) [])"
    using Cons.prems next_index(2) [OF b] by (intro Cons.IH) (simp_all add: algebra_simps)
  ultimately show ?case by (simp add: add.assoc)
qed

lemma handle_whole:
  assumes "\<not> au_is_fragment au" and "st_au_acc st = None" and "st_deint_buf st = None"
  obtains out' where "handle_au S B p au (st, out, q) = Some (LoopNext, st, out', q)"
  using assms that by (cases "pk_marker p") (auto simp: handle_au_def handle_unmarked_au_def complete_au_def push_au_plain)

lemma au_loop_stuck:
  assumes "iter_next E it = Some (Some (Inl e), it)"
  shows "au_loop n E S B p it (st, out, q) = OutOfFuel"
  using assms by (induction n arbitrary: st) simp_all

lemma au_loop_plain_spins:
  assumes "plain_mode c" and "\<forall>x \<in> set xs. length x = unat (constant_size c)" and "xs \<noteq> [] \<or> k \<noteq> 0"
    and "(unat k + length xs) * unat (constant_duration c) < 2 ^ 32"
    and "left \<noteq> []" "length left < unat (constant_size c)" and "st_au_acc st = None" "st_deint_buf st = None"
  shows "au_loop n E S B p (plain_iter c ext_seqnum ts k (concat xs @ left)) (st, out, q) = OutOfFuel"
  using assms
proof (induction xs arbitrary: n k st out)
  case Nil
  then show ?case using iter_next_plain_stuck [of c left k] by (intro au_loop_stuck) simp
next
  case (Cons x xs)
  let ?d = "unat (constant_duration c)" and ?data = "concat (x # xs) @ left"
  have d: "0 < ?d" using Cons.prems(1) by (simp add: plain_mode_def unat_gt_0)
  have b: "unat k + 1 < 2 ^ 32" and k: "unat k * ?d < 2 ^ 32"
    using product_bounds [OF d Cons.prems(4)] by simp_all
  have x: "length x = unat (constant_size c)" using Cons.prems(2) by simp
  have nx: "iter_next E (plain_iter c ext_seqnum ts k ?data)
    = Some (Some (Inr (plain_au ext_seqnum (constant_duration c) False k x)), plain_iter c ext_seqnum ts (k + 1) (concat xs @ left))"
    using iter_next_plain [OF Cons.prems(1), of ?data k E ext_seqnum ts] next_index(1) [OF b] k x Cons.prems(5) by simp
  show ?case
  proof (cases n)
    case (Suc m)
    let ?st = "st\<lparr>st_parser := \<lparr>pp_config = c, const_dur_probation = None,
      pp_constant_duration = Some (constant_duration c)\<rparr>\<rparr>"
    obtain out' where "handle_au S B p (plain_au ext_seqnum (constant_duration c) False k x) (?st, out, q)
        = Some (LoopNext, ?st, out', q)"
      using handle_whole [of "plain_au ext_seqnum (constant_duration c) False k x" ?st S B p out q] Cons.prems
      by (auto simp: plain_au_def)
    moreover have "au_loop m E S B p (plain_iter c ext_seqnum ts (k + 1) (concat xs @ left)) (?st, out', q) = OutOfFuel"
      using Cons.prems next_index(2,3) [OF b] by (intro Cons.IH) simp_all
    ultimately show ?thesis using nx Suc by simp
  qed simp
qed

section \<open>Fragments\<close>

definition sized_mode :: "mode_config \<Rightarrow> bool" where
  "sized_mode c \<longleftrightarrow> size_len c > 0 \<and> constant_size c = 0 \<and> \<not> has_auxiliary_section c"

text \<open>
  A packet with a piece of an access unit: without headers, a piece shorter than the constant size; with
  headers, one header, which has the size of the whole access unit, and a piece shorter than that.
\<close>

definition fragment_packet :: "mode_config \<Rightarrow> u32 \<Rightarrow> au_header \<Rightarrow> depay_packet \<Rightarrow> u8 list \<Rightarrow> bool" where
  "fragment_packet c d h p piece \<longleftrightarrow> piece \<noteq> []
     \<and> (plain_mode c \<and> d = constant_duration c \<and> h = AuHeader_new_with (WrappingU32 0)
          \<and> pk_payload p = piece \<and> length piece < unat (constant_size c)
        \<or> sized_mode c \<and> header_fits c None h \<and> w_is_zero (hdr_index h)
          \<and> length piece < unat (the (hdr_size h))
          \<and> (\<exists>len headers padding. pk_payload p = u16_bytes len @ headers @ piece
               \<and> octet_bits headers = header_bits c None h @ padding
               \<and> unat len = length (header_bits c None h) \<and> length padding < 8))"

definition fragment_of :: "nat \<Rightarrow> u32 \<Rightarrow> au_header \<Rightarrow> u8 list \<Rightarrow> access_unit" where
  "fragment_of n d h data = (parsed_au n d (h, data))\<lparr>au_is_fragment := True\<rparr>"

text \<open>The iterator over the packet answers this one access unit.\<close>

definition carries :: "('b, 'r) slice_readers \<Rightarrow> payload_parser \<Rightarrow> depay_packet \<Rightarrow> access_unit \<Rightarrow> bool" where
  "carries E parser p au \<longleftrightarrow> (\<exists>it it1.
     PayloadParser_parse E parser (pk_payload p) (pk_ext_seqnum p) (w_from_ext (pk_ext_timestamp p)) = Some (Inr it)
     \<and> iter_next E it = Some (Some (Inr au), it1) \<and> iter_next E it1 = Some (None, it1) \<and> it_parser it1 = parser)"

lemma carries_plain:
  assumes "plain_mode c" and "pk_payload p = piece" "piece \<noteq> []" "length piece < unat (constant_size c)"
  shows "carries E \<lparr>pp_config = c, const_dur_probation = None, pp_constant_duration = Some (constant_duration c)\<rparr> p
    (fragment_of (pk_ext_seqnum p) (constant_duration c) (AuHeader_new_with (WrappingU32 0)) piece)"
proof -
  let ?it = "\<lambda>k data. plain_iter c (pk_ext_seqnum p) (w_from_ext (pk_ext_timestamp p)) k data"
  have "iter_next E (?it 0 piece) = Some (Some (Inr (plain_au (pk_ext_seqnum p) (constant_duration c) True 0 piece)), ?it 1 [])"
    using iter_next_plain [OF assms(1), of piece 0 E] assms(3,4) by simp
  then show ?thesis
    unfolding carries_def fragment_of_def plain_au_parsed [symmetric] assms(2)
    using parse_plain [OF assms(1,3), of E] iter_next_plain_end
    by (intro exI [of _ "?it 0 piece"] exI [of _ "?it 1 []"]) simp
qed

context slice_reader_spec
begin

lemma iter_next_fragment:
  assumes "sized_mode c" and h: "header_fits c None h" "w_is_zero (hdr_index h)"
    and piece: "piece \<noteq> []" "length piece < unat (the (hdr_size h))"
    and r: "bits r = header_bits c None h @ padding" "rd_position (bit_ops E) r = 0"
    and len: "unat len = length (header_bits c None h)"
    and it: "it = \<lparr>it_parser = \<lparr>pp_config = c, const_dur_probation = None, pp_constant_duration = Some d\<rparr>,
      it_ext_seqnum = n, it_packet_ts = ts, it_prev_index = None, it_headers_r = Some r,
      it_headers_len = len, it_data = piece, it_cur = 0\<rparr>"
  obtains it1 where "iter_next E it = Some (Some (Inr (fragment_of n d h piece)), it1)"
    and "iter_next E it1 = Some (None, it1)" and "it_parser it1 = it_parser it"
proof -
  obtain s where s: "hdr_size h = Some s"
    using h(1) assms(1) by (auto simp: header_fits_def sized_mode_def)
  let ?data = "replicate (unat s) 0 :: u8 list"
  have cts: "hdr_cts_delta h = None"
    using h(1) unfolding header_fits_def by (cases "hdr_cts_delta h") auto
  have idx: "w_val (hdr_index h) = 0" using h(2) by (simp add: w_is_zero_def)
  have ok: "packet_ok c d (it_prev_index it) [(h, ?data)]" using h s it idx by simp
  have c: "size_len c > 0" "constant_size c = 0" using assms(1) by (simp_all add: sized_mode_def)
  have "\<exists>r'. next_header E r it = Some (Some (Inr (h, au_cts_delta (parsed_au n d (h, ?data)),
        au_duration (parsed_au n d (h, ?data)))), it\<lparr>it_headers_r := Some r', it_prev_index := Some (hdr_index h)\<rparr>)
      \<and> bits r' = padding
      \<and> rd_position (bit_ops E) r' = rd_position (bit_ops E) r + length (header_bits c (it_prev_index it) h)"
    using c r len piece(1) by (intro next_header_ok [OF _ _ ok]) (simp_all add: it)
  then obtain r' where r': "next_header E r it = Some (Some (Inr (h, au_cts_delta (parsed_au n d (h, piece)),
        au_duration (parsed_au n d (h, piece)))), it\<lparr>it_headers_r := Some r', it_prev_index := Some (hdr_index h)\<rparr>)"
      "rd_position (bit_ops E) r' = unat len"
    using r(2) len by (auto simp: it parsed_au_def)
  let ?it1 = "it\<lparr>it_headers_r := Some r', it_prev_index := Some (hdr_index h), it_data := [], it_cur := 1\<rparr>"
  have "iter_next E it = Some (Some (Inr (fragment_of n d h piece)), ?it1)"
    using r'(1) c(2) s piece(2)
    by (simp add: iter_next_def next_priv_def it take_au_def Let_def iter_au_size_def access_unit_of_def
        fragment_of_def parsed_au_def)
  moreover have "iter_next E ?it1 = Some (None, ?it1)" by (rule iter_next_end) (use r'(2) it in simp_all)
  ultimately show thesis by (rule that) simp
qed

lemma carries_sized:
  assumes "sized_mode c" and h: "header_fits c None h" "w_is_zero (hdr_index h)"
    and piece: "piece \<noteq> []" "length piece < unat (the (hdr_size h))"
    and p: "pk_payload p = u16_bytes len @ headers @ piece"
    and hb: "octet_bits headers = header_bits c None h @ padding" "unat len = length (header_bits c None h)"
      "length padding < 8"
  shows "carries E \<lparr>pp_config = c, const_dur_probation = None, pp_constant_duration = Some d\<rparr> p
    (fragment_of (pk_ext_seqnum p) d h piece)"
proof -
  let ?parser = "\<lparr>pp_config = c, const_dur_probation = None, pp_constant_duration = Some d\<rparr>"
  define it where "it = \<lparr>it_parser = ?parser, it_ext_seqnum = pk_ext_seqnum p,
    it_packet_ts = w_from_ext (pk_ext_timestamp p), it_prev_index = None, it_headers_r = Some (bit_open E headers),
    it_headers_len = len, it_data = piece, it_cur = 0\<rparr>"
  have c: "has_header_section c" "\<not> has_auxiliary_section c"
    using assms(1) by (simp_all add: sized_mode_def has_header_section_def)
  have "PayloadParser_parse E ?parser (pk_payload p) (pk_ext_seqnum p) (w_from_ext (pk_ext_timestamp p)) = Some (Inr it)"
    unfolding p it_def by (rule parse_headers [OF c hb(2,1,3) piece(1) refl])
  moreover have "bits (bit_open E headers) = header_bits c None h @ padding" by (simp only: bit_open_bits hb(1))
  then obtain it1 where "iter_next E it = Some (Some (Inr (fragment_of (pk_ext_seqnum p) d h piece)), it1)"
    "iter_next E it1 = Some (None, it1)" "it_parser it1 = it_parser it"
    by (rule iter_next_fragment [OF assms(1) h piece _ bit_open_position hb(2) it_def])
  moreover have "it_parser it = ?parser" by (simp add: it_def)
  ultimately show ?thesis
    unfolding carries_def by (intro exI [of _ it] exI [of _ it1]) simp
qed

lemma carries_fragment:
  assumes "fragment_packet c d h p piece" and "plain_state c d st"
  shows "carries E (st_parser st) p (fragment_of (pk_ext_seqnum p) d h piece)"
proof -
  have st: "st_parser st = \<lparr>pp_config = c, const_dur_probation = None, pp_constant_duration = Some d\<rparr>"
    using assms(2) by (simp add: plain_state_def)
  from assms(1) show ?thesis
    unfolding st fragment_packet_def
  proof (elim conjE disjE exE, goal_cases)
    case 1
    then show ?case using carries_plain [of c p piece E] by simp
  next
    case (2 len headers padding)
    then show ?case by (intro carries_sized) assumption+
  qed
qed

end

lemma try_append_fragment:
  "try_append (fragment_of n d h data) (fragment_of m d h data') = Inr (fragment_of n d h (data @ data'))"
  by (cases "hdr_cts_delta h"; cases "hdr_dts_delta h")
    (simp_all add: try_append_def append_dts_def fragment_of_def parsed_au_def)

lemma handle_unmarked_fragment:
  assumes "carries E (st_parser st) p (fragment_of (pk_ext_seqnum p) d h piece)" and "st_can_parse st"
    and "\<not> pk_marker p" "0 < n"
  shows "st_au_acc st = None \<Longrightarrow> handle_packet n E S L sf B p st q
      = Finished (Inr (), st\<lparr>st_au_acc := Some (fragment_of (pk_ext_seqnum p) d h piece)\<rparr>, q)"
    and "st_au_acc st = Some (fragment_of k d h data) \<Longrightarrow> handle_packet n E S L sf B p st q
      = Finished (Inr (), st\<lparr>st_au_acc := Some (fragment_of k d h (data @ piece))\<rparr>, q)"
proof -
  obtain it it1 where it:
    "PayloadParser_parse E (st_parser st) (pk_payload p) (pk_ext_seqnum p) (w_from_ext (pk_ext_timestamp p)) = Some (Inr it)"
    "iter_next E it = Some (Some (Inr (fragment_of (pk_ext_seqnum p) d h piece)), it1)" "it_parser it1 = st_parser st"
    using assms(1) unfolding carries_def by blast
  obtain m where n: "n = Suc m" using assms(4) by (cases n) auto
  have frag: "au_is_fragment (fragment_of (pk_ext_seqnum p) d h piece)" by (simp add: fragment_of_def)
  show "handle_packet n E S L sf B p st q
      = Finished (Inr (), st\<lparr>st_au_acc := Some (fragment_of (pk_ext_seqnum p) d h piece)\<rparr>, q)"
    if "st_au_acc st = None"
    unfolding handle_packet_continue [OF assms(2) it(1)]
    using that assms(3) it frag by (simp add: n handle_au_def handle_unmarked_au_def)
  show "handle_packet n E S L sf B p st q
      = Finished (Inr (), st\<lparr>st_au_acc := Some (fragment_of k d h (data @ piece))\<rparr>, q)"
    if "st_au_acc st = Some (fragment_of k d h data)"
    unfolding handle_packet_continue [OF assms(2) it(1)]
    using that assms(3) it frag by (simp add: n handle_au_def handle_unmarked_au_def try_append_fragment)
qed

text \<open>The last fragment: the access unit is complete, or has not the size that was announced.\<close>

definition fragments_end ::
  "gst_lib \<Rightarrow> signed_mul_div \<Rightarrow> ('e, 'q) depay_base \<Rightarrow> depay_packet \<Rightarrow> au_header \<Rightarrow> access_unit
   \<Rightarrow> 's depay_state \<Rightarrow> 'q \<Rightarrow> (('e + unit) \<times> 's depay_state \<times> 'q) run" where
  "fragments_end L sf B p h au st q =
     (if hdr_size h = None \<or> unat (the (hdr_size h)) = length (au_data au) then finishes L sf B p [au] st q
      else Finished (Inr (), st\<lparr>st_parser := PayloadParser_reset (st_parser st)\<rparr>,
             drop_packets B (DropTo (pk_ext_seqnum p)) q))"

lemma handle_last_fragment:
  assumes "carries E (st_parser st) p (fragment_of (pk_ext_seqnum p) d h piece)"
    and "st_can_parse st" "st_deint_buf st = None"
    and "pk_marker p" "1 < n" and acc: "st_au_acc st = Some (fragment_of k d h data)"
  shows "handle_packet n E S L sf B p st q
    = fragments_end L sf B p h (fragment_of k d h (data @ piece)) (st\<lparr>st_au_acc := None\<rparr>) q"
proof -
  let ?au = "fragment_of k d h (data @ piece)"
  obtain it it1 where it:
    "PayloadParser_parse E (st_parser st) (pk_payload p) (pk_ext_seqnum p) (w_from_ext (pk_ext_timestamp p)) = Some (Inr it)"
    "iter_next E it = Some (Some (Inr (fragment_of (pk_ext_seqnum p) d h piece)), it1)" "iter_next E it1 = Some (None, it1)"
    "it_parser it1 = st_parser st"
    using assms(1) unfolding carries_def by blast
  obtain m where n: "n = Suc (Suc m)" using assms(5) by (cases n; cases "n - 1") auto
  have frag: "au_is_fragment (fragment_of (pk_ext_seqnum p) d h piece)" "au_size ?au = hdr_size h"
    by (simp_all add: fragment_of_def parsed_au_def)
  show ?thesis
  proof (cases "hdr_size h = None \<or> unat (the (hdr_size h)) = length (au_data ?au)")
    case True
    then have "try_into_au ?au = Inr ?au"
      using frag(2) by (cases "hdr_size h") (simp_all add: try_into_au_def)
    then have "complete_au B p (fragment_of (pk_ext_seqnum p) d h piece) st q = (Some ?au, st\<lparr>st_au_acc := None\<rparr>, q)"
      using acc frag by (simp add: complete_au_def try_append_fragment)
    then show ?thesis
      unfolding handle_packet_continue [OF assms(2) it(1)] fragments_end_def if_P [OF True]
      using assms(3,4) it by (simp add: n handle_au_def push_au_plain ms_push_def)
  next
    case False
    then obtain e where "try_into_au ?au = Inl e"
      using frag(2) by (cases "hdr_size h") (simp_all add: try_into_au_def)
    then have "complete_au B p (fragment_of (pk_ext_seqnum p) d h piece) st q
        = (None, discard_pending B p (st\<lparr>st_au_acc := None\<rparr>) q)"
      using acc frag by (simp add: complete_au_def try_append_fragment)
    then show ?thesis
      unfolding handle_packet_continue [OF assms(2) it(1)] fragments_end_def if_not_P [OF False]
      using assms(4) it by (simp add: n handle_au_def discard_pending_def)
  qed
qed

fun handle_packets ::
  "nat \<Rightarrow> ('b, 'r) slice_readers \<Rightarrow> ('s, au_node) slab_ops \<Rightarrow> gst_lib \<Rightarrow> signed_mul_div \<Rightarrow> ('e, 'q) depay_base
   \<Rightarrow> depay_packet list \<Rightarrow> 's depay_state \<Rightarrow> 'q \<Rightarrow> (('e + unit) \<times> 's depay_state \<times> 'q) run" where
  "handle_packets n E S L sf B [] st q = Finished (Inr (), st, q)"
| "handle_packets n E S L sf B (p # ps) st q =
     (case handle_packet n E S L sf B p st q of
        Finished (Inr _, st, q) \<Rightarrow> handle_packets n E S L sf B ps st q
      | x \<Rightarrow> x)"

lemma handle_packets_single: "handle_packets n E S L sf B [p] st q = handle_packet n E S L sf B p st q"
  by (simp split: run.split prod.split sum.split)

context slice_reader_spec
begin

lemma handle_fragments:
  assumes "plain_state c d st" and "\<forall>(p, piece) \<in> set (fs @ [l]). fragment_packet c d h p piece"
    and "\<forall>(p, piece) \<in> set fs. \<not> pk_marker p" "pk_marker (fst l)" "1 < n"
    and "st_au_acc st = Some (fragment_of k d h data)"
  shows "handle_packets n E S L sf B (map fst (fs @ [l])) st q
    = fragments_end L sf B (fst l) h (fragment_of k d h (data @ concat (map snd (fs @ [l])))) (st\<lparr>st_au_acc := None\<rparr>) q"
  using assms
proof (induction fs arbitrary: st data)
  case Nil
  obtain p piece where l: "l = (p, piece)" by (rule prod.exhaust)
  have "carries E (st_parser st) p (fragment_of (pk_ext_seqnum p) d h piece)"
    using Nil.prems(1,2) l by (intro carries_fragment) simp_all
  from handle_last_fragment [OF this _ _ _ Nil.prems(5,6), of S L sf B q] Nil.prems(1,4) show ?case
    by (simp add: l plain_state_def handle_packets_single del: handle_packets.simps(2))
next
  case (Cons x fs)
  obtain p piece where x: "x = (p, piece)" by (rule prod.exhaust)
  let ?st = "st\<lparr>st_au_acc := Some (fragment_of k d h (data @ piece))\<rparr>"
  have "carries E (st_parser st) p (fragment_of (pk_ext_seqnum p) d h piece)"
    using Cons.prems(1,2) x by (intro carries_fragment) simp_all
  then have "handle_packet n E S L sf B p st q = Finished (Inr (), ?st, q)"
    using Cons.prems x by (intro handle_unmarked_fragment(2)) (simp_all add: plain_state_def)
  moreover have "handle_packets n E S L sf B (map fst (fs @ [l])) ?st q
      = fragments_end L sf B (fst l) h (fragment_of k d h ((data @ piece) @ concat (map snd (fs @ [l]))))
        (?st\<lparr>st_au_acc := None\<rparr>) q"
    using Cons.prems by (intro Cons.IH) (simp_all add: plain_state_def)
  ultimately show ?case by (simp add: x)
qed

end

lemma fragments_end_explicit:
  assumes "offsets_defined sf to_ns (st_clock_rate st)" and "deltas_fit h"
  shows "fragments_end L sf B p h (fragment_of n d h data) st q
    = (if hdr_size h = None \<or> unat (the (hdr_size h)) = length data
       then (case queue_all B [buffer_of L to_ns (st_clock_rate st) n (pk_ext_seqnum p) d (h, data)] q of
               (r, q) \<Rightarrow> Finished (r, st, q))
       else Finished (Inr (), st\<lparr>st_parser := PayloadParser_reset (st_parser st)\<rparr>,
              drop_packets B (DropTo (pk_ext_seqnum p)) q))"
proof -
  have "au_data (fragment_of n d h data) = data" by (simp add: fragment_of_def parsed_au_def)
  moreover have "finishes L sf B p [fragment_of n d h data] st q
      = (case queue_all B [buffer_of L to_ns (st_clock_rate st) n (pk_ext_seqnum p) d (h, data)] q of
           (r, q) \<Rightarrow> Finished (r, st, q))"
    using finishes_parsed [OF assms(1), where aus = "[(h, data)]" and n = n and d = d and b = True] assms(2)
    by (simp add: fragment_of_def del: queue_all.simps)
  ultimately show ?thesis unfolding fragments_end_def by simp
qed

lemma fragment_deltas: "fragment_packet c d h p piece \<Longrightarrow> deltas_fit h"
  by (auto simp: fragment_packet_def deltas_fit_def AuHeader_new_with_def
      dest: header_fits_deltas [unfolded deltas_fit_def])

section \<open>Constant duration\<close>

text \<open>
  Two packets that start with index zero and have the same time stamp, as the fragments of an access unit
  do, make the parser conclude a constant duration of zero: this and all other access units
  of the stream without a time stamp delta get the time of the packet and the duration zero.
\<close>

lemma zero_duration_detected:
  assumes "it_prev_index it = None" and "pp_constant_duration (it_parser it) = None"
    and "const_dur_probation (it_parser it) = Some \<lparr>cd_ts = it_packet_ts it, cd_frames = n\<rparr>" and "n \<noteq> 0"
    and "w_is_zero (hdr_index h)"
  shows "\<exists>parser. first_header it h = Some (Inr parser) \<and> pp_constant_duration parser = Some 0
    \<and> (\<forall>it' h'. it_parser it' = parser \<longrightarrow> hdr_cts_delta h' = None \<longrightarrow> header_timing it' h' = Some (Inr (Some 0, Some 0)))"
  using assms by (auto simp: first_header_def Let_def w_sub_def w_sub_u32_def header_timing_def chk_mul_u32_def)

section \<open>Properties\<close>

context slice_reader_spec
begin

lemma handle_packet_headers:
  assumes "sized_mode c" and st: "plain_state c d st" and "st_au_acc st = None"
    and "packet_ok c d None aus" "aus \<noteq> []" "length aus < n" "length aus < 2 ^ 32" and "pk_marker p"
    and p: "pk_payload p = u16_bytes len @ headers @ concat (map snd aus)"
    and "octet_bits headers = packet_bits c None aus @ padding" "unat len = length (packet_bits c None aus)"
    and "length padding < 8"
  shows "handle_packet n E S L sf B p st q = finishes L sf B p (map (parsed_au (pk_ext_seqnum p) d) aus) st q"
proof -
  have c: "has_header_section c" "\<not> has_auxiliary_section c" "size_len c > 0" "constant_size c = 0"
    using assms(1) by (simp_all add: sized_mode_def has_header_section_def)
  have ps: "st_parser st = \<lparr>pp_config = c, const_dur_probation = None, pp_constant_duration = Some d\<rparr>"
    "st_can_parse st" "st_deint_buf st = None" using st by (simp_all add: plain_state_def)
  obtain h data aus' s where "aus = (h, data) # aus'" "hdr_size h = Some s" "unat s = length data" "s \<noteq> 0"
    using assms(4,5) c(3) by (cases aus) (auto simp: header_fits_def)
  then have data: "concat (map snd aus) \<noteq> []" by (auto simp: unat_eq_0)
  define it where "it = \<lparr>it_parser = st_parser st, it_ext_seqnum = pk_ext_seqnum p,
    it_packet_ts = w_from_ext (pk_ext_timestamp p), it_prev_index = None, it_headers_r = Some (bit_open E headers),
    it_headers_len = len, it_data = concat (map snd aus), it_cur = 0\<rparr>"
  have parse: "PayloadParser_parse E (st_parser st) (pk_payload p) (pk_ext_seqnum p) (w_from_ext (pk_ext_timestamp p))
      = Some (Inr it)"
    unfolding p it_def using parse_headers [OF c(1,2) assms(11,10,12) data ps(1)] .
  have "\<exists>it'. iter_yields E it (map (Inr \<circ> parsed_au (it_ext_seqnum it) d) aus) it' \<and> it_parser it' = it_parser it"
    using iter_yields_ok [OF c(4,3), of d it aus "bit_open E headers" padding "[]"] assms(4,7,10,11) ps(1)
    by (simp add: it_def bit_open_bits bit_open_position)
  then obtain it' where it': "iter_yields E it (map Inr (map (parsed_au (pk_ext_seqnum p) d) aus)) it'"
    "it_parser it' = st_parser st"
    by (auto simp: it_def)
  show ?thesis
    using assms(5,6) by (intro handle_packet_complete [OF ps(2,3) parse it' _ _ assms(8,3)]) simp_all
qed

end

definition aac_mode :: mode_config where
  "aac_mode = default_mode_config\<lparr>size_len := 13, index_len := 3, index_delta_len := 3, constant_duration := 1024\<rparr>"

definition fixed_mode :: mode_config where
  "fixed_mode = default_mode_config\<lparr>constant_size := 3, constant_duration := 160\<rparr>"

definition parsing_state :: "mode_config \<Rightarrow> 's depay_state" where
  "parsing_state c = default_state\<lparr>st_parser := \<lparr>pp_config = c, const_dur_probation = None,
     pp_constant_duration = Some (constant_duration c)\<rparr>, st_clock_rate := 8000, st_can_parse := True\<rparr>"

definition log_base :: "(unit, (packet_to_buffer_relation \<times> out_buffer) list) depay_base" where
  "log_base = \<lparr>drop_packets = (\<lambda>r q. q), queue_buffer = (\<lambda>r b q. (Inr (), q @ [(r, b)]))\<rparr>"

definition ref_signed_floor :: signed_mul_div where
  "ref_signed_floor v n d = (if d = 0 then None else Some (v * int n div int d))"

definition packet_of :: "nat \<Rightarrow> bool \<Rightarrow> u8 list \<Rightarrow> depay_packet" where
  "packet_of seqnum marker payload =
     \<lparr>pk_payload = payload, pk_ext_seqnum = seqnum, pk_ext_timestamp = 0, pk_marker = marker\<rparr>"

lemma parsing_state_plain: "plain_state c (constant_duration c) (parsing_state c)" "st_au_acc (parsing_state c) = None"
  by (simp_all add: plain_state_def parsing_state_def default_state_def)

lemma fixed_mode_plain: "plain_mode fixed_mode"
  by (simp add: plain_mode_def fixed_mode_def default_mode_config_def has_header_section_def has_auxiliary_section_def)

text \<open>C16: The access units of a packet with headers are found. For a stream of known constant duration \<open>d\<close> whose
  access units have their sizes in the headers, without auxiliary section and without deinterleaving, and
  with no fragments pending: a marked packet made of the length of the headers, the headers with less
  than a byte of padding, and the data of the access units is taken apart into these access units. For each of
  them, in their order, one buffer is given to the base class (up to the first it refuses), with the data
  of the access unit, the packet it came in, and the time offset in its header or else the one its index
  gives; the loop ends and the depayloader is ready for the next packet.\<close>

theorem depay_packet_with_headers:
  assumes "slice_reader_spec E rest bits" and "sized_mode c" and "plain_state c d st" "st_au_acc st = None"
    and "packet_ok c d None aus" "aus \<noteq> []" "length aus < n" "length aus < 2 ^ 32" and "pk_marker p"
    and "pk_payload p = u16_bytes len @ headers @ concat (map snd aus)"
    and "octet_bits headers = packet_bits c None aus @ padding" "unat len = length (packet_bits c None aus)"
    and "length padding < 8" and "offsets_defined sf to_ns (st_clock_rate st)"
  shows "handle_packet n E S L sf B p st q =
    (case queue_all B (map (buffer_of L to_ns (st_clock_rate st) (pk_ext_seqnum p) (pk_ext_seqnum p) d) aus) q of
       (r, q') \<Rightarrow> Finished (r, st, q'))"
proof -
  have eq: "map (parsed_au (pk_ext_seqnum p) d) aus
      = map (\<lambda>x. (parsed_au (pk_ext_seqnum p) d x)\<lparr>au_is_fragment := False\<rparr>) aus"
    by (simp add: parsed_au_def case_prod_beta)
  show ?thesis
    unfolding slice_reader_spec.handle_packet_headers [OF assms(1-13)] eq
    by (rule finishes_parsed [OF assms(14) packet_ok_deltas [OF assms(5)]])
qed

definition aac_header :: "u32 \<Rightarrow> u32 \<Rightarrow> au_header" where
  "aac_header sz i = (AuHeader_new_with (WrappingU32 i))\<lparr>hdr_size := Some sz\<rparr>"

lemma bits_of_numeral: "bits_of (numeral k) v = odd (v div 2 ^ pred_numeral k) # bits_of (pred_numeral k) v"
  by (simp add: numeral_eq_Suc bit_iff_odd)

lemma ref_offsets: "rate \<noteq> 0 \<Longrightarrow> offsets_defined ref_signed_floor (\<lambda>v. v * 1000000000 div int (unat rate)) rate"
  by (simp add: offsets_defined_def ref_signed_floor_def second_ns_def unat_eq_0)

lemma parsing_state_rate: "offsets_defined ref_signed_floor (\<lambda>v. v * 1000000000 div 8000) (st_clock_rate (parsing_state c))"
  using ref_offsets [of "st_clock_rate (parsing_state c)"] by (simp add: parsing_state_def)

theorem depay_packet_with_headers_witness:
  "handle_packet 3 ref_slices ref_slab ref_lib ref_signed_floor log_base
      (packet_of 7 True ([0, 32] @ [0, 24, 0, 16] @ [1, 2, 3, 4, 5])) (parsing_state aac_mode) []
    = Finished (Inr (), parsing_state aac_mode,
        [(SeqnumsWithOffset 7 7 (OffsetPts 0),
            \<lparr>buf_data = [1, 2, 3], buf_delta_unit = False, buf_duration = Some 128000000\<rparr>),
         (SeqnumsWithOffset 7 7 (OffsetPts 128000000),
            \<lparr>buf_data = [4, 5], buf_delta_unit = False, buf_duration = Some 128000000\<rparr>)])"
proof -
  let ?aus = "[(aac_header 3 0, [1, 2, 3]), (aac_header 2 1, [4, 5])]"
  let ?p = "packet_of 7 True ([0, 32] @ [0, 24, 0, 16] @ [1, 2, 3, 4, 5])"
  have fits: "packet_ok aac_mode 1024 None ?aus"
    by (simp add: aac_header_def AuHeader_new_with_def aac_mode_def default_mode_config_def header_fits_def
        index_fits_def w_is_zero_def)
  have bits: "packet_bits aac_mode None ?aus = octet_bits [0, 24, 0, 16]"
    by (simp add: aac_header_def AuHeader_new_with_def aac_mode_def default_mode_config_def header_bits_def
        index_bits_def delta_bits_def octet_bits_def bits_of_numeral)
  then have octets: "octet_bits [0, 24, 0, 16] = packet_bits aac_mode None ?aus @ []" by (simp only: append_Nil2)
  have len: "unat (32 :: u16) = length (packet_bits aac_mode None ?aus)" unfolding bits length_octet_bits by simp
  have mode: "sized_mode aac_mode" "plain_state aac_mode 1024 (parsing_state aac_mode)"
    using parsing_state_plain(1) [of aac_mode]
    by (simp_all add: sized_mode_def aac_mode_def default_mode_config_def has_auxiliary_section_def)
  have p: "pk_marker ?p" "pk_payload ?p = u16_bytes 32 @ [0, 24, 0, 16] @ concat (map snd ?aus)" "pk_ext_seqnum ?p = 7"
    by (simp_all add: packet_of_def u16_bytes_def)
  note packet = depay_packet_with_headers [OF refslices.slice_reader_spec_axioms mode parsing_state_plain(2) fits _ _ _
    p(1,2) octets len _ parsing_state_rate, where n = 3 and S = ref_slab and L = ref_lib and B = log_base and q = "[]"]
  show ?thesis
    by (subst packet) (simp_all add: packet_of_def, simp add: log_base_def buffer_of_def au_time_def aac_header_def
        AuHeader_new_with_def parsing_state_def ref_lib_def fits_def second_ns_def)
qed

lemma finishes_plain:
  assumes "offsets_defined sf to_ns (st_clock_rate st)"
  shows "finishes L sf B p (plain_aus (pk_ext_seqnum p) d 0 xs) st q =
    (case queue_all B (map (\<lambda>(k, x).
         (SeqnumsWithOffset (pk_ext_seqnum p) (pk_ext_seqnum p) (OffsetPts (to_ns (sint (word_of_nat (k * unat d) :: u32)))),
          \<lparr>buf_data = x, buf_delta_unit = False,
           buf_duration = mul_div_floor L (unat d) second_ns (unat (st_clock_rate st))\<rparr>)) (enumerate 0 xs)) q of
       (r, q) \<Rightarrow> Finished (r, st, q))"
proof -
  let ?hs = "map (\<lambda>(i, x). (AuHeader_new_with (WrappingU32 (word_of_nat i)), x)) (enumerate 0 xs)"
  have aus: "plain_aus (pk_ext_seqnum p) d 0 xs = map (\<lambda>x. (parsed_au (pk_ext_seqnum p) d x)\<lparr>au_is_fragment := False\<rparr>) ?hs"
    by (rule plain_aus_parsed) simp
  have fit: "\<forall>x \<in> set ?hs. deltas_fit (fst x)" by (auto simp: deltas_fit_def AuHeader_new_with_def)
  have bufs: "map (buffer_of L to_ns (st_clock_rate st) (pk_ext_seqnum p) (pk_ext_seqnum p) d) ?hs
    = map (\<lambda>(k, x).
         (SeqnumsWithOffset (pk_ext_seqnum p) (pk_ext_seqnum p) (OffsetPts (to_ns (sint (word_of_nat (k * unat d) :: u32)))),
          \<lparr>buf_data = x, buf_delta_unit = False,
           buf_duration = mul_div_floor L (unat d) second_ns (unat (st_clock_rate st))\<rparr>)) (enumerate 0 xs)"
    by (auto simp: buffer_of_def au_time_def AuHeader_new_with_def)
  show ?thesis unfolding aus finishes_parsed [OF assms fit] bufs ..
qed

text \<open>C18: A marked packet of access units of constant size without headers is split into them, in a stream of
  configured constant duration, without deinterleaving and with no fragments pending, as long as the
  number of access units times the duration is below 2^32. The base class is given one buffer for each access
  unit, in their order (up to the first it refuses), with that part of the payload and with its number
  in the packet times the duration as its time offset; the loop over them ends.\<close>

theorem depay_constant_size:
  assumes "plain_mode c" and "plain_state c (constant_duration c) st" "st_au_acc st = None"
    and "xs \<noteq> []" "\<forall>x \<in> set xs. length x = unat (constant_size c)" "length xs < n"
    and "length xs * unat (constant_duration c) < 2 ^ 32" and "pk_marker p" "pk_payload p = concat xs"
    and "offsets_defined sf to_ns (st_clock_rate st)"
  shows "handle_packet n E S L sf B p st q =
    (case queue_all B (map (\<lambda>(k, x).
         (SeqnumsWithOffset (pk_ext_seqnum p) (pk_ext_seqnum p)
            (OffsetPts (to_ns (sint (word_of_nat (k * unat (constant_duration c)) :: u32)))),
          \<lparr>buf_data = x, buf_delta_unit = False,
           buf_duration = mul_div_floor L (unat (constant_duration c)) second_ns (unat (st_clock_rate st))\<rparr>))
         (enumerate 0 xs)) q of
       (r, q') \<Rightarrow> Finished (r, st, q'))"
proof -
  have ps: "st_parser st = \<lparr>pp_config = c, const_dur_probation = None, pp_constant_duration = Some (constant_duration c)\<rparr>"
    "st_can_parse st" "st_deint_buf st = None" using assms(2) by (simp_all add: plain_state_def)
  have "pk_payload p \<noteq> []"
    using assms(1,4,5,9) by (cases xs) (auto simp: plain_mode_def unat_eq_0)
  then have parse: "PayloadParser_parse E (st_parser st) (pk_payload p) (pk_ext_seqnum p) (w_from_ext (pk_ext_timestamp p))
      = Some (Inr (plain_iter c (pk_ext_seqnum p) (w_from_ext (pk_ext_timestamp p)) 0 (concat xs)))"
    unfolding ps(1) assms(9) by (intro parse_plain [OF assms(1)])
  have yields: "iter_yields E (plain_iter c (pk_ext_seqnum p) (w_from_ext (pk_ext_timestamp p)) 0 (concat xs))
      (map Inr (plain_aus (pk_ext_seqnum p) (constant_duration c) 0 xs))
      (plain_iter c (pk_ext_seqnum p) (w_from_ext (pk_ext_timestamp p)) (0 + word_of_nat (length xs)) [])"
    using assms(5,7) by (intro iter_yields_plain [OF assms(1)]) simp_all
  have "plain_aus (pk_ext_seqnum p) (constant_duration c) 0 xs \<noteq> []" using assms(4) by (cases xs) simp_all
  then have "handle_packet n E S L sf B p st q
      = finishes L sf B p (plain_aus (pk_ext_seqnum p) (constant_duration c) 0 xs) st q"
    using assms(6) by (intro handle_packet_complete [OF ps(2,3) parse yields _ _ _ assms(8,3)]) (simp_all add: ps(1))
  then show ?thesis unfolding finishes_plain [OF assms(10)] .
qed

theorem depay_constant_size_witness:
  "handle_packet 3 ref_slices ref_slab ref_lib ref_signed_floor log_base (packet_of 7 True [1, 2, 3, 4, 5, 6])
      (parsing_state fixed_mode) []
    = Finished (Inr (), parsing_state fixed_mode,
        [(SeqnumsWithOffset 7 7 (OffsetPts 0),
            \<lparr>buf_data = [1, 2, 3], buf_delta_unit = False, buf_duration = Some 20000000\<rparr>),
         (SeqnumsWithOffset 7 7 (OffsetPts 20000000),
            \<lparr>buf_data = [4, 5, 6], buf_delta_unit = False, buf_duration = Some 20000000\<rparr>)])"
proof -
  note packet = depay_constant_size [OF fixed_mode_plain parsing_state_plain _ _ _ _ _ _ parsing_state_rate,
    where xs = "[[1, 2, 3], [4, 5, 6]]" and n = 3 and p = "packet_of 7 True [1, 2, 3, 4, 5, 6]"
      and E = ref_slices and S = ref_slab and L = ref_lib and B = log_base and q = "[]"]
  show ?thesis
    by (subst packet) (simp_all add: packet_of_def fixed_mode_def, simp add: parsing_state_def log_base_def
        ref_lib_def fits_def second_ns_def)
qed

text \<open>C17: Fragments are put together, in streams of known constant duration without deinterleaving and with
  nothing pending: the access units have a constant size and no headers, or there is no auxiliary section
  and each packet has one header, the same in all of them, with the size of the whole access unit.
  Unmarked packets with a piece each and a marked one with the last piece result in one buffer for the base
  class, with the pieces in the order of the packets as its data and related to all the packets from
  the first to the last, if the pieces have the size of the header together (or there is none). If they do not,
  nothing is queued, the packets are dropped and the parser is reset. Nothing stays pending.\<close>

theorem depay_reassembles_fragments:
  assumes "slice_reader_spec E rest bits" and "plain_state c d st" "st_au_acc st = None"
    and "\<forall>(p, piece) \<in> set (f # fs @ [l]). fragment_packet c d h p piece"
    and "\<forall>(p, piece) \<in> set (f # fs). \<not> pk_marker p" "pk_marker (fst l)" "1 < n"
    and "offsets_defined sf to_ns (st_clock_rate st)" and "data = concat (map snd (f # fs @ [l]))"
  shows "handle_packets n E S L sf B (map fst (f # fs @ [l])) st q =
    (if hdr_size h = None \<or> unat (the (hdr_size h)) = length data
     then (case queue_all B [buffer_of L to_ns (st_clock_rate st) (pk_ext_seqnum (fst f)) (pk_ext_seqnum (fst l)) d
                (h, data)] q of (r, q') \<Rightarrow> Finished (r, st, q'))
     else Finished (Inr (), st\<lparr>st_parser := PayloadParser_reset (st_parser st)\<rparr>,
            drop_packets B (DropTo (pk_ext_seqnum (fst l))) q))"
proof -
  obtain p piece where f: "f = (p, piece)" by (rule prod.exhaust)
  let ?st = "st\<lparr>st_au_acc := Some (fragment_of (pk_ext_seqnum p) d h piece)\<rparr>"
  have parts: "\<forall>(p, piece) \<in> set (fs @ [l]). fragment_packet c d h p piece" "\<forall>(p, piece) \<in> set fs. \<not> pk_marker p"
    using assms(4,5) unfolding list.set set_append by blast+
  have "fragment_packet c d h p piece" using assms(4) f by simp
  note carry = slice_reader_spec.carries_fragment [OF assms(1) this assms(2)]
  have "handle_packet n E S L sf B p st q = Finished (Inr (), ?st, q)"
    using assms(2,3,5,7) f by (intro handle_unmarked_fragment(1) [OF carry]) (simp_all add: plain_state_def)
  moreover have "handle_packets n E S L sf B (map fst (fs @ [l])) ?st q
      = fragments_end L sf B (fst l) h (fragment_of (pk_ext_seqnum p) d h (piece @ concat (map snd (fs @ [l]))))
          (?st\<lparr>st_au_acc := None\<rparr>) q"
    using assms(2,6,7) by (intro slice_reader_spec.handle_fragments [OF assms(1) _ parts]) (simp_all add: plain_state_def)
  moreover have "?st\<lparr>st_au_acc := None\<rparr> = st" using assms(3) by simp
  moreover have "data = piece @ concat (map snd (fs @ [l]))" using assms(9) f by simp
  ultimately have eq: "handle_packets n E S L sf B (map fst (f # fs @ [l])) st q
      = fragments_end L sf B (fst l) h (fragment_of (pk_ext_seqnum p) d h data) st q"
    using f by simp
  have h: "deltas_fit h" using assms(4) f fragment_deltas by auto
  show ?thesis unfolding eq fragments_end_explicit [OF assms(8) h] by (simp only: f fst_conv)
qed

text \<open>An access unit of three bytes in two packets, with the size in the headers.\<close>

lemma aac_fragment:
  assumes "payload = [0, 16, 0, 24] @ piece" and "piece \<noteq> []" and "length piece < 3"
  shows "fragment_packet aac_mode 1024 (aac_header 3 0) (packet_of n b payload) piece"
proof -
  have bits: "header_bits aac_mode None (aac_header 3 0) = octet_bits [0, 24]"
    by (simp add: aac_header_def AuHeader_new_with_def aac_mode_def default_mode_config_def header_bits_def
        index_bits_def delta_bits_def octet_bits_def bits_of_numeral)
  have "\<exists>len headers padding. payload = u16_bytes len @ headers @ piece
      \<and> octet_bits headers = header_bits aac_mode None (aac_header 3 0) @ padding
      \<and> unat len = length (header_bits aac_mode None (aac_header 3 0)) \<and> length padding < 8"
    unfolding bits length_octet_bits
    by (intro exI [of _ 16] exI [of _ "[0, 24]"] exI [of _ "[]"]) (simp add: assms(1) u16_bytes_def)
  moreover have "header_fits aac_mode None (aac_header 3 0)" "w_is_zero (hdr_index (aac_header 3 0))"
    "sized_mode aac_mode" "the (hdr_size (aac_header 3 0)) = 3"
    by (simp_all add: aac_header_def AuHeader_new_with_def aac_mode_def default_mode_config_def header_fits_def
        index_fits_def w_is_zero_def sized_mode_def has_auxiliary_section_def)
  ultimately show ?thesis using assms(2,3) unfolding fragment_packet_def by (simp add: packet_of_def)
qed

theorem depay_reassembles_fragments_witness:
  "handle_packets 2 ref_slices ref_slab ref_lib ref_signed_floor log_base
      [packet_of 7 False [0, 16, 0, 24, 1], packet_of 8 True [0, 16, 0, 24, 2, 3]] (parsing_state aac_mode) []
    = Finished (Inr (), parsing_state aac_mode, [(SeqnumsWithOffset 7 8 (OffsetPts 0),
        \<lparr>buf_data = [1, 2, 3], buf_delta_unit = False, buf_duration = Some 128000000\<rparr>)])"
proof -
  let ?f = "(packet_of 7 False [0, 16, 0, 24, 1], [1])" and ?l = "(packet_of 8 True [0, 16, 0, 24, 2, 3], [2, 3])"
  have st: "plain_state aac_mode 1024 (parsing_state aac_mode)"
    using parsing_state_plain(1) [of aac_mode] by (simp add: aac_mode_def default_mode_config_def)
  have fp: "\<forall>(p, piece) \<in> set (?f # [] @ [?l]). fragment_packet aac_mode 1024 (aac_header 3 0) p piece"
    by (auto intro: aac_fragment)
  have sz: "hdr_size (aac_header 3 0) = Some 3" by (simp add: aac_header_def)
  note packets = depay_reassembles_fragments [OF refslices.slice_reader_spec_axioms st parsing_state_plain(2) fp _ _ _
    parsing_state_rate refl, where n = 2 and S = ref_slab and L = ref_lib and B = log_base and q = "[]"]
  show ?thesis
    using packets sz by (simp add: log_base_def buffer_of_def au_time_def aac_header_def AuHeader_new_with_def parsing_state_def
        ref_lib_def fits_def second_ns_def packet_of_def del: handle_packets.simps)
qed

text \<open>C30: The loop over the access units does not end when the payload of a packet of access units of constant
  size without headers is one or more whole access units followed by a shorter rest: the rest is an error
  that consumes nothing, and the loop asks for the next access unit for ever. (The duration is constant, nothing
  is deinterleaved or pending, and the time offsets fit 32 bits.)\<close>

theorem depay_loops_forever:
  assumes "plain_mode c" and "plain_state c (constant_duration c) st" "st_au_acc st = None"
    and "xs \<noteq> []" "\<forall>x \<in> set xs. length x = unat (constant_size c)"
    and "length xs * unat (constant_duration c) < 2 ^ 32"
    and "left \<noteq> []" "length left < unat (constant_size c)" and "pk_payload p = concat xs @ left"
  shows "\<forall>n. handle_packet n E S L sf B p st q = OutOfFuel"
proof
  fix n
  have ps: "st_parser st = \<lparr>pp_config = c, const_dur_probation = None, pp_constant_duration = Some (constant_duration c)\<rparr>"
    "st_can_parse st" "st_deint_buf st = None" using assms(2) by (simp_all add: plain_state_def)
  have parse: "PayloadParser_parse E (st_parser st) (pk_payload p) (pk_ext_seqnum p) (w_from_ext (pk_ext_timestamp p))
      = Some (Inr (plain_iter c (pk_ext_seqnum p) (w_from_ext (pk_ext_timestamp p)) 0 (concat xs @ left)))"
    unfolding ps(1) assms(9) using assms(7) by (intro parse_plain [OF assms(1)]) simp
  have "au_loop n E S B p (plain_iter c (pk_ext_seqnum p) (w_from_ext (pk_ext_timestamp p)) 0 (concat xs @ left)) (st, None, q)
      = OutOfFuel"
    using assms(4,6) by (intro au_loop_plain_spins [OF assms(1,5) _ _ assms(7,8,3) ps(3)]) simp_all
  then show "handle_packet n E S L sf B p st q = OutOfFuel"
    unfolding handle_packet_continue [OF ps(2) parse] by simp
qed

theorem depay_loops_forever_witness:
  "\<forall>n. handle_packet n ref_slices ref_slab ref_lib ref_signed_floor log_base (packet_of 7 True [1, 2, 3, 4])
      (parsing_state fixed_mode) [] = OutOfFuel"
  using depay_loops_forever [OF fixed_mode_plain parsing_state_plain, of "[[1, 2, 3]]" "[4]" "packet_of 7 True [1, 2, 3, 4]"]
  by (simp add: packet_of_def fixed_mode_def)

text \<open>C31: A flush while fragments are pending leaves them pending, and the first marked packet after it
  fails the assertion that there are none: the depayloader panics. (The caps have no sequence number
  that the stream starts with.)\<close>

theorem depay_flush_pending_panics:
  assumes "st_au_acc st \<noteq> None" and "st_seqnum_base st = None" and "pk_marker p"
  shows "handle_packet n E S L sf B p (depay_flush S st) q = Panicked"
  using assms by (simp add: handle_packet_def check_initial_packet_def depay_flush_def wait_for_marker_def)

theorem depay_flush_pending_panics_witness:
  "\<exists>st. handle_packet 2 ref_slices ref_slab ref_lib ref_signed_floor log_base (packet_of 7 False [1])
      (parsing_state fixed_mode) [] = Finished (Inr (), st, [])
    \<and> handle_packet 2 ref_slices ref_slab ref_lib ref_signed_floor log_base (packet_of 9 True [2])
      (depay_flush ref_slab st) [] = Panicked"
proof -
  let ?p = "packet_of 7 False [1]" and ?h = "AuHeader_new_with (WrappingU32 0)"
  let ?st = "(parsing_state fixed_mode)\<lparr>st_au_acc := Some (fragment_of (pk_ext_seqnum ?p) (constant_duration fixed_mode) ?h [1])\<rparr>"
  have "fragment_packet fixed_mode (constant_duration fixed_mode) ?h ?p [1]"
    using fixed_mode_plain by (simp add: fragment_packet_def packet_of_def fixed_mode_def)
  note carry = refslices.carries_fragment [OF this parsing_state_plain(1)]
  have "handle_packet 2 ref_slices ref_slab ref_lib ref_signed_floor log_base ?p
      (parsing_state fixed_mode) [] = Finished (Inr (), ?st, [])"
    by (rule handle_unmarked_fragment(1) [OF carry _ _ _ parsing_state_plain(2)])
      (simp_all add: packet_of_def parsing_state_def)
  moreover have "handle_packet 2 ref_slices ref_slab ref_lib ref_signed_floor log_base (packet_of 9 True [2])
      (depay_flush ref_slab ?st) [] = Panicked"
    by (rule depay_flush_pending_panics) (simp_all add: parsing_state_def default_state_def packet_of_def)
  ultimately show ?thesis by blast
qed

end
