(* ===== verification/Vp8_Descriptor.thy ===== *)
theory Vp8_Descriptor
  imports Bitstream
begin

text \<open>
  The VP8 payload descriptor, \<^verbatim>\<open>net/rtp/src/vp8/payload_descriptor.rs\<close>: its parser, its writer and the
  picture identifiers, which the VP9 descriptor has as well.
\<close>

section \<open>Picture identifiers\<close>

datatype picture_id_mode = NoPictureId | SevenBitMode | FifteenBitMode

datatype picture_id = SevenBit u8 | FifteenBit u16

fun PictureId_new :: "picture_id_mode \<Rightarrow> u16 \<Rightarrow> picture_id option" where
  "PictureId_new NoPictureId v = None"
| "PictureId_new SevenBitMode v = Some (SevenBit (ucast (v AND 0x7f)))"
| "PictureId_new FifteenBitMode v = Some (FifteenBit (v AND 0x7fff))"

text \<open>The additions are checked: the largest value of the type panics.\<close>

fun PictureId_increment :: "picture_id \<Rightarrow> picture_id option" where
  "PictureId_increment (SevenBit v) = (if v = 0xff then None else Some (SevenBit ((v + 1) AND 0x7f)))"
| "PictureId_increment (FifteenBit v) = (if v = 0xffff then None else Some (FifteenBit ((v + 1) AND 0x7fff)))"

fun PictureId_update_mode :: "picture_id \<Rightarrow> picture_id_mode \<Rightarrow> picture_id" where
  "PictureId_update_mode p NoPictureId = p"
| "PictureId_update_mode (SevenBit v) SevenBitMode = SevenBit v"
| "PictureId_update_mode (FifteenBit v) FifteenBitMode = FifteenBit v"
| "PictureId_update_mode (SevenBit v) FifteenBitMode = FifteenBit (ucast v)"
| "PictureId_update_mode (FifteenBit v) SevenBitMode = SevenBit (ucast (v AND 0x7f))"

fun PictureId_into_u16 :: "picture_id \<Rightarrow> u16" where
  "PictureId_into_u16 (SevenBit v) = ucast v"
| "PictureId_into_u16 (FifteenBit v) = v"

fun PictureId_eq :: "picture_id \<Rightarrow> picture_id \<Rightarrow> bool" where
  "PictureId_eq (SevenBit s) (SevenBit t) \<longleftrightarrow> s = t"
| "PictureId_eq (SevenBit s) (FifteenBit t) \<longleftrightarrow> s = ucast (t AND 0x7f)"
| "PictureId_eq (FifteenBit s) (SevenBit t) \<longleftrightarrow> ucast (s AND 0x7f) = t"
| "PictureId_eq (FifteenBit s) (FifteenBit t) \<longleftrightarrow> s = t"

definition PictureId_from_reader :: "'r byte_reader \<Rightarrow> 'r \<Rightarrow> (anyhow, picture_id, 'r) io" where
  "PictureId_from_reader R r =
     io_try (io_context ''picture_id'' (rd_u8 R r)) (\<lambda>pid r.
       if pid AND 0x80 \<noteq> 0 then
         io_try (io_context ''extended_pid'' (rd_u8 R r)) (\<lambda>ext_pid r.
           (Inr (FifteenBit (push_bit 8 (ucast (pid AND NOT 0x80)) OR ucast ext_pid)), r))
       else (Inr (SevenBit pid), r))"

fun PictureId_to_writer :: "'w byte_writer \<Rightarrow> picture_id \<Rightarrow> 'w \<Rightarrow> (anyhow, unit, 'w) io" where
  "PictureId_to_writer W (SevenBit v) w = io_context ''picture_id'' (wr_u8 W v w)"
| "PictureId_to_writer W (FifteenBit v) w =
     io_try (io_context ''picture_id'' (wr_u8 W (0x80 OR ucast (drop_bit 8 v)) w)) (\<lambda>_ w.
       io_context ''extended_pid'' (wr_u8 W (ucast (v AND 0xff)) w))"

section \<open>The descriptor\<close>

record layer_id =
  li_id :: u8
  li_sync :: bool

record vp8_descriptor =
  non_reference_frame :: bool
  start_of_partition :: bool
  partition_index :: u8
  vp8_picture_id :: "picture_id option"
  temporal_layer_zero_index :: "u8 option"
  temporal_layer_id :: "layer_id option"
  key_index :: "u8 option"

definition vp8_from_reader :: "'r byte_reader \<Rightarrow> 'r \<Rightarrow> (anyhow, vp8_descriptor, 'r) io" where
  "vp8_from_reader R r =
     io_try (io_context ''flags'' (rd_u8 R r)) (\<lambda>flags r.
     io_try (if flags AND 0x80 \<noteq> 0 then io_context ''ext_flags'' (rd_u8 R r) else (Inr 0, r)) (\<lambda>ext_flags r.
     io_try (if ext_flags AND 0x80 \<noteq> 0
       then map_ok Some (with_context ''picture_id'' (PictureId_from_reader R r)) else (Inr None, r))
       (\<lambda>picture_id r.
     io_try (if ext_flags AND 0x40 \<noteq> 0
       then map_ok Some (io_context ''temporal_layer_zero_index'' (rd_u8 R r)) else (Inr None, r))
       (\<lambda>tl0 r.
     io_try (if ext_flags AND 0x20 \<noteq> 0 \<or> ext_flags AND 0x10 \<noteq> 0 then
         io_try (io_context ''tid_y_keyidx'' (rd_u8 R r)) (\<lambda>b r.
           (Inr (if ext_flags AND 0x20 \<noteq> 0
                 then Some \<lparr>li_id = drop_bit 6 b, li_sync = b AND 0x20 \<noteq> 0\<rparr> else None,
                 if ext_flags AND 0x10 \<noteq> 0 then Some (b AND 0x1f) else None), r))
       else (Inr (None, None), r))
       (\<lambda>(tid, key) r.
     (Inr \<lparr>non_reference_frame = flags AND 0x20 \<noteq> 0, start_of_partition = flags AND 0x10 \<noteq> 0,
        partition_index = flags AND 0x07, vp8_picture_id = picture_id, temporal_layer_zero_index = tl0,
        temporal_layer_id = tid, key_index = key\<rparr>, r))))))"

definition vp8_flags :: "vp8_descriptor \<Rightarrow> u8" where
  "vp8_flags self = (if non_reference_frame self then 0x20 else 0)
     OR (if start_of_partition self then 0x10 else 0)
     OR (if vp8_picture_id self \<noteq> None \<or> temporal_layer_id self \<noteq> None
           \<or> temporal_layer_zero_index self \<noteq> None \<or> key_index self \<noteq> None then 0x80 else 0)
     OR partition_index self"

definition vp8_ext_flags :: "vp8_descriptor \<Rightarrow> u8" where
  "vp8_ext_flags self = (if vp8_picture_id self \<noteq> None then 0x80 else 0)
     OR (if temporal_layer_zero_index self \<noteq> None then 0x40 else 0)
     OR (if temporal_layer_id self \<noteq> None then 0x20 else 0)
     OR (if key_index self \<noteq> None then 0x10 else 0)"

text \<open>The byte with the temporal layer and the key index, at the end of the writer.\<close>

definition vp8_write_tid_key :: "'w byte_writer \<Rightarrow> vp8_descriptor \<Rightarrow> 'w \<Rightarrow> (anyhow, unit, 'w) io" where
  "vp8_write_tid_key W self w =
     (if temporal_layer_id self \<noteq> None \<or> key_index self \<noteq> None then
        io_try (case temporal_layer_id self of None \<Rightarrow> (Inr 0, w)
          | Some l \<Rightarrow> if li_id l > 3 then bail ''Too high temporal layer id'' w
              else (Inr (push_bit 6 (li_id l) OR (if li_sync l then 0x20 else 0)), w)) (\<lambda>b w.
        io_try (case key_index self of None \<Rightarrow> (Inr b, w)
          | Some k \<Rightarrow> if k > 0x1f then bail ''Too high key index'' w else (Inr (b OR k), w)) (\<lambda>b w.
        io_context ''tid_y_keyidx'' (wr_u8 W b w)))
      else (Inr (), w))"

definition vp8_to_writer :: "'w byte_writer \<Rightarrow> vp8_descriptor \<Rightarrow> 'w \<Rightarrow> (anyhow, unit, 'w) io" where
  "vp8_to_writer W self w =
     (if partition_index self > 7 then bail ''Too large partition index'' w
      else
       io_try (io_context ''flags'' (wr_u8 W (vp8_flags self) w)) (\<lambda>_ w.
       io_try (if vp8_flags self AND 0x80 \<noteq> 0 then io_context ''ext_flags'' (wr_u8 W (vp8_ext_flags self) w)
         else (Inr (), w)) (\<lambda>_ w.
       io_try (case vp8_picture_id self of None \<Rightarrow> (Inr (), w)
         | Some picture_id \<Rightarrow> with_context ''picture_id'' (PictureId_to_writer W picture_id w)) (\<lambda>_ w.
       io_try (case temporal_layer_zero_index self of None \<Rightarrow> (Inr (), w)
         | Some i \<Rightarrow> io_context ''temporal_layer_zero_index'' (wr_u8 W i w)) (\<lambda>_ w.
       vp8_write_tid_key W self w)))))"

text \<open>\<^verbatim>\<open>size\<close> writes to a counter \<open>w0\<close> and answers its \<open>count\<close>.\<close>

definition vp8_size :: "'w byte_writer \<Rightarrow> ('w \<Rightarrow> nat) \<Rightarrow> 'w \<Rightarrow> vp8_descriptor \<Rightarrow> anyhow + nat" where
  "vp8_size W count w0 self =
     (case vp8_to_writer W self w0 of (Inl e, _) \<Rightarrow> Inl e | (Inr _, w) \<Rightarrow> Inr (count w))"

section \<open>Picture identifiers in range\<close>

fun PictureId_ok :: "picture_id \<Rightarrow> bool" where
  "PictureId_ok (SevenBit v) \<longleftrightarrow> v < 0x80"
| "PictureId_ok (FifteenBit v) \<longleftrightarrow> v < 0x8000"

fun PictureId_bytes :: "picture_id \<Rightarrow> u8 list" where
  "PictureId_bytes (SevenBit v) = [v]"
| "PictureId_bytes (FifteenBit v) = [0x80 OR ucast (drop_bit 8 v), ucast (v AND 0xff)]"

context byte_writer_spec
begin

lemma writes_PictureId [writes_intros]: "writes written (PictureId_to_writer W p) (PictureId_bytes p)"
proof (cases p)
  case (SevenBit v)
  have "PictureId_to_writer W p = (\<lambda>w. io_context ''picture_id'' (wr_u8 W v w))"
    by (rule ext) (simp add: SevenBit)
  then show ?thesis using SevenBit by (simp add: writes_intros)
next
  case (FifteenBit v)
  have "PictureId_to_writer W p = (\<lambda>w. io_try (io_context ''picture_id'' (wr_u8 W (0x80 OR ucast (drop_bit 8 v)) w))
      (\<lambda>_ w. io_context ''extended_pid'' (wr_u8 W (ucast (v AND 0xff)) w)))"
    by (rule ext) (simp add: FifteenBit)
  moreover have "writes written \<dots> ([0x80 OR ucast (drop_bit 8 v)] @ [ucast (v AND 0xff)])"
    by (intro writes_intros)
  ultimately show ?thesis using FifteenBit by simp
qed

end

lemma PictureId_fifteen_bits:
  assumes "v < 0x8000"
  shows "push_bit 8 (ucast ((0x80 OR ucast (drop_bit 8 v) :: u8) AND NOT 0x80)) OR ucast (ucast (v AND 0xff) :: u8) = (v :: u16)"
proof -
  have "\<forall>k \<ge> 15. \<not> bit v k"
    using assms unat_high_bits [of v 15] by (simp add: word_less_nat_alt)
  then show ?thesis by (intro bit_eqI) (auto simp: byte_bits not_le)
qed

context byte_reader_spec
begin

lemma reads_PictureId [reads_intros]:
  assumes "PictureId_ok p"
  shows "reads rest (PictureId_from_reader R) (PictureId_bytes p) p"
proof (cases p)
  case (SevenBit v)
  with assms have v: "v AND 0x80 = 0" by (simp add: u8_and_bit u8_below)
  have "reads rest (PictureId_from_reader R) ([v] @ []) p"
    unfolding PictureId_from_reader_def [abs_def]
    by (rule reads_try [OF reads_io_context [OF reads_u8]]) (simp add: v SevenBit reads_return)
  then show ?thesis using SevenBit by simp
next
  case (FifteenBit v)
  let ?a = "0x80 OR ucast (drop_bit 8 v) :: u8" and ?b = "ucast (v AND 0xff) :: u8"
  have a: "?a AND 0x80 \<noteq> 0" by (simp add: u8_and_bit byte_bits)
  have v: "push_bit 8 (ucast (?a AND NOT 0x80)) OR ucast ?b = v"
    by (rule PictureId_fifteen_bits) (use assms FifteenBit in simp)
  have "reads rest (\<lambda>r. io_try (io_context ''extended_pid'' (rd_u8 R r)) (\<lambda>ext_pid r.
      (Inr (FifteenBit (push_bit 8 (ucast (?a AND NOT 0x80)) OR ucast ext_pid)), r))) ([?b] @ [])
      (FifteenBit (push_bit 8 (ucast (?a AND NOT 0x80)) OR ucast ?b))"
    by (intro reads_try [OF reads_io_context [OF reads_u8]] reads_return)
  with a have "reads rest (PictureId_from_reader R) ([?a] @ [?b]) (FifteenBit v)"
    unfolding PictureId_from_reader_def [abs_def]
    by (intro reads_try [OF reads_io_context [OF reads_u8]]) (simp only: v append_Nil2 if_True simp_thms)
  then show ?thesis using FifteenBit by simp
qed

end

section \<open>Descriptors in range\<close>

definition vp8_ok :: "vp8_descriptor \<Rightarrow> bool" where
  "vp8_ok d \<longleftrightarrow> partition_index d \<le> 7
     \<and> (case vp8_picture_id d of None \<Rightarrow> True | Some p \<Rightarrow> PictureId_ok p)
     \<and> (case temporal_layer_id d of None \<Rightarrow> True | Some l \<Rightarrow> li_id l \<le> 3)
     \<and> (case key_index d of None \<Rightarrow> True | Some k \<Rightarrow> k \<le> 31)"

definition vp8_tid_key :: "vp8_descriptor \<Rightarrow> u8" where
  "vp8_tid_key d =
     (case temporal_layer_id d of None \<Rightarrow> 0
      | Some l \<Rightarrow> push_bit 6 (li_id l) OR (if li_sync l then 0x20 else 0))
     OR (case key_index d of None \<Rightarrow> 0 | Some k \<Rightarrow> k)"

definition vp8_bytes :: "vp8_descriptor \<Rightarrow> u8 list" where
  "vp8_bytes d = [vp8_flags d]
     @ (if vp8_flags d AND 0x80 \<noteq> 0 then [vp8_ext_flags d] else [])
     @ (case vp8_picture_id d of None \<Rightarrow> [] | Some p \<Rightarrow> PictureId_bytes p)
     @ (case temporal_layer_zero_index d of None \<Rightarrow> [] | Some i \<Rightarrow> [i])
     @ (if temporal_layer_id d \<noteq> None \<or> key_index d \<noteq> None then [vp8_tid_key d] else [])"

lemma vp8_flags_bits:
  assumes "partition_index d \<le> 7"
  shows "vp8_flags d AND 0x80 \<noteq> 0 \<longleftrightarrow> vp8_picture_id d \<noteq> None \<or> temporal_layer_id d \<noteq> None
       \<or> temporal_layer_zero_index d \<noteq> None \<or> key_index d \<noteq> None"
    "vp8_flags d AND 0x20 \<noteq> 0 \<longleftrightarrow> non_reference_frame d"
    "vp8_flags d AND 0x10 \<noteq> 0 \<longleftrightarrow> start_of_partition d"
    "vp8_flags d AND 0x07 = partition_index d"
proof -
  have p: "\<forall>k \<ge> 3. \<not> bit (partition_index d) k" using assms u8_below(4) by (auto simp: not_less [symmetric])
  show "vp8_flags d AND 0x80 \<noteq> 0 \<longleftrightarrow> vp8_picture_id d \<noteq> None \<or> temporal_layer_id d \<noteq> None
       \<or> temporal_layer_zero_index d \<noteq> None \<or> key_index d \<noteq> None"
    "vp8_flags d AND 0x20 \<noteq> 0 \<longleftrightarrow> non_reference_frame d"
    "vp8_flags d AND 0x10 \<noteq> 0 \<longleftrightarrow> start_of_partition d"
    using p by (auto simp: u8_and_bit vp8_flags_def byte_bits)
  show "vp8_flags d AND 0x07 = partition_index d"
    using p by (intro bit_eqI) (auto simp: vp8_flags_def byte_bits not_le)
qed

lemma vp8_ext_flags_bits:
  "vp8_ext_flags d AND 0x80 \<noteq> 0 \<longleftrightarrow> vp8_picture_id d \<noteq> None"
  "vp8_ext_flags d AND 0x40 \<noteq> 0 \<longleftrightarrow> temporal_layer_zero_index d \<noteq> None"
  "vp8_ext_flags d AND 0x20 \<noteq> 0 \<longleftrightarrow> temporal_layer_id d \<noteq> None"
  "vp8_ext_flags d AND 0x10 \<noteq> 0 \<longleftrightarrow> key_index d \<noteq> None"
  by (auto simp: u8_and_bit vp8_ext_flags_def byte_bits)

lemma vp8_tid_key_bits:
  assumes "vp8_ok d"
  shows "temporal_layer_id d = Some l \<Longrightarrow> drop_bit 6 (vp8_tid_key d) = li_id l"
    "temporal_layer_id d = Some l \<Longrightarrow> vp8_tid_key d AND 0x20 \<noteq> 0 \<longleftrightarrow> li_sync l"
    "key_index d = Some k \<Longrightarrow> vp8_tid_key d AND 0x1f = k"
proof -
  have k: "\<forall>j \<ge> 5. \<not> bit k j" if "key_index d = Some k" for k
    using assms that u8_below(3) [of k] by (auto simp: vp8_ok_def not_less [symmetric])
  have l: "\<forall>j \<ge> 2. \<not> bit (li_id l) j" if "temporal_layer_id d = Some l" for l
    using assms that u8_below(5) [of "li_id l"] by (auto simp: vp8_ok_def not_less [symmetric])
  show "drop_bit 6 (vp8_tid_key d) = li_id l" if "temporal_layer_id d = Some l"
    using that l [OF that] k
    by (intro bit_eqI) (auto simp: vp8_tid_key_def byte_bits not_le split: option.splits)
  show "vp8_tid_key d AND 0x20 \<noteq> 0 \<longleftrightarrow> li_sync l" if "temporal_layer_id d = Some l"
    using that k by (auto simp: vp8_tid_key_def u8_and_bit byte_bits split: option.splits)
  show "vp8_tid_key d AND 0x1f = k" if "key_index d = Some k"
    using that k [OF that]
    by (intro bit_eqI) (auto simp: vp8_tid_key_def byte_bits not_le split: option.splits)
qed

context byte_writer_spec
begin

lemma writes_vp8_tid_key:
  assumes "vp8_ok d"
  shows "writes written (vp8_write_tid_key W d)
    (if temporal_layer_id d \<noteq> None \<or> key_index d \<noteq> None then [vp8_tid_key d] else [])"
proof -
  have "vp8_write_tid_key W d = (if temporal_layer_id d \<noteq> None \<or> key_index d \<noteq> None
      then (\<lambda>w. io_context ''tid_y_keyidx'' (wr_u8 W (vp8_tid_key d) w)) else (\<lambda>w. (Inr (), w)))"
    using assms by (auto simp: fun_eq_iff vp8_write_tid_key_def vp8_ok_def vp8_tid_key_def
        not_less [symmetric] split: option.splits)
  then show ?thesis by (simp add: writes_intros)
qed

lemma writes_vp8:
  assumes "vp8_ok d"
  shows "writes written (vp8_to_writer W d) (vp8_bytes d)"
proof -
  have "vp8_to_writer W d = (\<lambda>w. io_try (io_context ''flags'' (wr_u8 W (vp8_flags d) w)) (\<lambda>_ w.
       io_try (if vp8_flags d AND 0x80 \<noteq> 0 then io_context ''ext_flags'' (wr_u8 W (vp8_ext_flags d) w)
         else (Inr (), w)) (\<lambda>_ w.
       io_try (case vp8_picture_id d of None \<Rightarrow> (Inr (), w)
         | Some picture_id \<Rightarrow> with_context ''picture_id'' (PictureId_to_writer W picture_id w)) (\<lambda>_ w.
       io_try (case temporal_layer_zero_index d of None \<Rightarrow> (Inr (), w)
         | Some i \<Rightarrow> io_context ''temporal_layer_zero_index'' (wr_u8 W i w)) (\<lambda>_. vp8_write_tid_key W d)))))"
    using assms by (auto simp: fun_eq_iff vp8_to_writer_def vp8_ok_def not_less [symmetric])
  moreover have "writes written \<dots> (vp8_bytes d)"
    unfolding vp8_bytes_def
    by (intro writes_try writes_vp8_tid_key assms writes_optional writes_if writes_io_context
        writes_context writes_u8 writes_PictureId writes_return)
  ultimately show ?thesis by simp
qed

end

context byte_reader_spec
begin

lemma reads_vp8_tid_key:
  assumes "vp8_ok d" and "t \<longleftrightarrow> temporal_layer_id d \<noteq> None" and "k \<longleftrightarrow> key_index d \<noteq> None"
  shows "reads rest (\<lambda>r. if t \<or> k then
         io_try (io_context ''tid_y_keyidx'' (rd_u8 R r)) (\<lambda>b r.
           (Inr (if t then Some \<lparr>li_id = drop_bit 6 b, li_sync = b AND 0x20 \<noteq> 0\<rparr> else None,
                 if k then Some (b AND 0x1f) else None), r))
       else (Inr (None, None), r))
    (if temporal_layer_id d \<noteq> None \<or> key_index d \<noteq> None then [vp8_tid_key d] else [])
    (temporal_layer_id d, key_index d)"
proof (cases "t \<or> k")
  case True
  have "reads rest (\<lambda>r. io_try (io_context ''tid_y_keyidx'' (rd_u8 R r)) (\<lambda>b r.
           (Inr (if t then Some \<lparr>li_id = drop_bit 6 b, li_sync = b AND 0x20 \<noteq> 0\<rparr> else None,
                 if k then Some (b AND 0x1f) else None), r)))
    ([vp8_tid_key d] @ [])
    (if t then Some \<lparr>li_id = drop_bit 6 (vp8_tid_key d), li_sync = vp8_tid_key d AND 0x20 \<noteq> 0\<rparr> else None,
     if k then Some (vp8_tid_key d AND 0x1f) else None)"
    by (intro reads_try [OF reads_io_context [OF reads_u8]] reads_return)
  moreover have "(if t then Some \<lparr>li_id = drop_bit 6 (vp8_tid_key d), li_sync = vp8_tid_key d AND 0x20 \<noteq> 0\<rparr> else None)
      = temporal_layer_id d"
    using assms(2) vp8_tid_key_bits(1,2) [OF assms(1)] by (cases "temporal_layer_id d") auto
  moreover have "(if k then Some (vp8_tid_key d AND 0x1f) else None) = key_index d"
    using assms(3) vp8_tid_key_bits(3) [OF assms(1)] by (cases "key_index d") auto
  ultimately show ?thesis using True assms(2,3) by simp
next
  case False
  with assms(2,3) show ?thesis by (simp add: reads_return)
qed

lemma reads_vp8:
  assumes "vp8_ok d"
  shows "reads rest (vp8_from_reader R) (vp8_bytes d) d"
proof -
  have p: "partition_index d \<le> 7" using assms by (simp add: vp8_ok_def)
  define ext where "ext = (if vp8_flags d AND 0x80 \<noteq> 0 then vp8_ext_flags d else 0)"
  have ext: "ext AND 0x80 \<noteq> 0 \<longleftrightarrow> vp8_picture_id d \<noteq> None"
    "ext AND 0x40 \<noteq> 0 \<longleftrightarrow> temporal_layer_zero_index d \<noteq> None"
    "ext AND 0x20 \<noteq> 0 \<longleftrightarrow> temporal_layer_id d \<noteq> None" "ext AND 0x10 \<noteq> 0 \<longleftrightarrow> key_index d \<noteq> None"
    using vp8_ext_flags_bits [of d] vp8_flags_bits(1) [OF p] unfolding ext_def by auto
  have ext_flags: "reads rest (\<lambda>r. if vp8_flags d AND 0x80 \<noteq> 0 then io_context ''ext_flags'' (rd_u8 R r) else (Inr 0, r))
      (if vp8_flags d AND 0x80 \<noteq> 0 then [vp8_ext_flags d] else []) ext"
    by (simp add: ext_def reads_return reads_io_context reads_u8)
  have pid: "reads rest (\<lambda>r. if ext AND 0x80 \<noteq> 0
      then map_ok Some (with_context ''picture_id'' (PictureId_from_reader R r)) else (Inr None, r))
      (case vp8_picture_id d of None \<Rightarrow> [] | Some p \<Rightarrow> PictureId_bytes p) (vp8_picture_id d)"
    by (rule reads_optional [OF ext(1)])
       (use assms in \<open>auto simp: vp8_ok_def intro!: reads_context reads_PictureId\<close>)
  have tl0: "reads rest (\<lambda>r. if ext AND 0x40 \<noteq> 0
      then map_ok Some (io_context ''temporal_layer_zero_index'' (rd_u8 R r)) else (Inr None, r))
      (case temporal_layer_zero_index d of None \<Rightarrow> [] | Some i \<Rightarrow> [i]) (temporal_layer_zero_index d)"
    by (rule reads_optional [OF ext(2)]) (intro reads_io_context reads_u8)
  have d: "\<lparr>non_reference_frame = vp8_flags d AND 0x20 \<noteq> 0,
      start_of_partition = vp8_flags d AND 0x10 \<noteq> 0, partition_index = vp8_flags d AND 0x07,
      vp8_picture_id = vp8_picture_id d, temporal_layer_zero_index = temporal_layer_zero_index d,
      temporal_layer_id = temporal_layer_id d, key_index = key_index d\<rparr> = d"
    unfolding vp8_flags_bits [OF p] by simp
  have "vp8_bytes d = [vp8_flags d]
     @ (if vp8_flags d AND 0x80 \<noteq> 0 then [vp8_ext_flags d] else [])
     @ (case vp8_picture_id d of None \<Rightarrow> [] | Some p \<Rightarrow> PictureId_bytes p)
     @ (case temporal_layer_zero_index d of None \<Rightarrow> [] | Some i \<Rightarrow> [i])
     @ (if temporal_layer_id d \<noteq> None \<or> key_index d \<noteq> None then [vp8_tid_key d] else []) @ []"
    by (simp only: vp8_bytes_def append_Nil2)
  moreover have "reads rest (vp8_from_reader R) \<dots> d"
    unfolding vp8_from_reader_def [abs_def]
    by (rule reads_try [OF reads_io_context [OF reads_u8]], rule reads_try [OF ext_flags],
        rule reads_try [OF pid], rule reads_try [OF tl0],
        rule reads_try [OF reads_vp8_tid_key [OF assms ext(3,4)]])
       (simp only: prod.case d reads_return)
  ultimately show ?thesis by simp
qed

end

section \<open>Properties\<close>

lemma u8_and_le: "(b :: u8) AND m \<le> m"
  by (rule word_and_le1)

lemma drop_six: "drop_bit 6 (b :: u8) \<le> 3"
proof -
  have "unat b < 256" using unsigned_less [of b] by simp
  moreover have "unat (drop_bit 6 b) = unat b div 64"
    unfolding unat_drop_bit_eq by (simp add: drop_bit_eq_div)
  ultimately have "unat (drop_bit 6 b) \<le> 3" by linarith
  then show ?thesis by (simp add: word_le_nat_alt)
qed

lemma PictureId_parsed_ok: "PictureId_from_reader R r = (Inr p, r') \<Longrightarrow> PictureId_ok p"
proof -
  have hi: "push_bit 8 (ucast (b AND NOT 0x80)) OR ucast c < (0x8000 :: u16)" for b c :: u8
  proof -
    let ?v = "push_bit 8 (ucast (b AND NOT 0x80)) OR ucast c :: u16"
    have "\<forall>k \<ge> 15. \<not> bit ?v k" by (auto simp: byte_bits dest: bit_imp_le_length)
    then have "unat ?v < 2 ^ 15" by (simp only: unat_high_bits)
    then show ?thesis by (simp add: word_less_nat_alt)
  qed
  have lo: "b < 0x80" if "b AND 0x80 = 0" for b :: u8
  proof -
    have "\<not> bit b k" if "7 \<le> k" for k
      using \<open>b AND 0x80 = 0\<close> that bit_imp_le_length [of b k] by (cases "k = 7") (auto simp: u8_and_bit)
    then show ?thesis by (simp add: u8_below(1))
  qed
  assume "PictureId_from_reader R r = (Inr p, r')"
  then show "PictureId_ok p"
    using hi lo by (auto simp: PictureId_from_reader_def elim!: io_try_InrE split: if_splits)
qed

text \<open>Whatever bytes a VP8 payload descriptor is parsed from, its values fit their fields, so that
  writing it succeeds.\<close>

theorem vp8_parsed_in_range:
  assumes "vp8_from_reader R r = (Inr d, r')"
  shows "vp8_ok d"
proof -
  from assms obtain flags ext :: u8 and r2 pid r3 tl0 r4 tid key where
    pid: "(if ext AND 0x80 \<noteq> 0
       then map_ok Some (with_context ''picture_id'' (PictureId_from_reader R r2)) else (Inr None, r2)) = (Inr pid, r3)"
    and tk: "(if ext AND 0x20 \<noteq> 0 \<or> ext AND 0x10 \<noteq> 0 then
         io_try (io_context ''tid_y_keyidx'' (rd_u8 R r4)) (\<lambda>b r.
           (Inr (if ext AND 0x20 \<noteq> 0
                 then Some \<lparr>li_id = drop_bit 6 b, li_sync = b AND 0x20 \<noteq> 0\<rparr> else None,
                 if ext AND 0x10 \<noteq> 0 then Some (b AND 0x1f) else None), r))
       else (Inr (None, None), r4)) = (Inr (tid, key), r')"
    and d: "d = \<lparr>non_reference_frame = flags AND 0x20 \<noteq> 0, start_of_partition = flags AND 0x10 \<noteq> 0,
        partition_index = flags AND 0x07, vp8_picture_id = pid, temporal_layer_zero_index = tl0,
        temporal_layer_id = tid, key_index = key\<rparr>"
    unfolding vp8_from_reader_def
    by (elim io_try_InrE) (simp only: split_paired_all prod.case prod.inject sum.inject, blast)
  have "PictureId_ok p" if "pid = Some p" for p
    using pid that PictureId_parsed_ok [of R r2 p]
    by (cases "PictureId_from_reader R r2"; cases "fst (PictureId_from_reader R r2)") (auto split: if_splits)
  moreover have "li_id l \<le> 3" if "tid = Some l" for l
    using tk that drop_six by (auto elim!: io_try_InrE split: if_splits)
  moreover have "k \<le> 31" if "key = Some k" for k
    using tk that u8_and_le by (auto elim!: io_try_InrE split: if_splits)
  ultimately show ?thesis using u8_and_le [of flags 7] by (auto simp: d vp8_ok_def split: option.splits)
qed

theorem vp8_parsed_in_range_witness:
  "\<exists>d. vp8_from_reader ref_byte_reader [0x90, 0xf0, 0x92, 0x34, 5, 0xff] = (Inr d, []) \<and> vp8_ok d"
proof -
  obtain d where d: "vp8_from_reader ref_byte_reader [0x90, 0xf0, 0x92, 0x34, 5, 0xff] = (Inr d, [])"
    by (simp add: vp8_from_reader_def PictureId_from_reader_def ref_byte_reader_def)
  from vp8_parsed_in_range [OF d] d show ?thesis by blast
qed

definition vp8_example :: vp8_descriptor where
  "vp8_example = \<lparr>non_reference_frame = True, start_of_partition = True, partition_index = 5,
     vp8_picture_id = Some (FifteenBit 0x1234), temporal_layer_zero_index = Some 7,
     temporal_layer_id = Some \<lparr>li_id = 2, li_sync = True\<rparr>, key_index = Some 31\<rparr>"

text \<open>C24: A VP8 payload descriptor whose values fit their fields is read back as it was written, and nothing of
  what follows is consumed: the writer succeeds, its size is the number of bytes written, and the
  parser answers the descriptor.\<close>

theorem vp8_round_trip:
  assumes "byte_reader_spec R rest" and "byte_writer_spec W written" and "vp8_ok d"
  shows "\<exists>w' bs. vp8_to_writer W d w = (Inr (), w') \<and> written w' = written w @ bs
    \<and> (written w0 = [] \<longrightarrow> vp8_size W (length \<circ> written) w0 d = Inr (length bs))
    \<and> (\<forall>r tail. rest r = bs @ tail \<longrightarrow> (\<exists>r'. vp8_from_reader R r = (Inr d, r') \<and> rest r' = tail))"
proof -
  have w: "\<exists>w'. vp8_to_writer W d w = (Inr (), w') \<and> written w' = written w @ vp8_bytes d" for w
    using byte_writer_spec.writes_vp8 [OF assms(2,3)] by (simp add: writes_def)
  moreover have "vp8_size W (length \<circ> written) w0 d = Inr (length (vp8_bytes d))" if "written w0 = []"
    using w [of w0] that by (auto simp: vp8_size_def)
  moreover note byte_reader_spec.reads_vp8 [OF assms(1,3), unfolded reads_def]
  ultimately show ?thesis by blast
qed

theorem vp8_round_trip_witness:
  "\<exists>bs. vp8_to_writer ref_byte_writer vp8_example [] = (Inr (), bs)
    \<and> vp8_from_reader ref_byte_reader (bs @ [1, 2, 3]) = (Inr vp8_example, [1, 2, 3])"
proof -
  have "vp8_ok vp8_example" by (simp add: vp8_example_def vp8_ok_def)
  from vp8_round_trip [OF refbr.byte_reader_spec_axioms refbw.byte_writer_spec_axioms this, of "[]" "[]"]
  show ?thesis by auto
qed

end
