(* ===== verification/Vp9_Descriptor.thy ===== *)
theory Vp9_Descriptor
  imports Vp8_Descriptor
begin

text \<open>
  The VP9 payload descriptor, \<^verbatim>\<open>net/rtp/src/vp9/payload_descriptor.rs\<close>: its parser and its writer with
  those of the layer index, the scalability structure and the picture descriptions. The
  picture identifiers are those of \<^verbatim>\<open>Vp8_Descriptor\<close>: the code of the two files is the same.
\<close>

section \<open>Layer index\<close>

record layer_index =
  lx_temporal_layer_id :: u8
  lx_switching_point :: bool
  lx_spatial_layer_id :: u8
  lx_inter_layer_dependency_used :: bool
  lx_temporal_layer_zero_index :: "u8 option"

definition u8_from_bool :: "bool \<Rightarrow> u8" where
  "u8_from_bool b = (if b then 1 else 0)"

definition LayerIndex_from_reader ::
  "'r byte_reader \<Rightarrow> bool \<Rightarrow> 'r \<Rightarrow> (anyhow, layer_index, 'r) io" where
  "LayerIndex_from_reader R flexible_mode r =
     io_try (io_context ''layer_index'' (rd_u8 R r)) (\<lambda>b r.
     io_try (if \<not> flexible_mode then map_ok Some (io_context ''temporal_layer_zero_index'' (rd_u8 R r))
       else (Inr None, r)) (\<lambda>tl0 r.
     (Inr \<lparr>lx_temporal_layer_id = drop_bit 5 b, lx_switching_point = drop_bit 4 b AND 1 \<noteq> 0,
        lx_spatial_layer_id = drop_bit 1 b AND 7, lx_inter_layer_dependency_used = b AND 1 \<noteq> 0,
        lx_temporal_layer_zero_index = tl0\<rparr>, r)))"

definition LayerIndex_to_writer ::
  "'w byte_writer \<Rightarrow> layer_index \<Rightarrow> bool \<Rightarrow> 'w \<Rightarrow> (anyhow, unit, 'w) io" where
  "LayerIndex_to_writer W self flexible_mode w =
     (if lx_temporal_layer_id self > 7 then bail ''Too high temporal layer id'' w
      else if lx_spatial_layer_id self > 7 then bail ''Too high spatial layer id'' w
      else if flexible_mode \<and> lx_temporal_layer_zero_index self \<noteq> None
      then bail ''temporal_layer_zero_index can't be provided in flexible mode'' w
      else if \<not> flexible_mode \<and> lx_temporal_layer_zero_index self = None
      then bail ''temporal_layer_zero_index must be provided in non-flexible mode'' w
      else
        (let b = push_bit 5 (lx_temporal_layer_id self) OR push_bit 4 (u8_from_bool (lx_switching_point self))
               OR push_bit 1 (lx_spatial_layer_id self) OR u8_from_bool (lx_inter_layer_dependency_used self)
         in io_try (io_context ''layer_index'' (wr_u8 W b w)) (\<lambda>_ w.
            case lx_temporal_layer_zero_index self of None \<Rightarrow> (Inr (), w)
            | Some i \<Rightarrow> io_context ''temporal_layer_zero_index'' (wr_u8 W i w))))"

section \<open>Scalability structure\<close>

record picture_description =
  ds_temporal_layer_id :: u8
  ds_switching_point :: bool
  ds_reference_indices :: "u8 list"

definition PictureDescription_from_reader ::
  "'r byte_reader \<Rightarrow> 'r \<Rightarrow> (anyhow, picture_description, 'r) io" where
  "PictureDescription_from_reader R r =
     io_try (io_context ''picture_description'' (rd_u8 R r)) (\<lambda>b r.
     io_try (rd_times (unat (drop_bit 2 b AND 3)) (\<lambda>r. io_context ''reference_indices'' (rd_u8 R r)) r) (\<lambda>refs r.
     (Inr \<lparr>ds_temporal_layer_id = drop_bit 5 b, ds_switching_point = drop_bit 4 b AND 1 \<noteq> 0,
        ds_reference_indices = refs\<rparr>, r)))"

definition PictureDescription_to_writer ::
  "'w byte_writer \<Rightarrow> picture_description \<Rightarrow> 'w \<Rightarrow> (anyhow, unit, 'w) io" where
  "PictureDescription_to_writer W self w =
     (if ds_temporal_layer_id self > 7 then bail ''Too high temporal layer id'' w
      else if length (ds_reference_indices self) > 3 then bail ''Too many reference indices'' w
      else
        (let b = push_bit 5 (ds_temporal_layer_id self) OR push_bit 4 (u8_from_bool (ds_switching_point self))
               OR push_bit 2 (word_of_nat (length (ds_reference_indices self)))
         in io_try (io_context ''picture_description'' (wr_u8 W b w)) (\<lambda>_ w.
            wr_each (\<lambda>i w. io_context ''reference_indices'' (wr_u8 W i w)) (ds_reference_indices self) w)))"

record scalability_structure =
  num_spatial_layers :: u8
  spatial_layer_frame_resolutions :: "(u16 \<times> u16) list"
  picture_descriptions :: "picture_description list"

definition rd_resolution :: "'r byte_reader \<Rightarrow> 'r \<Rightarrow> (anyhow, u16 \<times> u16, 'r) io" where
  "rd_resolution R r =
     io_try (io_context ''width'' (rd_u16_be R r)) (\<lambda>width r.
     io_try (io_context ''height'' (rd_u16_be R r)) (\<lambda>height r. (Inr (width, height), r)))"

text \<open>The sum with one is checked; a number of three bits keeps it from overflowing.\<close>

definition ScalabilityStructure_from_reader ::
  "'r byte_reader \<Rightarrow> 'r \<Rightarrow> (anyhow, scalability_structure, 'r) io" where
  "ScalabilityStructure_from_reader R r =
     io_try (io_context ''scalability_structure'' (rd_u8 R r)) (\<lambda>b r.
     let num_spatial_layers = drop_bit 5 b + 1 in
     io_try (if b AND 0x10 \<noteq> 0 then rd_times (unat num_spatial_layers) (rd_resolution R) r
       else (Inr [], r)) (\<lambda>resolutions r.
     io_try (if b AND 0x08 \<noteq> 0 then map_ok Some (io_context ''num_pictures_in_group'' (rd_u8 R r))
       else (Inr None, r)) (\<lambda>num_pictures_in_group r.
     io_try (case num_pictures_in_group of None \<Rightarrow> (Inr [], r)
       | Some n \<Rightarrow> rd_times (unat n)
           (\<lambda>r. with_context ''picture_description'' (PictureDescription_from_reader R r)) r) (\<lambda>descriptions r.
     (Inr \<lparr>num_spatial_layers = num_spatial_layers, spatial_layer_frame_resolutions = resolutions,
        picture_descriptions = descriptions\<rparr>, r)))))"

definition wr_resolution :: "'w byte_writer \<Rightarrow> u16 \<times> u16 \<Rightarrow> 'w \<Rightarrow> (anyhow, unit, 'w) io" where
  "wr_resolution W wh w =
     io_try (io_context ''width'' (wr_u16_be W (fst wh) w)) (\<lambda>_ w.
     io_context ''height'' (wr_u16_be W (snd wh) w))"

definition scalability_byte :: "scalability_structure \<Rightarrow> u8" where
  "scalability_byte self = push_bit 5 (num_spatial_layers self - 1)
     OR (if spatial_layer_frame_resolutions self \<noteq> [] then 0x10 else 0)
     OR (if picture_descriptions self \<noteq> [] then 0x08 else 0)"

definition ScalabilityStructure_to_writer ::
  "'w byte_writer \<Rightarrow> scalability_structure \<Rightarrow> 'w \<Rightarrow> (anyhow, unit, 'w) io" where
  "ScalabilityStructure_to_writer W self w =
     (if num_spatial_layers self = 0 then bail ''Zero spatial layers not allowed'' w
      else if num_spatial_layers self - 1 > 7 then bail ''Too many spatial layers'' w
      else if length (picture_descriptions self) > 255 then bail ''Too many picture descriptions'' w
      else
        io_try (io_context ''scalability_structure'' (wr_u8 W (scalability_byte self) w)) (\<lambda>_ w.
        io_try (wr_each (wr_resolution W) (spatial_layer_frame_resolutions self) w) (\<lambda>_ w.
        io_try (if picture_descriptions self \<noteq> []
          then io_context ''num_pictures_in_group'' (wr_u8 W (word_of_nat (length (picture_descriptions self))) w)
          else (Inr (), w)) (\<lambda>_ w.
        wr_each (\<lambda>p w. with_context ''picture_description'' (PictureDescription_to_writer W p w))
          (picture_descriptions self) w))))"

section \<open>The descriptor\<close>

record vp9_descriptor =
  vp9_picture_id :: "picture_id option"
  vp9_layer_index :: "layer_index option"
  inter_picture_predicted_frame :: bool
  flexible_mode :: bool
  reference_indices :: "u8 list"
  start_of_frame :: bool
  end_of_frame :: bool
  vp9_scalability_structure :: "scalability_structure option"
  not_reference_frame_for_upper_layers :: bool

text \<open>The loop over \<^verbatim>\<open>0..3\<close> that reads the reference indices.\<close>

function rd_references :: "'r byte_reader \<Rightarrow> nat \<Rightarrow> u8 list \<Rightarrow> 'r \<Rightarrow> (anyhow, u8 list, 'r) io" where
  "rd_references R n refs r =
     (if n < 3 then
        io_try (io_context ''p_diff'' (rd_u8 R r)) (\<lambda>p_diff r.
          if n = 3 \<and> p_diff AND 1 \<noteq> 0 then bail ''More than 3 reference indices'' r
          else
            (let refs = refs @ [drop_bit 1 p_diff]
             in if p_diff AND 1 = 0 then (Inr refs, r) else rd_references R (n + 1) refs r))
      else (Inr refs, r))"
  by pat_completeness auto
termination
  by (relation "measure (\<lambda>(_, n, _). 3 - n)") auto

declare rd_references.simps [simp del]

definition vp9_from_reader :: "'r byte_reader \<Rightarrow> 'r \<Rightarrow> (anyhow, vp9_descriptor, 'r) io" where
  "vp9_from_reader R r =
     io_try (io_context ''flags'' (rd_u8 R r)) (\<lambda>flags r.
     io_try (if flags AND 0x80 \<noteq> 0
       then map_ok Some (with_context ''picture_id'' (PictureId_from_reader R r)) else (Inr None, r))
       (\<lambda>picture_id r.
     let inter_picture_predicted_frame = flags AND 0x40 \<noteq> 0; flexible_mode = flags AND 0x10 \<noteq> 0 in
     io_try (if flags AND 0x20 \<noteq> 0
       then map_ok Some (with_context ''layer_index'' (LayerIndex_from_reader R flexible_mode r))
       else (Inr None, r)) (\<lambda>layer_index r.
     io_try (if inter_picture_predicted_frame \<and> flexible_mode then rd_references R 0 [] r
       else (Inr [], r)) (\<lambda>references r.
     io_try (if flags AND 0x02 \<noteq> 0
       then map_ok Some (with_context ''scalability_structure'' (ScalabilityStructure_from_reader R r))
       else (Inr None, r)) (\<lambda>scalability_structure r.
     (Inr \<lparr>vp9_picture_id = picture_id, vp9_layer_index = layer_index,
        inter_picture_predicted_frame = inter_picture_predicted_frame, flexible_mode = flexible_mode,
        reference_indices = references, start_of_frame = flags AND 0x08 \<noteq> 0, end_of_frame = flags AND 0x04 \<noteq> 0,
        vp9_scalability_structure = scalability_structure,
        not_reference_frame_for_upper_layers = flags AND 0x01 \<noteq> 0\<rparr>, r))))))"

definition vp9_flags :: "vp9_descriptor \<Rightarrow> u8" where
  "vp9_flags self = (if vp9_picture_id self \<noteq> None then 0x80 else 0)
     OR (if inter_picture_predicted_frame self then 0x40 else 0)
     OR (if flexible_mode self then 0x10 else 0)
     OR (if vp9_layer_index self \<noteq> None then 0x20 else 0)
     OR (if start_of_frame self then 0x08 else 0)
     OR (if end_of_frame self then 0x04 else 0)
     OR (if not_reference_frame_for_upper_layers self then 0x01 else 0)
     OR (if vp9_scalability_structure self \<noteq> None then 0x02 else 0)"

text \<open>The loop over the reference indices, of which there are \<open>len\<close>.\<close>

fun wr_references ::
  "'w byte_writer \<Rightarrow> nat \<Rightarrow> nat \<Rightarrow> u8 list \<Rightarrow> 'w \<Rightarrow> (anyhow, unit, 'w) io" where
  "wr_references W len i [] w = (Inr (), w)"
| "wr_references W len i (reference_index # refs) w =
     (if reference_index > 0x7f then bail ''Too high reference index'' w
      else
        (let b = (if i = len - 1 then 0x01 else 0) OR reference_index
         in io_try (io_context ''reference_index'' (wr_u8 W b w)) (\<lambda>_ w.
            wr_references W len (i + 1) refs w)))"

definition vp9_to_writer :: "'w byte_writer \<Rightarrow> vp9_descriptor \<Rightarrow> 'w \<Rightarrow> (anyhow, unit, 'w) io" where
  "vp9_to_writer W self w =
     (if length (reference_indices self) > 3 then bail ''Too many reference indices'' w
      else if inter_picture_predicted_frame self \<and> flexible_mode self \<and> reference_indices self = []
      then bail ''Reference indices required'' w
      else
        io_try (io_context ''flags'' (wr_u8 W (vp9_flags self) w)) (\<lambda>_ w.
        io_try (case vp9_picture_id self of None \<Rightarrow> (Inr (), w)
          | Some picture_id \<Rightarrow> with_context ''picture_id'' (PictureId_to_writer W picture_id w)) (\<lambda>_ w.
        io_try (case vp9_layer_index self of None \<Rightarrow> (Inr (), w)
          | Some layer_index \<Rightarrow>
              with_context ''layer_index'' (LayerIndex_to_writer W layer_index (flexible_mode self) w)) (\<lambda>_ w.
        io_try (wr_references W (length (reference_indices self)) 0 (reference_indices self) w) (\<lambda>_ w.
        case vp9_scalability_structure self of None \<Rightarrow> (Inr (), w)
        | Some s \<Rightarrow> with_context ''scalability_structure'' (ScalabilityStructure_to_writer W s w))))))"

definition vp9_size :: "'w byte_writer \<Rightarrow> ('w \<Rightarrow> nat) \<Rightarrow> 'w \<Rightarrow> vp9_descriptor \<Rightarrow> anyhow + nat" where
  "vp9_size W count w0 self =
     (case vp9_to_writer W self w0 of (Inl e, _) \<Rightarrow> Inl e | (Inr _, w) \<Rightarrow> Inr (count w))"

end
