(* ===== verification/Vp9_Facts.thy ===== *)
theory Vp9_Facts
  imports Vp9_Descriptor
begin

text \<open>
  What is written is read back: the parts of the VP9 payload descriptor, and the descriptor of every
  frame without reference indices. Reference indices are not read back.
\<close>

section \<open>Layer index\<close>

definition LayerIndex_ok :: "bool \<Rightarrow> layer_index \<Rightarrow> bool" where
  "LayerIndex_ok flexible l \<longleftrightarrow> lx_temporal_layer_id l \<le> 7 \<and> lx_spatial_layer_id l \<le> 7
     \<and> (flexible \<longleftrightarrow> lx_temporal_layer_zero_index l = None)"

definition LayerIndex_byte :: "layer_index \<Rightarrow> u8" where
  "LayerIndex_byte l = push_bit 5 (lx_temporal_layer_id l) OR push_bit 4 (u8_from_bool (lx_switching_point l))
     OR push_bit 1 (lx_spatial_layer_id l) OR u8_from_bool (lx_inter_layer_dependency_used l)"

definition LayerIndex_bytes :: "layer_index \<Rightarrow> u8 list" where
  "LayerIndex_bytes l = [LayerIndex_byte l]
     @ (case lx_temporal_layer_zero_index l of None \<Rightarrow> [] | Some i \<Rightarrow> [i])"

lemma u8_three_bits: "(v :: u8) \<le> 7 \<Longrightarrow> \<forall>k \<ge> 3. \<not> bit v k"
  using u8_below(4) [of v] by (auto simp: not_less [symmetric])

lemma bit_u8_from_bool: "bit (u8_from_bool b) k \<longleftrightarrow> b \<and> k = 0"
  by (simp add: u8_from_bool_def byte_bits)

lemma LayerIndex_byte_bits:
  assumes "LayerIndex_ok f l"
  shows "drop_bit 5 (LayerIndex_byte l) = lx_temporal_layer_id l"
    "drop_bit 4 (LayerIndex_byte l) AND 1 \<noteq> 0 \<longleftrightarrow> lx_switching_point l"
    "drop_bit 1 (LayerIndex_byte l) AND 7 = lx_spatial_layer_id l"
    "LayerIndex_byte l AND 1 \<noteq> 0 \<longleftrightarrow> lx_inter_layer_dependency_used l"
proof -
  have t: "\<forall>k \<ge> 3. \<not> bit (lx_temporal_layer_id l) k" "\<forall>k \<ge> 3. \<not> bit (lx_spatial_layer_id l) k"
    using assms by (auto simp: LayerIndex_ok_def intro!: u8_three_bits)
  show "drop_bit 5 (LayerIndex_byte l) = lx_temporal_layer_id l"
    using t by (intro bit_eqI) (auto simp: LayerIndex_byte_def byte_bits bit_u8_from_bool not_le)
  show "drop_bit 4 (LayerIndex_byte l) AND 1 \<noteq> 0 \<longleftrightarrow> lx_switching_point l"
    "LayerIndex_byte l AND 1 \<noteq> 0 \<longleftrightarrow> lx_inter_layer_dependency_used l"
    using t by (auto simp: LayerIndex_byte_def u8_and_bit byte_bits bit_u8_from_bool)
  show "drop_bit 1 (LayerIndex_byte l) AND 7 = lx_spatial_layer_id l"
    using t by (intro bit_eqI) (auto simp: LayerIndex_byte_def byte_bits bit_u8_from_bool not_le)
qed

context byte_writer_spec
begin

lemma writes_LayerIndex:
  assumes "LayerIndex_ok f l"
  shows "writes written (LayerIndex_to_writer W l f) (LayerIndex_bytes l)"
proof -
  have "LayerIndex_to_writer W l f = (\<lambda>w. io_try (io_context ''layer_index'' (wr_u8 W (LayerIndex_byte l) w)) (\<lambda>_ w.
      case lx_temporal_layer_zero_index l of None \<Rightarrow> (Inr (), w)
      | Some i \<Rightarrow> io_context ''temporal_layer_zero_index'' (wr_u8 W i w)))"
    using assms by (auto simp: fun_eq_iff LayerIndex_to_writer_def LayerIndex_ok_def LayerIndex_byte_def not_less [symmetric])
  moreover have "writes written \<dots> (LayerIndex_bytes l)"
    unfolding LayerIndex_bytes_def
    by (intro writes_try writes_optional writes_io_context writes_u8)
  ultimately show ?thesis by simp
qed

end

context byte_reader_spec
begin

lemma reads_LayerIndex:
  assumes "LayerIndex_ok f l"
  shows "reads rest (LayerIndex_from_reader R f) (LayerIndex_bytes l) l"
proof -
  have tl0: "reads rest (\<lambda>r. if \<not> f then map_ok Some (io_context ''temporal_layer_zero_index'' (rd_u8 R r)) else (Inr None, r))
      (case lx_temporal_layer_zero_index l of None \<Rightarrow> [] | Some i \<Rightarrow> [i]) (lx_temporal_layer_zero_index l)"
    by (rule reads_optional)
       (use assms in \<open>auto simp: LayerIndex_ok_def intro!: reads_io_context reads_u8\<close>)
  have l: "\<lparr>lx_temporal_layer_id = drop_bit 5 (LayerIndex_byte l),
      lx_switching_point = drop_bit 4 (LayerIndex_byte l) AND 1 \<noteq> 0,
      lx_spatial_layer_id = drop_bit 1 (LayerIndex_byte l) AND 7,
      lx_inter_layer_dependency_used = LayerIndex_byte l AND 1 \<noteq> 0,
      lx_temporal_layer_zero_index = lx_temporal_layer_zero_index l\<rparr> = l"
    unfolding LayerIndex_byte_bits [OF assms] by simp
  have "reads rest (LayerIndex_from_reader R f) ([LayerIndex_byte l]
      @ (case lx_temporal_layer_zero_index l of None \<Rightarrow> [] | Some i \<Rightarrow> [i]) @ []) l"
    unfolding LayerIndex_from_reader_def [abs_def]
    by (rule reads_try [OF reads_io_context [OF reads_u8]], rule reads_try [OF tl0]) (simp only: l reads_return)
  then show ?thesis by (simp only: LayerIndex_bytes_def append_Nil2)
qed

end

section \<open>Scalability structure\<close>

definition PictureDescription_ok :: "picture_description \<Rightarrow> bool" where
  "PictureDescription_ok p \<longleftrightarrow> ds_temporal_layer_id p \<le> 7 \<and> length (ds_reference_indices p) \<le> 3"

definition PictureDescription_byte :: "picture_description \<Rightarrow> u8" where
  "PictureDescription_byte p = push_bit 5 (ds_temporal_layer_id p)
     OR push_bit 4 (u8_from_bool (ds_switching_point p))
     OR push_bit 2 (word_of_nat (length (ds_reference_indices p)))"

definition PictureDescription_bytes :: "picture_description \<Rightarrow> u8 list" where
  "PictureDescription_bytes p = [PictureDescription_byte p] @ concat (map (\<lambda>i. [i]) (ds_reference_indices p))"

lemma PictureDescription_byte_bits:
  assumes "PictureDescription_ok p"
  shows "drop_bit 5 (PictureDescription_byte p) = ds_temporal_layer_id p"
    "drop_bit 4 (PictureDescription_byte p) AND 1 \<noteq> 0 \<longleftrightarrow> ds_switching_point p"
    "unat (drop_bit 2 (PictureDescription_byte p) AND 3) = length (ds_reference_indices p)"
proof -
  let ?n = "word_of_nat (length (ds_reference_indices p)) :: u8"
  have n: "unat ?n = length (ds_reference_indices p)"
    using assms by (simp add: PictureDescription_ok_def unat_of_nat)
  have t: "\<forall>k \<ge> 3. \<not> bit (ds_temporal_layer_id p) k"
    using assms by (auto simp: PictureDescription_ok_def intro!: u8_three_bits)
  have l: "\<forall>k \<ge> 2. \<not> bit ?n k"
    using unat_high_bits [of ?n 2] n assms by (simp add: PictureDescription_ok_def)
  show "drop_bit 5 (PictureDescription_byte p) = ds_temporal_layer_id p"
    using t l by (intro bit_eqI) (auto simp: PictureDescription_byte_def byte_bits bit_u8_from_bool not_le)
  show "drop_bit 4 (PictureDescription_byte p) AND 1 \<noteq> 0 \<longleftrightarrow> ds_switching_point p"
    using t l by (auto simp: PictureDescription_byte_def u8_and_bit byte_bits bit_u8_from_bool)
  have "drop_bit 2 (PictureDescription_byte p) AND 3 = ?n"
    using l by (intro bit_eqI) (auto simp: PictureDescription_byte_def byte_bits bit_u8_from_bool not_le)
  then show "unat (drop_bit 2 (PictureDescription_byte p) AND 3) = length (ds_reference_indices p)"
    by (simp only: n)
qed

context byte_writer_spec
begin

lemma writes_PictureDescription:
  assumes "PictureDescription_ok p"
  shows "writes written (PictureDescription_to_writer W p) (PictureDescription_bytes p)"
proof -
  have "PictureDescription_to_writer W p = (\<lambda>w.
      io_try (io_context ''picture_description'' (wr_u8 W (PictureDescription_byte p) w)) (\<lambda>_.
        wr_each (\<lambda>i w. io_context ''reference_indices'' (wr_u8 W i w)) (ds_reference_indices p)))"
    using assms by (auto simp: fun_eq_iff PictureDescription_to_writer_def PictureDescription_ok_def
        PictureDescription_byte_def not_less [symmetric])
  moreover have "writes written \<dots> (PictureDescription_bytes p)"
    unfolding PictureDescription_bytes_def
    by (intro writes_try writes_each writes_io_context writes_u8)
  ultimately show ?thesis by simp
qed

end

context byte_reader_spec
begin

lemma reads_PictureDescription:
  assumes "PictureDescription_ok p"
  shows "reads rest (PictureDescription_from_reader R) (PictureDescription_bytes p) p"
proof -
  let ?b = "PictureDescription_byte p"
  have refs: "reads rest (rd_times (unat (drop_bit 2 ?b AND 3)) (\<lambda>r. io_context ''reference_indices'' (rd_u8 R r)))
      (concat (map (\<lambda>i. [i]) (ds_reference_indices p))) (ds_reference_indices p)"
    unfolding PictureDescription_byte_bits [OF assms] by (intro reads_times reads_io_context reads_u8)
  have p: "\<lparr>ds_temporal_layer_id = drop_bit 5 ?b, ds_switching_point = drop_bit 4 ?b AND 1 \<noteq> 0,
      ds_reference_indices = ds_reference_indices p\<rparr> = p"
    unfolding PictureDescription_byte_bits [OF assms] by simp
  have "reads rest (PictureDescription_from_reader R)
      ([?b] @ concat (map (\<lambda>i. [i]) (ds_reference_indices p)) @ []) p"
    unfolding PictureDescription_from_reader_def [abs_def]
    by (rule reads_try [OF reads_io_context [OF reads_u8]], rule reads_try [OF refs]) (simp only: p reads_return)
  then show ?thesis by (simp only: PictureDescription_bytes_def append_Nil2)
qed

end

definition scalability_ok :: "scalability_structure \<Rightarrow> bool" where
  "scalability_ok s \<longleftrightarrow> num_spatial_layers s \<noteq> 0 \<and> num_spatial_layers s - 1 \<le> 7
     \<and> (spatial_layer_frame_resolutions s = []
        \<or> length (spatial_layer_frame_resolutions s) = unat (num_spatial_layers s))
     \<and> length (picture_descriptions s) \<le> 255 \<and> (\<forall>p \<in> set (picture_descriptions s). PictureDescription_ok p)"

definition resolution_bytes :: "u16 \<times> u16 \<Rightarrow> u8 list" where
  "resolution_bytes wh = u16_bytes (fst wh) @ u16_bytes (snd wh)"

definition scalability_bytes :: "scalability_structure \<Rightarrow> u8 list" where
  "scalability_bytes s = [scalability_byte s]
     @ concat (map resolution_bytes (spatial_layer_frame_resolutions s))
     @ (if picture_descriptions s \<noteq> [] then [word_of_nat (length (picture_descriptions s))] else [])
     @ concat (map PictureDescription_bytes (picture_descriptions s))"

lemma scalability_byte_bits:
  assumes "scalability_ok s"
  shows "drop_bit 5 (scalability_byte s) + 1 = num_spatial_layers s"
    "scalability_byte s AND 0x10 \<noteq> 0 \<longleftrightarrow> spatial_layer_frame_resolutions s \<noteq> []"
    "scalability_byte s AND 0x08 \<noteq> 0 \<longleftrightarrow> picture_descriptions s \<noteq> []"
proof -
  have t: "\<forall>k \<ge> 3. \<not> bit (num_spatial_layers s - 1) k"
    using assms by (auto simp: scalability_ok_def intro!: u8_three_bits)
  have "drop_bit 5 (scalability_byte s) = num_spatial_layers s - 1"
    using t by (intro bit_eqI) (auto simp: scalability_byte_def byte_bits not_le)
  then show "drop_bit 5 (scalability_byte s) + 1 = num_spatial_layers s" by simp
  show "scalability_byte s AND 0x10 \<noteq> 0 \<longleftrightarrow> spatial_layer_frame_resolutions s \<noteq> []"
    "scalability_byte s AND 0x08 \<noteq> 0 \<longleftrightarrow> picture_descriptions s \<noteq> []"
    using t by (auto simp: scalability_byte_def u8_and_bit byte_bits)
qed

context byte_writer_spec
begin

lemma writes_resolution: "writes written (wr_resolution W wh) (resolution_bytes wh)"
  unfolding wr_resolution_def [abs_def] resolution_bytes_def
  by (intro writes_try writes_io_context writes_u16)

lemma writes_scalability:
  assumes "scalability_ok s"
  shows "writes written (ScalabilityStructure_to_writer W s) (scalability_bytes s)"
proof -
  have "ScalabilityStructure_to_writer W s = (\<lambda>w.
        io_try (io_context ''scalability_structure'' (wr_u8 W (scalability_byte s) w)) (\<lambda>_ w.
        io_try (wr_each (wr_resolution W) (spatial_layer_frame_resolutions s) w) (\<lambda>_ w.
        io_try (if picture_descriptions s \<noteq> []
          then io_context ''num_pictures_in_group'' (wr_u8 W (word_of_nat (length (picture_descriptions s))) w)
          else (Inr (), w)) (\<lambda>_.
        wr_each (\<lambda>p w. with_context ''picture_description'' (PictureDescription_to_writer W p w))
          (picture_descriptions s)))))"
    using assms by (auto simp: fun_eq_iff ScalabilityStructure_to_writer_def scalability_ok_def not_less [symmetric])
  moreover have "writes written \<dots> (scalability_bytes s)"
    unfolding scalability_bytes_def using assms
    by (intro writes_try writes_each writes_if writes_io_context writes_context writes_u8 writes_return
        writes_resolution writes_PictureDescription) (auto simp: scalability_ok_def)
  ultimately show ?thesis by simp
qed

end

context byte_reader_spec
begin

lemma reads_u16_bytes: "reads rest (rd_u16_be R) (u16_bytes v) v"
  using reads_u16 [of "ucast (drop_bit 8 v)" "ucast v"] by (simp only: u16_bytes_def u16_of_bytes)

lemma reads_resolution: "reads rest (rd_resolution R) (resolution_bytes wh) wh"
proof -
  have "reads rest (rd_resolution R) (u16_bytes (fst wh) @ u16_bytes (snd wh) @ []) (fst wh, snd wh)"
    unfolding rd_resolution_def [abs_def]
    by (intro reads_try [OF reads_io_context [OF reads_u16_bytes]] reads_return)
  then show ?thesis by (simp add: resolution_bytes_def)
qed

lemma reads_scalability:
  assumes "scalability_ok s"
  shows "reads rest (ScalabilityStructure_from_reader R) (scalability_bytes s) s"
proof -
  let ?b = "scalability_byte s" and ?n = "word_of_nat (length (picture_descriptions s)) :: u8"
  note bits = scalability_byte_bits [OF assms]
  have n: "unat ?n = length (picture_descriptions s)" using assms by (simp add: scalability_ok_def unat_of_nat)
  have res: "reads rest (\<lambda>r. if ?b AND 0x10 \<noteq> 0 then rd_times (unat (drop_bit 5 ?b + 1)) (rd_resolution R) r else (Inr [], r))
      (concat (map resolution_bytes (spatial_layer_frame_resolutions s))) (spatial_layer_frame_resolutions s)"
    using reads_times [of "spatial_layer_frame_resolutions s" rest "rd_resolution R" resolution_bytes]
      reads_resolution assms unfolding bits
    by (cases "spatial_layer_frame_resolutions s = []") (auto simp: scalability_ok_def reads_return)
  have num: "reads rest (\<lambda>r. if ?b AND 0x08 \<noteq> 0 then map_ok Some (io_context ''num_pictures_in_group'' (rd_u8 R r)) else (Inr None, r))
      (if picture_descriptions s \<noteq> [] then [?n] else []) (if picture_descriptions s \<noteq> [] then Some ?n else None)"
    unfolding bits by (auto simp: reads_return intro!: reads_map_ok reads_io_context reads_u8)
  have descs: "reads rest (\<lambda>r. case (if picture_descriptions s \<noteq> [] then Some ?n else None) of None \<Rightarrow> (Inr [], r)
       | Some n \<Rightarrow> rd_times (unat n) (\<lambda>r. with_context ''picture_description'' (PictureDescription_from_reader R r)) r)
      (concat (map PictureDescription_bytes (picture_descriptions s))) (picture_descriptions s)"
    using reads_times [of "picture_descriptions s" rest _ PictureDescription_bytes, OF reads_context, OF reads_PictureDescription]
      assms by (cases "picture_descriptions s = []") (auto simp: n scalability_ok_def reads_return)
  have s: "\<lparr>num_spatial_layers = drop_bit 5 ?b + 1, spatial_layer_frame_resolutions = spatial_layer_frame_resolutions s,
        picture_descriptions = picture_descriptions s\<rparr> = s"
    unfolding bits by simp
  have "reads rest (ScalabilityStructure_from_reader R) ([?b]
     @ concat (map resolution_bytes (spatial_layer_frame_resolutions s))
     @ (if picture_descriptions s \<noteq> [] then [?n] else [])
     @ concat (map PictureDescription_bytes (picture_descriptions s)) @ []) s"
    unfolding ScalabilityStructure_from_reader_def [abs_def] Let_def
    by (rule reads_try [OF reads_io_context [OF reads_u8]], rule reads_try [OF res], rule reads_try [OF num],
        rule reads_try [OF descs]) (simp only: s reads_return)
  then show ?thesis by (simp only: scalability_bytes_def append_Nil2)
qed

end

section \<open>The descriptor\<close>

definition vp9_ok :: "vp9_descriptor \<Rightarrow> bool" where
  "vp9_ok d \<longleftrightarrow> reference_indices d = [] \<and> \<not> (inter_picture_predicted_frame d \<and> flexible_mode d)
     \<and> (\<forall>p. vp9_picture_id d = Some p \<longrightarrow> PictureId_ok p)
     \<and> (\<forall>l. vp9_layer_index d = Some l \<longrightarrow> LayerIndex_ok (flexible_mode d) l)
     \<and> (\<forall>s. vp9_scalability_structure d = Some s \<longrightarrow> scalability_ok s)"

definition vp9_bytes :: "vp9_descriptor \<Rightarrow> u8 list" where
  "vp9_bytes d = [vp9_flags d]
     @ (case vp9_picture_id d of None \<Rightarrow> [] | Some p \<Rightarrow> PictureId_bytes p)
     @ (case vp9_layer_index d of None \<Rightarrow> [] | Some l \<Rightarrow> LayerIndex_bytes l)
     @ (case vp9_scalability_structure d of None \<Rightarrow> [] | Some s \<Rightarrow> scalability_bytes s)"

lemma vp9_flags_bits:
  "vp9_flags d AND 0x80 \<noteq> 0 \<longleftrightarrow> vp9_picture_id d \<noteq> None"
  "vp9_flags d AND 0x40 \<noteq> 0 \<longleftrightarrow> inter_picture_predicted_frame d"
  "vp9_flags d AND 0x20 \<noteq> 0 \<longleftrightarrow> vp9_layer_index d \<noteq> None"
  "vp9_flags d AND 0x10 \<noteq> 0 \<longleftrightarrow> flexible_mode d"
  "vp9_flags d AND 0x08 \<noteq> 0 \<longleftrightarrow> start_of_frame d"
  "vp9_flags d AND 0x04 \<noteq> 0 \<longleftrightarrow> end_of_frame d"
  "vp9_flags d AND 0x02 \<noteq> 0 \<longleftrightarrow> vp9_scalability_structure d \<noteq> None"
  "vp9_flags d AND 0x01 \<noteq> 0 \<longleftrightarrow> not_reference_frame_for_upper_layers d"
  by (auto simp: u8_and_bit vp9_flags_def byte_bits)

context byte_writer_spec
begin

lemma writes_vp9:
  assumes "vp9_ok d"
  shows "writes written (vp9_to_writer W d) (vp9_bytes d)"
proof -
  have refs: "reference_indices d = []" "\<not> (inter_picture_predicted_frame d \<and> flexible_mode d)"
    using assms by (auto simp: vp9_ok_def)
  have "vp9_to_writer W d = (\<lambda>w. io_try (io_context ''flags'' (wr_u8 W (vp9_flags d) w)) (\<lambda>_ w.
        io_try (case vp9_picture_id d of None \<Rightarrow> (Inr (), w)
          | Some picture_id \<Rightarrow> with_context ''picture_id'' (PictureId_to_writer W picture_id w)) (\<lambda>_ w.
        io_try (case vp9_layer_index d of None \<Rightarrow> (Inr (), w)
          | Some layer_index \<Rightarrow>
              with_context ''layer_index'' (LayerIndex_to_writer W layer_index (flexible_mode d) w)) (\<lambda>_ w.
        case vp9_scalability_structure d of None \<Rightarrow> (Inr (), w)
        | Some s \<Rightarrow> with_context ''scalability_structure'' (ScalabilityStructure_to_writer W s w)))))"
    using refs by (auto simp: fun_eq_iff vp9_to_writer_def)
  moreover have "writes written \<dots> (vp9_bytes d)"
    unfolding vp9_bytes_def using assms
    by (intro writes_try writes_optional writes_io_context writes_context writes_u8 writes_PictureId
        writes_LayerIndex writes_scalability) (auto simp: vp9_ok_def)
  ultimately show ?thesis by simp
qed

end

context byte_reader_spec
begin

lemma reads_vp9:
  assumes "vp9_ok d"
  shows "reads rest (vp9_from_reader R) (vp9_bytes d) d"
proof -
  let ?f = "vp9_flags d"
  have refs: "reference_indices d = []" "\<not> (?f AND 0x40 \<noteq> 0 \<and> ?f AND 0x10 \<noteq> 0)"
    using assms unfolding vp9_flags_bits by (auto simp: vp9_ok_def)
  have pid: "reads rest (\<lambda>r. if ?f AND 0x80 \<noteq> 0
      then map_ok Some (with_context ''picture_id'' (PictureId_from_reader R r)) else (Inr None, r))
      (case vp9_picture_id d of None \<Rightarrow> [] | Some p \<Rightarrow> PictureId_bytes p) (vp9_picture_id d)"
    by (rule reads_optional [OF vp9_flags_bits(1)])
       (use assms in \<open>auto simp: vp9_ok_def intro!: reads_context reads_PictureId\<close>)
  have lx: "reads rest (\<lambda>r. if ?f AND 0x20 \<noteq> 0
       then map_ok Some (with_context ''layer_index'' (LayerIndex_from_reader R (?f AND 0x10 \<noteq> 0) r))
       else (Inr None, r))
      (case vp9_layer_index d of None \<Rightarrow> [] | Some l \<Rightarrow> LayerIndex_bytes l) (vp9_layer_index d)"
    by (rule reads_optional [OF vp9_flags_bits(3)])
       (use assms in \<open>auto simp: vp9_flags_bits(4) vp9_ok_def intro!: reads_context reads_LayerIndex simp del: not_not\<close>)
  have rs: "reads rest (\<lambda>r. if ?f AND 0x40 \<noteq> 0 \<and> ?f AND 0x10 \<noteq> 0 then rd_references R 0 [] r else (Inr [], r)) [] []"
    using refs(2) reads_return [of rest "[]"] by (simp only: if_False)
  have ss: "reads rest (\<lambda>r. if ?f AND 0x02 \<noteq> 0
       then map_ok Some (with_context ''scalability_structure'' (ScalabilityStructure_from_reader R r))
       else (Inr None, r))
      (case vp9_scalability_structure d of None \<Rightarrow> [] | Some s \<Rightarrow> scalability_bytes s) (vp9_scalability_structure d)"
    by (rule reads_optional [OF vp9_flags_bits(7)])
       (use assms in \<open>auto simp: vp9_ok_def intro!: reads_context reads_scalability\<close>)
  have d: "\<lparr>vp9_picture_id = vp9_picture_id d, vp9_layer_index = vp9_layer_index d,
        inter_picture_predicted_frame = ?f AND 0x40 \<noteq> 0, flexible_mode = ?f AND 0x10 \<noteq> 0,
        reference_indices = [], start_of_frame = ?f AND 0x08 \<noteq> 0, end_of_frame = ?f AND 0x04 \<noteq> 0,
        vp9_scalability_structure = vp9_scalability_structure d,
        not_reference_frame_for_upper_layers = ?f AND 0x01 \<noteq> 0\<rparr> = d"
    unfolding vp9_flags_bits using refs(1) by simp
  have "reads rest (vp9_from_reader R) ([?f]
     @ (case vp9_picture_id d of None \<Rightarrow> [] | Some p \<Rightarrow> PictureId_bytes p)
     @ (case vp9_layer_index d of None \<Rightarrow> [] | Some l \<Rightarrow> LayerIndex_bytes l) @ []
     @ (case vp9_scalability_structure d of None \<Rightarrow> [] | Some s \<Rightarrow> scalability_bytes s) @ []) d"
    unfolding vp9_from_reader_def [abs_def] Let_def
    by (rule reads_try [OF reads_io_context [OF reads_u8]], rule reads_try [OF pid], rule reads_try [OF lx],
        rule reads_try [OF rs], rule reads_try [OF ss]) (simp only: d reads_return)
  then show ?thesis by (simp only: vp9_bytes_def append_Nil2 append_Nil)
qed

end

section \<open>Reference indices\<close>

text \<open>What the writer writes for the reference indices.\<close>

fun reference_bytes :: "nat \<Rightarrow> nat \<Rightarrow> u8 list \<Rightarrow> u8 list" where
  "reference_bytes len i [] = []"
| "reference_bytes len i (x # xs) = ((if i = len - 1 then 0x01 else 0) OR x) # reference_bytes len (i + 1) xs"

text \<open>A flexible-mode frame that is fine apart from having reference indices.\<close>

definition vp9_with_references :: "vp9_descriptor \<Rightarrow> bool" where
  "vp9_with_references d \<longleftrightarrow> inter_picture_predicted_frame d \<and> flexible_mode d
     \<and> reference_indices d \<noteq> [] \<and> length (reference_indices d) \<le> 3
     \<and> (\<forall>i \<in> set (reference_indices d). i \<le> 0x7f)
     \<and> vp9_ok (d\<lparr>reference_indices := [], inter_picture_predicted_frame := False\<rparr>)"

definition vp9_reference_frame_bytes :: "vp9_descriptor \<Rightarrow> u8 list" where
  "vp9_reference_frame_bytes d = [vp9_flags d]
     @ (case vp9_picture_id d of None \<Rightarrow> [] | Some p \<Rightarrow> PictureId_bytes p)
     @ (case vp9_layer_index d of None \<Rightarrow> [] | Some l \<Rightarrow> LayerIndex_bytes l)
     @ reference_bytes (length (reference_indices d)) 0 (reference_indices d)
     @ (case vp9_scalability_structure d of None \<Rightarrow> [] | Some s \<Rightarrow> scalability_bytes s)"

context byte_writer_spec
begin

lemma writes_references:
  "\<forall>x \<in> set refs. x \<le> 0x7f \<Longrightarrow> writes written (wr_references W len i refs) (reference_bytes len i refs)"
proof (induction refs arbitrary: i)
  case Nil
  have "wr_references W len i [] = (\<lambda>w. (Inr (), w))" by (simp add: fun_eq_iff)
  then show ?case by (simp add: writes_return)
next
  case (Cons x refs)
  have "wr_references W len i (x # refs) = (\<lambda>w. io_try (io_context ''reference_index''
      (wr_u8 W ((if i = len - 1 then 0x01 else 0) OR x) w)) (\<lambda>_. wr_references W len (i + 1) refs))"
    using Cons.prems by (simp add: fun_eq_iff not_less [symmetric])
  moreover have "writes written \<dots> ([(if i = len - 1 then 0x01 else 0) OR x] @ reference_bytes len (i + 1) refs)"
    using Cons by (intro writes_try writes_io_context writes_u8) simp
  ultimately show ?case by simp
qed

lemma writes_vp9_references:
  assumes "vp9_with_references d"
  shows "writes written (vp9_to_writer W d) (vp9_reference_frame_bytes d)"
proof -
  have "vp9_to_writer W d = (\<lambda>w. io_try (io_context ''flags'' (wr_u8 W (vp9_flags d) w)) (\<lambda>_ w.
        io_try (case vp9_picture_id d of None \<Rightarrow> (Inr (), w)
          | Some picture_id \<Rightarrow> with_context ''picture_id'' (PictureId_to_writer W picture_id w)) (\<lambda>_ w.
        io_try (case vp9_layer_index d of None \<Rightarrow> (Inr (), w)
          | Some layer_index \<Rightarrow>
              with_context ''layer_index'' (LayerIndex_to_writer W layer_index (flexible_mode d) w)) (\<lambda>_ w.
        io_try (wr_references W (length (reference_indices d)) 0 (reference_indices d) w) (\<lambda>_ w.
        case vp9_scalability_structure d of None \<Rightarrow> (Inr (), w)
        | Some s \<Rightarrow> with_context ''scalability_structure'' (ScalabilityStructure_to_writer W s w))))))"
    using assms by (auto simp: fun_eq_iff vp9_to_writer_def vp9_with_references_def)
  moreover have "writes written \<dots> (vp9_reference_frame_bytes d)"
    unfolding vp9_reference_frame_bytes_def using assms
    by (intro writes_try writes_optional writes_io_context writes_context writes_u8 writes_PictureId
        writes_LayerIndex writes_scalability writes_references)
       (auto simp: vp9_ok_def vp9_with_references_def)
  ultimately show ?thesis by simp
qed

end

lemma rd_references_extends:
  "rd_references R n refs r = (Inr refs', r') \<Longrightarrow> \<exists>more. refs' = refs @ more \<and> (n < 3 \<longrightarrow> more \<noteq> [])"
proof (induction R n refs r rule: rd_references.induct)
  case (1 R n refs r)
  show ?case
  proof (cases "n < 3")
    case False
    with "1.prems" show ?thesis by (simp add: rd_references.simps [of R n])
  next
    case True
    with "1.prems" obtain p r1 where p: "io_context ''p_diff'' (rd_u8 R r) = (Inr p, r1)"
      and rest: "(let refs = refs @ [drop_bit 1 p] in if p AND 1 = 0 then (Inr refs, r1)
          else rd_references R (n + 1) refs r1) = (Inr refs', r')"
      by (subst (asm) rd_references.simps) (auto elim!: io_try_InrE)
    show ?thesis
    proof (cases "p AND 1 = 0")
      case True
      with rest show ?thesis by (auto simp: Let_def)
    next
      case False
      with rest have "rd_references R (n + 1) (refs @ [drop_bit 1 p]) r1 = (Inr refs', r')"
        by (simp add: Let_def)
      with "1.IH" [OF \<open>n < 3\<close> _ refl False] \<open>n < 3\<close> show ?thesis by fastforce
    qed
  qed
qed

context byte_reader_spec
begin

lemma rd_references_first:
  assumes "rest r = b # bs" and "rd_references R 0 [] r = (Inr refs, r')"
  shows "\<exists>more. refs = drop_bit 1 b # more \<and> (more = [] \<longleftrightarrow> b AND 1 = 0)"
proof -
  from rd_u8_ok [OF assms(1)] obtain r1 where "rd_u8 R r = (Inr b, r1)" by blast
  with assms(2) have "(if b AND 1 = 0 then (Inr [drop_bit 1 b], r1)
      else rd_references R 1 [drop_bit 1 b] r1) = (Inr refs, r')"
    by (simp add: rd_references.simps [of R 0] Let_def split: if_splits)
  then show ?thesis
    using rd_references_extends [of R 1 "[drop_bit 1 b]" r1 refs r'] by (auto split: if_splits)
qed

text \<open>The first index read back differs from the first one written, or their number does.\<close>

lemma references_differ:
  assumes "refs \<noteq> []" and "rest r = reference_bytes (length refs) 0 refs @ cs"
    and "rd_references R 0 [] r = (Inr refs', r')"
  shows "refs' \<noteq> refs"
proof
  assume "refs' = refs"
  from assms(1) obtain x xs where refs: "refs = x # xs" by (cases refs) auto
  let ?b = "(if 0 = length refs - 1 then 0x01 else 0) OR x"
  have "rest r = ?b # (reference_bytes (length refs) 1 xs @ cs)" using assms(2) refs by simp
  from rd_references_first [OF this assms(3)] obtain more where
    m: "refs' = drop_bit 1 ?b # more" "more = [] \<longleftrightarrow> ?b AND 1 = 0" by blast
  show False
  proof (cases xs)
    case Nil
    have "bit (1 OR x) 0" by (simp add: byte_bits)
    with m Nil refs \<open>refs' = refs\<close> show False by (simp add: u8_and_bit)
  next
    case (Cons y ys)
    with m refs \<open>refs' = refs\<close> have "drop_bit 1 x = x" "x AND 1 \<noteq> 0" by auto
    then have "unat x div 2 = unat x" by (metis drop_bit_eq_div power_one_right unat_drop_bit_eq)
    then have "unat x = 0" by presburger
    then have "x = 0" by (simp only: unat_eq_zero)
    with \<open>x AND 1 \<noteq> 0\<close> show False by simp
  qed
qed

lemma vp9_references_lost:
  assumes "vp9_with_references d" and "rest r = vp9_reference_frame_bytes d @ cs"
  shows "vp9_from_reader R r \<noteq> (Inr d, r')"
proof
  assume d: "vp9_from_reader R r = (Inr d, r')"
  let ?f = "vp9_flags d"
  have ok: "reference_indices d \<noteq> []" "?f AND 0x40 \<noteq> 0" "?f AND 0x10 \<noteq> 0"
    using assms(1) unfolding vp9_flags_bits by (simp_all add: vp9_with_references_def)
  have pid: "reads rest (\<lambda>r. if ?f AND 0x80 \<noteq> 0
      then map_ok Some (with_context ''picture_id'' (PictureId_from_reader R r)) else (Inr None, r))
      (case vp9_picture_id d of None \<Rightarrow> [] | Some p \<Rightarrow> PictureId_bytes p) (vp9_picture_id d)"
    by (rule reads_optional [OF vp9_flags_bits(1)])
       (use assms(1) in \<open>auto simp: vp9_with_references_def vp9_ok_def intro!: reads_context reads_PictureId\<close>)
  have lx: "reads rest (\<lambda>r. if ?f AND 0x20 \<noteq> 0
       then map_ok Some (with_context ''layer_index'' (LayerIndex_from_reader R (?f AND 0x10 \<noteq> 0) r))
       else (Inr None, r))
      (case vp9_layer_index d of None \<Rightarrow> [] | Some l \<Rightarrow> LayerIndex_bytes l) (vp9_layer_index d)"
    by (rule reads_optional [OF vp9_flags_bits(3)])
       (use assms(1) ok(3) in \<open>auto simp: vp9_with_references_def vp9_ok_def intro!: reads_context reads_LayerIndex\<close>)
  obtain r1 where r1: "io_context ''flags'' (rd_u8 R r) = (Inr ?f, r1)"
    "rest r1 = (case vp9_picture_id d of None \<Rightarrow> [] | Some p \<Rightarrow> PictureId_bytes p)
     @ (case vp9_layer_index d of None \<Rightarrow> [] | Some l \<Rightarrow> LayerIndex_bytes l)
     @ reference_bytes (length (reference_indices d)) 0 (reference_indices d)
     @ (case vp9_scalability_structure d of None \<Rightarrow> [] | Some s \<Rightarrow> scalability_bytes s) @ cs"
    using assms(2) [unfolded vp9_reference_frame_bytes_def append.assoc]
    by (rule readsD [OF reads_io_context [OF reads_u8]])
  from readsD [OF pid r1(2)] obtain r2 where r2: "(if ?f AND 0x80 \<noteq> 0
      then map_ok Some (with_context ''picture_id'' (PictureId_from_reader R r1)) else (Inr None, r1))
      = (Inr (vp9_picture_id d), r2)"
    "rest r2 = (case vp9_layer_index d of None \<Rightarrow> [] | Some l \<Rightarrow> LayerIndex_bytes l)
     @ reference_bytes (length (reference_indices d)) 0 (reference_indices d)
     @ (case vp9_scalability_structure d of None \<Rightarrow> [] | Some s \<Rightarrow> scalability_bytes s) @ cs" by blast
  from readsD [OF lx r2(2)] obtain r3 where r3: "(if ?f AND 0x20 \<noteq> 0
       then map_ok Some (with_context ''layer_index'' (LayerIndex_from_reader R (?f AND 0x10 \<noteq> 0) r2))
       else (Inr None, r2)) = (Inr (vp9_layer_index d), r3)"
    "rest r3 = reference_bytes (length (reference_indices d)) 0 (reference_indices d)
     @ (case vp9_scalability_structure d of None \<Rightarrow> [] | Some s \<Rightarrow> scalability_bytes s) @ cs" by blast
  from d obtain refs r4 where "rd_references R 0 [] r3 = (Inr refs, r4)" "reference_indices d = refs"
    unfolding vp9_from_reader_def Let_def r1(1) io_try_simps r2(1) r3(1) using ok(2,3)
    by (auto elim!: io_try_InrE dest: arg_cong [where f = reference_indices])
  with references_differ [OF ok(1) r3(2)] show False by blast
qed

end

section \<open>Properties\<close>

definition vp9_example :: "bool \<Rightarrow> u8 list \<Rightarrow> vp9_descriptor" where
  "vp9_example flexible refs =
     \<lparr>vp9_picture_id = Some (FifteenBit 0x1234),
      vp9_layer_index = Some \<lparr>lx_temporal_layer_id = 2, lx_switching_point = True, lx_spatial_layer_id = 1,
        lx_inter_layer_dependency_used = False, lx_temporal_layer_zero_index = (if flexible then None else Some 9)\<rparr>,
      inter_picture_predicted_frame = True, flexible_mode = flexible, reference_indices = refs,
      start_of_frame = True, end_of_frame = False,
      vp9_scalability_structure = Some \<lparr>num_spatial_layers = 2,
        spatial_layer_frame_resolutions = [(320, 180), (640, 360)],
        picture_descriptions = [\<lparr>ds_temporal_layer_id = 1, ds_switching_point = False, ds_reference_indices = [1, 2]\<rparr>]\<rparr>,
      not_reference_frame_for_upper_layers = False\<rparr>"

lemma vp9_example_ok: "vp9_ok (vp9_example False [])"
  by (simp add: vp9_example_def vp9_ok_def LayerIndex_ok_def scalability_ok_def PictureDescription_ok_def)

lemma vp9_example_references: "vp9_with_references (vp9_example True [3])"
  by (simp add: vp9_example_def vp9_with_references_def vp9_ok_def LayerIndex_ok_def scalability_ok_def
      PictureDescription_ok_def)

text \<open>C23: A VP9 payload descriptor without reference indices is read back as it was written, with its
  layer index and scalability structure, and nothing of what follows is consumed: for values
  that fit their fields, the writer succeeds, its size is the number of bytes
  written, and the parser answers the descriptor that was written.\<close>

theorem vp9_round_trip:
  assumes "byte_reader_spec R rest" and "byte_writer_spec W written" and "vp9_ok d"
  shows "\<exists>w' bs. vp9_to_writer W d w = (Inr (), w') \<and> written w' = written w @ bs
    \<and> (written w0 = [] \<longrightarrow> vp9_size W (length \<circ> written) w0 d = Inr (length bs))
    \<and> (\<forall>r tail. rest r = bs @ tail \<longrightarrow> (\<exists>r'. vp9_from_reader R r = (Inr d, r') \<and> rest r' = tail))"
proof -
  have w: "\<exists>w'. vp9_to_writer W d w = (Inr (), w') \<and> written w' = written w @ vp9_bytes d" for w
    using byte_writer_spec.writes_vp9 [OF assms(2,3)] by (simp add: writes_def)
  moreover have "vp9_size W (length \<circ> written) w0 d = Inr (length (vp9_bytes d))" if "written w0 = []"
    using w [of w0] that by (auto simp: vp9_size_def)
  moreover note byte_reader_spec.reads_vp9 [OF assms(1,3), unfolded reads_def]
  ultimately show ?thesis by blast
qed

theorem vp9_round_trip_witness:
  "\<exists>bs. vp9_to_writer ref_byte_writer (vp9_example False []) [] = (Inr (), bs)
    \<and> vp9_from_reader ref_byte_reader (bs @ [1, 2, 3]) = (Inr (vp9_example False []), [1, 2, 3])"
  using vp9_round_trip [OF refbr.byte_reader_spec_axioms refbw.byte_writer_spec_axioms vp9_example_ok, of "[]" "[]"]
  by auto

text \<open>C33: Reference indices are not read back: for a flexible-mode frame with reference indices that is
  fine otherwise, the writer succeeds, but the parser never answers the descriptor that was
  written, whatever follows it. The writer sets the lowest bit of the last index only and leaves the
  index unshifted; the parser takes that bit for \<^emph>\<open>more indices follow\<close> and the other seven for the index.\<close>

theorem vp9_references_not_read_back:
  assumes "byte_reader_spec R rest" and "byte_writer_spec W written" and "vp9_with_references d"
  shows "\<exists>w' bs. vp9_to_writer W d w = (Inr (), w') \<and> written w' = written w @ bs
    \<and> (\<forall>r tail r'. rest r = bs @ tail \<longrightarrow> vp9_from_reader R r \<noteq> (Inr d, r'))"
  using byte_writer_spec.writes_vp9_references [OF assms(2,3)]
    byte_reader_spec.vp9_references_lost [OF assms(1,3)] unfolding writes_def by blast

theorem vp9_references_not_read_back_witness:
  "\<exists>bs. vp9_to_writer ref_byte_writer (vp9_example True [3]) [] = (Inr (), bs)
    \<and> fst (vp9_from_reader ref_byte_reader (bs @ [1, 2, 3])) \<noteq> Inr (vp9_example True [3])"
proof -
  obtain bs where "vp9_to_writer ref_byte_writer (vp9_example True [3]) [] = (Inr (), bs)"
    "\<forall>r'. vp9_from_reader ref_byte_reader (bs @ [1, 2, 3]) \<noteq> (Inr (vp9_example True [3]), r')"
    using vp9_references_not_read_back [OF refbr.byte_reader_spec_axioms refbw.byte_writer_spec_axioms
        vp9_example_references, of "[]"] by auto
  then show ?thesis by (metis prod.collapse)
qed

end
