(* ===== verification/Spec2Isabelle.thy ===== *)
theory Spec2Isabelle
  imports Ext_Counters Ntp_Time Jitter_Buffer Rtp_Source_Facts Sync_Facts Session_Findings
    Mp4g_Depay_Facts Vp9_Facts
begin

text \<open>
  Verification of the RTP engine and of payload formats of \<^verbatim>\<open>gst-plugins-rs\<close> (\<^verbatim>\<open>net/rtp/src\<close>).

  \<^bold>\<open>The program.\<close> \<^verbatim>\<open>rtpbin2\<close> receives and sends RTP streams. An incoming packet goes through the
  RTP session (\<^verbatim>\<open>session.rs\<close>), which keeps one source per SSRC (\<^verbatim>\<open>source.rs\<close>), validates new
  senders, detects collisions and loops, and exchanges RTCP; accepted packets wait in a jitter
  buffer (\<^verbatim>\<open>jitterbuffer.rs\<close>) that puts them in order; the synchronisation context
  (\<^verbatim>\<open>sync.rs\<close>) computes their presentation times from RTP timestamps, arrival times and the
  sender reports of all the streams of a CNAME. All of them unwrap sequence numbers and
  timestamps with the counters of \<^verbatim>\<open>utils.rs\<close>, and use the NTP times of \<^verbatim>\<open>time.rs\<close>.
  Payloads are taken apart by one depayloader per format. The one for MPEG-4 generic streams
  (\<^verbatim>\<open>mp4g\<close>) reads its configuration from the caps, parses the access unit headers of a packet, puts
  fragments together and deinterleaves; VP8 and VP9 packets start with a payload descriptor.

  \<^bold>\<open>Theories and sources.\<close> Every definition keeps the name of the function, method or type it
  translates, up to a prefix where Rust has several of the name.
  \<^item> \<^verbatim>\<open>Rtp_Prelude\<close>: integer types, checked operations, the ordered set and the hash map of
    the standard library, and the interface \<open>gst_lib\<close> of the \<^verbatim>\<open>gst\<close> crate.
  \<^item> \<^verbatim>\<open>Ext_Counters\<close> (\<^verbatim>\<open>utils.rs\<close>): serial distance, the comparable wrapping \<^verbatim>\<open>u32\<close>, and the two
    unwrapping counters, which interpret the locale \<open>ext_counter\<close>.
  \<^item> \<^verbatim>\<open>Ntp_Time\<close> (\<^verbatim>\<open>rtpbin2/time.rs\<close>) and \<^verbatim>\<open>F64\<close> (double precision as rounded rationals).
  \<^item> \<^verbatim>\<open>Jitter_Buffer\<close> (\<^verbatim>\<open>rtpbin2/jitterbuffer.rs\<close>): \<^verbatim>\<open>JitterBuffer\<close> is the record \<open>jitter_buffer\<close>,
    and \<open>jb_store\<close> the \<^verbatim>\<open>JitterBufferStore\<close> of \<^verbatim>\<open>rtprecv.rs\<close>, where the packets are under the ids that the
    buffer hands out; \<open>jb_run\<close> performs a list of operations and returns what they push downstream.
  \<^item> \<^verbatim>\<open>Rtp_Source\<close>, \<^verbatim>\<open>Rtp_Source_Facts\<close> (\<^verbatim>\<open>rtpbin2/source.rs\<close>): local and remote senders and receivers,
    reception statistics, report blocks, jitter, bitrate, key-unit requests.
  \<^item> \<^verbatim>\<open>Sync_Observations\<close>, \<^verbatim>\<open>Sync_Context\<close>, \<^verbatim>\<open>Sync_Facts\<close> (\<^verbatim>\<open>rtpbin2/sync.rs\<close>): skew estimation, the state
    per SSRC, the context.
  \<^item> \<^verbatim>\<open>Lru_Cache\<close>: the interface \<open>lru_ops\<close> of the \<^verbatim>\<open>lru\<close> crate and its contract \<open>lru_spec\<close>.
  \<^item> \<^verbatim>\<open>Session_Core\<close>, \<^verbatim>\<open>Session_Recv\<close>, \<^verbatim>\<open>Session_Rtcp\<close> (\<^verbatim>\<open>rtpbin2/session.rs\<close>): the state and settings of
    the session, what it does with the packets it sees, and the RTCP it sends.
    \<^verbatim>\<open>Session_State\<close>, \<^verbatim>\<open>Session_Recv_Facts\<close>, \<^verbatim>\<open>Session_Invariant\<close>: its invariant; \<^verbatim>\<open>Session_Schedule\<close>:
    the RTCP interval and the transmission of RTCP; \<^verbatim>\<open>Session_Roles\<close>: the abstract table of members
    it implements; \<^verbatim>\<open>Session_Facts\<close> and \<^verbatim>\<open>Session_Findings\<close>: the properties.
  \<^item> \<^verbatim>\<open>Bitstream\<close>: the interface of the \<^verbatim>\<open>bitstream_io\<close> crate and of \<^verbatim>\<open>std::io\<close> and \<^verbatim>\<open>anyhow\<close> errors, with
    what parsers and writers share.
  \<^item> \<^verbatim>\<open>Mp4g_Header\<close>, \<^verbatim>\<open>Mp4g_Header_Facts\<close> (\<^verbatim>\<open>mp4g/mode.rs\<close>, \<^verbatim>\<open>mp4g/header.rs\<close>): the configuration of a stream,
    its fields in the caps, and access unit headers.
  \<^item> \<^verbatim>\<open>Mp4g_Deint\<close>, \<^verbatim>\<open>Mp4g_Deint_Facts\<close> (\<^verbatim>\<open>mp4g/depay/deint_buf.rs\<close>, \<^verbatim>\<open>mp4g/depay/mod.rs\<close>): the deinterleaving
    buffer, a linked list in a slab, and the sorted list that it implements.
  \<^item> \<^verbatim>\<open>Mp4g_Depay\<close>, \<^verbatim>\<open>Mp4g_Depay_Facts\<close> (\<^verbatim>\<open>mp4g/depay/parsers.rs\<close>, \<^verbatim>\<open>mp4g/depay/imp.rs\<close>): the payload parser and
    the depayloader with \<open>handle_packet\<close>.
  \<^item> \<^verbatim>\<open>Vp8_Descriptor\<close> (\<^verbatim>\<open>vp8/payload_descriptor.rs\<close>), \<^verbatim>\<open>Vp9_Descriptor\<close>, \<^verbatim>\<open>Vp9_Facts\<close>
    (\<^verbatim>\<open>vp9/payload_descriptor.rs\<close>): payload descriptors, parser and writer.

  \<^bold>\<open>Conventions.\<close> A panic (a failed \<^verbatim>\<open>unwrap\<close>, an \<^verbatim>\<open>unreachable!()\<close>, a failed assertion, an
  arithmetic overflow as a debug build detects it) is \<^const>\<open>None\<close>. \<^verbatim>\<open>u8\<close>, \<^verbatim>\<open>u16\<close> and \<^verbatim>\<open>u32\<close> are words;
  64-bit counters and nanoseconds are natural numbers with the truncations of the code
  written out. A hash map that the code iterates is an association list, one that is only looked
  up is a map. The time of a call (\<^verbatim>\<open>Instant::now()\<close>) and random numbers are arguments. A loop
  over the state of an external crate is a partial function into options, and the theorems say
  that it returns. The loop over the access units of a packet (\<open>au_loop\<close>) has fuel, since it need not
  end; its result tells running out of fuel from a panic, and one unit of fuel more than the packet
  has access units is enough where it ends.

  \<^bold>\<open>External code.\<close> The \<^verbatim>\<open>MulDiv\<close> trait of \<^verbatim>\<open>gst\<close>, the caches of \<^verbatim>\<open>lru\<close>, the packet writer of
  \<^verbatim>\<open>rtcp_types\<close>, the readers and writers of \<^verbatim>\<open>bitstream_io\<close>, the slab of \<^verbatim>\<open>slab\<close>, the fields of a
  \<^verbatim>\<open>gst::Structure\<close> and the base class of depayloaders are parameters. What the code relies on is stated
  by the locales \<open>gst_lib_spec\<close>, \<open>lru_spec\<close> and \<open>session_lib\<close>, which extends both;
  \<open>byte_reader_spec\<close>, \<open>byte_writer_spec\<close>, \<open>bit_reader_spec\<close> and \<open>bit_writer_spec\<close>; \<open>slice_reader_spec\<close>;
  \<open>slab_spec\<close> with its extension \<open>au_slab\<close>; and \<open>caps_spec\<close>. Each is interpreted by a reference
  instance, so the hypotheses can hold, and the witnesses use these instances. Nothing is
  assumed of the base class.

  \<^bold>\<open>What is shown.\<close>
  \<^item> Counters: the extended number is the one nearest to the last, and a stream is unwrapped
    exactly.
  \<^item> Jitter buffer: between two flushes the packets pushed out of the store are in increasing order
    and marked as discontinuous where they are; every packet is counted exactly once and every missing
    one as lost; no panic as long as fewer than 65535 packets were handed to the buffer since
    it was created (the number at which it forgets old sequence numbers); timeouts are exact.
  \<^item> Sources: reception is safe for clock rates up to 1 MHz; probation; the limits of
    reordering and drop-out; loss fractions; the bitrate window is a filter.
  \<^item> Synchronisation: as long as no stream changes its CNAME, the streams of a CNAME are presented
    at NTP time plus their largest delay, and the bookkeeping of streams and CNAMEs agrees (a
    change of a CNAME breaks it); skew estimation is safe within its stated bounds.
  \<^item> Session: an invariant over every sequence of operations without two calls (a packet received
    without an address from a known remote receiver, which breaks it, and a BYE scheduled before RTCP
    was first handled); incoming RTCP implements the
    abstract table of members; the RTCP interval is defined and bounded for up to 480 members and
    packets of up to 70,000 bytes; RTCP is sent only when it is due, and is sent when it
    is due with up to 477 sources (three fewer, as a poll can add a source and draw an
    SSRC); the loops over the caches and the draw of an SSRC end.
  \<^item> MPEG-4 generic: headers and configurations are read back as they were written; the deinterleaving buffer
    implements a sorted list and puts access units back in order; without deinterleaving, the access
    units of a packet and those put together from fragments reach the base class in order with
    their data, packets and times.
  \<^item> VP8 and VP9: payload descriptors are read back as they were written, for VP9 those without
    reference indices.
  \<^item> Where the code does not do what it means to, the behaviour is proved as such: the
    theorems of kind error, each next to the property it limits.

  \<^bold>\<open>Not modelled.\<close> The GStreamer elements around these components (\<^verbatim>\<open>rtprecv.rs\<close> apart from the store of
  the jitter buffer, \<^verbatim>\<open>rtpsend.rs\<close>, the payloaders and the other depayloaders, their base classes) consist of calls into the GStreamer framework, of threads and of
  locks; statistics are converted to GStreamer structures there. The other plugins of the
  repository are independent of \<^verbatim>\<open>net/rtp\<close>: codecs and renderers that call external
  libraries, network clients, and elements over GStreamer buffers.
\<close>

end
